(* ===== verification/Prelude.thy ===== *)
theory Prelude
  imports Main "HOL-Library.Char_ord" "HOL-Library.List_Lexorder" "HOL-Library.AList"
begin

text \<open>
  Shared vocabulary of the development: the exceptions the modelled Python code raises, computations
  that may raise and that thread a state, dictionaries in insertion order, and the fragments of
  Python's string library the modules use.  Nothing here is specific to one module of dnf.

  A Python string is a \<^typ>\<open>string\<close>: its characters are the code points below 256, compared by code
  point as Python does.  Messages are the untranslated ones (the C locale).
\<close>

named_theorems pres_intro "rules that lift an invariant over the state monad"
named_theorems prog_simps "evaluation of the combinators of the state monad"

subsection \<open>Exceptions\<close>

datatype exn =
    KeyError string
  | IndexError
  | ValueError string
  | TypeError
  | ZeroDivisionError
  | AttributeError string
  | AssertionError
  | NotImplementedError
  | RuntimeError string
  | OSError string
  | DnfError string
  | CompsError string
  | ConfigError string
  | DatabaseError string
  | LockError string
  | ThreadLockError string
  | ProcessLockError string int
  | LibdnfError string
  | TransactionError string
  | TransactionReplayError string "string list"
  | IncompatibleTransactionVersionError string "string list"
  | InvalidKeyError string
  | CheckError string
  | CliError string
  | DepsolveError string
  | DownloadError string
  | EnableMultipleStreamsException string
  | MarkingError string string
  | PackageNotFoundError string string
  | PackagesNotInstalledError string string
  | PackagesNotAvailableError string string
  | MarkingErrors string "string list" "string list" "string list" "string list" "(string list list \<times> bool) option"

text \<open>\<open>str(e)\<close>, and the subclasses of \<open>dnf.exceptions.Error\<close>.\<close>

fun exn_text :: "exn \<Rightarrow> string" where
  "exn_text (KeyError k) = k"
| "exn_text (ValueError m) = m"
| "exn_text (AttributeError m) = m"
| "exn_text (RuntimeError m) = m"
| "exn_text (OSError m) = m"
| "exn_text (DnfError m) = m"
| "exn_text (CompsError m) = m"
| "exn_text (ConfigError m) = m"
| "exn_text (DatabaseError m) = m"
| "exn_text (LockError m) = m"
| "exn_text (ThreadLockError m) = m"
| "exn_text (ProcessLockError m p) = m"
| "exn_text (LibdnfError m) = m"
| "exn_text (TransactionError m) = m"
| "exn_text (InvalidKeyError m) = m"
| "exn_text (CheckError m) = m"
| "exn_text (CliError m) = m"
| "exn_text (DepsolveError m) = m"
| "exn_text (DownloadError m) = m"
| "exn_text (EnableMultipleStreamsException m) = m"
| "exn_text (MarkingError m p) = m @ (if p = [] then [] else '': '' @ p)"
| "exn_text (PackageNotFoundError m p) = m @ (if p = [] then [] else '': '' @ p)"
| "exn_text (PackagesNotInstalledError m p) = m @ (if p = [] then [] else '': '' @ p)"
| "exn_text (PackagesNotAvailableError m p) = m @ (if p = [] then [] else '': '' @ p)"
| "exn_text (MarkingErrors m ng eg np ep md) = m"
| "exn_text _ = []"

fun dnf_error :: "exn \<Rightarrow> bool" where
  "dnf_error (KeyError k) = False"
| "dnf_error IndexError = False"
| "dnf_error (ValueError m) = False"
| "dnf_error TypeError = False"
| "dnf_error ZeroDivisionError = False"
| "dnf_error (AttributeError m) = False"
| "dnf_error AssertionError = False"
| "dnf_error NotImplementedError = False"
| "dnf_error (RuntimeError m) = False"
| "dnf_error (OSError m) = False"
| "dnf_error (LibdnfError m) = False"
| "dnf_error _ = True"

text \<open>A pure computation that may raise.\<close>

type_synonym 'a res = "exn + 'a"

definition bind_r :: "'a res \<Rightarrow> ('a \<Rightarrow> 'b res) \<Rightarrow> 'b res" where
  "bind_r r f = (case r of Inl e \<Rightarrow> Inl e | Inr a \<Rightarrow> f a)"

lemma bind_r_simps [simp]:
  "bind_r (Inl e) f = Inl e"
  "bind_r (Inr a) f = f a"
  by (simp_all add: bind_r_def)

lemma bind_r_Inr_iff: "bind_r r f = Inr b \<longleftrightarrow> (\<exists>a. r = Inr a \<and> f a = Inr b)"
  by (cases r) auto

lemma bind_r_Inl_iff: "bind_r r f = Inl e \<longleftrightarrow> r = Inl e \<or> (\<exists>a. r = Inr a \<and> f a = Inl e)"
  by (cases r) auto

fun map_r :: "('a \<Rightarrow> 'b res) \<Rightarrow> 'a list \<Rightarrow> 'b list res" where
  "map_r f [] = Inr []"
| "map_r f (x # xs) = bind_r (f x) (\<lambda>y. bind_r (map_r f xs) (\<lambda>ys. Inr (y # ys)))"

lemma map_r_total: "(\<And>x. x \<in> set xs \<Longrightarrow> f x = Inr (g x)) \<Longrightarrow> map_r f xs = Inr (map g xs)"
  by (induction xs) auto

subsection \<open>State and exceptions\<close>

text \<open>
  A method that mutates a state and may raise: the state reached so far survives the exception, as
  it does in Python.
\<close>

type_synonym ('s, 'a) prog = "'s \<Rightarrow> 'a res \<times> 's"

definition return_p :: "'a \<Rightarrow> ('s, 'a) prog" where
  "return_p a = (\<lambda>s. (Inr a, s))"

definition raise_p :: "exn \<Rightarrow> ('s, 'a) prog" where
  "raise_p e = (\<lambda>s. (Inl e, s))"

definition bind_p :: "('s, 'a) prog \<Rightarrow> ('a \<Rightarrow> ('s, 'b) prog) \<Rightarrow> ('s, 'b) prog" where
  "bind_p m f = (\<lambda>s. case m s of (Inl e, s') \<Rightarrow> (Inl e, s') | (Inr a, s') \<Rightarrow> f a s')"

definition then_p :: "('s, 'a) prog \<Rightarrow> ('s, 'b) prog \<Rightarrow> ('s, 'b) prog" where
  "then_p m n = bind_p m (\<lambda>_. n)"

definition gets_p :: "('s \<Rightarrow> 'a) \<Rightarrow> ('s, 'a) prog" where
  "gets_p f = (\<lambda>s. (Inr (f s), s))"

definition modify_p :: "('s \<Rightarrow> 's) \<Rightarrow> ('s, unit) prog" where
  "modify_p f = (\<lambda>s. (Inr (), f s))"

definition lift_p :: "'a res \<Rightarrow> ('s, 'a) prog" where
  "lift_p r = (\<lambda>s. (r, s))"

text \<open>
  \<open>try: m except: h\<close>: the handler says for which exceptions it has a clause; the others propagate.
\<close>

definition catch_p :: "('s, 'a) prog \<Rightarrow> (exn \<Rightarrow> ('s, 'a) prog option) \<Rightarrow> ('s, 'a) prog" where
  "catch_p m h = (\<lambda>s. case m s of
     (Inr a, s') \<Rightarrow> (Inr a, s')
   | (Inl e, s') \<Rightarrow> (case h e of None \<Rightarrow> (Inl e, s') | Some n \<Rightarrow> n s'))"

text \<open>A \<open>for\<close> loop: an exception of the body ends it.\<close>

fun for_p :: "('a \<Rightarrow> ('s, unit) prog) \<Rightarrow> 'a list \<Rightarrow> ('s, unit) prog" where
  "for_p f [] = return_p ()"
| "for_p f (x # xs) = then_p (f x) (for_p f xs)"

text \<open>A loop that carries a value.\<close>

fun fold_p :: "('a \<Rightarrow> 'b \<Rightarrow> ('s, 'b) prog) \<Rightarrow> 'a list \<Rightarrow> 'b \<Rightarrow> ('s, 'b) prog" where
  "fold_p f [] a = return_p a"
| "fold_p f (x # xs) a = bind_p (f x a) (fold_p f xs)"

lemma prog_apply [simp, prog_simps]:
  "return_p a s = (Inr a, s)"
  "raise_p e s = (Inl e, s)"
  "gets_p f s = (Inr (f s), s)"
  "modify_p g s = (Inr (), g s)"
  "lift_p r s = (r, s)"
  by (simp_all add: return_p_def raise_p_def gets_p_def modify_p_def lift_p_def)

lemma bind_p_apply [prog_simps]:
  "bind_p m f s = (case m s of (Inl e, s') \<Rightarrow> (Inl e, s') | (Inr a, s') \<Rightarrow> f a s')"
  by (simp add: bind_p_def)

lemma then_p_apply [prog_simps]:
  "then_p m n s = (case m s of (Inl e, s') \<Rightarrow> (Inl e, s') | (Inr a, s') \<Rightarrow> n s')"
  by (simp add: then_p_def bind_p_def)

lemma catch_p_apply [prog_simps]:
  "catch_p m h s = (case m s of (Inr a, s') \<Rightarrow> (Inr a, s')
     | (Inl e, s') \<Rightarrow> (case h e of None \<Rightarrow> (Inl e, s') | Some n \<Rightarrow> n s'))"
  by (simp add: catch_p_def)

lemma bind_p_eq [simp]:
  "m s = (Inl e, s') \<Longrightarrow> bind_p m f s = (Inl e, s')"
  "m s = (Inr a, s') \<Longrightarrow> bind_p m f s = f a s'"
  by (simp_all add: bind_p_def)

lemma then_p_eq [simp]:
  "m s = (Inl e, s') \<Longrightarrow> then_p m n s = (Inl e, s')"
  "m s = (Inr a, s') \<Longrightarrow> then_p m n s = n s'"
  by (simp_all add: then_p_def)

lemma for_p_append: "for_p f (xs @ ys) s = then_p (for_p f xs) (for_p f ys) s"
  by (induction xs arbitrary: s) (auto simp: prog_simps split: prod.splits sum.splits)

text \<open>An invariant of the state that a computation keeps, whether it returns or raises.\<close>

definition pres :: "('s \<Rightarrow> bool) \<Rightarrow> ('s, 'a) prog \<Rightarrow> bool" where
  "pres I m \<longleftrightarrow> (\<forall>s. I s \<longrightarrow> I (snd (m s)))"

lemma presD: "pres I m \<Longrightarrow> I s \<Longrightarrow> m s = (r, s') \<Longrightarrow> I s'"
  by (force simp: pres_def)

lemma presI: "(\<And>s r s'. I s \<Longrightarrow> m s = (r, s') \<Longrightarrow> I s') \<Longrightarrow> pres I m"
  by (metis pres_def prod.collapse)

lemma pres_basic [pres_intro]:
  "pres I (return_p a)"
  "pres I (raise_p e)"
  "pres I (gets_p f)"
  "pres I (lift_p r)"
  by (simp_all add: pres_def)

lemma pres_modify [pres_intro]: "(\<And>s. I s \<Longrightarrow> I (f s)) \<Longrightarrow> pres I (modify_p f)"
  by (simp add: pres_def)

lemma pres_bind [pres_intro]: "pres I m \<Longrightarrow> (\<And>a. pres I (f a)) \<Longrightarrow> pres I (bind_p m f)"
  by (rule presI) (auto simp: bind_p_def split: prod.splits sum.splits dest: presD)

lemma pres_then [pres_intro]: "pres I m \<Longrightarrow> pres I n \<Longrightarrow> pres I (then_p m n)"
  by (simp add: then_p_def pres_bind)

lemma pres_catch [pres_intro]:
  "pres I m \<Longrightarrow> (\<And>e n. h e = Some n \<Longrightarrow> pres I n) \<Longrightarrow> pres I (catch_p m h)"
  by (rule presI) (auto simp: catch_p_def split: prod.splits sum.splits option.splits dest: presD)

lemma pres_for [pres_intro]: "(\<And>x. x \<in> set xs \<Longrightarrow> pres I (f x)) \<Longrightarrow> pres I (for_p f xs)"
  by (induction xs) (auto intro: pres_intro)

lemma pres_fold [pres_intro]: "(\<And>x a. x \<in> set xs \<Longrightarrow> pres I (f x a)) \<Longrightarrow> pres I (fold_p f xs a)"
  by (induction xs arbitrary: a) (auto intro: pres_intro)

lemma pres_if [pres_intro]: "(b \<Longrightarrow> pres I m) \<Longrightarrow> (\<not> b \<Longrightarrow> pres I n) \<Longrightarrow> pres I (if b then m else n)"
  by simp

lemma pres_option [pres_intro]:
  "(x = None \<Longrightarrow> pres I m) \<Longrightarrow> (\<And>a. x = Some a \<Longrightarrow> pres I (f a)) \<Longrightarrow> pres I (case_option m f x)"
  by (cases x) auto

lemma pres_sum [pres_intro]:
  "(\<And>a. x = Inl a \<Longrightarrow> pres I (f a)) \<Longrightarrow> (\<And>b. x = Inr b \<Longrightarrow> pres I (g b)) \<Longrightarrow> pres I (case_sum f g x)"
  by (cases x) auto

lemma pres_bind_lift: "(\<And>a. r = Inr a \<Longrightarrow> pres I (f a)) \<Longrightarrow> pres I (bind_p (lift_p r) f)"
  by (cases r) (simp_all add: pres_def bind_p_apply)

lemma pres_prod [pres_intro]: "(\<And>x y. p = (x, y) \<Longrightarrow> pres I (f x y)) \<Longrightarrow> pres I (case p of (x, y) \<Rightarrow> f x y)"
  by (cases p) simp

text \<open>
  Partial correctness with exceptions: from a state of \<open>P\<close>, a result and its state satisfy \<open>Q\<close>, and
  the state an exception leaves satisfies \<open>E\<close>.
\<close>

definition triple :: "('s \<Rightarrow> bool) \<Rightarrow> ('s, 'a) prog \<Rightarrow> ('a \<Rightarrow> 's \<Rightarrow> bool) \<Rightarrow> ('s \<Rightarrow> bool) \<Rightarrow> bool" where
  "triple P m Q E \<longleftrightarrow> (\<forall>s. P s \<longrightarrow> (case m s of (Inr a, s') \<Rightarrow> Q a s' | (Inl e, s') \<Rightarrow> E s'))"

lemma tripleI:
  "(\<And>s a s'. P s \<Longrightarrow> m s = (Inr a, s') \<Longrightarrow> Q a s') \<Longrightarrow> (\<And>s e s'. P s \<Longrightarrow> m s = (Inl e, s') \<Longrightarrow> E s') \<Longrightarrow> triple P m Q E"
  by (auto simp: triple_def split: prod.splits sum.splits)

lemma tripleD:
  assumes "triple P m Q E" and "P s"
  shows "m s = (Inr a, s') \<Longrightarrow> Q a s'" and "m s = (Inl e, s') \<Longrightarrow> E s'"
  using assms by (force simp: triple_def)+

lemma triple_bind:
  assumes m: "triple P m Q E" and f: "\<And>a. triple (Q a) (f a) R E"
  shows "triple P (bind_p m f) R E"
proof (rule tripleI)
  fix s b t assume P: "P s" and run: "bind_p m f s = (Inr b, t)"
  then obtain a u where "m s = (Inr a, u)" "f a u = (Inr b, t)"
    by (auto simp: bind_p_apply split: prod.splits sum.splits)
  with tripleD(1) [OF m P] tripleD(1) [OF f] show "R b t" by blast
next
  fix s e t assume P: "P s" and run: "bind_p m f s = (Inl e, t)"
  then consider "m s = (Inl e, t)" | a u where "m s = (Inr a, u)" "f a u = (Inl e, t)"
    by (auto simp: bind_p_apply split: prod.splits sum.splits)
  then show "E t" using tripleD [OF m P] tripleD(2) [OF f] by cases blast+
qed

lemma triple_then: "triple P m (\<lambda>_. Q) E \<Longrightarrow> triple Q n R E \<Longrightarrow> triple P (then_p m n) R E"
  unfolding then_p_def by (rule triple_bind)

lemma triple_basic:
  "(\<And>s. P s \<Longrightarrow> Q a s) \<Longrightarrow> triple P (return_p a) Q E"
  "(\<And>s. P s \<Longrightarrow> E s) \<Longrightarrow> triple P (raise_p e) Q E"
  "(\<And>s. P s \<Longrightarrow> Q (g s) s) \<Longrightarrow> triple P (gets_p g) Q E"
  "(\<And>s. P s \<Longrightarrow> Q' () (k s)) \<Longrightarrow> triple P (modify_p k) Q' E"
  by (simp_all add: triple_def)

lemma triple_for: "(\<And>x. x \<in> set xs \<Longrightarrow> triple P (f x) (\<lambda>_. P) E) \<Longrightarrow> triple P (for_p f xs) (\<lambda>_. P) E"
  by (induction xs) (auto intro!: triple_then triple_basic)

lemma triple_fold: "(\<And>x a. x \<in> set xs \<Longrightarrow> triple (P a) (f x a) P E) \<Longrightarrow> triple (P a) (fold_p f xs a) P E"
  by (induction xs arbitrary: a) (auto intro!: triple_bind triple_basic)

lemma triple_weaken:
  "triple P m Q E \<Longrightarrow> (\<And>s. P' s \<Longrightarrow> P s) \<Longrightarrow> (\<And>a s. Q a s \<Longrightarrow> Q' a s) \<Longrightarrow> (\<And>s. E s \<Longrightarrow> E' s) \<Longrightarrow> triple P' m Q' E'"
  by (fastforce simp: triple_def split: prod.splits sum.splits)

lemma pres_triple: "triple I m (\<lambda>_. I) I \<Longrightarrow> pres I m"
proof (rule presI)
  fix s r s' assume t: "triple I m (\<lambda>_. I) I" and "I s" and "m s = (r, s')"
  then show "I s'" using tripleD [OF t \<open>I s\<close>] by (cases r) auto
qed

lemma triple_pres: "pres I m \<Longrightarrow> triple I m (\<lambda>_. I) I"
  by (rule tripleI) (auto dest: presD)

subsection \<open>Dictionaries\<close>

text \<open>
  A Python dictionary keeps its keys in insertion order: an association list with distinct keys.
  Storing at a present key keeps its place, a new key goes to the end (\<^const>\<open>AList.update\<close>).
\<close>

type_synonym ('k, 'v) dict = "('k \<times> 'v) list"

definition dict_set :: "'k \<Rightarrow> 'v \<Rightarrow> ('k, 'v) dict \<Rightarrow> ('k, 'v) dict" where
  "dict_set k v d = AList.update k v d"

definition dict_del :: "'k \<Rightarrow> ('k, 'v) dict \<Rightarrow> ('k, 'v) dict" where
  "dict_del k d = AList.delete k d"

definition dict_keys :: "('k, 'v) dict \<Rightarrow> 'k list" where
  "dict_keys d = map fst d"

definition dict_in :: "'k \<Rightarrow> ('k, 'v) dict \<Rightarrow> bool" where
  "dict_in k d \<longleftrightarrow> map_of d k \<noteq> None"

definition dict_wf :: "('k, 'v) dict \<Rightarrow> bool" where
  "dict_wf d \<longleftrightarrow> distinct (map fst d)"

fun dict_update :: "('k, 'v) dict \<Rightarrow> ('k, 'v) dict \<Rightarrow> ('k, 'v) dict" where
  "dict_update d [] = d"
| "dict_update d ((k, v) # kvs) = dict_update (dict_set k v d) kvs"

definition dict_get :: "(string, 'v) dict \<Rightarrow> string \<Rightarrow> 'v res" where
  "dict_get d k = (case map_of d k of None \<Rightarrow> Inl (KeyError k) | Some v \<Rightarrow> Inr v)"

lemma dict_wf_Nil [simp]: "dict_wf []"
  by (simp add: dict_wf_def)

lemma map_of_dict_set [simp]: "map_of (dict_set k v d) = (map_of d)(k \<mapsto> v)"
  by (simp add: dict_set_def update_conv')

lemma map_of_dict_del [simp]: "map_of (dict_del k d) = (map_of d)(k := None)"
  by (simp add: dict_del_def delete_conv')

lemma dict_set_nonempty [simp]: "dict_set k v d \<noteq> []"
  unfolding dict_set_def by (cases d) auto

lemma dict_wf_set [simp]: "dict_wf d \<Longrightarrow> dict_wf (dict_set k v d)"
  by (simp add: dict_wf_def dict_set_def distinct_update)

lemma dict_wf_del [simp]: "dict_wf d \<Longrightarrow> dict_wf (dict_del k d)"
  by (simp add: dict_wf_def dict_del_def distinct_delete)

lemma dict_keys_set: "dict_keys (dict_set k v d) = (if k \<in> set (dict_keys d) then dict_keys d else dict_keys d @ [k])"
  by (simp add: dict_keys_def dict_set_def update_keys)

lemma set_dict_keys: "set (dict_keys d) = dom (map_of d)"
  by (simp add: dict_keys_def dom_map_of_conv_image_fst)

lemma dict_set_fresh: "k \<notin> fst ` set d \<Longrightarrow> dict_set k v d = d @ [(k, v)]"
  by (induction d) (auto simp: dict_set_def)

lemma map_of_dict_update: "dict_wf e \<Longrightarrow> map_of (dict_update d e) = map_of d ++ map_of e"
proof (induction e arbitrary: d)
  case (Cons kv e)
  obtain k v where kv: "kv = (k, v)" by (cases kv)
  from Cons.prems kv have wf: "dict_wf e" and fresh: "map_of e k = None"
    by (auto simp: dict_wf_def map_of_eq_None_iff)
  have "map_of (dict_update d (kv # e)) = (map_of d)(k \<mapsto> v) ++ map_of e"
    by (simp only: kv dict_update.simps Cons.IH [OF wf] map_of_dict_set)
  also have "\<dots> = map_of d ++ map_of (kv # e)"
    using fresh by (auto simp: kv map_add_def fun_eq_iff split: option.splits)
  finally show ?case .
qed simp

lemma dict_wf_update: "dict_wf d \<Longrightarrow> dict_wf (dict_update d e)"
  by (induction d e rule: dict_update.induct) auto

lemma dict_get_Inr [simp]: "dict_get d k = Inr v \<longleftrightarrow> map_of d k = Some v"
  by (auto simp: dict_get_def split: option.splits)

lemma dict_get_Inl [simp]: "dict_get d k = Inl e \<longleftrightarrow> map_of d k = None \<and> e = KeyError k"
  by (auto simp: dict_get_def split: option.splits)

subsection \<open>Strings\<close>

text \<open>The newline, the double and the single quote.\<close>

definition nl :: string where "nl = [CHR 0x0A]"
definition dq :: string where "dq = [CHR 0x22]"
definition sq :: string where "sq = [CHR 0x27]"

text \<open>Decimal notation, \<open>%d\<close> and \<open>str(n)\<close>.\<close>

fun nat_str :: "nat \<Rightarrow> string" where
  "nat_str n = (if n < 10 then [char_of (48 + n)] else nat_str (n div 10) @ [char_of (48 + n mod 10)])"

declare nat_str.simps [simp del]

definition int_str :: "int \<Rightarrow> string" where
  "int_str n = (if n < 0 then ''-'' @ nat_str (nat (- n)) else nat_str (nat n))"

definition startswith :: "string \<Rightarrow> string \<Rightarrow> bool" where
  "startswith s p \<longleftrightarrow> take (length p) s = p"

definition endswith :: "string \<Rightarrow> string \<Rightarrow> bool" where
  "endswith s p \<longleftrightarrow> length p \<le> length s \<and> drop (length s - length p) s = p"

text \<open>\<open>p in s\<close> for texts.\<close>

fun is_sub :: "string \<Rightarrow> string \<Rightarrow> bool" where
  "is_sub p [] = (p = [])"
| "is_sub p (c # s) = (startswith (c # s) p \<or> is_sub p s)"

lemma startswith_iff: "startswith s p \<longleftrightarrow> (\<exists>t. s = p @ t)"
  by (auto simp: startswith_def) (metis append_take_drop_id)

lemma endswith_iff: "endswith s p \<longleftrightarrow> (\<exists>t. s = t @ p)"
  by (auto simp: endswith_def) (metis append_take_drop_id)

text \<open>\<open>sep.join(parts)\<close> and \<open>s.split(c)\<close> for a one-character separator.\<close>

fun join_str :: "string \<Rightarrow> string list \<Rightarrow> string" where
  "join_str sep [] = []"
| "join_str sep [s] = s"
| "join_str sep (s # t # ss) = s @ sep @ join_str sep (t # ss)"

fun split_on :: "char \<Rightarrow> string \<Rightarrow> string list" where
  "split_on c [] = [[]]"
| "split_on c (x # xs) =
     (if x = c then [] # split_on c xs
      else (case split_on c xs of [] \<Rightarrow> [[x]] | w # ws \<Rightarrow> (x # w) # ws))"

lemma split_on_nonempty [simp]: "split_on c s \<noteq> []"
  by (induction s) (auto split: list.splits)

lemma join_split: "join_str [c] (split_on c s) = s"
proof (induction s)
  case (Cons x xs)
  show ?case
  proof (cases "split_on c xs")
    case Nil
    then show ?thesis by simp
  next
    case (Cons w ws)
    with Cons.IH show ?thesis by (cases ws) auto
  qed
qed simp

lemma split_no_sep: "c \<notin> set s \<Longrightarrow> split_on c s = [s]"
  by (induction s) auto

lemma split_append_sep: "c \<notin> set s \<Longrightarrow> split_on c (s @ c # t) = s # split_on c t"
  by (induction s) auto

lemma split_join:
  "ss \<noteq> [] \<Longrightarrow> \<forall>s \<in> set ss. c \<notin> set s \<Longrightarrow> split_on c (join_str [c] ss) = ss"
proof (induction "[c]" ss rule: join_str.induct)
  case (3 s t ss)
  then show ?case by (simp add: split_append_sep)
qed (auto simp: split_no_sep)

text \<open>\<open>s.split(c, 1)\<close>: at most one cut.\<close>

fun split_once :: "char \<Rightarrow> string \<Rightarrow> string list" where
  "split_once c [] = [[]]"
| "split_once c (x # xs) =
     (if x = c then [[], xs] else (case split_once c xs of [] \<Rightarrow> [[x]] | w # ws \<Rightarrow> (x # w) # ws))"

lemma split_once_append: "c \<notin> set s \<Longrightarrow> split_once c (s @ c # t) = [s, t]"
  by (induction s) auto

lemma split_once_no_sep: "c \<notin> set s \<Longrightarrow> split_once c s = [s]"
  by (induction s) auto

text \<open>The white space of \<open>str.split()\<close>, \<open>str.strip()\<close> and \<open>int()\<close> below code point 256.\<close>

definition py_space :: "char \<Rightarrow> bool" where
  "py_space c = (let n = of_char c :: nat in 9 \<le> n \<and> n \<le> 13 \<or> 28 \<le> n \<and> n \<le> 32 \<or> n = 133 \<or> n = 160)"

definition lstrip :: "string \<Rightarrow> string" where
  "lstrip s = dropWhile py_space s"

definition rstrip :: "string \<Rightarrow> string" where
  "rstrip s = rev (dropWhile py_space (rev s))"

definition strip :: "string \<Rightarrow> string" where
  "strip s = rstrip (lstrip s)"

text \<open>\<open>s.split()\<close>: the maximal runs of non-space characters.\<close>

fun words_acc :: "string \<Rightarrow> string \<Rightarrow> string list" where
  "words_acc w [] = (if w = [] then [] else [w])"
| "words_acc w (c # cs) =
     (if py_space c then (if w = [] then words_acc [] cs else w # words_acc [] cs)
      else words_acc (w @ [c]) cs)"

definition split_ws :: "string \<Rightarrow> string list" where
  "split_ws s = words_acc [] s"

lemma words_acc_word: "\<forall>c \<in> set w. \<not> py_space c \<Longrightarrow> words_acc v (w @ s) = words_acc (v @ w) s"
  by (induction w arbitrary: v) auto

lemma split_ws_Cons_word:
  assumes "w \<noteq> []" and "\<forall>c \<in> set w. \<not> py_space c"
  shows "split_ws (w @ CHR '' '' # s) = w # split_ws s"
proof -
  have "py_space CHR '' ''" by (simp add: py_space_def)
  then show ?thesis using assms by (simp add: split_ws_def words_acc_word)
qed

lemma split_ws_join:
  "\<forall>w \<in> set ws. w \<noteq> [] \<and> (\<forall>c \<in> set w. \<not> py_space c) \<Longrightarrow> split_ws (join_str '' '' ws) = ws"
proof (induction "'' ''" ws rule: join_str.induct)
  case 1
  show ?case by (simp add: split_ws_def)
next
  case (2 s)
  then show ?case using words_acc_word [of s "[]" "[]"] by (simp add: split_ws_def)
next
  case (3 s t ss)
  then show ?case by (simp add: split_ws_Cons_word)
qed

lemma words_acc_no_space:
  "list_all (\<lambda>c. \<not> py_space c) v \<Longrightarrow> w \<in> set (words_acc v s)
     \<Longrightarrow> w \<noteq> [] \<and> list_all (\<lambda>c. \<not> py_space c) w"
proof (induction s arbitrary: v)
  case Nil
  then show ?case by (simp split: if_splits)
next
  case (Cons c s)
  have fresh: "w \<in> set (words_acc [] s) \<Longrightarrow> w \<noteq> [] \<and> list_all (\<lambda>c. \<not> py_space c) w"
    by (rule Cons.IH) simp_all
  show ?case
  proof (cases "py_space c")
    case True
    with Cons.prems fresh show ?thesis by (cases "v = []") auto
  next
    case False
    with Cons.prems show ?thesis by (intro Cons.IH [of "v @ [c]"]) simp_all
  qed
qed

lemma split_ws_words: "w \<in> set (split_ws s) \<Longrightarrow> w \<noteq> [] \<and> (\<forall>c \<in> set w. \<not> py_space c)"
  using words_acc_no_space [of "[]" w s] by (simp add: split_ws_def list_all_iff)

end
