(* ===== verification/Transaction_Items.thy ===== *)
theory Transaction_Items
  imports Prelude
begin

text \<open>
  The vocabulary of a transaction: the enumerations of \<open>libdnf.transaction\<close> as far as dnf names
  their members, the tables of dnf/transaction.py over them, and the transaction item the rest of
  the program passes around (dnf/db/history.py, \<open>RPMTransactionItemWrapper\<close>).
\<close>

subsection \<open>Enumerations\<close>

datatype action =
    DOWNGRADE | DOWNGRADED | INSTALL | OBSOLETE | OBSOLETED | REINSTALL | REINSTALLED
  | REMOVE | UPGRADE | UPGRADED | REASON_CHANGE

datatype reason = UNKNOWN | DEPENDENCY | USER | CLEAN | WEAK_DEPENDENCY | GROUP

datatype item_state = ST_UNKNOWN | ST_DONE | ST_ERROR

text \<open>
  The keys of the tables: a package action, or one of the additional codes 101, 102, 103 (per
  package) and 201, 202 (per transaction).
\<close>

datatype trans_key = Pkg action | PKG_CLEANUP | PKG_VERIFY | PKG_SCRIPTLET | TRANS_PREPARATION | TRANS_POST

definition all_actions :: "action list" where
  "all_actions = [DOWNGRADE, DOWNGRADED, INSTALL, OBSOLETE, OBSOLETED, REINSTALL, REINSTALLED,
     REMOVE, UPGRADE, UPGRADED, REASON_CHANGE]"

lemma all_actions_complete: "a \<in> set all_actions"
  by (cases a) (simp_all add: all_actions_def)

subsection \<open>Tables of dnf/transaction.py\<close>

definition FORWARD_ACTIONS :: "action list" where
  "FORWARD_ACTIONS = [INSTALL, DOWNGRADE, OBSOLETE, UPGRADE, REINSTALL]"

definition BACKWARD_ACTIONS :: "action list" where
  "BACKWARD_ACTIONS = [DOWNGRADED, OBSOLETED, UPGRADED, REMOVE]"

definition ACTIONS :: "(trans_key, string) dict" where
  "ACTIONS =
    [(Pkg DOWNGRADE, ''Downgrading''),
     (Pkg DOWNGRADED, ''Cleanup''),
     (Pkg INSTALL, ''Installing''),
     (Pkg OBSOLETE, ''Obsoleting''),
     (Pkg OBSOLETED, ''Obsoleting''),
     (Pkg REINSTALL, ''Reinstalling''),
     (Pkg REINSTALLED, ''Cleanup''),
     (Pkg REMOVE, ''Erasing''),
     (Pkg UPGRADE, ''Upgrading''),
     (Pkg UPGRADED, ''Cleanup''),
     (PKG_CLEANUP, ''Cleanup''),
     (PKG_VERIFY, ''Verifying''),
     (PKG_SCRIPTLET, ''Running scriptlet''),
     (TRANS_PREPARATION, ''Preparing'')]"

definition FILE_ACTIONS :: "(trans_key, string) dict" where
  "FILE_ACTIONS =
    [(Pkg DOWNGRADE, ''Downgrade''),
     (Pkg DOWNGRADED, ''Downgraded''),
     (Pkg INSTALL, ''Installed''),
     (Pkg OBSOLETE, ''Obsolete''),
     (Pkg OBSOLETED, ''Obsoleted''),
     (Pkg REINSTALL, ''Reinstall''),
     (Pkg REINSTALLED, ''Reinstalled''),
     (Pkg REMOVE, ''Erase''),
     (Pkg UPGRADE, ''Upgrade''),
     (Pkg UPGRADED, ''Upgraded''),
     (PKG_CLEANUP, ''Cleanup''),
     (PKG_VERIFY, ''Verified''),
     (PKG_SCRIPTLET, ''Running scriptlet''),
     (TRANS_PREPARATION, ''Preparing'')]"

lemma forward_backward_disjoint: "set FORWARD_ACTIONS \<inter> set BACKWARD_ACTIONS = {}"
  by (simp add: FORWARD_ACTIONS_def BACKWARD_ACTIONS_def)

lemma action_direction:
  "a \<in> set FORWARD_ACTIONS \<or> a \<in> set BACKWARD_ACTIONS \<or> a = REINSTALLED \<or> a = REASON_CHANGE"
  by (cases a) (simp_all add: FORWARD_ACTIONS_def BACKWARD_ACTIONS_def)

lemma tables_same_keys: "dict_keys ACTIONS = dict_keys FILE_ACTIONS \<and> dict_wf ACTIONS"
  by (simp add: ACTIONS_def FILE_ACTIONS_def dict_keys_def dict_wf_def)

subsection \<open>Transaction items\<close>

text \<open>
  What dnf reads of an item through its wrapper: the getters of the underlying \<open>TransactionItem\<close>,
  the NEVRA of its RPM item and the package it was created for.  The package is missing
  (\<^const>\<open>None\<close>) when the item is not in \<open>_swdb_ti_pkg\<close>: reading it then raises \<open>KeyError\<close>.
\<close>

record pkg =
  p_name :: string
  p_epoch :: nat
  p_version :: string
  p_release :: string
  p_arch :: string
  p_reponame :: string
  p_force_repoid :: "string option"
  p_from_cmdline :: bool
  p_module_hotfixes :: bool
  p_modularitylabel :: "bool option"
  p_active_module :: bool
  p_idx :: nat

record tsi =
  t_name :: string
  t_epoch :: nat
  t_version :: string
  t_release :: string
  t_arch :: string
  t_str :: string
  t_action :: action
  t_reason :: reason
  t_state :: item_state
  t_repoid :: string
  t_pkg :: "pkg option"

text \<open>\<open>RPMTransactionItemWrapper.evr\<close>, \<open>ui_from_repo\<close> and \<open>pkg\<close>.\<close>

definition tsi_evr :: "tsi \<Rightarrow> string" where
  "tsi_evr t =
     (if t_epoch t \<noteq> 0
      then nat_str (t_epoch t) @ '':'' @ t_version t @ ''-'' @ t_release t
      else t_version t @ ''-'' @ t_release t)"

definition ui_from_repo :: "tsi \<Rightarrow> string" where
  "ui_from_repo t = (if t_repoid t = [] then [] else ''@'' @ t_repoid t)"

definition tsi_pkg :: "tsi \<Rightarrow> pkg res" where
  "tsi_pkg t = (case t_pkg t of None \<Rightarrow> Inl (KeyError (t_str t)) | Some p \<Rightarrow> Inr p)"

end
