(* ===== verification/Util.thy ===== *)
theory Util
  imports Transaction_Items
begin

text \<open>
  dnf/util.py: the helpers every other module uses.  Generators are lists; a helper that returns an
  exhausted-or-not iterator is the list of what is left.
\<close>

subsection \<open>Strings and paths\<close>

definition rtrim :: "string \<Rightarrow> string \<Rightarrow> string" where
  "rtrim s r = (if endswith s r then (if r = [] then [] else take (length s - length r) s) else s)"

text \<open>The slice \<open>s[:-len(r)]\<close> is empty when \<open>len(r)\<close> is 0, whatever \<open>s\<close> is.\<close>

definition strip_prefix :: "string \<Rightarrow> string \<Rightarrow> string option" where
  "strip_prefix s p = (if startswith s p then Some (drop (length p) s) else None)"

lemma rtrim_append: "r \<noteq> [] \<Longrightarrow> rtrim (s @ r) r = s"
  by (simp add: rtrim_def endswith_def)

lemma rtrim_other: "\<not> endswith s r \<Longrightarrow> rtrim s r = s"
  by (simp add: rtrim_def)

lemma rtrim_empty: "rtrim s [] = []"
  by (simp add: rtrim_def endswith_def)

lemma strip_prefix_Some_iff: "strip_prefix s p = Some t \<longleftrightarrow> s = p @ t"
  by (auto simp: strip_prefix_def startswith_def) (metis append_take_drop_id)

text \<open>
  \<open>os.path.split\<close> of the POSIX path module: cut after the last slash, then drop the trailing slashes
  of the head unless it consists of slashes only.
\<close>

definition is_slash :: "char \<Rightarrow> bool" where
  "is_slash c \<longleftrightarrow> c = CHR ''/''"

definition path_split :: "string \<Rightarrow> string \<times> string" where
  "path_split p =
     (let tail = rev (takeWhile (\<lambda>c. \<not> is_slash c) (rev p));
          head = take (length p - length tail) p
      in (if head \<noteq> [] \<and> \<not> list_all is_slash head
          then rev (dropWhile is_slash (rev head)) else head, tail))"

text \<open>\<open>os.path.join\<close> of two and of many components.\<close>

definition path_join2 :: "string \<Rightarrow> string \<Rightarrow> string" where
  "path_join2 a b =
     (if startswith b ''/'' then b
      else if a = [] \<or> endswith a ''/'' then a @ b
      else a @ ''/'' @ b)"

fun path_join :: "string list \<Rightarrow> string" where
  "path_join [] = []"
| "path_join (p # ps) = foldl path_join2 p ps"

lemma length_path_split_tail: "length (snd (path_split p)) \<le> length p"
  by (simp add: path_split_def Let_def) (metis length_rev length_takeWhile_le)

lemma length_dropWhile_rev: "length (rev (dropWhile P (rev xs))) \<le> length xs"
  by (metis length_dropWhile_le length_rev)

lemma path_split_head_shorter:
  assumes "snd (path_split p) \<noteq> []"
  shows "length (fst (path_split p)) < length p"
proof -
  define tl where "tl = rev (takeWhile (\<lambda>c. \<not> is_slash c) (rev p))"
  from assms have ne: "tl \<noteq> []" by (simp add: path_split_def tl_def Let_def)
  have le: "length tl \<le> length p"
    unfolding tl_def by (metis length_rev length_takeWhile_le)
  have "length (fst (path_split p)) \<le> length (take (length p - length tl) p)"
    by (auto simp: path_split_def tl_def [symmetric] Let_def intro: order_trans [OF length_dropWhile_le])
  also have "\<dots> < length p"
    using ne le by (cases tl) auto
  finally show ?thesis .
qed

text \<open>The loop of \<open>split_path\<close>: \<open>result\<close> is built from the right.\<close>

function split_path_loop :: "string \<Rightarrow> string list \<Rightarrow> string list" where
  "split_path_loop head result =
     (if snd (path_split head) = []
      then (if fst (path_split head) \<noteq> [] \<or> result = [] then fst (path_split head) # result else result)
      else split_path_loop (fst (path_split head)) (snd (path_split head) # result))"
  by pat_completeness auto
termination
  by (relation "measure (\<lambda>(head, result). length head)") (auto simp: path_split_head_shorter)

declare split_path_loop.simps [simp del]

definition split_path :: "string \<Rightarrow> string list" where
  "split_path path = split_path_loop path []"

subsection \<open>Iterables\<close>

definition empty_iter :: "'a list \<Rightarrow> bool" where
  "empty_iter xs \<longleftrightarrow> length xs = 0"

fun first :: "'a list \<Rightarrow> 'a option" where
  "first [] = None"
| "first (x # xs) = Some x"

fun first_not_none :: "'a option list \<Rightarrow> 'a option" where
  "first_not_none [] = None"
| "first_not_none (None # xs) = first_not_none xs"
| "first_not_none (Some x # xs) = Some x"

lemma first_find: "first (filter P xs) = List.find P xs"
  by (induction xs) auto

text \<open>Nested dictionaries for \<open>get_in\<close>: a value is a leaf or again a dictionary.\<close>

datatype 'v tree = Leaf 'v | Node "(string \<times> 'v tree) list"

text \<open>\<open>Leaf\<close> has no \<open>get\<close>: asking it raises \<open>AttributeError\<close>.\<close>

fun get_in :: "'v tree \<Rightarrow> string list \<Rightarrow> 'v tree option \<Rightarrow> 'v tree option res" where
  "get_in d [] not_found = Inr (Some d)"
| "get_in (Leaf v) (k # ks) not_found = Inl (AttributeError ''get'')"
| "get_in (Node kvs) (k # ks) not_found =
     (case map_of kvs k of None \<Rightarrow> Inr not_found | Some d \<Rightarrow> get_in d ks not_found)"

text \<open>\<open>group_by_filter\<close>: the fold appends to the first list what satisfies the test.\<close>

definition gbf_splitter :: "('a \<Rightarrow> bool) \<Rightarrow> 'a list \<times> 'a list \<Rightarrow> 'a \<Rightarrow> 'a list \<times> 'a list" where
  "gbf_splitter fn acc item =
     (if \<not> fn item then (fst acc, snd acc @ [item]) else (fst acc @ [item], snd acc))"

definition group_by_filter :: "('a \<Rightarrow> bool) \<Rightarrow> 'a list \<Rightarrow> 'a list \<times> 'a list" where
  "group_by_filter fn xs = foldl (gbf_splitter fn) ([], []) xs"

lemma foldl_gbf: "foldl (gbf_splitter fn) (ys, zs) xs = (ys @ filter fn xs, zs @ filter (\<lambda>x. \<not> fn x) xs)"
  by (induction xs arbitrary: ys zs) (auto simp: gbf_splitter_def)

lemma group_by_filter_eq: "group_by_filter fn xs = (filter fn xs, filter (\<lambda>x. \<not> fn x) xs)"
  by (simp add: group_by_filter_def foldl_gbf)

text \<open>\<open>partition\<close> gives the failing entries first.\<close>

definition partition_iter :: "('a \<Rightarrow> bool) \<Rightarrow> 'a list \<Rightarrow> 'a list \<times> 'a list" where
  "partition_iter p xs = (filter (\<lambda>x. \<not> p x) xs, filter p xs)"

lemma partition_group_by_filter: "partition_iter p xs = prod.swap (group_by_filter p xs)"
  by (simp add: partition_iter_def group_by_filter_eq)

fun insert_if :: "'a \<Rightarrow> 'a list \<Rightarrow> ('a \<Rightarrow> bool) \<Rightarrow> 'a list" where
  "insert_if item [] c = []"
| "insert_if item (x # xs) c = (if c x then item # x # insert_if item xs c else x # insert_if item xs c)"

fun is_exhausted :: "'a list \<Rightarrow> bool" where
  "is_exhausted [] = True"
| "is_exhausted (x # xs) = False"

text \<open>
  \<open>split_by\<close>: the separator is a fresh object, so the marked sequence is over \<^typ>\<open>'a option\<close> with
  \<^const>\<open>None\<close> for the separator.  \<open>next_subsequence\<close> consumes the items before the next separator
  and the separator itself.
\<close>

fun next_subsequence :: "'a option list \<Rightarrow> 'a list \<times> 'a option list" where
  "next_subsequence [] = ([], [])"
| "next_subsequence (None # it) = ([], it)"
| "next_subsequence (Some x # it) = (let (xs, rest) = next_subsequence it in (x # xs, rest))"

lemma next_subsequence_shorter:
  "next_subsequence it = (xs, rest) \<Longrightarrow> xs \<noteq> [] \<Longrightarrow> length rest < length it"
proof (induction it arbitrary: xs rest rule: next_subsequence.induct)
  case (3 x it)
  obtain ys rest' where eq: "next_subsequence it = (ys, rest')" by fastforce
  with 3 show ?case
    by (cases ys; cases it rule: next_subsequence.cases) (auto split: prod.splits)
qed auto

function split_by_loop :: "'a option list \<Rightarrow> 'a list list" where
  "split_by_loop it =
     (if fst (next_subsequence it) = [] then []
      else fst (next_subsequence it) # split_by_loop (snd (next_subsequence it)))"
  by pat_completeness auto
termination
  by (relation "measure length") (auto intro: next_subsequence_shorter prod.collapse [symmetric])

declare split_by_loop.simps [simp del]

definition split_by :: "'a list \<Rightarrow> ('a \<Rightarrow> bool) \<Rightarrow> 'a list list" where
  "split_by xs c =
     (let marked = insert_if None (map Some xs) (\<lambda>e. case e of None \<Rightarrow> False | Some x \<Rightarrow> c x);
          (start, rest) = next_subsequence marked
      in start # split_by_loop rest)"

text \<open>What \<open>split_by\<close> computes: the prefix before the first hit, then one block per hit.\<close>

fun split_spec :: "('a \<Rightarrow> bool) \<Rightarrow> 'a list \<Rightarrow> 'a list \<times> 'a list list" where
  "split_spec c [] = ([], [])"
| "split_spec c (x # xs) =
     (let (b, bs) = split_spec c xs in if c x then ([], (x # b) # bs) else (x # b, bs))"

definition mark :: "('a \<Rightarrow> bool) \<Rightarrow> 'a list \<Rightarrow> 'a option list" where
  "mark c xs = insert_if None (map Some xs) (\<lambda>e. case e of None \<Rightarrow> False | Some x \<Rightarrow> c x)"

lemma mark_simps [simp]:
  "mark c [] = []"
  "mark c (x # xs) = (if c x then None # Some x # mark c xs else Some x # mark c xs)"
  by (simp_all add: mark_def)

lemma mark_start: "mark c xs = [] \<or> (\<exists>m. mark c xs = None # m \<and> c (hd xs)) \<or> (\<exists>m. mark c xs = Some (hd xs) # m)"
  by (cases xs) auto

lemma split_by_loop_step:
  "split_by_loop (Some x # it) =
     (let (b, rest) = next_subsequence it in (x # b) # split_by_loop rest)"
  by (subst split_by_loop.simps) (auto simp: split_beta Let_def)

lemma split_by_loop_Nil: "split_by_loop [] = []"
  by (subst split_by_loop.simps) simp

lemma next_subsequence_mark:
  "next_subsequence (mark c xs) = (fst (split_spec c xs), rest)
     \<Longrightarrow> split_by_loop rest = snd (split_spec c xs)"
  "fst (next_subsequence (mark c xs)) = fst (split_spec c xs)"
proof (induction xs arbitrary: rest)
  case Nil
  { case 1 then show ?case by (simp add: split_by_loop_Nil) }
  { case 2 show ?case by simp }
next
  case (Cons x xs)
  obtain b rest' where sub: "next_subsequence (mark c xs) = (b, rest')" by fastforce
  with Cons.IH(2) have b: "b = fst (split_spec c xs)" by (metis fst_conv)
  with sub Cons.IH(1) have loop: "split_by_loop rest' = snd (split_spec c xs)" by simp
  { case 1
    then show ?case using sub b loop
      by (auto simp: split_beta Let_def split_by_loop_step split: if_splits) }
  { case 2
    show ?case using sub b by (auto simp: split_beta Let_def) }
qed

lemma split_by_eq: "split_by xs c = fst (split_spec c xs) # snd (split_spec c xs)"
proof -
  obtain start rest where sub: "next_subsequence (mark c xs) = (start, rest)" by fastforce
  with next_subsequence_mark(2) have "start = fst (split_spec c xs)" by (metis fst_conv)
  with sub next_subsequence_mark(1) show ?thesis by (simp add: split_by_def mark_def Let_def)
qed

lemma concat_split_spec: "fst (split_spec c xs) @ concat (snd (split_spec c xs)) = xs"
  by (induction xs) (auto simp: split_beta Let_def)

lemma split_spec_blocks:
  "(\<forall>x \<in> set (fst (split_spec c xs)). \<not> c x) \<and>
   (\<forall>b \<in> set (snd (split_spec c xs)). b \<noteq> [] \<and> c (hd b) \<and> (\<forall>x \<in> set (tl b). \<not> c x))"
proof (induction xs)
  case (Cons x xs)
  obtain b bs where "split_spec c xs = (b, bs)" by fastforce
  with Cons.IH show ?case by (cases "c x") simp_all
qed simp

subsection \<open>Path splitting\<close>

definition plain_part :: "string \<Rightarrow> bool" where
  "plain_part w \<longleftrightarrow> w \<noteq> [] \<and> (\<forall>c \<in> set w. \<not> is_slash c)"

lemma takeWhile_rev_part:
  "\<forall>c \<in> set w. \<not> is_slash c \<Longrightarrow> takeWhile (\<lambda>c. \<not> is_slash c) (rev (q @ ''/'' @ w)) = rev w"
  by (simp add: takeWhile_append is_slash_def)

lemma path_split_snoc:
  assumes "\<forall>c \<in> set w. \<not> is_slash c"
  shows "path_split (q @ ''/'' @ w) =
    (if list_all is_slash q then q @ ''/'' else rev (dropWhile is_slash (rev q)), w)"
proof -
  have "rev (takeWhile (\<lambda>c. \<not> is_slash c) (rev (q @ ''/'' @ w))) = w"
    using takeWhile_rev_part [OF assms] by (metis rev_rev_ident)
  then show ?thesis by (simp add: path_split_def Let_def is_slash_def)
qed

lemma path_split_single: "\<forall>c \<in> set w. \<not> is_slash c \<Longrightarrow> path_split w = ([], w)"
proof -
  assume "\<forall>c \<in> set w. \<not> is_slash c"
  then have "takeWhile (\<lambda>c. \<not> is_slash c) (rev w) = rev w"
    by (metis set_rev takeWhile_eq_all_conv)
  then show ?thesis by (simp only: path_split_def rev_rev_ident Let_def) simp
qed

lemma join_str_snoc: "ps \<noteq> [] \<Longrightarrow> join_str sep (ps @ [w]) = join_str sep ps @ sep @ w"
  by (induction sep ps rule: join_str.induct) auto

lemma join_parts_last:
  "ps \<noteq> [] \<Longrightarrow> \<forall>w \<in> set ps. plain_part w \<Longrightarrow> \<exists>q c. join_str ''/'' ps = q @ [c] \<and> \<not> is_slash c"
proof (induction ps rule: rev_induct)
  case (snoc w ps)
  then have w: "w = butlast w @ [last w]" and last: "\<not> is_slash (last w)"
    by (auto simp: plain_part_def)
  show ?case
  proof (cases "ps = []")
    case True
    with w last show ?thesis by (metis append_Nil join_str.simps(2))
  next
    case False
    then have "join_str ''/'' (ps @ [w]) = (join_str ''/'' ps @ ''/'' @ butlast w) @ [last w]"
      using w by (simp add: join_str_snoc)
    with last show ?thesis by blast
  qed
qed simp

lemma path_split_join_snoc:
  assumes "ps \<noteq> []" and "\<forall>w \<in> set ps. plain_part w" and "plain_part w"
  shows "path_split (pre @ join_str ''/'' (ps @ [w])) = (pre @ join_str ''/'' ps, w)"
proof -
  from join_parts_last [OF assms(1,2)] obtain q c
    where q: "join_str ''/'' ps = q @ [c]" and c: "\<not> is_slash c" by blast
  from assms(3) have "\<forall>c \<in> set w. \<not> is_slash c" by (simp add: plain_part_def)
  from path_split_snoc [OF this, of "pre @ join_str ''/'' ps"] q c assms(1)
  show ?thesis by (simp add: join_str_snoc)
qed

lemma split_path_loop_Nil_result: "acc \<noteq> [] \<Longrightarrow> split_path_loop [] acc = acc"
  by (subst split_path_loop.simps) (simp add: path_split_def Let_def)

lemma split_path_loop_root: "split_path_loop ''/'' acc = ''/'' # acc"
  by (subst split_path_loop.simps) (simp add: path_split_def Let_def is_slash_def)

lemma split_path_loop_step:
  "path_split p = (h, t) \<Longrightarrow> t \<noteq> [] \<Longrightarrow> split_path_loop p acc = split_path_loop h (t # acc)"
  by (subst split_path_loop.simps) simp

lemma split_path_loop_relative:
  "ps \<noteq> [] \<Longrightarrow> \<forall>w \<in> set ps. plain_part w \<Longrightarrow> split_path_loop (join_str ''/'' ps) acc = ps @ acc"
proof (induction ps arbitrary: acc rule: rev_induct)
  case (snoc w ps)
  then have w: "plain_part w" and ws: "\<forall>w \<in> set ps. plain_part w" by auto
  show ?case
  proof (cases "ps = []")
    case True
    have "path_split w = ([], w)" using w path_split_single by (simp add: plain_part_def)
    with True w show ?thesis
      by (simp add: split_path_loop_step split_path_loop_Nil_result plain_part_def)
  next
    case False
    from path_split_join_snoc [OF this ws w, of "[]"] w
    have "split_path_loop (join_str ''/'' (ps @ [w])) acc = split_path_loop (join_str ''/'' ps) (w # acc)"
      by (intro split_path_loop_step) (simp_all add: plain_part_def)
    with snoc.IH [OF False ws] show ?thesis by simp
  qed
qed simp

lemma split_path_loop_absolute:
  "ps \<noteq> [] \<Longrightarrow> \<forall>w \<in> set ps. plain_part w
     \<Longrightarrow> split_path_loop (''/'' @ join_str ''/'' ps) acc = ''/'' # ps @ acc"
proof (induction ps arbitrary: acc rule: rev_induct)
  case (snoc w ps)
  then have w: "plain_part w" and ws: "\<forall>w \<in> set ps. plain_part w" by auto
  show ?case
  proof (cases "ps = []")
    case True
    have "path_split (''/'' @ w) = (''/'', w)"
      using w path_split_snoc [of w "[]"] by (simp add: plain_part_def)
    with True w show ?thesis
      by (simp add: split_path_loop_step split_path_loop_root plain_part_def)
  next
    case False
    from path_split_join_snoc [OF this ws w, of "''/''"] w
    have "split_path_loop (''/'' @ join_str ''/'' (ps @ [w])) acc =
        split_path_loop (''/'' @ join_str ''/'' ps) (w # acc)"
      by (intro split_path_loop_step) (simp_all add: plain_part_def)
    with snoc.IH [OF False ws] show ?thesis by simp
  qed
qed simp

lemma plain_part_start: "plain_part w \<Longrightarrow> \<not> startswith w ''/''"
  by (cases w) (auto simp: plain_part_def startswith_def is_slash_def)

lemma not_endswith_slash: "\<not> is_slash c \<Longrightarrow> \<not> endswith (q @ [c]) ''/''"
  by (auto simp: endswith_iff is_slash_def)

lemma foldl_path_join:
  assumes "\<forall>w \<in> set ps. plain_part w" and "\<not> is_slash c"
  shows "foldl path_join2 (q @ [c]) ps = join_str ''/'' ((q @ [c]) # ps)"
  using assms
proof (induction ps arbitrary: q c)
  case (Cons w ps)
  then have w: "plain_part w" by simp
  then have ne: "w \<noteq> []" and last: "\<not> is_slash (last w)" by (auto simp: plain_part_def)
  have "path_join2 (q @ [c]) w = (q @ [c] @ ''/'' @ butlast w) @ [last w]"
    using w ne Cons.prems(2) by (simp add: path_join2_def plain_part_start not_endswith_slash)
  with Cons.IH [of "last w" "q @ [c] @ ''/'' @ butlast w"] Cons.prems(1) last ne show ?case
    by (cases ps) auto
qed simp

lemma path_join_relative:
  assumes "ps \<noteq> []" and "\<forall>w \<in> set ps. plain_part w"
  shows "path_join ps = join_str ''/'' ps"
proof -
  from assms obtain w ws where ps: "ps = w # ws" by (cases ps) auto
  with assms have ne: "w \<noteq> []" and last: "\<not> is_slash (last w)" by (auto simp: plain_part_def)
  from foldl_path_join [of ws "last w" "butlast w"] assms last ne show ?thesis by (simp add: ps)
qed

lemma path_join_absolute:
  assumes "ps \<noteq> []" and "\<forall>w \<in> set ps. plain_part w"
  shows "path_join (''/'' # ps) = ''/'' @ join_str ''/'' ps"
proof -
  from assms obtain w ws where ps: "ps = w # ws" by (cases ps) auto
  with assms have w: "plain_part w" and ne: "w \<noteq> []" and last: "\<not> is_slash (last w)"
    by (auto simp: plain_part_def)
  have "path_join2 ''/'' w = (''/'' @ butlast w) @ [last w]"
    using ne w by (simp add: path_join2_def plain_part_start endswith_def)
  with foldl_path_join [of ws "last w" "''/'' @ butlast w"] assms last ne ps show ?thesis
    by (cases ws) auto
qed

end
