(* ===== verification/Aliases.thy ===== *)
theory Aliases
  imports Util
begin

text \<open>
  dnf/cli/aliases.py: command aliases, their configuration and their resolution.  Configuration
  files are read by libdnf's parser: a file is given by what the parser answers about it.
\<close>

subsection \<open>Configuration\<close>

text \<open>
  What \<open>libdnf.conf.ConfigParser\<close> read from a file: whether \<open>main/enabled\<close> is set and, if so, its
  value as \<open>OptionBool\<close> parses it (\<^const>\<open>None\<close> for a value that is not a boolean, which raises),
  and the section of aliases if there is one.
\<close>

record aliases_file =
  af_enabled :: "bool option option"
  af_aliases :: "(string, string) dict option"

text \<open>
  Reading a file may fail (a parse error or an unreadable file): the constructor raises
  \<open>ConfigError\<close>.
\<close>

type_synonym fs = "string \<Rightarrow> exn + aliases_file"

definition conf_enabled :: "aliases_file \<Rightarrow> bool res" where
  "conf_enabled f =
     (case af_enabled f of
        None \<Rightarrow> Inr True
      | Some None \<Rightarrow> Inl (RuntimeError ''invalid boolean value'')
      | Some (Some b) \<Rightarrow> Inr b)"

definition conf_aliases :: "aliases_file \<Rightarrow> (string, string list) dict" where
  "conf_aliases f =
     (case af_aliases f of
        None \<Rightarrow> []
      | Some kvs \<Rightarrow> foldl (\<lambda>result (key, value). if value = [] then result else dict_set key (split_ws value) result) [] kvs)"

record aliases_st =
  al_aliases :: "(string, string list) dict"
  al_enabled :: bool
  al_log :: "string list"

text \<open>
  \<open>_disabled_by_environ\<close>: the variable \<open>DNF_DISABLE_ALIASES\<close> is unset, set to a boolean, or set to
  something else.
\<close>

datatype environ = Unset | BoolValue bool | BadValue string

definition disabled_by_environ :: "environ \<Rightarrow> (aliases_st, bool) prog" where
  "disabled_by_environ env =
     (case env of
        BoolValue b \<Rightarrow> return_p b
      | Unset \<Rightarrow> return_p False
      | BadValue v \<Rightarrow> then_p
          (modify_p (\<lambda>s. s\<lparr>al_log := al_log s @ [''Unexpected value of environment variable: DNF_DISABLE_ALIASES='' @ v]\<rparr>))
          (return_p True))"

definition ALIASES_DROPIN_DIR :: string where "ALIASES_DROPIN_DIR = ''/etc/dnf/aliases.d/''"
definition ALIASES_CONF_PATH :: string where "ALIASES_CONF_PATH = path_join2 ALIASES_DROPIN_DIR ''ALIASES.conf''"
definition ALIASES_USER_PATH :: string where "ALIASES_USER_PATH = path_join2 ALIASES_DROPIN_DIR ''USER.conf''"

fun is_config_error :: "exn \<Rightarrow> bool" where
  "is_config_error (ConfigError m) = True"
| "is_config_error e = False"

definition load_main :: "fs \<Rightarrow> (aliases_st, unit) prog" where
  "load_main fs = catch_p
     (bind_p (lift_p (bind_r (fs ALIASES_CONF_PATH) conf_enabled)) (\<lambda>b. modify_p (\<lambda>s. s\<lparr>al_enabled := b\<rparr>)))
     (\<lambda>e. if is_config_error e
          then Some (modify_p (\<lambda>s. s\<lparr>al_log := al_log s @ [''Config error'']\<rparr>)) else None)"

text \<open>
  \<open>_dropin_dir_filenames\<close>: the directory listing (an error of the file system is \<open>Inl\<close>), sorted;
  the two reserved names, hidden files and other extensions are ignored, and the user's file comes
  last.
\<close>

definition ignore_filename :: "string \<Rightarrow> bool" where
  "ignore_filename filename \<longleftrightarrow>
     filename \<in> {''ALIASES.conf'', ''USER.conf''} \<or> startswith filename ''.'' \<or>
     \<not> (endswith filename ''.conf'' \<or> endswith filename ''.CONF'')"

definition dropin_dir_filenames :: "string list res \<Rightarrow> bool \<Rightarrow> string list res" where
  "dropin_dir_filenames listdir user_exists =
     (case listdir of
        Inl e \<Rightarrow> Inl (ConfigError ''cannot list the aliases directory'')
      | Inr names \<Rightarrow> Inr (map (path_join2 ALIASES_DROPIN_DIR) (filter (\<lambda>fn. \<not> ignore_filename fn) (sort names))
          @ (if user_exists then [ALIASES_USER_PATH] else [])))"

definition load_file :: "fs \<Rightarrow> string \<Rightarrow> (aliases_st, unit) prog" where
  "load_file fs filename = catch_p
     (bind_p (lift_p (fs filename)) (\<lambda>conf.
      bind_p (lift_p (conf_enabled conf)) (\<lambda>enabled.
        if enabled then modify_p (\<lambda>s. s\<lparr>al_aliases := dict_update (al_aliases s) (conf_aliases conf)\<rparr>)
        else return_p ())))
     (\<lambda>e. if is_config_error e
          then Some (modify_p (\<lambda>s. s\<lparr>al_log := al_log s @ [''Config error'']\<rparr>)) else None)"

definition load_aliases :: "fs \<Rightarrow> string list res \<Rightarrow> (aliases_st, unit) prog" where
  "load_aliases fs filenames =
     (case filenames of
        Inl e \<Rightarrow> if is_config_error e then return_p () else raise_p e
      | Inr fns \<Rightarrow> for_p (load_file fs) fns)"

definition init_aliases :: "environ \<Rightarrow> fs \<Rightarrow> string list res \<Rightarrow> unit res \<times> aliases_st" where
  "init_aliases env fs filenames =
     bind_p (disabled_by_environ env) (\<lambda>dis.
       if dis then modify_p (\<lambda>s. s\<lparr>al_enabled := False\<rparr>)
       else then_p (load_main fs)
         (bind_p (gets_p al_enabled) (\<lambda>en. if \<not> en then return_p () else load_aliases fs filenames)))
     \<lparr>al_aliases = [], al_enabled = True, al_log = []\<rparr>"

subsection \<open>Resolution\<close>

text \<open>\<open>store_prefix\<close>: the leading options, where an empty argument counts as one.\<close>

definition is_option :: "string \<Rightarrow> bool" where
  "is_option arg \<longleftrightarrow> \<not> (arg \<noteq> [] \<and> hd arg \<noteq> CHR ''-'')"

definition store_prefix :: "string list \<Rightarrow> string list \<times> string list" where
  "store_prefix args = (takeWhile is_option args, dropWhile is_option args)"

definition strip_backslash :: "string list \<Rightarrow> string list" where
  "strip_backslash suffix =
     (case suffix of [] \<Rightarrow> [] | w # ws \<Rightarrow> (if startswith w [CHR 0x5C] then drop 1 w else w) # ws)"

text \<open>
  \<open>subresolve\<close>: the stack of the aliases being expanded (its top first) and the options stored so
  far are the state; \<^const>\<open>None\<close> is a run that does not return.  When the stack is empty \<open>stack.pop()\<close> raises and
  the backslash is not looked at.
\<close>

partial_function (option) subresolve ::
  "(string, string list) dict \<Rightarrow> string list \<Rightarrow> string list \<Rightarrow> string list
     \<Rightarrow> (exn + string list \<times> string list \<times> string list) option" where
  "subresolve aliases args stack opts =
     (let (pre, suffix) = store_prefix args; opts = opts @ pre
      in if suffix = [] \<or> \<not> dict_in (hd suffix) aliases \<or> startswith (hd suffix) [CHR 0x5C]
         then (case stack of
             [] \<Rightarrow> Some (Inr (suffix, [], opts))
           | _ # stack' \<Rightarrow> Some (Inr (strip_backslash suffix, stack', opts)))
         else if hd suffix \<in> set stack then Some (Inl (DnfError ''Aliases contain infinite recursion''))
         else Option.bind
           (subresolve aliases (the (map_of aliases (hd suffix))) (hd suffix # stack) opts)
           (\<lambda>r. case r of
              Inl e \<Rightarrow> Some (Inl e)
            | Inr (result, stack', opts') \<Rightarrow>
                if result \<noteq> [] then Some (Inr (result @ tl suffix, stack', opts'))
                else subresolve aliases (tl suffix) stack' opts'))"

definition resolve_raw :: "(string, string list) dict \<Rightarrow> string list \<Rightarrow> (exn + string list) option" where
  "resolve_raw aliases args =
     map_option (\<lambda>r. case r of Inl e \<Rightarrow> Inl e | Inr (suffix, stack, opts) \<Rightarrow> Inr (opts @ suffix))
       (subresolve aliases args [] [])"

definition resolve :: "bool \<Rightarrow> (string, string list) dict \<Rightarrow> string list \<Rightarrow> string list option" where
  "resolve enabled aliases args =
     (if enabled then map_option (\<lambda>r. case r of Inl e \<Rightarrow> args | Inr args' \<Rightarrow> args') (resolve_raw aliases args)
      else Some args)"

subsection \<open>Termination\<close>

abbreviation keeps_resolving :: "(string, string list) dict \<Rightarrow> string list \<Rightarrow> bool" where
  "keeps_resolving A suffix \<equiv>
     \<not> (suffix = [] \<or> \<not> dict_in (hd suffix) A \<or> startswith (hd suffix) [CHR 0x5C])"

lemma store_prefix_simps [simp]:
  "fst (store_prefix args) = takeWhile is_option args"
  "snd (store_prefix args) = dropWhile is_option args"
  by (simp_all add: store_prefix_def)

lemma subresolve_stop:
  "\<not> keeps_resolving A (dropWhile is_option args) \<Longrightarrow>
   subresolve A args stack opts = Some (Inr
     (if stack = [] then dropWhile is_option args else strip_backslash (dropWhile is_option args),
      tl stack, opts @ takeWhile is_option args))"
  by (cases stack; subst subresolve.simps) (simp_all add: store_prefix_def Let_def)

lemma subresolve_step:
  assumes "keeps_resolving A (dropWhile is_option args)" and "dropWhile is_option args = x # rest"
    and "x \<notin> set stack"
  shows "subresolve A args stack opts =
    Option.bind (subresolve A (the (map_of A x)) (x # stack) (opts @ takeWhile is_option args))
      (\<lambda>r. case r of Inl e \<Rightarrow> Some (Inl e)
        | Inr (result, stack', opts') \<Rightarrow>
            if result \<noteq> [] then Some (Inr (result @ tl (x # rest), stack', opts'))
            else subresolve A (tl (x # rest)) stack' opts')"
  using assms by (subst subresolve.simps) (simp add: store_prefix_def Let_def del: list.sel(3))

lemma subresolve_cycle:
  assumes "keeps_resolving A (dropWhile is_option args)" and "hd (dropWhile is_option args) \<in> set stack"
  shows "subresolve A args stack opts = Some (Inl (DnfError ''Aliases contain infinite recursion''))"
  using assms by (subst subresolve.simps) (simp add: store_prefix_def Let_def del: dropWhile_eq_Nil_conv)

lemma strip_backslash_Nil [simp]: "strip_backslash xs = [] \<longleftrightarrow> xs = []"
  by (auto simp: strip_backslash_def split: list.splits)

text \<open>An expansion to nothing but options leaves the stack as it found it, less the alias expanded.\<close>

lemma subresolve_pops:
  assumes "subresolve A args stack opts = Some (Inr ([], stack', opts'))"
  shows "stack' = tl stack"
proof -
  have "\<forall>stack' opts'. r = Inr ([], stack', opts') \<longrightarrow> stack' = tl stack"
    if "subresolve A args stack opts = Some r" for r
  proof (rule subresolve.raw_induct [OF _ that], goal_cases)
    case (1 f A args stack opts r)
    have IH: "f A args stack opts = Some (Inr ([], s', o')) \<Longrightarrow> s' = tl stack" for A args stack opts s' o'
      using 1(1) by blast
    define suffix where "suffix = dropWhile is_option args"
    show ?case
    proof (cases "keeps_resolving A suffix \<and> hd suffix \<notin> set stack")
      case False
      with 1(2) show ?thesis
        by (auto simp: store_prefix_def Let_def suffix_def [symmetric] split: if_splits list.splits)
    next
      case True
      with 1(2) obtain y
        where y: "f A (the (map_of A (hd suffix))) (hd suffix # stack) (opts @ takeWhile is_option args) = Some y"
          and k: "(case y of Inl e \<Rightarrow> Some (Inl e) | Inr (result, stack', opts') \<Rightarrow>
              if result \<noteq> [] then Some (Inr (result @ tl suffix, stack', opts'))
              else f A (tl suffix) stack' opts') = Some r"
        by (auto simp: store_prefix_def Let_def suffix_def [symmetric] bind_eq_Some_conv)
      then show ?thesis
        by (cases y) (auto split: if_splits dest!: IH)
    qed
  qed
  with assms show ?thesis by blast
qed

lemma dict_in_dom: "dict_in x A \<longleftrightarrow> x \<in> dom (map_of A)"
  by (auto simp: dict_in_def)

lemma subresolve_total: "\<exists>r. subresolve A args stack opts = Some r"
proof (induction "(card (dom (map_of A) - set stack), length args)" arbitrary: args stack opts
    rule: wf_induct_rule [OF wf_lex_prod [OF wf_less_than wf_less_than]])
  case 1
  show ?case
  proof (cases "keeps_resolving A (dropWhile is_option args)")
    case False
    then show ?thesis using subresolve_stop by blast
  next
    case True
    then obtain x rest where suffix: "dropWhile is_option args = x # rest"
      by (cases "dropWhile is_option args") auto
    show ?thesis
    proof (cases "x \<in> set stack")
      case cyc: True
      with True suffix show ?thesis using subresolve_cycle by (metis list.sel(1))
    next
      case False
      from True suffix have "x \<in> dom (map_of A)" by (simp add: dict_in_dom)
      with False have "card (dom (map_of A) - set (x # stack)) < card (dom (map_of A) - set stack)"
        by (intro psubset_card_mono) (auto simp: finite_dom_map_of)
      with 1 obtain r1
        where r1: "subresolve A (the (map_of A x)) (x # stack) (opts @ takeWhile is_option args) = Some r1"
        by fastforce
      have "length (dropWhile is_option args) \<le> length args" by (rule length_dropWhile_le)
      then have "length rest < length args" using suffix by simp
      then have rec: "\<exists>r. subresolve A rest stack opts' = Some r" for opts'
        using 1 [of stack rest opts'] by simp
      show ?thesis
      proof (cases r1)
        case (Inl e)
        with subresolve_step [OF True suffix False, of opts] r1 show ?thesis by simp
      next
        case (Inr t)
        obtain result stack' opts' where t: "t = (result, stack', opts')" by (cases t) auto
        show ?thesis
        proof (cases "result = []")
          case True
          with r1 Inr t have "stack' = stack" using subresolve_pops by fastforce
          with subresolve_step [OF \<open>keeps_resolving A (dropWhile is_option args)\<close> suffix False, of opts]
            r1 Inr t True rec [of opts'] show ?thesis by simp
        next
          case nonempty: False
          with subresolve_step [OF True suffix False, of opts] r1 Inr t show ?thesis by simp
        qed
      qed
    qed
  qed
qed

subsection \<open>What resolution means\<close>

text \<open>
  The documented process with no check for recursion: replace the first command by its alias and
  search the result again, for at most the given number of nested steps.  \<open>nested\<close> says whether an
  alias is being expanded, in which case a leading backslash is dropped from the command found.
\<close>

fun expand :: "nat \<Rightarrow> (string, string list) dict \<Rightarrow> bool \<Rightarrow> string list \<Rightarrow> (string list \<times> string list) option" where
  "expand 0 A nested args = None"
| "expand (Suc n) A nested args =
     (let pre = takeWhile is_option args; suffix = dropWhile is_option args
      in if \<not> keeps_resolving A suffix
         then Some (pre, if nested then strip_backslash suffix else suffix)
         else (case expand n A True (the (map_of A (hd suffix))) of
             None \<Rightarrow> None
           | Some (o1, r1) \<Rightarrow>
               if r1 \<noteq> [] then Some (pre @ o1, r1 @ tl suffix)
               else map_option (\<lambda>(o2, r2). (pre @ o1 @ o2, r2)) (expand n A nested (tl suffix))))"

lemma expand_Suc: "expand n A nested args = Some v \<Longrightarrow> expand (Suc n) A nested args = Some v"
proof (induction n arbitrary: nested args v)
  case (Suc n)
  define suffix where "suffix = dropWhile is_option args"
  show ?case
  proof (cases "keeps_resolving A suffix")
    case False
    with Suc.prems show ?thesis by (simp add: suffix_def Let_def del: de_Morgan_disj)
  next
    case True
    with Suc.prems obtain o1 r1
      where inner: "expand n A True (the (map_of A (hd suffix))) = Some (o1, r1)"
        and rest: "(if r1 \<noteq> [] then Some (takeWhile is_option args @ o1, r1 @ tl suffix)
          else map_option (\<lambda>(o2, r2). (takeWhile is_option args @ o1 @ o2, r2)) (expand n A nested (tl suffix))) = Some v"
      by (auto simp: suffix_def [symmetric] Let_def split: option.splits)
    from Suc.IH [OF inner] have inner': "expand (Suc n) A True (the (map_of A (hd suffix))) = Some (o1, r1)" .
    have "(if r1 \<noteq> [] then Some (takeWhile is_option args @ o1, r1 @ tl suffix)
        else map_option (\<lambda>(o2, r2). (takeWhile is_option args @ o1 @ o2, r2))
          (expand (Suc n) A nested (tl suffix))) = Some v"
      using rest Suc.IH [of nested "tl suffix"] by (auto split: if_splits simp del: expand.simps)
    with True inner' show ?thesis
      by (subst expand.simps) (simp add: suffix_def [symmetric] Let_def del: expand.simps)
  qed
qed simp

lemma expand_mono: "expand n A nested args = Some v \<Longrightarrow> n \<le> m \<Longrightarrow> expand m A nested args = Some v"
  by (induction m) (auto simp: le_Suc_eq intro: expand_Suc simp del: expand.simps)

lemma expand_unique:
  "expand n A nested args = Some v \<Longrightarrow> expand m A nested args = Some w \<Longrightarrow> v = w"
  by (metis expand_mono nat_le_linear option.inject)

lemma expand_stop:
  "\<not> keeps_resolving A (dropWhile is_option args) \<Longrightarrow>
   expand (Suc n) A nested args = Some (takeWhile is_option args,
     if nested then strip_backslash (dropWhile is_option args) else dropWhile is_option args)"
  by (subst expand.simps) (simp add: Let_def)

lemma expand_step:
  "keeps_resolving A (dropWhile is_option args) \<Longrightarrow> dropWhile is_option args = x # rest \<Longrightarrow>
   expand (Suc n) A nested args =
     (case expand n A True (the (map_of A x)) of
        None \<Rightarrow> None
      | Some (o1, r1) \<Rightarrow>
          if r1 \<noteq> [] then Some (takeWhile is_option args @ o1, r1 @ rest)
          else map_option (\<lambda>(o2, r2). (takeWhile is_option args @ o1 @ o2, r2)) (expand n A nested rest))"
  by (subst expand.simps) (simp add: Let_def split: option.splits)

lemmas alias_rules = subresolve_stop subresolve_step subresolve_cycle expand_stop expand_step

text \<open>Soundness: what the stack-based resolution returns is what the plain process gives.\<close>

lemma subresolve_sound:
  "subresolve A args stack opts = Some (Inr (r, stack', opts')) \<Longrightarrow>
     \<exists>n o'. opts' = opts @ o' \<and> expand n A (stack \<noteq> []) args = Some (o', r)"
proof (induction "(card (dom (map_of A) - set stack), length args)" arbitrary: args stack opts r stack' opts'
    rule: wf_induct_rule [OF wf_lex_prod [OF wf_less_than wf_less_than]])
  case 1
  show ?case
  proof (cases "keeps_resolving A (dropWhile is_option args)")
    case False
    with "1.prems" expand_stop [OF False, of 0 "stack \<noteq> []"]
    have "opts' = opts @ takeWhile is_option args \<and>
        expand (Suc 0) A (stack \<noteq> []) args = Some (takeWhile is_option args, r)"
      by (auto simp: subresolve_stop [OF False] simp del: expand.simps)
    then show ?thesis by blast
  next
    case True
    then obtain x rest where suffix: "dropWhile is_option args = x # rest"
      by (cases "dropWhile is_option args") auto
    have fresh: "x \<notin> set stack"
    proof
      assume "x \<in> set stack"
      with subresolve_cycle [OF True, of stack opts] suffix "1.prems" show False by simp
    qed
    from "1.prems" [unfolded subresolve_step [OF True suffix fresh]] obtain y
      where y: "subresolve A (the (map_of A x)) (x # stack) (opts @ takeWhile is_option args) = Some y"
        and k: "(case y of Inl e \<Rightarrow> Some (Inl e) | Inr (result, stack', opts') \<Rightarrow>
            if result \<noteq> [] then Some (Inr (result @ tl (x # rest), stack', opts'))
            else subresolve A (tl (x # rest)) stack' opts') = Some (Inr (r, stack', opts'))"
      unfolding bind_eq_Some_conv by blast
    then obtain result stk2 opts2
      where inner: "subresolve A (the (map_of A x)) (x # stack) (opts @ takeWhile is_option args) =
          Some (Inr (result, stk2, opts2))"
        and outer: "(if result \<noteq> [] then Some (Inr (result @ rest, stk2, opts2))
          else subresolve A rest stk2 opts2) = Some (Inr (r, stack', opts'))"
      by (cases y) (auto cong: if_cong)
    from True suffix have "x \<in> dom (map_of A)" by (simp add: dict_in_dom)
    with fresh have "card (dom (map_of A) - set (x # stack)) < card (dom (map_of A) - set stack)"
      by (intro psubset_card_mono) (auto simp: finite_dom_map_of)
    then have "\<exists>n o'. opts2 = (opts @ takeWhile is_option args) @ o' \<and>
        expand n A (x # stack \<noteq> []) (the (map_of A x)) = Some (o', result)"
      by (intro "1.hyps" [OF _ inner]) simp
    then obtain n o1 where o1: "opts2 = opts @ takeWhile is_option args @ o1"
        "expand n A True (the (map_of A x)) = Some (o1, result)"
      by auto
    show ?thesis
    proof (cases "result = []")
      case False
      with outer o1 expand_step [OF True suffix, of n "stack \<noteq> []"]
      have "opts' = opts @ takeWhile is_option args @ o1 \<and>
          expand (Suc n) A (stack \<noteq> []) args = Some (takeWhile is_option args @ o1, r)"
        by (auto simp del: expand.simps)
      then show ?thesis by blast
    next
      case empty: True
      with inner have "stk2 = stack" using subresolve_pops by fastforce
      with outer empty have rest: "subresolve A rest stack opts2 = Some (Inr (r, stack', opts'))" by simp
      have "length (dropWhile is_option args) \<le> length args" by (rule length_dropWhile_le)
      then have "length rest < length args" using suffix by simp
      then have "\<exists>n o'. opts' = opts2 @ o' \<and> expand n A (stack \<noteq> []) rest = Some (o', r)"
        by (intro "1.hyps" [OF _ rest]) simp
      then obtain m o2 where o2: "opts' = opts2 @ o2" "expand m A (stack \<noteq> []) rest = Some (o2, r)"
        by blast
      have "expand (max n m) A True (the (map_of A x)) = Some (o1, [])"
        and "expand (max n m) A (stack \<noteq> []) rest = Some (o2, r)"
        using o1(2) o2(2) empty by (auto intro: expand_mono simp del: expand.simps)
      with expand_step [OF True suffix, of "max n m" "stack \<noteq> []"] o1(1) o2(1)
      have "opts' = opts @ takeWhile is_option args @ o1 @ o2 \<and>
          expand (Suc (max n m)) A (stack \<noteq> []) args = Some (takeWhile is_option args @ o1 @ o2, r)"
        by (auto simp del: expand.simps)
      then show ?thesis by blast
    qed
  qed
qed

text \<open>
  Completeness: when the plain process ends, no alias can occur below itself, so the check for
  recursion never fires.  The aliases on the stack are those whose expansion needs more steps.
\<close>

definition needs :: "(string, string list) dict \<Rightarrow> nat \<Rightarrow> string \<Rightarrow> bool" where
  "needs A n y \<longleftrightarrow> (\<forall>m < n. expand m A True (the (map_of A y)) = None)"

lemma subresolve_complete:
  "expand n A (stack \<noteq> []) args = Some (o', r) \<Longrightarrow> \<forall>y \<in> set stack. needs A n y \<Longrightarrow>
     \<exists>stack'. subresolve A args stack opts = Some (Inr (r, stack', opts @ o'))"
proof (induction n arbitrary: stack args o' r opts rule: less_induct)
  case (less n)
  then obtain k where n: "n = Suc k" by (cases n) auto
  show ?case
  proof (cases "keeps_resolving A (dropWhile is_option args)")
    case False
    with less.prems(1) n show ?thesis
      by (auto simp: subresolve_stop [OF False] expand_stop [OF False] simp del: expand.simps)
  next
    case True
    then obtain x rest where suffix: "dropWhile is_option args = x # rest"
      by (cases "dropWhile is_option args") auto
    from less.prems(1) n expand_step [OF True suffix, of k "stack \<noteq> []"] obtain o1 r1
      where inner: "expand k A True (the (map_of A x)) = Some (o1, r1)"
        and outer: "(if r1 \<noteq> [] then Some (takeWhile is_option args @ o1, r1 @ rest)
          else map_option (\<lambda>(o2, r2). (takeWhile is_option args @ o1 @ o2, r2)) (expand k A (stack \<noteq> []) rest))
          = Some (o', r)"
      by (auto simp del: expand.simps split: option.splits)
    from less.prems(2) inner n have fresh: "x \<notin> set stack"
      by (auto simp: needs_def simp del: expand.simps)
    define j where "j = (LEAST j. expand j A True (the (map_of A x)) \<noteq> None)"
    have "\<exists>j. expand j A True (the (map_of A x)) \<noteq> None" using inner by blast
    then have some: "expand j A True (the (map_of A x)) \<noteq> None" unfolding j_def by (rule LeastI_ex)
    have least: "needs A j x"
      using not_less_Least unfolding needs_def j_def by blast
    from inner have "j \<le> k" unfolding j_def by (intro Least_le) simp
    from some inner have exj: "expand j A True (the (map_of A x)) = Some (o1, r1)"
      using expand_unique by fastforce
    have "\<forall>y \<in> set (x # stack). needs A j y"
      using least less.prems(2) \<open>j \<le> k\<close> n by (auto simp: needs_def simp del: expand.simps)
    with exj less.IH [of j "x # stack" "the (map_of A x)" o1 r1 "opts @ takeWhile is_option args"] \<open>j \<le> k\<close> n
    obtain stk2 where sub: "subresolve A (the (map_of A x)) (x # stack) (opts @ takeWhile is_option args) =
        Some (Inr (r1, stk2, opts @ takeWhile is_option args @ o1))"
      by auto
    show ?thesis
    proof (cases "r1 = []")
      case False
      with outer sub subresolve_step [OF True suffix fresh, of opts] show ?thesis by auto
    next
      case empty: True
      with sub have stk2: "stk2 = stack" using subresolve_pops by fastforce
      from outer empty obtain o2 where rest: "expand k A (stack \<noteq> []) rest = Some (o2, r)"
        and o': "o' = takeWhile is_option args @ o1 @ o2" by auto
      have "\<forall>y \<in> set stack. needs A k y" using less.prems(2) n by (auto simp: needs_def simp del: expand.simps)
      with less.IH [of k stack rest o2 r "opts @ takeWhile is_option args @ o1"] rest n
      obtain stk3 where "subresolve A rest stack (opts @ takeWhile is_option args @ o1) =
          Some (Inr (r, stk3, opts @ o'))" by (auto simp: o')
      with subresolve_step [OF True suffix fresh, of opts] sub empty stk2 show ?thesis by auto
    qed
  qed
qed

lemma resolve_raw_Inr_iff:
  "resolve_raw A args = Some (Inr args') \<longleftrightarrow>
    (\<exists>n opts cmd. expand n A False args = Some (opts, cmd) \<and> args' = opts @ cmd)"
proof
  assume raw: "resolve_raw A args = Some (Inr args')"
  then obtain t where t: "subresolve A args [] [] = Some t" by (auto simp: resolve_raw_def)
  with raw obtain cmd stk opts where "subresolve A args [] [] = Some (Inr (cmd, stk, opts))"
    and "args' = opts @ cmd"
    by (cases t) (auto simp: resolve_raw_def)
  with subresolve_sound [of A args "[]" "[]"] show "\<exists>n opts cmd. expand n A False args = Some (opts, cmd) \<and> args' = opts @ cmd"
    by fastforce
next
  assume "\<exists>n opts cmd. expand n A False args = Some (opts, cmd) \<and> args' = opts @ cmd"
  then obtain n opts cmd where "expand n A False args = Some (opts, cmd)" and "args' = opts @ cmd" by blast
  with subresolve_complete [of n A "[]" args opts cmd "[]"]
  show "resolve_raw A args = Some (Inr args')" by (auto simp: resolve_raw_def)
qed

text \<open>
  C34. Resolution of aliases always returns.  Its result is the one of the documented process -
  replace the first command that is not an option by its alias and search again - whenever that
  process ends, and the original arguments exactly when it does not end.
\<close>

theorem resolve_correct:
  "\<exists>args'. resolve True A args = Some args' \<and>
    (if \<exists>n. expand n A False args \<noteq> None
     then \<exists>n opts cmd. expand n A False args = Some (opts, cmd) \<and> args' = opts @ cmd
     else args' = args)"
proof -
  obtain r where r: "subresolve A args [] [] = Some r" using subresolve_total by blast
  show ?thesis
  proof (cases "\<exists>n. expand n A False args \<noteq> None")
    case True
    then obtain n opts cmd where "expand n A False args = Some (opts, cmd)" by auto
    then have "resolve_raw A args = Some (Inr (opts @ cmd))" unfolding resolve_raw_Inr_iff by blast
    with True \<open>expand n A False args = Some (opts, cmd)\<close> show ?thesis by (auto simp: resolve_def)
  next
    case False
    then have "resolve_raw A args \<noteq> Some (Inr args')" for args'
      unfolding resolve_raw_Inr_iff by (auto simp del: expand.simps)
    with r obtain e where "resolve_raw A args = Some (Inl e)"
      by (cases r) (auto simp: resolve_raw_def)
    with False show ?thesis by (simp add: resolve_def)
  qed
qed

text \<open>The examples of the documentation.\<close>

definition doc_aliases :: "(string, string list) dict" where
  "doc_aliases = [(''in'', [''install'']), (''FORCE'', [''--skip-broken'', ''--disableexcludes=all''])]"

lemma doc_examples:
  "resolve True doc_aliases [''FORCE'', ''in''] = Some [''--skip-broken'', ''--disableexcludes=all'', ''install'']"
  "resolve True doc_aliases [''in'', ''FORCE''] = Some [''install'', ''FORCE'']"
  "resolve True doc_aliases [''--repo'', ''updates'', ''in''] = Some [''--repo'', ''updates'', ''in'']"
  by (simp_all add: resolve_def resolve_raw_def subresolve.simps store_prefix_def is_option_def
      doc_aliases_def dict_in_def startswith_def strip_backslash_def)

text \<open>The backslash is dropped below an alias, and kept at the top level.\<close>

lemma backslash_examples:
  "resolve_raw [(''upgrade'', [CHR 0x5C # ''upgrade'', ''-y''])] [''upgrade''] = Some (Inr [''upgrade'', ''-y''])"
  "resolve_raw [(''upgrade'', [CHR 0x5C # ''upgrade'', ''-y''])] [CHR 0x5C # ''upgrade''] =
    Some (Inr [CHR 0x5C # ''upgrade''])"
  by (simp_all add: resolve_raw_def subresolve.simps store_prefix_def is_option_def
      dict_in_def startswith_def strip_backslash_def)

end
