(* ===== verification/Alias_Command.thy ===== *)
theory Alias_Command
  imports Aliases
begin

text \<open>
  dnf/cli/commands/alias.py: the \<open>alias\<close> command.  What it prints, logs and writes is a list of
  events; the answer of the configuration parser about the user's file is a parameter.
\<close>

datatype event =
    Info string
  | Warning string
  | ErrorLog string
  | Printed string
  | TouchFile string
  | WriteMain bool
  | WriteFile string string

record alias_state =
  ac_base_enabled :: bool
  ac_base_aliases :: "(string, string list) dict"
  ac_events :: "event list"

definition emit :: "event \<Rightarrow> (alias_state, unit) prog" where
  "emit ev = modify_p (\<lambda>s. s\<lparr>ac_events := ac_events s @ [ev]\<rparr>)"

record alias_opts =
  opt_enable_resolving :: bool
  opt_disable_resolving :: bool
  opt_subcommand :: string
  opt_alias :: "string list"

subsection \<open>Options\<close>

definition update_config_from_options :: "alias_opts \<Rightarrow> bool \<Rightarrow> bool \<Rightarrow> (alias_state, unit) prog" where
  "update_config_from_options opts conf_exists env_disabled =
     then_p (if opt_enable_resolving opts then emit (Info ''Aliases are now enabled'') else return_p ())
     (then_p (if opt_disable_resolving opts then emit (Info ''Aliases are now disabled'') else return_p ())
     (let enabled = (if opt_disable_resolving opts then Some False
                     else if opt_enable_resolving opts then Some True else None)
      in case enabled of
           None \<Rightarrow> return_p ()
         | Some b \<Rightarrow>
             then_p (if conf_exists then return_p () else emit (TouchFile ALIASES_CONF_PATH))
             (then_p (emit (WriteMain b))
             (if env_disabled then return_p () else modify_p (\<lambda>s. s\<lparr>ac_base_enabled := b\<rparr>)))))"

text \<open>
  \<open>_parse_option_alias\<close>: one definition per argument, cut at the first equals sign; what is not a
  single word, or looks like an option, or has no value is refused with a warning.
\<close>

definition alias_key :: "string \<Rightarrow> string" where
  "alias_key arg = strip (hd (split_once CHR ''='' arg))"

definition parse_alias :: "string \<Rightarrow> event + string \<times> string list" where
  "parse_alias arg =
     (let alias = split_once CHR ''='' arg; cmd = alias_key arg
      in if length (split_ws cmd) \<noteq> 1 then Inl (Warning (''Invalid alias key: '' @ cmd))
         else if startswith cmd ''-'' then Inl (Warning (''Invalid alias key: '' @ cmd))
         else if length alias = 1 then Inl (Warning (''Alias argument has no value: '' @ cmd))
         else Inr (cmd, split_ws (alias ! 1)))"

fun parse_aliases :: "(string, string list) dict \<Rightarrow> string list \<Rightarrow> (alias_state, (string, string list) dict) prog" where
  "parse_aliases new_aliases [] = return_p new_aliases"
| "parse_aliases new_aliases (arg # args) =
     (case parse_alias arg of
        Inl ev \<Rightarrow> then_p (emit ev) (parse_aliases new_aliases args)
      | Inr (cmd, value) \<Rightarrow> parse_aliases (dict_set cmd value new_aliases) args)"

subsection \<open>The user's file\<close>

text \<open>
  \<open>_load_user_aliases\<close> catches \<open>ConfigError\<close> only, and the constructor it calls raises the parser's
  own exceptions: those propagate.
\<close>

definition load_user_aliases :: "bool \<Rightarrow> exn + aliases_file \<Rightarrow> (alias_state, aliases_file option) prog" where
  "load_user_aliases user_exists parsed =
     then_p (if user_exists then return_p () else emit (TouchFile ALIASES_USER_PATH))
     (case parsed of
        Inr f \<Rightarrow> return_p (Some f)
      | Inl e \<Rightarrow> if is_config_error e then then_p (emit (Warning ''Config error'')) (return_p None) else raise_p e)"

definition py_bool :: "bool \<Rightarrow> string" where
  "py_bool b = (if b then ''True'' else ''False'')"

definition store_text :: "(string, string list) dict \<Rightarrow> bool \<Rightarrow> string" where
  "store_text user_aliases enabled =
     ''[main]'' @ nl @ ''enabled = '' @ py_bool enabled @ nl @ nl
     @ ''[aliases]'' @ nl
     @ concat (map (\<lambda>(key, value). key @ '' = '' @ join_str '' '' value @ nl) user_aliases)"

definition store_user_aliases :: "(string, string list) dict \<Rightarrow> bool \<Rightarrow> (alias_state, unit) prog" where
  "store_user_aliases user_aliases enabled = emit (WriteFile ALIASES_USER_PATH (store_text user_aliases enabled))"

definition add_aliases ::
  "bool \<Rightarrow> exn + aliases_file \<Rightarrow> (string, string list) dict \<Rightarrow> (alias_state, unit) prog" where
  "add_aliases user_exists parsed aliases =
     bind_p (load_user_aliases user_exists parsed) (\<lambda>conf.
       case conf of
         None \<Rightarrow> raise_p (AttributeError ''aliases'')
       | Some f \<Rightarrow>
           let user_aliases = dict_update (conf_aliases f) aliases
           in bind_p (lift_p (conf_enabled f)) (\<lambda>enabled.
              then_p (store_user_aliases user_aliases enabled)
                (emit (Info (''Aliases added: '' @ join_str '', '' (dict_keys aliases))))))"

fun delete_cmds :: "(string, string list) dict \<Rightarrow> string list \<Rightarrow> string list
    \<Rightarrow> (alias_state, (string, string list) dict \<times> string list) prog" where
  "delete_cmds user_aliases valid_cmds [] = return_p (user_aliases, valid_cmds)"
| "delete_cmds user_aliases valid_cmds (cmd # cmds) =
     (if dict_in cmd user_aliases
      then delete_cmds (dict_del cmd user_aliases) (valid_cmds @ [cmd]) cmds
      else then_p (emit (Info (''Alias not found: '' @ cmd))) (delete_cmds user_aliases valid_cmds cmds))"

definition remove_aliases :: "bool \<Rightarrow> exn + aliases_file \<Rightarrow> string list \<Rightarrow> (alias_state, unit) prog" where
  "remove_aliases user_exists parsed cmds =
     bind_p (load_user_aliases user_exists parsed) (\<lambda>conf.
       case conf of
         None \<Rightarrow> raise_p (AttributeError ''aliases'')
       | Some f \<Rightarrow>
           bind_p (delete_cmds (conf_aliases f) [] cmds) (\<lambda>(user_aliases, valid_cmds).
           bind_p (lift_p (conf_enabled f)) (\<lambda>enabled.
             then_p (store_user_aliases user_aliases enabled)
               (emit (Info (''Aliases deleted: '' @ join_str '', '' valid_cmds))))))"

subsection \<open>Listing and the command\<close>

definition list_alias :: "string \<Rightarrow> (alias_state, unit) prog" where
  "list_alias cmd =
     bind_p (gets_p ac_base_aliases) (\<lambda>A.
       case resolve_raw A [cmd] of
         None \<Rightarrow> return_p ()
       | Some (Inr args) \<Rightarrow> emit (Printed (''Alias '' @ cmd @ ''='' @ sq @ join_str '' '' args @ sq))
       | Some (Inl e) \<Rightarrow>
           bind_p (lift_p (dict_get A cmd)) (\<lambda>value.
             emit (ErrorLog (exn_text e @ '', alias '' @ cmd @ ''='' @ dq @ join_str '' '' value @ dq))))"

definition alias_run :: "alias_opts \<Rightarrow> bool \<Rightarrow> exn + aliases_file \<Rightarrow> (alias_state, unit) prog" where
  "alias_run opts user_exists parsed =
     bind_p (gets_p ac_base_enabled) (\<lambda>en.
     then_p (if en then return_p () else emit (Warning ''Aliases resolving is disabled.''))
     (if opt_subcommand opts = ''add'' then
        bind_p (parse_aliases [] (opt_alias opts)) (\<lambda>aliases.
          if aliases = [] then raise_p (DnfError ''No aliases specified.'')
          else add_aliases user_exists parsed aliases)
      else if opt_subcommand opts = ''delete'' then
        (if opt_alias opts = [] then raise_p (DnfError ''No alias specified.'')
         else remove_aliases user_exists parsed (opt_alias opts))
      else if opt_alias opts = [] then
        bind_p (gets_p ac_base_aliases) (\<lambda>A.
          if A = [] then emit (Info ''No aliases defined.'') else for_p list_alias (dict_keys A))
      else for_p (\<lambda>cmd. bind_p (gets_p ac_base_aliases) (\<lambda>A.
          if \<not> dict_in cmd A then emit (Info (''No match for alias: '' @ cmd)) else list_alias cmd)) (opt_alias opts)))"

subsection \<open>Storing and reading back\<close>

text \<open>
  The section of aliases as \<open>store_text\<close> writes it: a parser that reads the file back reports these
  pairs.
\<close>

definition stored_section :: "(string, string list) dict \<Rightarrow> (string, string) dict" where
  "stored_section d = map (\<lambda>(k, v). (k, join_str '' '' v)) d"

definition wordy :: "string list \<Rightarrow> bool" where
  "wordy v \<longleftrightarrow> (\<forall>w \<in> set v. w \<noteq> [] \<and> (\<forall>c \<in> set w. \<not> py_space c))"

definition values_ok :: "(string list \<Rightarrow> bool) \<Rightarrow> (string, string list) dict \<Rightarrow> bool" where
  "values_ok P d \<longleftrightarrow> dict_wf d \<and> (\<forall>k v. map_of d k = Some v \<longrightarrow> P v)"

abbreviation storable :: "(string, string list) dict \<Rightarrow> bool" where
  "storable \<equiv> values_ok (\<lambda>v. v \<noteq> [] \<and> wordy v)"

lemma values_ok_Nil [simp]: "values_ok P []"
  by (simp add: values_ok_def)

lemma values_ok_set: "values_ok P d \<Longrightarrow> P v \<Longrightarrow> values_ok P (dict_set k v d)"
  by (auto simp: values_ok_def)

lemma values_ok_update: "values_ok P d \<Longrightarrow> values_ok P e \<Longrightarrow> values_ok P (dict_update d e)"
  by (auto simp: values_ok_def dict_wf_update map_of_dict_update map_add_def split: option.splits)

lemma join_str_nonempty: "v \<noteq> [] \<Longrightarrow> \<forall>w \<in> set v. w \<noteq> [] \<Longrightarrow> join_str sep v \<noteq> []"
  by (induction sep v rule: join_str.induct) auto

lemma foldl_conf_aliases:
  assumes "storable (acc @ d)"
  shows "foldl (\<lambda>result (key, value). if value = [] then result else dict_set key (split_ws value) result) acc
    (stored_section d) = acc @ d"
  using assms
proof (induction d arbitrary: acc)
  case (Cons kv d)
  obtain k v where kv: "kv = (k, v)" by fastforce
  from Cons.prems kv have fresh: "k \<notin> fst ` set acc" by (auto simp: values_ok_def dict_wf_def)
  then have "map_of acc k = None" by (simp add: map_of_eq_None_iff)
  then have "map_of (acc @ kv # d) k = Some v" by (simp add: kv map_add_def)
  with Cons.prems have v: "v \<noteq> []" "wordy v" by (auto simp: values_ok_def)
  then have "dict_set k (split_ws (join_str '' '' v)) acc = acc @ [(k, v)]"
    using fresh by (simp add: wordy_def split_ws_join dict_set_fresh)
  moreover have "join_str '' '' v \<noteq> []" using v join_str_nonempty by (auto simp: wordy_def)
  moreover have "foldl (\<lambda>result (key, value). if value = [] then result else dict_set key (split_ws value) result)
      (acc @ [(k, v)]) (stored_section d) = (acc @ [(k, v)]) @ d"
    using Cons.prems kv by (intro Cons.IH) simp
  ultimately show ?case by (simp add: kv stored_section_def)
qed (simp add: stored_section_def)

lemma conf_aliases_stored:
  "storable d \<Longrightarrow> conf_aliases \<lparr>af_enabled = en, af_aliases = Some (stored_section d)\<rparr> = d"
  using foldl_conf_aliases [of "[]" d] by (simp add: conf_aliases_def)

text \<open>What the command line can add consists of proper words; only an empty value cannot be stored.\<close>

lemma parse_alias_value: "parse_alias arg = Inr (k, v) \<Longrightarrow> wordy v"
  using split_ws_words by (auto simp: parse_alias_def wordy_def Let_def split: if_splits)

lemma parse_aliases_result:
  "values_ok wordy d \<Longrightarrow> parse_aliases d args s = (r, s') \<Longrightarrow> \<exists>d'. r = Inr d' \<and> values_ok wordy d'"
proof (induction d args arbitrary: s r s' rule: parse_aliases.induct)
  case (1 new)
  then show ?case by auto
next
  case (2 new arg args)
  show ?case
  proof (cases "parse_alias arg")
    case (Inl ev)
    with 2 show ?thesis by (auto simp: emit_def then_p_apply)
  next
    case (Inr kv)
    obtain k v where kv: "kv = (k, v)" by fastforce
    with "2.prems"(1) Inr have "values_ok wordy (dict_set k v new)"
      by (intro values_ok_set parse_alias_value) simp_all
    with 2 Inr kv show ?thesis by simp
  qed
qed



text \<open>An alias with an empty value is accepted, and gone when the file is read again.\<close>

lemma empty_value_is_lost:
  "parse_alias ''foo='' = Inr (''foo'', []) \<and>
   conf_aliases \<lparr>af_enabled = None, af_aliases = Some (stored_section [(''foo'', [])])\<rparr> = []"
  by (simp add: parse_alias_def alias_key_def strip_def lstrip_def rstrip_def split_ws_def py_space_def
      startswith_def conf_aliases_def stored_section_def)

end
