(* ===== verification/Glob.thy ===== *)
theory Glob
  imports Prelude
begin

text \<open>
  The shell patterns of Python's \<open>fnmatch\<close> (file names are case sensitive on the systems dnf runs on):
  \<open>*\<close>, \<open>?\<close>, \<open>[seq]\<close> and \<open>[!seq]\<close>.  An opening bracket without a closing one stands for itself; a
  closing bracket right after the opening belongs to the sequence.
\<close>

datatype set_item = Single char | Range char char

datatype glob_token = Lit char | AnyChar | AnyString | CharSet bool "set_item list"

fun set_items :: "string \<Rightarrow> set_item list" where
  "set_items (x # y # z # cs) =
     (if y = CHR ''-'' then Range x z # set_items cs else Single x # set_items (y # z # cs))"
| "set_items [x, y] = [Single x, Single y]"
| "set_items [x] = [Single x]"
| "set_items [] = []"

fun item_has :: "char \<Rightarrow> set_item \<Rightarrow> bool" where
  "item_has c (Single x) \<longleftrightarrow> c = x"
| "item_has c (Range x y) \<longleftrightarrow> x \<le> c \<and> c \<le> y"

text \<open>The text up to the closing bracket, and what follows it.\<close>

fun split_bracket :: "string \<Rightarrow> (string \<times> string) option" where
  "split_bracket [] = None"
| "split_bracket (c # cs) =
     (if c = CHR '']'' then Some ([], cs)
      else (case split_bracket cs of None \<Rightarrow> None | Some (a, b) \<Rightarrow> Some (c # a, b)))"

lemma split_bracket_length: "split_bracket cs = Some (a, b) \<Longrightarrow> length b < length cs"
  by (induction cs arbitrary: a b) (auto split: if_splits option.splits)

definition bracket_body :: "string \<Rightarrow> (string \<times> string) option" where
  "bracket_body cs =
     (case cs of
        [] \<Rightarrow> None
      | c # r \<Rightarrow>
          if c = CHR '']'' then (case split_bracket r of None \<Rightarrow> None | Some (a, b) \<Rightarrow> Some (c # a, b))
          else split_bracket cs)"

lemma bracket_body_length: "bracket_body cs = Some (a, b) \<Longrightarrow> length b < length cs"
  by (auto simp: bracket_body_def split: list.splits if_splits option.splits dest!: split_bracket_length)

definition bracket_seq :: "string \<Rightarrow> (glob_token \<times> string) option" where
  "bracket_seq cs =
     (case cs of
        [] \<Rightarrow> None
      | c # r \<Rightarrow>
          if c = CHR ''!'' then map_option (\<lambda>(a, b). (CharSet True (set_items a), b)) (bracket_body r)
          else map_option (\<lambda>(a, b). (CharSet False (set_items a), b)) (bracket_body cs))"

lemma bracket_seq_length: "bracket_seq cs = Some (t, b) \<Longrightarrow> length b < length cs"
  by (auto simp: bracket_seq_def split: list.splits if_splits dest!: bracket_body_length)

function glob_tokens :: "string \<Rightarrow> glob_token list" where
  "glob_tokens [] = []"
| "glob_tokens (c # cs) =
     (if c = CHR ''*'' then AnyString # glob_tokens cs
      else if c = CHR ''?'' then AnyChar # glob_tokens cs
      else if c = CHR ''['' then
        (case bracket_seq cs of None \<Rightarrow> Lit c # glob_tokens cs | Some (t, r) \<Rightarrow> t # glob_tokens r)
      else Lit c # glob_tokens cs)"
  by pat_completeness auto
termination
  by (relation "measure length") (auto dest: bracket_seq_length)

fun match_tokens :: "glob_token list \<Rightarrow> string \<Rightarrow> bool" where
  "match_tokens [] s \<longleftrightarrow> s = []"
| "match_tokens (AnyString # ts) s \<longleftrightarrow>
     match_tokens ts s \<or> (case s of [] \<Rightarrow> False | _ # r \<Rightarrow> match_tokens (AnyString # ts) r)"
| "match_tokens (Lit c # ts) s \<longleftrightarrow> (case s of [] \<Rightarrow> False | x # r \<Rightarrow> x = c \<and> match_tokens ts r)"
| "match_tokens (AnyChar # ts) s \<longleftrightarrow> (case s of [] \<Rightarrow> False | _ # r \<Rightarrow> match_tokens ts r)"
| "match_tokens (CharSet neg xs # ts) s \<longleftrightarrow>
     (case s of [] \<Rightarrow> False | x # r \<Rightarrow> (list_ex (item_has x) xs \<noteq> neg) \<and> match_tokens ts r)"

definition fnmatch :: "string \<Rightarrow> string \<Rightarrow> bool" where
  "fnmatch name pat \<longleftrightarrow> match_tokens (glob_tokens pat) name"

definition no_glob :: "string \<Rightarrow> bool" where
  "no_glob s \<longleftrightarrow> CHR ''*'' \<notin> set s \<and> CHR ''?'' \<notin> set s \<and> CHR ''['' \<notin> set s"

text \<open>A name without special characters matches only itself, and \<open>*\<close> matches everything.\<close>

lemma glob_tokens_plain: "no_glob s \<Longrightarrow> glob_tokens s = map Lit s"
  by (induction s) (auto simp: no_glob_def)

lemma match_literals: "match_tokens (map Lit p) s \<longleftrightarrow> s = p"
  by (induction p arbitrary: s) (auto split: list.splits)

lemma fnmatch_plain: "no_glob p \<Longrightarrow> fnmatch s p \<longleftrightarrow> s = p"
  by (simp add: fnmatch_def glob_tokens_plain match_literals)

lemma match_star: "match_tokens (AnyString # ts) s \<longleftrightarrow> (\<exists>a b. s = a @ b \<and> match_tokens ts b)"
proof (induction s)
  case (Cons c s)
  have "(\<exists>a b. c # s = a @ b \<and> match_tokens ts b)
      \<longleftrightarrow> match_tokens ts (c # s) \<or> (\<exists>a b. s = a @ b \<and> match_tokens ts b)"
    by (auto simp: Cons_eq_append_conv)
  with Cons.IH show ?case by simp
qed simp

lemma fnmatch_prefix: "no_glob p \<Longrightarrow> fnmatch s (p @ ''*'') \<longleftrightarrow> startswith s p"
proof (induction p arbitrary: s)
  case Nil
  have "match_tokens [AnyString] s" unfolding match_star by (intro exI [of _ s] exI [of _ "[]"]) simp
  then show ?case by (simp add: fnmatch_def startswith_def del: match_tokens.simps(2))
next
  case (Cons c p)
  then show ?case by (cases s) (auto simp: fnmatch_def no_glob_def startswith_def)
qed

lemma fnmatch_star: "fnmatch s ''*''"
  using fnmatch_prefix [of "[]" s] by (simp add: no_glob_def startswith_def)

text \<open>
  The same with the flag \<open>re.I\<close>: a character matches in any case.  The letters with a case below
  code point 256 are those of ASCII and Latin-1.
\<close>

definition to_lower :: "char \<Rightarrow> char" where
  "to_lower c = (let n = of_char c :: nat
     in if 65 \<le> n \<and> n \<le> 90 \<or> 192 \<le> n \<and> n \<le> 222 \<and> n \<noteq> 215 then char_of (n + 32) else c)"

definition to_upper :: "char \<Rightarrow> char" where
  "to_upper c = (let n = of_char c :: nat
     in if 97 \<le> n \<and> n \<le> 122 \<or> 224 \<le> n \<and> n \<le> 254 \<and> n \<noteq> 247 then char_of (n - 32) else c)"

fun match_tokens_ci :: "glob_token list \<Rightarrow> string \<Rightarrow> bool" where
  "match_tokens_ci [] s \<longleftrightarrow> s = []"
| "match_tokens_ci (AnyString # ts) s \<longleftrightarrow>
     match_tokens_ci ts s \<or> (case s of [] \<Rightarrow> False | _ # r \<Rightarrow> match_tokens_ci (AnyString # ts) r)"
| "match_tokens_ci (Lit c # ts) s \<longleftrightarrow> (case s of [] \<Rightarrow> False | x # r \<Rightarrow> to_lower x = to_lower c \<and> match_tokens_ci ts r)"
| "match_tokens_ci (AnyChar # ts) s \<longleftrightarrow> (case s of [] \<Rightarrow> False | _ # r \<Rightarrow> match_tokens_ci ts r)"
| "match_tokens_ci (CharSet neg xs # ts) s \<longleftrightarrow>
     (case s of [] \<Rightarrow> False
      | x # r \<Rightarrow> (list_ex (\<lambda>i. item_has x i \<or> item_has (to_lower x) i \<or> item_has (to_upper x) i) xs \<noteq> neg) \<and> match_tokens_ci ts r)"

definition fnmatch_ci :: "string \<Rightarrow> string \<Rightarrow> bool" where
  "fnmatch_ci name pat \<longleftrightarrow> match_tokens_ci (glob_tokens pat) name"

lemma match_literals_ci: "match_tokens_ci (map Lit p) s \<longleftrightarrow> map to_lower s = map to_lower p"
  by (induction p arbitrary: s) (auto split: list.splits)

lemma fnmatch_ci_plain: "no_glob p \<Longrightarrow> fnmatch_ci s p \<longleftrightarrow> map to_lower s = map to_lower p"
  by (simp add: fnmatch_ci_def glob_tokens_plain match_literals_ci)

text \<open>Without a negated set, ignoring the case only adds matches.\<close>

definition positive :: "glob_token list \<Rightarrow> bool" where
  "positive ts \<longleftrightarrow> list_all (\<lambda>t. case t of CharSet neg xs \<Rightarrow> \<not> neg | _ \<Rightarrow> True) ts"

lemma match_ci_mono: "positive ts \<Longrightarrow> match_tokens ts s \<Longrightarrow> match_tokens_ci ts s"
proof (induction ts s rule: match_tokens.induct)
  case (2 ts s)
  then show ?case by (cases s) (auto simp: positive_def)
next
  case (3 c ts s)
  then show ?case by (cases s) (auto simp: positive_def)
next
  case (4 ts s)
  then show ?case by (cases s) (auto simp: positive_def)
next
  case (5 neg xs ts s)
  then show ?case by (cases s) (auto simp: positive_def list_ex_iff)
qed simp

end
