(* ===== verification/Persistor.thy ===== *)
theory Persistor
  imports Transaction_Items
begin

text \<open>
  dnf/db/group.py: the group and environment persistors.  The items of the history database are
  objects shared by reference: an environment is first registered and then filled.  They live in a
  store, a list per kind; an address is a position.  What the database answers about the past is the
  parameter \<open>swdb\<close>; what dnf tells it is the log.
\<close>

datatype ptype = CONDITIONAL | DEFAULT | MANDATORY | OPTIONAL

definition ALL_TYPES :: "ptype set" where
  "ALL_TYPES = {CONDITIONAL, DEFAULT, MANDATORY, OPTIONAL}"

record group_pkg =
  gk_name :: string
  gk_installed :: bool
  gk_type :: "ptype set"

record swdb_group =
  sg_id :: string
  sg_name :: "string option"
  sg_tname :: "string option"
  sg_types :: "ptype set"
  sg_pkgs :: "group_pkg list"

record env_group =
  eg_id :: string
  eg_installed :: bool
  eg_type :: "ptype set"

record swdb_env =
  se_id :: string
  se_name :: "string option"
  se_tname :: "string option"
  se_types :: "ptype set"
  se_groups :: "env_group list"

text \<open>The types are bit flags in the database: a value is a set of them.\<close>

datatype item_ref = GroupItem nat | EnvItem nat

datatype swdb_call = AddItem item_ref action reason | SetState item_ref item_state

text \<open>The four dictionaries of a \<open>PersistorBase\<close>.\<close>

record pers =
  pe_installed :: "(string, nat) dict"
  pe_removed :: "(string, nat) dict"
  pe_upgraded :: "(string, nat) dict"
  pe_downgraded :: "(string, nat) dict"

record hist =
  h_groups :: "swdb_group list"
  h_envs :: "swdb_env list"
  h_gp :: pers
  h_ep :: pers
  h_log :: "swdb_call list"

text \<open>The answers of the database about what is installed before this transaction.\<close>

record swdb =
  sq_group :: "string \<Rightarrow> swdb_group option"
  sq_env :: "string \<Rightarrow> swdb_env option"
  sq_package_groups :: "string \<Rightarrow> string list"
  sq_group_envs :: "string \<Rightarrow> string list"
  sq_reason :: "string \<Rightarrow> string \<Rightarrow> int \<Rightarrow> reason"
  sq_groups_by_pattern :: "string \<Rightarrow> swdb_group option list"
  sq_envs_by_pattern :: "string \<Rightarrow> swdb_env option list"

subsection \<open>PersistorBase\<close>

text \<open>
  The methods of the base class are written over what a subclass supplies: where its dictionaries
  are, the id of an object, and the kind of item it is.
\<close>

definition no_pers :: pers where
  "no_pers = \<lparr>pe_installed = [], pe_removed = [], pe_upgraded = [], pe_downgraded = []\<rparr>"

definition pers_len :: "pers \<Rightarrow> nat" where
  "pers_len p = length (pe_installed p) + length (pe_removed p) + length (pe_upgraded p) + length (pe_downgraded p)"

definition pers_clean :: "(pers \<Rightarrow> hist \<Rightarrow> hist) \<Rightarrow> (hist, unit) prog" where
  "pers_clean put = modify_p (put no_pers)"

definition add_to_history :: "item_ref \<Rightarrow> action \<Rightarrow> (hist, unit) prog" where
  "add_to_history item act = modify_p (\<lambda>h. h\<lparr>h_log := h_log h @ [AddItem item act USER, SetState item ST_DONE]\<rparr>)"

definition pers_install ::
  "(hist \<Rightarrow> pers) \<Rightarrow> (pers \<Rightarrow> hist \<Rightarrow> hist) \<Rightarrow> (hist \<Rightarrow> nat \<Rightarrow> string) \<Rightarrow> (nat \<Rightarrow> item_ref) \<Rightarrow> nat \<Rightarrow> (hist, unit) prog" where
  "pers_install get put obj_id item obj =
     then_p (modify_p (\<lambda>h. put ((get h)\<lparr>pe_installed := dict_set (obj_id h obj) obj (pe_installed (get h))\<rparr>) h))
       (add_to_history (item obj) INSTALL)"

definition pers_remove ::
  "(hist \<Rightarrow> pers) \<Rightarrow> (pers \<Rightarrow> hist \<Rightarrow> hist) \<Rightarrow> (hist \<Rightarrow> nat \<Rightarrow> string) \<Rightarrow> (nat \<Rightarrow> item_ref) \<Rightarrow> nat \<Rightarrow> (hist, unit) prog" where
  "pers_remove get put obj_id item obj =
     then_p (modify_p (\<lambda>h. put ((get h)\<lparr>pe_removed := dict_set (obj_id h obj) obj (pe_removed (get h))\<rparr>) h))
       (add_to_history (item obj) REMOVE)"

definition pers_upgrade ::
  "(hist \<Rightarrow> pers) \<Rightarrow> (pers \<Rightarrow> hist \<Rightarrow> hist) \<Rightarrow> (hist \<Rightarrow> nat \<Rightarrow> string) \<Rightarrow> (nat \<Rightarrow> item_ref) \<Rightarrow> nat \<Rightarrow> (hist, unit) prog" where
  "pers_upgrade get put obj_id item obj =
     then_p (modify_p (\<lambda>h. put ((get h)\<lparr>pe_upgraded := dict_set (obj_id h obj) obj (pe_upgraded (get h))\<rparr>) h))
       (add_to_history (item obj) UPGRADE)"

definition pers_downgrade ::
  "(hist \<Rightarrow> pers) \<Rightarrow> (pers \<Rightarrow> hist \<Rightarrow> hist) \<Rightarrow> (hist \<Rightarrow> nat \<Rightarrow> string) \<Rightarrow> (nat \<Rightarrow> item_ref) \<Rightarrow> nat \<Rightarrow> (hist, unit) prog" where
  "pers_downgrade get put obj_id item obj =
     then_p (modify_p (\<lambda>h. put ((get h)\<lparr>pe_downgraded := dict_set (obj_id h obj) obj (pe_downgraded (get h))\<rparr>) h))
       (add_to_history (item obj) DOWNGRADE)"

subsection \<open>The store\<close>

definition group_at :: "hist \<Rightarrow> nat \<Rightarrow> swdb_group" where
  "group_at h a = h_groups h ! a"

definition env_at :: "hist \<Rightarrow> nat \<Rightarrow> swdb_env" where
  "env_at h a = h_envs h ! a"

definition alloc_group :: "swdb_group \<Rightarrow> (hist, nat) prog" where
  "alloc_group g = bind_p (gets_p (\<lambda>h. length (h_groups h))) (\<lambda>a.
     then_p (modify_p (\<lambda>h. h\<lparr>h_groups := h_groups h @ [g]\<rparr>)) (return_p a))"

definition alloc_env :: "swdb_env \<Rightarrow> (hist, nat) prog" where
  "alloc_env e = bind_p (gets_p (\<lambda>h. length (h_envs h))) (\<lambda>a.
     then_p (modify_p (\<lambda>h. h\<lparr>h_envs := h_envs h @ [e]\<rparr>)) (return_p a))"

definition addPackage :: "nat \<Rightarrow> string \<Rightarrow> bool \<Rightarrow> ptype set \<Rightarrow> (hist, unit) prog" where
  "addPackage a name installed ty = modify_p (\<lambda>h. h\<lparr>h_groups := (h_groups h)[a := (group_at h a)\<lparr>sg_pkgs :=
     sg_pkgs (group_at h a) @ [\<lparr>gk_name = name, gk_installed = installed, gk_type = ty\<rparr>]\<rparr>]\<rparr>)"

definition addGroup :: "nat \<Rightarrow> string \<Rightarrow> bool \<Rightarrow> ptype set \<Rightarrow> (hist, unit) prog" where
  "addGroup a gid installed ty = modify_p (\<lambda>h. h\<lparr>h_envs := (h_envs h)[a := (env_at h a)\<lparr>se_groups :=
     se_groups (env_at h a) @ [\<lparr>eg_id = gid, eg_installed = installed, eg_type = ty\<rparr>]\<rparr>]\<rparr>)"

subsection \<open>GroupPersistor\<close>

definition put_gp :: "pers \<Rightarrow> hist \<Rightarrow> hist" where
  "put_gp p h = h\<lparr>h_gp := p\<rparr>"

definition group_obj_id :: "hist \<Rightarrow> nat \<Rightarrow> string" where
  "group_obj_id h a = sg_id (group_at h a)"

definition group_new :: "string \<Rightarrow> string option \<Rightarrow> string option \<Rightarrow> ptype set \<Rightarrow> (hist, nat) prog" where
  "group_new obj_id name translated_name pkg_types =
     alloc_group \<lparr>sg_id = obj_id, sg_name = name, sg_tname = translated_name, sg_types = pkg_types, sg_pkgs = []\<rparr>"

definition group_get :: "swdb \<Rightarrow> string \<Rightarrow> (hist, nat option) prog" where
  "group_get q obj_id =
     (case sq_group q obj_id of
        None \<Rightarrow> return_p None
      | Some g \<Rightarrow> bind_p (alloc_group g) (\<lambda>a. return_p (Some a)))"

text \<open>
  The loops of \<open>is_removable_pkg\<close> and \<open>is_removable_group\<close>: each removed (installed) container,
  with the names and installed flags of its members, is taken out of (put into) the set of
  containers; taking out one that is not there raises \<open>KeyError\<close>.
\<close>

fun drop_member :: "string \<Rightarrow> string \<Rightarrow> (string \<times> bool) list \<Rightarrow> string set \<Rightarrow> string set res" where
  "drop_member name cid [] S = Inr S"
| "drop_member name cid ((n, installed) # ms) S =
     (if n \<noteq> name then drop_member name cid ms S
      else if \<not> installed then drop_member name cid ms S
      else if cid \<notin> S then Inl (KeyError cid)
      else drop_member name cid ms (S - {cid}))"

fun drop_members :: "string \<Rightarrow> (string \<times> (string \<times> bool) list) list \<Rightarrow> string set \<Rightarrow> string set res" where
  "drop_members name [] S = Inr S"
| "drop_members name ((cid, ms) # cs) S = bind_r (drop_member name cid ms S) (drop_members name cs)"

fun add_member :: "string \<Rightarrow> string \<Rightarrow> (string \<times> bool) list \<Rightarrow> string set \<Rightarrow> string set" where
  "add_member name cid [] S = S"
| "add_member name cid ((n, installed) # ms) S =
     (if n \<noteq> name then add_member name cid ms S
      else if \<not> installed then add_member name cid ms S
      else add_member name cid ms (insert cid S))"

fun add_members :: "string \<Rightarrow> (string \<times> (string \<times> bool) list) list \<Rightarrow> string set \<Rightarrow> string set" where
  "add_members name [] S = S"
| "add_members name ((cid, ms) # cs) S = add_members name cs (add_member name cid ms S)"

definition group_members :: "hist \<Rightarrow> (string, nat) dict \<Rightarrow> (string \<times> (string \<times> bool) list) list" where
  "group_members h d = map (\<lambda>(gid, a). (gid, map (\<lambda>p. (gk_name p, gk_installed p)) (sg_pkgs (group_at h a)))) d"

definition env_members :: "hist \<Rightarrow> (string, nat) dict \<Rightarrow> (string \<times> (string \<times> bool) list) list" where
  "env_members h d = map (\<lambda>(eid, a). (eid, map (\<lambda>g. (eg_id g, eg_installed g)) (se_groups (env_at h a)))) d"

definition is_removable_pkg :: "swdb \<Rightarrow> hist \<Rightarrow> string \<Rightarrow> bool res" where
  "is_removable_pkg q h pkg_name =
     (if sq_reason q pkg_name [] (-2) \<noteq> GROUP then Inr False
      else bind_r (drop_members pkg_name (group_members h (pe_removed (h_gp h))) (set (sq_package_groups q pkg_name))) (\<lambda>S.
        Inr (add_members pkg_name (group_members h (pe_installed (h_gp h))) S = {})))"

subsection \<open>EnvironmentPersistor\<close>

definition put_ep :: "pers \<Rightarrow> hist \<Rightarrow> hist" where
  "put_ep p h = h\<lparr>h_ep := p\<rparr>"

definition env_obj_id :: "hist \<Rightarrow> nat \<Rightarrow> string" where
  "env_obj_id h a = se_id (env_at h a)"

definition env_new :: "string \<Rightarrow> string option \<Rightarrow> string option \<Rightarrow> ptype set \<Rightarrow> (hist, nat) prog" where
  "env_new obj_id name translated_name pkg_types =
     alloc_env \<lparr>se_id = obj_id, se_name = name, se_tname = translated_name, se_types = pkg_types, se_groups = []\<rparr>"

definition env_get :: "swdb \<Rightarrow> string \<Rightarrow> (hist, nat option) prog" where
  "env_get q obj_id =
     (case sq_env q obj_id of
        None \<Rightarrow> return_p None
      | Some e \<Rightarrow> bind_p (alloc_env e) (\<lambda>a. return_p (Some a)))"

definition is_removable_group :: "swdb \<Rightarrow> hist \<Rightarrow> string \<Rightarrow> bool res" where
  "is_removable_group q h group_id =
     (case sq_group q group_id of
        None \<Rightarrow> Inr False
      | Some _ \<Rightarrow>
          bind_r (drop_members group_id (env_members h (pe_removed (h_ep h))) (set (sq_group_envs q group_id))) (\<lambda>S.
            Inr (add_members group_id (env_members h (pe_installed (h_ep h))) S = {})))"

subsection \<open>What a persistor promises\<close>

text \<open>
  The interface of a persistor towards the solver: its dictionaries are a part of the history that
  can be read and replaced, replacing them leaves the objects and the log alone, and logging leaves
  the dictionaries and the objects alone.
\<close>

locale persistor =
  fixes get :: "hist \<Rightarrow> pers" and put :: "pers \<Rightarrow> hist \<Rightarrow> hist"
    and obj_id :: "hist \<Rightarrow> nat \<Rightarrow> string" and item :: "nat \<Rightarrow> item_ref" and size_of :: "hist \<Rightarrow> nat"
  assumes get_put: "get (put p h) = p"
    and put_log: "h_log (put p h) = h_log h"
    and put_id: "obj_id (put p h) = obj_id h"
    and put_size: "size_of (put p h) = size_of h"
    and log_get: "get (h\<lparr>h_log := l\<rparr>) = get h"
    and log_id: "obj_id (h\<lparr>h_log := l\<rparr>) = obj_id h"
    and log_size: "size_of (h\<lparr>h_log := l\<rparr>) = size_of h"
    and item_inj: "item a = item b \<longleftrightarrow> a = b"
begin

definition entries_ok :: "hist \<Rightarrow> action \<Rightarrow> (string, nat) dict \<Rightarrow> bool" where
  "entries_ok h act d \<longleftrightarrow> dict_wf d \<and>
     (\<forall>k a. map_of d k = Some a \<longrightarrow> a < size_of h \<and> obj_id h a = k \<and> AddItem (item a) act USER \<in> set (h_log h))"

definition registry_ok :: "hist \<Rightarrow> bool" where
  "registry_ok h \<longleftrightarrow> entries_ok h INSTALL (pe_installed (get h)) \<and> entries_ok h REMOVE (pe_removed (get h)) \<and>
     entries_ok h UPGRADE (pe_upgraded (get h)) \<and> entries_ok h DOWNGRADE (pe_downgraded (get h))"

lemma entries_ok_mono:
  "entries_ok h act d \<Longrightarrow> (\<And>a. a < size_of h \<Longrightarrow> obj_id h' a = obj_id h a) \<Longrightarrow> size_of h \<le> size_of h' \<Longrightarrow>
     set (h_log h) \<subseteq> set (h_log h') \<Longrightarrow> entries_ok h' act d"
  by (fastforce simp: entries_ok_def)

lemma registry_mono:
  "registry_ok h \<Longrightarrow> (\<And>a. a < size_of h \<Longrightarrow> obj_id h' a = obj_id h a) \<Longrightarrow> size_of h \<le> size_of h' \<Longrightarrow> get h' = get h \<Longrightarrow>
     set (h_log h) \<subseteq> set (h_log h') \<Longrightarrow> registry_ok h'"
  unfolding registry_ok_def by (auto intro: entries_ok_mono)

lemma entries_ok_set:
  "entries_ok h act d \<Longrightarrow> a < size_of h \<Longrightarrow> AddItem (item a) act USER \<in> set (h_log h) \<Longrightarrow>
     entries_ok h act (dict_set (obj_id h a) a d)"
  by (auto simp: entries_ok_def)

lemmas frame = get_put put_log put_id put_size log_get log_id log_size

lemma run_install:
  "pers_install get put obj_id item a h =
     (Inr (), (put ((get h)\<lparr>pe_installed := dict_set (obj_id h a) a (pe_installed (get h))\<rparr>) h)
        \<lparr>h_log := h_log h @ [AddItem (item a) INSTALL USER, SetState (item a) ST_DONE]\<rparr>)"
  by (simp add: pers_install_def add_to_history_def then_p_apply frame)

lemma run_remove:
  "pers_remove get put obj_id item a h =
     (Inr (), (put ((get h)\<lparr>pe_removed := dict_set (obj_id h a) a (pe_removed (get h))\<rparr>) h)
        \<lparr>h_log := h_log h @ [AddItem (item a) REMOVE USER, SetState (item a) ST_DONE]\<rparr>)"
  by (simp add: pers_remove_def add_to_history_def then_p_apply frame)

lemma run_upgrade:
  "pers_upgrade get put obj_id item a h =
     (Inr (), (put ((get h)\<lparr>pe_upgraded := dict_set (obj_id h a) a (pe_upgraded (get h))\<rparr>) h)
        \<lparr>h_log := h_log h @ [AddItem (item a) UPGRADE USER, SetState (item a) ST_DONE]\<rparr>)"
  by (simp add: pers_upgrade_def add_to_history_def then_p_apply frame)

lemma run_downgrade:
  "pers_downgrade get put obj_id item a h =
     (Inr (), (put ((get h)\<lparr>pe_downgraded := dict_set (obj_id h a) a (pe_downgraded (get h))\<rparr>) h)
        \<lparr>h_log := h_log h @ [AddItem (item a) DOWNGRADE USER, SetState (item a) ST_DONE]\<rparr>)"
  by (simp add: pers_downgrade_def add_to_history_def then_p_apply frame)

lemmas runs = run_install run_remove run_upgrade run_downgrade

lemma entries_ok_log: "entries_ok h act d \<Longrightarrow> entries_ok ((put p h)\<lparr>h_log := h_log h @ l\<rparr>) act d"
  by (rule entries_ok_mono) (auto simp: frame)

lemma entries_ok_new:
  "entries_ok h act d \<Longrightarrow> a < size_of h \<Longrightarrow>
     entries_ok ((put p h)\<lparr>h_log := h_log h @ [AddItem (item a) act USER, SetState (item a) ST_DONE]\<rparr>) act (dict_set (obj_id h a) a d)"
proof -
  let ?h = "(put p h)\<lparr>h_log := h_log h @ [AddItem (item a) act USER, SetState (item a) ST_DONE]\<rparr>"
  assume "entries_ok h act d" and "a < size_of h"
  with entries_ok_log have "entries_ok ?h act d" "a < size_of ?h" by (simp_all add: frame)
  then have "entries_ok ?h act (dict_set (obj_id ?h a) a d)" by (rule entries_ok_set) simp
  then show ?thesis by (simp add: frame)
qed

lemma registry_step:
  assumes "registry_ok h" and "a < size_of h"
  shows "registry_ok (snd (pers_install get put obj_id item a h))"
    and "registry_ok (snd (pers_remove get put obj_id item a h))"
    and "registry_ok (snd (pers_upgrade get put obj_id item a h))"
    and "registry_ok (snd (pers_downgrade get put obj_id item a h))"
  using assms unfolding registry_ok_def runs snd_conv by (simp_all add: frame entries_ok_log entries_ok_new)

lemma registry_clean: "registry_ok (snd (pers_clean put h))"
  by (simp add: registry_ok_def pers_clean_def no_pers_def entries_ok_def frame)

end

interpretation group_persistor: persistor h_gp put_gp group_obj_id GroupItem "\<lambda>h. length (h_groups h)"
  by unfold_locales (auto simp: put_gp_def group_obj_id_def group_at_def fun_eq_iff)

interpretation env_persistor: persistor h_ep put_ep env_obj_id EnvItem "\<lambda>h. length (h_envs h)"
  by unfold_locales (auto simp: put_ep_def env_obj_id_def env_at_def fun_eq_iff)

definition gp_install :: "nat \<Rightarrow> (hist, unit) prog" where
  "gp_install = pers_install h_gp put_gp group_obj_id GroupItem"

definition gp_remove :: "nat \<Rightarrow> (hist, unit) prog" where
  "gp_remove = pers_remove h_gp put_gp group_obj_id GroupItem"

definition gp_upgrade :: "nat \<Rightarrow> (hist, unit) prog" where
  "gp_upgrade = pers_upgrade h_gp put_gp group_obj_id GroupItem"

definition gp_downgrade :: "nat \<Rightarrow> (hist, unit) prog" where
  "gp_downgrade = pers_downgrade h_gp put_gp group_obj_id GroupItem"

definition ep_install :: "nat \<Rightarrow> (hist, unit) prog" where
  "ep_install = pers_install h_ep put_ep env_obj_id EnvItem"

definition ep_remove :: "nat \<Rightarrow> (hist, unit) prog" where
  "ep_remove = pers_remove h_ep put_ep env_obj_id EnvItem"

definition ep_upgrade :: "nat \<Rightarrow> (hist, unit) prog" where
  "ep_upgrade = pers_upgrade h_ep put_ep env_obj_id EnvItem"

definition ep_downgrade :: "nat \<Rightarrow> (hist, unit) prog" where
  "ep_downgrade = pers_downgrade h_ep put_ep env_obj_id EnvItem"

text \<open>Both registries at once: every entry is an object of that id that was reported with that action.\<close>

definition hist_ok :: "hist \<Rightarrow> bool" where
  "hist_ok h \<longleftrightarrow> group_persistor.registry_ok h \<and> env_persistor.registry_ok h"

definition hist0 :: hist where
  "hist0 = \<lparr>h_groups = [], h_envs = [], h_gp = no_pers, h_ep = no_pers, h_log = []\<rparr>"

lemma hist_ok_0: "hist_ok hist0"
  by (simp add: hist_ok_def hist0_def group_persistor.registry_ok_def env_persistor.registry_ok_def
      group_persistor.entries_ok_def env_persistor.entries_ok_def no_pers_def)

subsection \<open>Removability\<close>

definition lists_member :: "string \<Rightarrow> (string \<times> (string \<times> bool) list) list \<Rightarrow> string \<Rightarrow> bool" where
  "lists_member name cs cid \<longleftrightarrow> (\<exists>ms. (cid, ms) \<in> set cs \<and> (name, True) \<in> set ms)"

text \<open>
  What the loops rely on: a removed container appears once, lists a member at most once as installed,
  and the database knows that it contains it.
\<close>

definition removal_consistent :: "string \<Rightarrow> (string \<times> (string \<times> bool) list) list \<Rightarrow> string set \<Rightarrow> bool" where
  "removal_consistent name cs S \<longleftrightarrow> distinct (map fst cs) \<and>
     list_all (\<lambda>(cid, ms). length (filter (\<lambda>m. m = (name, True)) ms) \<le> 1 \<and> ((name, True) \<in> set ms \<longrightarrow> cid \<in> S)) cs"

lemma drop_member_absent: "(name, True) \<notin> set ms \<Longrightarrow> drop_member name cid ms S = Inr S"
  by (induction name cid ms S rule: drop_member.induct) auto

lemma drop_member_once:
  "length (filter (\<lambda>m. m = (name, True)) ms) \<le> 1 \<Longrightarrow> (name, True) \<in> set ms \<Longrightarrow> cid \<in> S \<Longrightarrow>
     drop_member name cid ms S = Inr (S - {cid})"
proof (induction name cid ms S rule: drop_member.induct)
  case (2 name cid n installed ms S)
  show ?case
  proof (cases "n = name \<and> installed")
    case True
    with 2(4) have "(name, True) \<notin> set ms" by (auto simp: filter_empty_conv)
    with True 2(6) show ?thesis by (simp add: drop_member_absent)
  qed (use 2 in auto)
qed simp

lemma consistent_tail:
  assumes "removal_consistent name ((cid, ms) # cs) S"
  shows "removal_consistent name cs S" and "removal_consistent name cs (S - {cid})"
proof -
  from assms have d: "distinct (map fst cs)" "cid \<notin> set (map fst cs)"
    and a: "list_all (\<lambda>(c, ms). length (filter (\<lambda>m. m = (name, True)) ms) \<le> 1 \<and> ((name, True) \<in> set ms \<longrightarrow> c \<in> S)) cs"
    by (simp_all add: removal_consistent_def)
  then show "removal_consistent name cs S" by (simp add: removal_consistent_def)
  have "list_all (\<lambda>(c, ms). length (filter (\<lambda>m. m = (name, True)) ms) \<le> 1 \<and> ((name, True) \<in> set ms \<longrightarrow> c \<in> S - {cid})) cs"
    using a d(2) by (induction cs) auto
  with d show "removal_consistent name cs (S - {cid})" by (simp add: removal_consistent_def)
qed

lemma left_over_empty:
  "{c \<in> A. \<not> P c} \<union> {c. Q c} = {} \<longleftrightarrow> (\<forall>c \<in> A. P c) \<and> (\<forall>c. \<not> Q c)"
  by auto

lemma drop_members_spec:
  "removal_consistent name cs S \<Longrightarrow> drop_members name cs S = Inr {cid \<in> S. \<not> lists_member name cs cid}"
proof (induction name cs S rule: drop_members.induct)
  case (2 name cid ms cs S)
  let ?T = "if (name, True) \<in> set ms then S - {cid} else S"
  from 2(2) have step: "drop_member name cid ms S = Inr ?T"
    by (auto simp: removal_consistent_def drop_member_absent drop_member_once)
  have "removal_consistent name cs ?T" using consistent_tail [OF 2(2)] by simp
  with 2(1) [of ?T] have "drop_members name cs ?T = Inr {c \<in> ?T. \<not> lists_member name cs c}" by simp
  moreover have "{c \<in> ?T. \<not> lists_member name cs c} = {c \<in> S. \<not> lists_member name ((cid, ms) # cs) c}"
    by (auto simp: lists_member_def)
  ultimately show ?case by (simp add: step)
qed (simp add: lists_member_def)

lemma add_member_spec: "add_member name cid ms S = (if (name, True) \<in> set ms then insert cid S else S)"
  by (induction name cid ms S rule: add_member.induct) auto

lemma add_members_spec: "add_members name cs S = S \<union> {cid. lists_member name cs cid}"
proof (induction name cs S rule: add_members.induct)
  case (2 name cid ms cs S)
  then show ?case by (auto simp: add_member_spec lists_member_def)
qed (simp add: lists_member_def)

lemma is_removable_pkg_spec:
  assumes "removal_consistent name (group_members h (pe_removed (h_gp h))) (set (sq_package_groups q name))"
  shows "is_removable_pkg q h name = Inr
    (sq_reason q name [] (-2) = GROUP \<and>
     (\<forall>g \<in> set (sq_package_groups q name). lists_member name (group_members h (pe_removed (h_gp h))) g) \<and>
     (\<forall>g. \<not> lists_member name (group_members h (pe_installed (h_gp h))) g))"
proof (cases "sq_reason q name [] (-2) = GROUP")
  case True
  then show ?thesis
    by (simp only: is_removable_pkg_def drop_members_spec [OF assms] add_members_spec bind_r_simps left_over_empty
      not_True_eq_False if_False simp_thms)
qed (simp add: is_removable_pkg_def)

definition example_group :: swdb_group where
  "example_group = \<lparr>sg_id = ''base'', sg_name = None, sg_tname = None, sg_types = {MANDATORY},
     sg_pkgs = [\<lparr>gk_name = ''tour'', gk_installed = True, gk_type = {MANDATORY}\<rparr>]\<rparr>"

definition example_swdb :: swdb where
  "example_swdb = \<lparr>sq_group = (\<lambda>i. if i = ''base'' then Some example_group else None), sq_env = (\<lambda>_. None),
     sq_package_groups = (\<lambda>n. if n = ''tour'' then [''base''] else []), sq_group_envs = (\<lambda>_. []),
     sq_reason = (\<lambda>_ _ _. GROUP), sq_groups_by_pattern = (\<lambda>_. []), sq_envs_by_pattern = (\<lambda>_. [])\<rparr>"

definition example_hist :: hist where
  "example_hist = hist0\<lparr>h_groups := [example_group], h_gp := no_pers\<lparr>pe_removed := [(''base'', 0)]\<rparr>\<rparr>"

text \<open>
  When a group of an environment may go: \<open>is_removable_group\<close> answers yes exactly if the group is
  installed and, after the removals and installations of this transaction, no environment contains
  it any more; it does not raise as long as the removed environments agree with the database.
\<close>

theorem removable_group:
  assumes "removal_consistent gid (env_members h (pe_removed (h_ep h))) (set (sq_group_envs q gid))"
  shows "is_removable_group q h gid = Inr
    (sq_group q gid \<noteq> None \<and>
     (\<forall>e \<in> set (sq_group_envs q gid). lists_member gid (env_members h (pe_removed (h_ep h))) e) \<and>
     (\<forall>e. \<not> lists_member gid (env_members h (pe_installed (h_ep h))) e))"
proof (cases "sq_group q gid")
  case (Some g)
  then show ?thesis
    by (simp only: is_removable_group_def drop_members_spec [OF assms] add_members_spec bind_r_simps left_over_empty
      option.case option.distinct simp_thms)
qed (simp add: is_removable_group_def)

lemma removable_group_witness: "is_removable_group example_swdb hist0 ''base'' = Inr True"
proof -
  have "removal_consistent ''base'' (env_members hist0 (pe_removed (h_ep hist0))) (set (sq_group_envs example_swdb ''base''))"
    by (simp add: removal_consistent_def env_members_def hist0_def no_pers_def)
  from removable_group [OF this] show ?thesis
    by (simp add: lists_member_def example_swdb_def env_members_def hist0_def no_pers_def)
qed

end
