(* ===== verification/Comps.thy ===== *)
theory Comps
  imports Glob Persistor "HOL-Library.Multiset"
begin

text \<open>
  dnf/comps.py, the data: categories, environments, groups and packages of the comps metadata as
  libcomps holds them, the lookups by id and by pattern, and \<open>CompsQuery\<close>.  A Python set of objects
  has no order of its own: where the code iterates over one, the order is the parameter \<open>arrange\<close>, a
  rearrangement of the elements.
\<close>

subsection \<open>Languages\<close>

text \<open>\<open>_Langs\<close>: the locale last seen and the list computed for it.  \<open>expand\<close> is \<open>gettext._expand_lang\<close>.\<close>

record langs =
  lg_last_locale :: "string option"
  lg_cache :: "string list"

definition dotted_locale_str :: "string option \<times> string option \<Rightarrow> string res" where
  "dotted_locale_str lcl =
     (case lcl of
        (None, None) \<Rightarrow> Inr ''C''
      | (Some a, Some b) \<Rightarrow> Inr (a @ ''.'' @ b)
      | _ \<Rightarrow> Inl TypeError)"

fun add_langs :: "string list \<Rightarrow> string list \<Rightarrow> string list" where
  "add_langs cache [] = cache"
| "add_langs cache (n # ns) = add_langs (if n \<notin> set cache then cache @ [n] else cache) ns"

definition langs_get :: "(string \<Rightarrow> string list) \<Rightarrow> string option \<times> string option \<Rightarrow> (langs, string list) prog" where
  "langs_get expand lcl =
     bind_p (lift_p (dotted_locale_str lcl)) (\<lambda>current_locale.
     bind_p (gets_p lg_last_locale) (\<lambda>last.
       if last = Some current_locale then gets_p lg_cache
       else
         let locales = [current_locale] @ (if current_locale \<noteq> ''C'' then [''C''] else []);
             cache = fold (\<lambda>l c. add_langs c (expand l)) locales []
         in then_p (modify_p (\<lambda>s. s\<lparr>lg_cache := cache, lg_last_locale := Some current_locale\<rparr>)) (return_p cache)))"

fun ui_text :: "string list \<Rightarrow> string option \<Rightarrow> (string, string) dict \<Rightarrow> string option" where
  "ui_text [] dflt dct = dflt"
| "ui_text (l # ls) dflt dct = (case map_of dct l of Some t \<Rightarrow> Some t | None \<Rightarrow> ui_text ls dflt dct)"

subsection \<open>The metadata\<close>

datatype ltype = LT_CONDITIONAL | LT_DEFAULT | LT_MANDATORY | LT_OPTIONAL | LT_UNKNOWN

record comps_pkg =
  ck_name :: string
  ck_type :: ltype
  ck_basearchonly :: bool
  ck_requires :: "string option"

record comps_obj =
  co_id :: string
  co_name :: "string option"
  co_desc :: "string option"
  co_name_by_lang :: "(string, string) dict"
  co_desc_by_lang :: "(string, string) dict"
  co_display_order :: "int option"

record comps_group = comps_obj +
  cg_default :: bool
  cg_uservisible :: bool
  cg_packages :: "comps_pkg list"

record comps_env = comps_obj +
  ce_group_ids :: "string list"
  ce_option_ids :: "string list"

record comps_category = comps_obj +
  cc_group_ids :: "string list"

record comps =
  cs_groups :: "comps_group list"
  cs_envs :: "comps_env list"
  cs_categories :: "comps_category list"
  cs_langs :: "string list"

definition comps_len :: "comps \<Rightarrow> nat" where
  "comps_len c = length (cs_categories c) + length (cs_groups c) + length (cs_envs c)"

text \<open>\<open>Forwarder.ui_name\<close> and \<open>ui_description\<close>.\<close>

definition ui_name :: "string list \<Rightarrow> ('a comps_obj_scheme) \<Rightarrow> string option" where
  "ui_name langs g = ui_text langs (co_name g) (co_name_by_lang g)"

definition ui_description :: "string list \<Rightarrow> ('a comps_obj_scheme) \<Rightarrow> string option" where
  "ui_description langs g = ui_text langs (co_desc g) (co_desc_by_lang g)"

definition packages_of_type :: "ltype \<Rightarrow> comps_group \<Rightarrow> comps_pkg list" where
  "packages_of_type ty g = filter (\<lambda>p. ck_type p = ty) (cg_packages g)"

definition mandatory_packages :: "comps_group \<Rightarrow> comps_pkg list" where
  "mandatory_packages = packages_of_type LT_MANDATORY"

definition default_packages :: "comps_group \<Rightarrow> comps_pkg list" where
  "default_packages = packages_of_type LT_DEFAULT"

definition optional_packages :: "comps_group \<Rightarrow> comps_pkg list" where
  "optional_packages = packages_of_type LT_OPTIONAL"

definition conditional_packages :: "comps_group \<Rightarrow> comps_pkg list" where
  "conditional_packages = packages_of_type LT_CONDITIONAL"

text \<open>\<open>Package._OPT_MAP\<close>; the key that is missing prints as the number \<open>num\<close> gives it.\<close>

definition opt_map :: "(ltype \<Rightarrow> int) \<Rightarrow> ltype \<Rightarrow> ptype res" where
  "opt_map num ty =
     (case ty of
        LT_CONDITIONAL \<Rightarrow> Inr CONDITIONAL
      | LT_DEFAULT \<Rightarrow> Inr DEFAULT
      | LT_MANDATORY \<Rightarrow> Inr MANDATORY
      | LT_OPTIONAL \<Rightarrow> Inr OPTIONAL
      | LT_UNKNOWN \<Rightarrow> Inl (KeyError (int_str (num ty))))"

subsection \<open>Lookups\<close>

text \<open>\<open>_by_pattern\<close>: the members found, in the order of the sequence.\<close>

definition by_pattern ::
  "string list \<Rightarrow> string \<Rightarrow> bool \<Rightarrow> 'a comps_obj_scheme list \<Rightarrow> 'a comps_obj_scheme list" where
  "by_pattern langs pat case_sensitive sqn =
     (let exact = filter (\<lambda>g. co_name g = Some pat \<or> co_id g = pat) sqn
      in if exact \<noteq> [] then exact
         else let matches = (if case_sensitive then (\<lambda>s. fnmatch s pat) else (\<lambda>s. fnmatch_ci s pat))
              in filter (\<lambda>g. if matches (co_id g) then True
                   else if (case co_name g of None \<Rightarrow> False | Some n \<Rightarrow> matches n) then True
                   else (case ui_name langs g of None \<Rightarrow> False | Some n \<Rightarrow> matches n)) sqn)"

definition fn_display_order :: "int \<Rightarrow> 'a comps_obj_scheme \<Rightarrow> int" where
  "fn_display_order maxsize g = (case co_display_order g of None \<Rightarrow> maxsize | Some n \<Rightarrow> n)"

text \<open>\<open>sys.maxsize\<close> of a 64-bit interpreter.\<close>

definition maxsize :: int where
  "maxsize = 2 ^ 63 - 1"

definition groups_by_pattern ::
  "(comps_group list \<Rightarrow> comps_group list) \<Rightarrow> comps \<Rightarrow> string \<Rightarrow> bool \<Rightarrow> comps_group list" where
  "groups_by_pattern arrange c pat cs =
     sort_key (fn_display_order maxsize) (arrange (by_pattern (cs_langs c) pat cs (cs_groups c)))"

definition environments_by_pattern ::
  "(comps_env list \<Rightarrow> comps_env list) \<Rightarrow> comps \<Rightarrow> string \<Rightarrow> bool \<Rightarrow> comps_env list" where
  "environments_by_pattern arrange c pat cs =
     sort_key (fn_display_order maxsize) (arrange (by_pattern (cs_langs c) pat cs (cs_envs c)))"

definition categories_by_pattern :: "comps \<Rightarrow> string \<Rightarrow> bool \<Rightarrow> comps_category list" where
  "categories_by_pattern c pat cs = by_pattern (cs_langs c) pat cs (cs_categories c)"

definition first_if_iterable :: "'a list option \<Rightarrow> 'a option" where
  "first_if_iterable sqn = (case sqn of None \<Rightarrow> None | Some [] \<Rightarrow> None | Some (x # _) \<Rightarrow> Some x)"

definition group_by_pattern ::
  "(comps_group list \<Rightarrow> comps_group list) \<Rightarrow> comps \<Rightarrow> string \<Rightarrow> bool \<Rightarrow> comps_group option" where
  "group_by_pattern arrange c pat cs = first_if_iterable (Some (groups_by_pattern arrange c pat cs))"

definition environment_by_pattern ::
  "(comps_env list \<Rightarrow> comps_env list) \<Rightarrow> comps \<Rightarrow> string \<Rightarrow> bool \<Rightarrow> comps_env option" where
  "environment_by_pattern arrange c pat cs = first_if_iterable (Some (environments_by_pattern arrange c pat cs))"

definition sorted_groups :: "comps \<Rightarrow> comps_group list" where
  "sorted_groups c = sort_key (fn_display_order maxsize) (cs_groups c)"

definition sorted_environments :: "comps \<Rightarrow> comps_env list" where
  "sorted_environments c = sort_key (fn_display_order maxsize) (cs_envs c)"

definition group_by_id :: "comps \<Rightarrow> string \<Rightarrow> comps_group option" where
  "group_by_id c i = find (\<lambda>g. co_id g = i) (cs_groups c)"

definition environment_by_id :: "comps \<Rightarrow> string \<Rightarrow> comps_env option" where
  "environment_by_id c i = find (\<lambda>e. co_id e = i) (cs_envs c)"

text \<open>\<open>Environment._build_group\<close>, \<open>_build_groups\<close>: the groups found, and what is logged of the others.\<close>

definition build_group :: "comps \<Rightarrow> comps_env \<Rightarrow> string \<Rightarrow> comps_group res" where
  "build_group c env gid =
     (case group_by_id c gid of
        None \<Rightarrow> Inl (ValueError (''no group '' @ sq @ gid @ sq @ '' from environment '' @ sq @ co_id env @ sq))
      | Some g \<Rightarrow> Inr g)"

fun build_groups :: "comps \<Rightarrow> comps_env \<Rightarrow> string list \<Rightarrow> comps_group list \<times> exn list" where
  "build_groups c env [] = ([], [])"
| "build_groups c env (gid # ids) =
     (let (gs, es) = build_groups c env ids
      in case build_group c env gid of Inl e \<Rightarrow> (gs, e # es) | Inr g \<Rightarrow> (g # gs, es))"

definition mandatory_groups :: "comps \<Rightarrow> comps_env \<Rightarrow> comps_group list" where
  "mandatory_groups c env = fst (build_groups c env (ce_group_ids env))"

definition optional_groups :: "comps \<Rightarrow> comps_env \<Rightarrow> comps_group list" where
  "optional_groups c env = fst (build_groups c env (ce_option_ids env))"

definition env_groups_iter :: "comps \<Rightarrow> comps_env \<Rightarrow> comps_group list" where
  "env_groups_iter c env = fst (build_groups c env (ce_group_ids env @ ce_option_ids env))"

text \<open>A category has no tolerance for a group that is missing.\<close>

definition category_groups :: "comps \<Rightarrow> comps_category \<Rightarrow> comps_group list res" where
  "category_groups c cat =
     map_r (\<lambda>gid. case group_by_id c gid of
        None \<Rightarrow> Inl (ValueError (''no group '' @ sq @ gid @ sq @ '' from category '' @ sq @ co_id cat @ sq))
      | Some g \<Rightarrow> Inr g) (cc_group_ids cat)"

subsection \<open>CompsQuery\<close>

record comps_query =
  cq_environments :: bool
  cq_groups :: bool
  cq_available :: bool
  cq_installed :: bool

definition get_groups :: "comps_query \<Rightarrow> comps_group list \<Rightarrow> swdb_group option list \<Rightarrow> string set" where
  "get_groups cq available installed =
     (if cq_available cq then set (map co_id available) else {}) \<union>
     (if cq_installed cq then set (map sg_id (concat (map (\<lambda>i. case i of None \<Rightarrow> [] | Some g \<Rightarrow> [g]) installed))) else {})"

definition get_envs :: "comps_query \<Rightarrow> comps_env list \<Rightarrow> swdb_env option list \<Rightarrow> string set" where
  "get_envs cq available installed =
     (if cq_available cq then set (map co_id available) else {}) \<union>
     (if cq_installed cq then set (map se_id (concat (map (\<lambda>i. case i of None \<Rightarrow> [] | Some e \<Rightarrow> [e]) installed))) else {})"

definition query_error :: "comps_query \<Rightarrow> string \<Rightarrow> exn" where
  "query_error cq pat =
     CompsError (''Module or Group '' @ sq @ pat @ sq @
       (if cq_installed cq \<and> \<not> cq_available cq then '' is not installed.''
        else if cq_available cq \<and> \<not> cq_installed cq then '' is not available.''
        else '' does not exist.''))"

text \<open>What one pattern finds: the ids of environments and of groups.\<close>

definition query_envs :: "swdb \<Rightarrow> comps \<Rightarrow> comps_query \<Rightarrow> string \<Rightarrow> string set" where
  "query_envs q c cq pat =
     (if cq_environments cq
      then get_envs cq (environments_by_pattern (\<lambda>x. x) c pat False) (sq_envs_by_pattern q pat) else {})"

definition query_groups :: "swdb \<Rightarrow> comps \<Rightarrow> comps_query \<Rightarrow> string \<Rightarrow> string set" where
  "query_groups q c cq pat =
     (if cq_groups cq
      then get_groups cq (groups_by_pattern (\<lambda>x. x) c pat False) (sq_groups_by_pattern q pat) else {})"

fun query_loop ::
  "(string set \<Rightarrow> string list) \<Rightarrow> swdb \<Rightarrow> comps \<Rightarrow> comps_query \<Rightarrow> string list \<times> string list \<Rightarrow> string list \<Rightarrow>
     (string list \<times> string list) res" where
  "query_loop elems q c cq res [] = Inr res"
| "query_loop elems q c cq (es, gs) (pat # pats) =
     (let envs = query_envs q c cq pat; grps = query_groups q c cq pat
      in if envs = {} \<and> grps = {} then Inl (query_error cq pat)
         else query_loop elems q c cq (es @ elems envs, gs @ elems grps) pats)"

definition query_get ::
  "(string set \<Rightarrow> string list) \<Rightarrow> swdb \<Rightarrow> comps \<Rightarrow> comps_query \<Rightarrow> string list \<Rightarrow> (string list \<times> string list) res" where
  "query_get elems q c cq patterns = query_loop elems q c cq ([], []) patterns"

subsection \<open>Lemmas\<close>

lemma find_SomeD: "find P xs = Some x \<Longrightarrow> x \<in> set xs \<and> P x"
  by (induction xs) (auto split: if_splits)

lemma group_by_idD: "group_by_id c i = Some g \<Longrightarrow> co_id g = i"
  by (auto simp: group_by_id_def dest: find_SomeD)

lemma environment_by_idD: "environment_by_id c i = Some e \<Longrightarrow> co_id e = i"
  by (auto simp: environment_by_id_def dest: find_SomeD)

lemma build_groups_eq: "fst (build_groups c env ids) = concat (map (\<lambda>i. case group_by_id c i of None \<Rightarrow> [] | Some g \<Rightarrow> [g]) ids)"
  by (induction ids) (auto simp: build_group_def Let_def split: prod.splits option.splits)

lemma built_groups_known: "g \<in> set (fst (build_groups c env ids)) \<Longrightarrow> group_by_id c (co_id g) = Some g"
proof -
  assume "g \<in> set (fst (build_groups c env ids))"
  then obtain i where "group_by_id c i = Some g" by (auto simp: build_groups_eq split: option.splits)
  with group_by_idD [OF this] show ?thesis by simp
qed

lemma add_langs_spec: "distinct cache \<Longrightarrow> distinct (add_langs cache ns) \<and> set (add_langs cache ns) = set cache \<union> set ns"
  by (induction ns arbitrary: cache) auto

lemma by_pattern_subset: "set (by_pattern langs pat cs sqn) \<subseteq> set sqn"
  by (auto simp: by_pattern_def Let_def)

text \<open>
  Finding a group: when some group has the pattern for its id or name, exactly these are found
  even if the pattern has special characters that match others; otherwise, without a special
  character, the groups found are those whose id, name or translated name agrees up to case.  The
  result is in display order, groups without one last.
\<close>

theorem find_groups:
  assumes "\<And>xs. mset (arrange xs) = mset xs"
  shows "let found = groups_by_pattern arrange c pat False;
             exact = {g \<in> set (cs_groups c). co_name g = Some pat \<or> co_id g = pat};
             same = (\<lambda>s. map to_lower s = map to_lower pat)
         in (exact \<noteq> {} \<longrightarrow> set found = exact) \<and>
            (exact = {} \<and> no_glob pat \<longrightarrow> set found =
               {g \<in> set (cs_groups c). same (co_id g) \<or> (\<exists>n. co_name g = Some n \<and> same n) \<or>
                  (\<exists>n. ui_name (cs_langs c) g = Some n \<and> same n)}) \<and>
            sorted (map (fn_display_order maxsize) found)"
proof -
  let ?sqn = "cs_groups c"
  have set_arr: "set (arrange xs) = set xs" for xs using mset_eq_setD [OF assms] .
  then have found: "set (groups_by_pattern arrange c pat False) = set (by_pattern (cs_langs c) pat False ?sqn)"
    by (simp add: groups_by_pattern_def)
  have ex: "filter (\<lambda>g. co_name g = Some pat \<or> co_id g = pat) ?sqn \<noteq> [] \<longleftrightarrow>
      {g \<in> set ?sqn. co_name g = Some pat \<or> co_id g = pat} \<noteq> {}"
    by (auto simp: filter_empty_conv)
  show ?thesis
    unfolding Let_def
  proof (intro conjI impI)
    assume "{g \<in> set ?sqn. co_name g = Some pat \<or> co_id g = pat} \<noteq> {}"
    with ex show "set (groups_by_pattern arrange c pat False) = {g \<in> set ?sqn. co_name g = Some pat \<or> co_id g = pat}"
      unfolding found by (simp only: by_pattern_def Let_def if_True) auto
  next
    assume a: "{g \<in> set ?sqn. co_name g = Some pat \<or> co_id g = pat} = {} \<and> no_glob pat"
    with ex have "filter (\<lambda>g. co_name g = Some pat \<or> co_id g = pat) ?sqn = []" by blast
    with a show "set (groups_by_pattern arrange c pat False) =
       {g \<in> set ?sqn. map to_lower (co_id g) = map to_lower pat \<or> (\<exists>n. co_name g = Some n \<and> map to_lower n = map to_lower pat) \<or>
          (\<exists>n. ui_name (cs_langs c) g = Some n \<and> map to_lower n = map to_lower pat)}"
      unfolding found by (auto simp: by_pattern_def Let_def fnmatch_ci_plain split: option.splits if_splits)
  next
    show "sorted (map (fn_display_order maxsize) (groups_by_pattern arrange c pat False))"
      by (simp add: groups_by_pattern_def)
  qed
qed

definition example_obj :: "string \<Rightarrow> string \<Rightarrow> comps_obj" where
  "example_obj i n = \<lparr>co_id = i, co_name = Some n, co_desc = None, co_name_by_lang = [], co_desc_by_lang = [], co_display_order = None\<rparr>"

definition example_cgroup :: "string \<Rightarrow> string \<Rightarrow> comps_pkg list \<Rightarrow> comps_group" where
  "example_cgroup i n ps = comps_obj.extend (example_obj i n) \<lparr>cg_default = True, cg_uservisible = True, cg_packages = ps\<rparr>"

definition example_cpkg :: "string \<Rightarrow> ltype \<Rightarrow> comps_pkg" where
  "example_cpkg n ty = \<lparr>ck_name = n, ck_type = ty, ck_basearchonly = False, ck_requires = None\<rparr>"

definition example_cenv :: comps_env where
  "example_cenv = comps_obj.extend (example_obj ''sugar-desktop'' ''Sugar'') \<lparr>ce_group_ids = [''base'', ''gone''], ce_option_ids = [''games'']\<rparr>"

definition example_comps :: comps where
  "example_comps = \<lparr>cs_groups = [example_cgroup ''base'' ''Base'' [example_cpkg ''tour'' LT_MANDATORY, example_cpkg ''pepper'' LT_OPTIONAL],
       example_cgroup ''games'' ''Games'' []],
     cs_envs = [example_cenv], cs_categories = [], cs_langs = []\<rparr>"

lemmas example_defs = example_obj_def example_cgroup_def example_cpkg_def example_cenv_def example_comps_def
  comps_obj.defs

lemma find_groups_witness: "set (groups_by_pattern rev example_comps ''base'' False) = {example_cgroup ''base'' ''Base'' [example_cpkg ''tour'' LT_MANDATORY, example_cpkg ''pepper'' LT_OPTIONAL]}"
proof -
  have "\<And>xs :: comps_group list. mset (rev xs) = mset xs" by simp
  from find_groups [OF this, of example_comps "''base''"]
  have "{g \<in> set (cs_groups example_comps). co_name g = Some ''base'' \<or> co_id g = ''base''} \<noteq> {} \<longrightarrow>
    set (groups_by_pattern rev example_comps ''base'' False) = {g \<in> set (cs_groups example_comps). co_name g = Some ''base'' \<or> co_id g = ''base''}"
    unfolding Let_def by blast
  moreover have "{g \<in> set (cs_groups example_comps). co_name g = Some ''base'' \<or> co_id g = ''base''}
      = {example_cgroup ''base'' ''Base'' [example_cpkg ''tour'' LT_MANDATORY, example_cpkg ''pepper'' LT_OPTIONAL]}"
    by (auto simp: example_defs)
  ultimately show ?thesis by simp
qed

text \<open>A pattern that finds nothing at all.\<close>

definition finds_nothing :: "swdb \<Rightarrow> comps \<Rightarrow> comps_query \<Rightarrow> string \<Rightarrow> bool" where
  "finds_nothing q c cq pat \<longleftrightarrow> query_envs q c cq pat = {} \<and> query_groups q c cq pat = {}"

lemma query_finite [simp]: "finite (query_envs q c cq p)" "finite (query_groups q c cq p)"
  unfolding query_envs_def query_groups_def get_envs_def get_groups_def
  by (simp_all only: finite_Un finite_set finite.emptyI simp_thms split: if_split)

lemma query_loop_spec:
  assumes elems: "\<And>A. finite A \<Longrightarrow> set (elems A) = A"
  shows "case find (finds_nothing q c cq) pats of
      Some p \<Rightarrow> query_loop elems q c cq (es, gs) pats = Inl (query_error cq p)
    | None \<Rightarrow> \<exists>es' gs'. query_loop elems q c cq (es, gs) pats = Inr (es @ es', gs @ gs') \<and>
        set es' = (\<Union>p \<in> set pats. query_envs q c cq p) \<and> set gs' = (\<Union>p \<in> set pats. query_groups q c cq p)"
proof (induction pats arbitrary: es gs)
  case (Cons p pats)
  show ?case
  proof (cases "finds_nothing q c cq p")
    case True
    then show ?thesis by (simp add: finds_nothing_def)
  next
    case False
    then have step: "query_loop elems q c cq (es, gs) (p # pats)
        = query_loop elems q c cq (es @ elems (query_envs q c cq p), gs @ elems (query_groups q c cq p)) pats"
      by (auto simp: Let_def finds_nothing_def)
    note IH = Cons.IH [of "es @ elems (query_envs q c cq p)" "gs @ elems (query_groups q c cq p)"]
    show ?thesis
    proof (cases "find (finds_nothing q c cq) pats")
      case None
      with IH obtain es' gs' where "query_loop elems q c cq (es, gs) (p # pats)
          = Inr ((es @ elems (query_envs q c cq p)) @ es', (gs @ elems (query_groups q c cq p)) @ gs')"
        "set es' = (\<Union>p \<in> set pats. query_envs q c cq p)" "set gs' = (\<Union>p \<in> set pats. query_groups q c cq p)"
        unfolding step by auto
      moreover have "find (finds_nothing q c cq) (p # pats) = None" using False None by simp
      ultimately show ?thesis
        using elems [OF query_finite(1), of q c cq p] elems [OF query_finite(2), of q c cq p] by simp
    next
      case (Some x)
      with IH False show ?thesis unfolding step by simp
    qed
  qed
qed simp

text \<open>
  The query for groups and environments: it fails exactly if some pattern finds neither an
  environment nor a group of the kinds and states asked for, and then with the error for the first
  such pattern, worded after the state asked for; otherwise the ids returned are those the patterns
  find.
\<close>

theorem query_result:
  assumes "\<And>A. finite A \<Longrightarrow> set (elems A) = A"
  shows "case find (finds_nothing q c cq) pats of
      Some p \<Rightarrow> query_get elems q c cq pats = Inl (query_error cq p)
    | None \<Rightarrow> \<exists>es gs. query_get elems q c cq pats = Inr (es, gs) \<and>
        set es = (\<Union>p \<in> set pats. query_envs q c cq p) \<and> set gs = (\<Union>p \<in> set pats. query_groups q c cq p)"
  unfolding query_get_def
  by (rule query_loop_spec [where es = "[]" and gs = "[]", unfolded append_Nil]) (rule assms)

lemma query_result_witness:
  "query_get sorted_list_of_set example_swdb example_comps
     \<lparr>cq_environments = True, cq_groups = True, cq_available = True, cq_installed = False\<rparr> [''nothing'']
   = Inl (CompsError (''Module or Group '' @ sq @ ''nothing'' @ sq @ '' is not available.''))"
proof -
  let ?cq = "\<lparr>cq_environments = True, cq_groups = True, cq_available = True, cq_installed = False\<rparr>"
  have sp: "no_glob ''nothing''" by (simp add: no_glob_def)
  have "finds_nothing example_swdb example_comps ?cq ''nothing''"
    by (simp add: finds_nothing_def query_envs_def query_groups_def get_envs_def get_groups_def environments_by_pattern_def
      groups_by_pattern_def by_pattern_def fnmatch_ci_plain [OF sp] example_defs ui_name_def to_lower_def)
  then have "find (finds_nothing example_swdb example_comps ?cq) [''nothing''] = Some ''nothing''" by simp
  moreover have "\<And>A :: string set. finite A \<Longrightarrow> set (sorted_list_of_set A) = A" by simp
  note query_result [OF this, of example_swdb example_comps ?cq "[''nothing'']"]
  ultimately have "query_get sorted_list_of_set example_swdb example_comps ?cq [''nothing''] = Inl (query_error ?cq ''nothing'')"
    by simp
  then show ?thesis by (simp add: query_error_def)
qed

end
