(* ===== verification/Comps_Solver.thy ===== *)
theory Comps_Solver
  imports Comps
begin

text \<open>
  dnf/comps.py, the operations: \<open>CompsTransPkg\<close>, \<open>TransactionBunch\<close> and \<open>Solver\<close>, which turns the
  installation, removal and upgrade of groups and environments into sets of packages and records it
  through the persistors.
\<close>

subsection \<open>Bunches\<close>

text \<open>
  The numbers behind \<open>type & libcomps.PACKAGE_TYPE_OPTIONAL\<close>, for the types of libcomps and for those
  of the database, and the number a type of libcomps prints as.
\<close>

record type_nums =
  kc_comps_optional :: "ltype \<Rightarrow> int"
  kc_swdb_optional :: "ptype set \<Rightarrow> int"
  kc_type_num :: "ltype \<Rightarrow> int"

record trans_pkg =
  tp_basearchonly :: bool
  tp_name :: string
  tp_optional :: int
  tp_requires :: "string option"

definition trans_pkg_of_name :: "string \<Rightarrow> trans_pkg" where
  "trans_pkg_of_name n = \<lparr>tp_basearchonly = False, tp_name = n, tp_optional = 1, tp_requires = None\<rparr>"

definition trans_pkg_of_swdb :: "type_nums \<Rightarrow> group_pkg \<Rightarrow> trans_pkg" where
  "trans_pkg_of_swdb k p =
     \<lparr>tp_basearchonly = False, tp_name = gk_name p, tp_optional = kc_swdb_optional k (gk_type p), tp_requires = None\<rparr>"

definition trans_pkg_of_comps :: "type_nums \<Rightarrow> comps_pkg \<Rightarrow> trans_pkg" where
  "trans_pkg_of_comps k p =
     \<lparr>tp_basearchonly = ck_basearchonly p, tp_name = ck_name p, tp_optional = kc_comps_optional k (ck_type p),
      tp_requires = ck_requires p\<rparr>"

text \<open>
  The members of a bunch: \<open>CompsTransPkg\<close> objects, and the comps packages that \<open>_group_install\<close> puts
  into the set itself, past the property that would convert them.
\<close>

datatype member = RawPkg comps_pkg | TransPkg trans_pkg

fun member_name :: "member \<Rightarrow> string" where
  "member_name (RawPkg p) = ck_name p"
| "member_name (TransPkg p) = tp_name p"

record bunch =
  b_install :: "member set"
  b_install_opt :: "member set"
  b_remove :: "member set"
  b_upgrade :: "member set"

definition no_bunch :: bunch where
  "no_bunch = \<lparr>b_install = {}, b_install_opt = {}, b_remove = {}, b_upgrade = {}\<rparr>"

definition bunch_iadd :: "bunch \<Rightarrow> bunch \<Rightarrow> bunch" where
  "bunch_iadd b other =
     (let install = b_install b \<union> b_install other;
          install_opt = b_install_opt b \<union> b_install_opt other;
          upgrade = b_upgrade b \<union> b_upgrade other
      in \<lparr>b_install = install, b_install_opt = install_opt,
          b_remove = (b_remove b \<union> b_remove other) - install - install_opt - upgrade,
          b_upgrade = upgrade\<rparr>)"

definition bunch_len :: "bunch \<Rightarrow> nat" where
  "bunch_len b = card (b_install b) + card (b_install_opt b) + card (b_upgrade b) + card (b_remove b)"

definition bunch_disjoint :: "bunch \<Rightarrow> bool" where
  "bunch_disjoint b \<longleftrightarrow> b_remove b \<inter> (b_install b \<union> b_install_opt b \<union> b_upgrade b) = {}"

lemma bunch_iadd_disjoint [simp]: "bunch_disjoint (bunch_iadd a b)"
  by (auto simp: bunch_disjoint_def bunch_iadd_def Let_def)

lemma bunch_iadd_simps [simp]:
  "b_install (bunch_iadd a b) = b_install a \<union> b_install b"
  "b_install_opt (bunch_iadd a b) = b_install_opt a \<union> b_install_opt b"
  "b_upgrade (bunch_iadd a b) = b_upgrade a \<union> b_upgrade b"
  "b_remove (bunch_iadd a b) = (b_remove a \<union> b_remove b) - (b_install a \<union> b_install b)
      - (b_install_opt a \<union> b_install_opt b) - (b_upgrade a \<union> b_upgrade b)"
  by (simp_all add: bunch_iadd_def Let_def)

lemma no_bunch_simps [simp]:
  "b_install no_bunch = {}" "b_install_opt no_bunch = {}" "b_remove no_bunch = {}" "b_upgrade no_bunch = {}"
  by (simp_all add: no_bunch_def)

subsection \<open>The solver\<close>

definition full_package_set :: "comps_group \<Rightarrow> string set" where
  "full_package_set g = set (map ck_name (mandatory_packages g @ default_packages g @ optional_packages g @ conditional_packages g))"

definition mandatory_group_set :: "comps \<Rightarrow> comps_env \<Rightarrow> string set" where
  "mandatory_group_set c env = set (map co_id (mandatory_groups c env))"

definition pkgs_of_type :: "comps_group \<Rightarrow> ptype set \<Rightarrow> string list \<Rightarrow> comps_pkg set" where
  "pkgs_of_type g pkg_types exclude =
     (let keep = filter (\<lambda>p. ck_name p \<notin> set exclude)
      in (if MANDATORY \<in> pkg_types then set (keep (mandatory_packages g)) else {}) \<union>
         (if DEFAULT \<in> pkg_types then set (keep (default_packages g)) else {}) \<union>
         (if OPTIONAL \<in> pkg_types then set (keep (optional_packages g)) else {}) \<union>
         (if CONDITIONAL \<in> pkg_types then set (keep (conditional_packages g)) else {}))"

text \<open>The loop that copies the packages of a comps group to its record.\<close>

definition copy_package :: "type_nums \<Rightarrow> swdb \<Rightarrow> nat \<Rightarrow> comps_pkg \<Rightarrow> (hist, unit) prog" where
  "copy_package k q a p =
     bind_p (lift_p (opt_map (kc_type_num k) (ck_type p))) (\<lambda>ty.
       addPackage a (ck_name p) (sq_package_groups q (ck_name p) \<noteq> []) {ty})"

definition group_install ::
  "type_nums \<Rightarrow> swdb \<Rightarrow> comps \<Rightarrow> string \<Rightarrow> ptype set \<Rightarrow> bool \<Rightarrow> (hist, bunch) prog" where
  "group_install k q c group_id pkg_types strict =
     (case group_by_id c group_id of
        None \<Rightarrow> raise_p (CompsError (''Group id '' @ sq @ group_id @ sq @ '' does not exist.''))
      | Some g \<Rightarrow>
          bind_p (group_new group_id (co_name g) (ui_name (cs_langs c) g) pkg_types) (\<lambda>a.
          then_p (for_p (copy_package k q a) (cg_packages g))
          (then_p (gp_install a)
          (return_p (if strict then no_bunch\<lparr>b_install := RawPkg ` pkgs_of_type g pkg_types []\<rparr>
                     else no_bunch\<lparr>b_install_opt := RawPkg ` pkgs_of_type g pkg_types []\<rparr>)))))"

text \<open>The set comprehension of \<open>_group_remove\<close>, in the order of the record's packages.\<close>

fun removable_loop :: "swdb \<Rightarrow> hist \<Rightarrow> group_pkg list \<Rightarrow> group_pkg list res" where
  "removable_loop q h [] = Inr []"
| "removable_loop q h (p # ps) =
     bind_r (is_removable_pkg q h (gk_name p)) (\<lambda>b.
     bind_r (removable_loop q h ps) (\<lambda>r. Inr (if b then p # r else r)))"

definition group_remove :: "type_nums \<Rightarrow> swdb \<Rightarrow> string \<Rightarrow> (hist, bunch) prog" where
  "group_remove k q group_id =
     bind_p (group_get q group_id) (\<lambda>found.
       case found of
         None \<Rightarrow> raise_p (CompsError (''Module or Group '' @ sq @ group_id @ sq @ '' is not installed.''))
       | Some a \<Rightarrow>
           then_p (gp_remove a)
           (bind_p (gets_p (\<lambda>h. removable_loop q h (sg_pkgs (group_at h a)))) (\<lambda>r.
            bind_p (lift_p r) (\<lambda>ps.
            return_p (no_bunch\<lparr>b_remove := TransPkg ` trans_pkg_of_swdb k ` set ps\<rparr>)))))"

text \<open>\<open>'%s' % argument\<close> of a name that may be missing.\<close>

definition opt_text :: "string option \<Rightarrow> string" where
  "opt_text s = (case s of None \<Rightarrow> ''None'' | Some t \<Rightarrow> t)"

definition group_upgrade :: "type_nums \<Rightarrow> swdb \<Rightarrow> comps \<Rightarrow> string \<Rightarrow> (hist, bunch) prog" where
  "group_upgrade k q c group_id =
     bind_p (group_get q group_id) (\<lambda>found.
       case found of
         None \<Rightarrow> raise_p (CompsError (''Module or Group '' @ sq @
             (case group_by_id c group_id of Some g \<Rightarrow> opt_text (ui_name (cs_langs c) g) | None \<Rightarrow> group_id)
             @ sq @ '' is not installed.''))
       | Some old \<Rightarrow>
           (case group_by_id c group_id of
              None \<Rightarrow> raise_p (CompsError (''Module or Group '' @ sq @ group_id @ sq @ '' is not available.''))
            | Some g \<Rightarrow>
                bind_p (gets_p (\<lambda>h. sg_types (group_at h old))) (\<lambda>pkg_types.
                bind_p (gets_p (\<lambda>h. set (map gk_name (sg_pkgs (group_at h old))))) (\<lambda>old_set.
                let new_set = pkgs_of_type g pkg_types [] in
                bind_p (group_new group_id (co_name g) (ui_name (cs_langs c) g) pkg_types) (\<lambda>a.
                then_p (for_p (copy_package k q a) (cg_packages g))
                (then_p (gp_upgrade a)
                (return_p (no_bunch\<lparr>
                   b_install := TransPkg ` trans_pkg_of_comps k ` {p \<in> new_set. ck_name p \<notin> old_set},
                   b_remove := TransPkg ` trans_pkg_of_name ` {n \<in> old_set. n \<notin> ck_name ` new_set},
                   b_upgrade := TransPkg ` trans_pkg_of_comps k ` {p \<in> new_set. ck_name p \<in> old_set}\<rparr>))))))))"

text \<open>
  \<open>_environment_install\<close>.  The environment is registered first and filled while its groups are
  installed; \<open>excluded\<close> is the list \<open>exclude_groups\<close>, empty when there is none.
\<close>

fun env_install_groups ::
  "type_nums \<Rightarrow> swdb \<Rightarrow> comps \<Rightarrow> ptype set \<Rightarrow> bool \<Rightarrow> string list \<Rightarrow> nat \<Rightarrow> comps_group list \<Rightarrow> bunch \<Rightarrow> (hist, bunch) prog" where
  "env_install_groups k q c pkg_types strict excluded a [] tr = return_p tr"
| "env_install_groups k q c pkg_types strict excluded a (g # gs) tr =
     (if co_id g \<in> set excluded then env_install_groups k q c pkg_types strict excluded a gs tr
      else bind_p (group_install k q c (co_id g) pkg_types strict) (\<lambda>b.
           then_p (addGroup a (co_id g) True {MANDATORY})
             (env_install_groups k q c pkg_types strict excluded a gs (bunch_iadd tr b))))"

definition note_optional :: "string list \<Rightarrow> nat \<Rightarrow> comps_group \<Rightarrow> (hist, unit) prog" where
  "note_optional excluded a g =
     (if co_id g \<in> set excluded then return_p () else addGroup a (co_id g) False {OPTIONAL})"

definition environment_install ::
  "type_nums \<Rightarrow> swdb \<Rightarrow> comps \<Rightarrow> string \<Rightarrow> ptype set \<Rightarrow> bool \<Rightarrow> string list \<Rightarrow> (hist, bunch) prog" where
  "environment_install k q c env_id pkg_types strict excluded =
     (case environment_by_id c env_id of
        None \<Rightarrow> raise_p (CompsError (''Environment id '' @ sq @ env_id @ sq @ '' does not exist.''))
      | Some env \<Rightarrow>
          bind_p (env_new env_id (co_name env) (ui_name (cs_langs c) env) pkg_types) (\<lambda>a.
          then_p (ep_install a)
          (bind_p (env_install_groups k q c pkg_types strict excluded a (mandatory_groups c env) no_bunch) (\<lambda>tr.
           then_p (for_p (note_optional excluded a) (optional_groups c env))
             (return_p tr)))))"

text \<open>\<open>_environment_remove\<close>; \<open>elems\<close> gives the order in which the set of group ids is visited.\<close>

fun env_remove_groups :: "type_nums \<Rightarrow> swdb \<Rightarrow> string list \<Rightarrow> bunch \<Rightarrow> (hist, bunch) prog" where
  "env_remove_groups k q [] tr = return_p tr"
| "env_remove_groups k q (gid # gids) tr =
     bind_p (gets_p (\<lambda>h. is_removable_group q h gid)) (\<lambda>r.
     bind_p (lift_p r) (\<lambda>removable.
       if \<not> removable then env_remove_groups k q gids tr
       else bind_p (group_remove k q gid) (\<lambda>b. env_remove_groups k q gids (bunch_iadd tr b))))"

definition environment_remove :: "(string set \<Rightarrow> string list) \<Rightarrow> type_nums \<Rightarrow> swdb \<Rightarrow> string \<Rightarrow> (hist, bunch) prog" where
  "environment_remove elems k q env_id =
     bind_p (env_get q env_id) (\<lambda>found.
       case found of
         None \<Rightarrow> raise_p (CompsError (''Environment id '' @ sq @ env_id @ sq @ '' is not installed.''))
       | Some a \<Rightarrow>
           then_p (ep_remove a)
           (bind_p (gets_p (\<lambda>h. elems (set (map eg_id (se_groups (env_at h a)))))) (\<lambda>group_ids.
            env_remove_groups k q group_ids no_bunch)))"

text \<open>\<open>_environment_upgrade\<close>.\<close>

fun env_upgrade_mandatory ::
  "type_nums \<Rightarrow> swdb \<Rightarrow> comps \<Rightarrow> ptype set \<Rightarrow> string set \<Rightarrow> nat \<Rightarrow> comps_group list \<Rightarrow> bunch \<Rightarrow> (hist, bunch) prog" where
  "env_upgrade_mandatory k q c pkg_types old_set a [] tr = return_p tr"
| "env_upgrade_mandatory k q c pkg_types old_set a (g # gs) tr =
     bind_p
       (if co_id g \<in> old_set
        then bind_p (group_get q (co_id g)) (\<lambda>found.
               case found of
                 None \<Rightarrow> return_p tr
               | Some _ \<Rightarrow> bind_p (group_upgrade k q c (co_id g)) (\<lambda>b. return_p (bunch_iadd tr b)))
        else bind_p (group_install k q c (co_id g) pkg_types True) (\<lambda>b. return_p (bunch_iadd tr b)))
       (\<lambda>tr. then_p (addGroup a (co_id g) True {MANDATORY})
          (env_upgrade_mandatory k q c pkg_types old_set a gs tr))"

fun env_upgrade_optional ::
  "type_nums \<Rightarrow> swdb \<Rightarrow> comps \<Rightarrow> string set \<Rightarrow> nat \<Rightarrow> comps_group list \<Rightarrow> bunch \<Rightarrow> (hist, bunch) prog" where
  "env_upgrade_optional k q c old_set a [] tr = return_p tr"
| "env_upgrade_optional k q c old_set a (g # gs) tr =
     bind_p
       (if co_id g \<in> old_set
        then bind_p (group_get q (co_id g)) (\<lambda>found.
               case found of
                 None \<Rightarrow> return_p tr
               | Some _ \<Rightarrow> bind_p (group_upgrade k q c (co_id g)) (\<lambda>b. return_p (bunch_iadd tr b)))
        else return_p tr)
       (\<lambda>tr. then_p (addGroup a (co_id g) False {OPTIONAL})
          (env_upgrade_optional k q c old_set a gs tr))"

definition environment_upgrade :: "type_nums \<Rightarrow> swdb \<Rightarrow> comps \<Rightarrow> string \<Rightarrow> (hist, bunch) prog" where
  "environment_upgrade k q c env_id =
     bind_p (env_get q env_id) (\<lambda>found.
       case found of
         None \<Rightarrow> raise_p (CompsError (''Environment '' @ sq @ env_id @ sq @ '' is not installed.''))
       | Some old \<Rightarrow>
           (case environment_by_id c env_id of
              None \<Rightarrow> raise_p (CompsError (''Environment '' @ sq @ env_id @ sq @ '' is not available.''))
            | Some env \<Rightarrow>
                bind_p (gets_p (\<lambda>h. set (map eg_id (se_groups (env_at h old))))) (\<lambda>old_set.
                bind_p (gets_p (\<lambda>h. se_types (env_at h old))) (\<lambda>pkg_types.
                bind_p (env_new (co_id env) (co_name env) (ui_name (cs_langs c) env) pkg_types) (\<lambda>a.
                bind_p (env_upgrade_mandatory k q c pkg_types old_set a (mandatory_groups c env) no_bunch) (\<lambda>tr.
                bind_p (env_upgrade_optional k q c old_set a (optional_groups c env) tr) (\<lambda>tr.
                then_p (ep_upgrade a) (return_p tr))))))))"

subsection \<open>The registries stay consistent\<close>

text \<open>
  The invariant of the solver: every entry of the two registries is an object of that id, reported
  with the action of its registry; and the environments allocated so far stay (\<open>n\<close> of them).
\<close>

definition hist_inv :: "nat \<Rightarrow> hist \<Rightarrow> bool" where
  "hist_inv n h \<longleftrightarrow> hist_ok h \<and> n \<le> length (h_envs h)"

definition group_alive :: "nat \<Rightarrow> nat \<Rightarrow> hist \<Rightarrow> bool" where
  "group_alive n a h \<longleftrightarrow> hist_inv n h \<and> a < length (h_groups h)"

lemma hist_ok_groups:
  "hist_ok h \<Longrightarrow> (\<And>a. a < length (h_groups h) \<Longrightarrow> sg_id (gs ! a) = sg_id (h_groups h ! a)) \<Longrightarrow>
     length (h_groups h) \<le> length gs \<Longrightarrow> hist_ok (h\<lparr>h_groups := gs\<rparr>)"
  unfolding hist_ok_def
  by (auto intro: group_persistor.registry_mono [of h] env_persistor.registry_mono [of h]
      simp: group_obj_id_def group_at_def env_obj_id_def env_at_def)

lemma hist_ok_envs:
  "hist_ok h \<Longrightarrow> (\<And>a. a < length (h_envs h) \<Longrightarrow> se_id (es ! a) = se_id (h_envs h ! a)) \<Longrightarrow>
     length (h_envs h) \<le> length es \<Longrightarrow> hist_ok (h\<lparr>h_envs := es\<rparr>)"
  unfolding hist_ok_def
  by (auto intro: group_persistor.registry_mono [of h] env_persistor.registry_mono [of h]
      simp: group_obj_id_def group_at_def env_obj_id_def env_at_def)

lemma group_put_env: "env_persistor.registry_ok h \<Longrightarrow> env_persistor.registry_ok ((put_gp p h)\<lparr>h_log := h_log h @ l\<rparr>)"
  by (rule env_persistor.registry_mono) (auto simp: put_gp_def env_obj_id_def env_at_def)

lemma env_put_group: "group_persistor.registry_ok h \<Longrightarrow> group_persistor.registry_ok ((put_ep p h)\<lparr>h_log := h_log h @ l\<rparr>)"
  by (rule group_persistor.registry_mono) (auto simp: put_ep_def group_obj_id_def group_at_def)

lemma group_register:
  assumes "group_alive n a h"
  shows "hist_inv n (snd (gp_install a h))" "hist_inv n (snd (gp_remove a h))" "hist_inv n (snd (gp_upgrade a h))"
  using assms group_persistor.registry_step [of h a]
  unfolding hist_inv_def hist_ok_def group_alive_def gp_install_def gp_remove_def gp_upgrade_def group_persistor.runs snd_conv
  by (simp_all add: group_put_env) (simp_all add: put_gp_def)

lemma env_register:
  assumes "hist_inv (Suc a) h"
  shows "hist_inv (Suc a) (snd (ep_install a h))" "hist_inv (Suc a) (snd (ep_remove a h))" "hist_inv (Suc a) (snd (ep_upgrade a h))"
  using assms env_persistor.registry_step [of h a]
  unfolding hist_inv_def hist_ok_def ep_install_def ep_remove_def ep_upgrade_def env_persistor.runs snd_conv
  by (simp_all add: env_put_group) (simp_all add: put_ep_def)

lemma snd_triple: "(\<And>s. P s \<Longrightarrow> Q (snd (m s))) \<Longrightarrow> triple P m (\<lambda>_. Q) Q"
  by (rule tripleI) (metis snd_conv)+

lemma gp_triples:
  "triple (group_alive n a) (gp_install a) (\<lambda>_. hist_inv n) (hist_inv n)"
  "triple (group_alive n a) (gp_remove a) (\<lambda>_. hist_inv n) (hist_inv n)"
  "triple (group_alive n a) (gp_upgrade a) (\<lambda>_. hist_inv n) (hist_inv n)"
  by (rule snd_triple, erule group_register)+

lemma ep_triples:
  "triple (hist_inv (Suc a)) (ep_install a) (\<lambda>_. hist_inv (Suc a)) (hist_inv (Suc a))"
  "triple (hist_inv (Suc a)) (ep_remove a) (\<lambda>_. hist_inv (Suc a)) (hist_inv (Suc a))"
  "triple (hist_inv (Suc a)) (ep_upgrade a) (\<lambda>_. hist_inv (Suc a)) (hist_inv (Suc a))"
  by (rule snd_triple, erule env_register)+

lemma alloc_group_triple: "triple (hist_inv n) (alloc_group g) (\<lambda>a. group_alive n a) (hist_inv n)"
  unfolding alloc_group_def
  by (rule tripleI) (auto simp: bind_p_apply then_p_apply group_alive_def hist_inv_def nth_append intro!: hist_ok_groups)

lemma alloc_env_triple: "triple (hist_inv n) (alloc_env e) (\<lambda>a h. hist_inv n h \<and> hist_inv (Suc a) h) (hist_inv n)"
  unfolding alloc_env_def
  by (rule tripleI) (auto simp: bind_p_apply then_p_apply hist_inv_def nth_append intro!: hist_ok_envs)

lemma copy_package_triple: "triple (group_alive n a) (copy_package k q a p) (\<lambda>_. group_alive n a) (hist_inv n)"
proof -
  have "hist_ok (h\<lparr>h_groups := (h_groups h)[a := (h_groups h ! a)\<lparr>sg_pkgs := ps\<rparr>]\<rparr>)" if "hist_ok h" for h ps
  proof (rule hist_ok_groups [OF that])
    fix b assume "b < length (h_groups h)"
    then show "sg_id ((h_groups h)[a := (h_groups h ! a)\<lparr>sg_pkgs := ps\<rparr>] ! b) = sg_id (h_groups h ! b)"
      by (cases "b = a") auto
  qed simp
  then show ?thesis
    unfolding copy_package_def addPackage_def
    by (intro tripleI) (auto simp: bind_p_apply group_alive_def hist_inv_def group_at_def split: sum.splits)
qed

lemma addGroup_triple: "triple (hist_inv n) (addGroup a gid b ty) (\<lambda>_. hist_inv n) (hist_inv n)"
proof -
  have "hist_ok (h\<lparr>h_envs := (h_envs h)[a := (h_envs h ! a)\<lparr>se_groups := gs\<rparr>]\<rparr>)" if "hist_ok h" for h gs
  proof (rule hist_ok_envs [OF that])
    fix b assume "b < length (h_envs h)"
    then show "se_id ((h_envs h)[a := (h_envs h ! a)\<lparr>se_groups := gs\<rparr>] ! b) = se_id (h_envs h ! b)"
      by (cases "b = a") auto
  qed simp
  then show ?thesis
    unfolding addGroup_def by (intro tripleI) (auto simp: hist_inv_def env_at_def)
qed

lemma triple_lift: "(\<And>s. P s \<Longrightarrow> E s) \<Longrightarrow> triple P (lift_p r) (\<lambda>_. P) E"
  by (rule tripleI) (auto simp: prog_simps)

lemma triple_gets: "triple P (gets_p g) (\<lambda>_. P) E"
  by (simp add: triple_def)

lemma triple_return: "triple P (return_p a) (\<lambda>_. P) E"
  by (simp add: triple_def)

lemma triple_raise: "triple P (raise_p e) Q P"
  by (simp add: triple_def)

lemma group_alive_inv: "group_alive n a h \<Longrightarrow> hist_inv n h"
  by (simp add: group_alive_def)

lemma fill_group_triple:
  "triple (hist_inv n) (group_new gid nm tnm types) (\<lambda>a. group_alive n a) (hist_inv n)"
  "triple (group_alive n a) (for_p (copy_package k q a) ps) (\<lambda>_. group_alive n a) (hist_inv n)"
  by (simp_all add: group_new_def alloc_group_triple copy_package_triple triple_for)

lemma group_install_triple: "triple (hist_inv n) (group_install k q c gid types strict) (\<lambda>_. hist_inv n) (hist_inv n)"
proof (cases "group_by_id c gid")
  case (Some g)
  show ?thesis
    unfolding group_install_def Some option.case
    by (rule triple_bind [OF fill_group_triple(1)], rule triple_then [OF fill_group_triple(2)], rule triple_then [OF _ triple_return])
      (rule gp_triples(1))
qed (simp add: group_install_def triple_raise)

lemma group_get_triple: "triple (hist_inv n) (group_get q gid) (\<lambda>r h. hist_inv n h \<and> (\<forall>a. r = Some a \<longrightarrow> group_alive n a h)) (hist_inv n)"
proof (cases "sq_group q gid")
  case (Some g)
  show ?thesis
    unfolding group_get_def Some option.case
    by (rule triple_bind [OF alloc_group_triple]) (simp add: triple_def group_alive_inv)
qed (simp add: group_get_def triple_def)

lemma env_get_triple: "triple (hist_inv n) (env_get q eid) (\<lambda>r h. hist_inv n h \<and> (\<forall>a. r = Some a \<longrightarrow> hist_inv (Suc a) h)) (hist_inv n)"
proof (cases "sq_env q eid")
  case (Some g)
  show ?thesis
    unfolding env_get_def Some option.case
    by (rule triple_bind [OF alloc_env_triple]) (simp add: triple_def)
qed (simp add: env_get_def triple_def)

lemma triple_found:
  assumes "triple P m E F" and "\<And>a. triple (Q a) (f a) E F"
  shows "triple (\<lambda>s. P s \<and> (\<forall>a. r = Some a \<longrightarrow> Q a s)) (case r of None \<Rightarrow> m | Some a \<Rightarrow> f a) E F"
proof (cases r)
  case None
  with assms(1) show ?thesis by simp
next
  case (Some a)
  show ?thesis unfolding Some option.case by (rule triple_weaken [OF assms(2)]) auto
qed

lemmas found_group = triple_found [where P = "hist_inv n" and Q = "group_alive n" for n, OF triple_raise]
lemmas found_env = triple_found [where P = "hist_inv n" and Q = "\<lambda>a. hist_inv (Suc a)" for n, OF triple_raise]

lemma group_remove_triple: "triple (hist_inv n) (group_remove k q gid) (\<lambda>_. hist_inv n) (hist_inv n)"
  unfolding group_remove_def
  by (rule triple_bind [OF group_get_triple], rule found_group, rule triple_then [OF gp_triples(2)],
      rule triple_bind [OF triple_gets], rule triple_bind [OF triple_lift], assumption, rule triple_return)

lemma group_upgrade_triple: "triple (hist_inv n) (group_upgrade k q c gid) (\<lambda>_. hist_inv n) (hist_inv n)"
  unfolding group_upgrade_def
proof (rule triple_bind [OF group_get_triple], rule found_group)
  fix a
  show "triple (group_alive n a)
      (case group_by_id c gid of
         None \<Rightarrow> raise_p (CompsError (''Module or Group '' @ sq @ gid @ sq @ '' is not available.''))
       | Some g \<Rightarrow>
           bind_p (gets_p (\<lambda>h. sg_types (group_at h a))) (\<lambda>pkg_types.
           bind_p (gets_p (\<lambda>h. set (map gk_name (sg_pkgs (group_at h a))))) (\<lambda>old_set.
           let new_set = pkgs_of_type g pkg_types [] in
           bind_p (group_new gid (co_name g) (ui_name (cs_langs c) g) pkg_types) (\<lambda>a.
           then_p (for_p (copy_package k q a) (cg_packages g))
           (then_p (gp_upgrade a)
           (return_p (no_bunch\<lparr>
              b_install := TransPkg ` trans_pkg_of_comps k ` {p \<in> new_set. ck_name p \<notin> old_set},
              b_remove := TransPkg ` trans_pkg_of_name ` {n \<in> old_set. n \<notin> ck_name ` new_set},
              b_upgrade := TransPkg ` trans_pkg_of_comps k ` {p \<in> new_set. ck_name p \<in> old_set}\<rparr>)))))))
      (\<lambda>_. hist_inv n) (hist_inv n)"
  proof (cases "group_by_id c gid")
    case None
    then show ?thesis by (auto simp: triple_def group_alive_inv)
  next
    case (Some g)
    show ?thesis
      unfolding Some option.case Let_def
      by (rule triple_bind [OF triple_gets], rule triple_bind [OF triple_gets],
          rule triple_weaken [where P' = "group_alive n a" and P = "hist_inv n",
            OF triple_bind [OF fill_group_triple(1) triple_then [OF fill_group_triple(2) triple_then [OF gp_triples(3) triple_return]]]])
        (simp_all add: group_alive_inv)
  qed
qed

lemma env_install_groups_triple:
  "triple (hist_inv n) (env_install_groups k q c types strict excluded a gs tr) (\<lambda>_. hist_inv n) (hist_inv n)"
proof (induction gs arbitrary: tr)
  case (Cons g gs)
  show ?case
    unfolding env_install_groups.simps
    by (cases "co_id g \<in> set excluded")
      (simp_all add: Cons.IH triple_bind [OF group_install_triple triple_then [OF addGroup_triple Cons.IH]])
qed (simp add: triple_return)

lemma note_optional_triple: "triple (hist_inv n) (for_p (note_optional excluded a) gs) (\<lambda>_. hist_inv n) (hist_inv n)"
  by (rule triple_for) (simp add: note_optional_def triple_return addGroup_triple)

lemma env_remove_groups_triple: "triple (hist_inv n) (env_remove_groups k q gids tr) (\<lambda>_. hist_inv n) (hist_inv n)"
proof (induction gids arbitrary: tr)
  case (Cons gid gids)
  have "triple (hist_inv n) (if \<not> b then env_remove_groups k q gids tr
      else bind_p (group_remove k q gid) (\<lambda>b. env_remove_groups k q gids (bunch_iadd tr b))) (\<lambda>_. hist_inv n) (hist_inv n)" for b
    using Cons.IH triple_bind [OF group_remove_triple Cons.IH] by simp
  then show ?case
    unfolding env_remove_groups.simps by (intro triple_bind [OF triple_gets] triple_bind [OF triple_lift])
qed (simp add: triple_return)

lemma group_get_triple_weak: "triple (hist_inv n) (group_get q gid) (\<lambda>_. hist_inv n) (hist_inv n)"
  by (rule triple_weaken [OF group_get_triple]) auto

lemma get_then_upgrade_triple:
  "triple (hist_inv n) (bind_p (group_get q gid) (\<lambda>found. case found of None \<Rightarrow> return_p tr
     | Some _ \<Rightarrow> bind_p (group_upgrade k q c gid) (\<lambda>b. return_p (bunch_iadd tr b)))) (\<lambda>_. hist_inv n) (hist_inv n)"
proof (rule triple_bind [OF group_get_triple_weak])
  show "triple (hist_inv n) (case r of None \<Rightarrow> return_p tr
     | Some _ \<Rightarrow> bind_p (group_upgrade k q c gid) (\<lambda>b. return_p (bunch_iadd tr b))) (\<lambda>_. hist_inv n) (hist_inv n)"
    for r :: "nat option"
    by (cases r) (simp_all add: triple_return triple_bind [OF group_upgrade_triple triple_return])
qed

lemma env_upgrade_mandatory_triple:
  "triple (hist_inv n) (env_upgrade_mandatory k q c types old a gs tr) (\<lambda>_. hist_inv n) (hist_inv n)"
proof (induction gs arbitrary: tr)
  case (Cons g gs)
  have "triple (hist_inv n) (if co_id g \<in> old then bind_p (group_get q (co_id g)) (\<lambda>found. case found of None \<Rightarrow> return_p tr
       | Some _ \<Rightarrow> bind_p (group_upgrade k q c (co_id g)) (\<lambda>b. return_p (bunch_iadd tr b)))
     else bind_p (group_install k q c (co_id g) types True) (\<lambda>b. return_p (bunch_iadd tr b))) (\<lambda>_. hist_inv n) (hist_inv n)"
    by (simp add: get_then_upgrade_triple triple_bind [OF group_install_triple triple_return])
  then show ?case
    unfolding env_upgrade_mandatory.simps by (rule triple_bind [OF _ triple_then [OF addGroup_triple Cons.IH]])
qed (simp add: triple_return)

lemma env_upgrade_optional_triple:
  "triple (hist_inv n) (env_upgrade_optional k q c old a gs tr) (\<lambda>_. hist_inv n) (hist_inv n)"
proof (induction gs arbitrary: tr)
  case (Cons g gs)
  have "triple (hist_inv n) (if co_id g \<in> old then bind_p (group_get q (co_id g)) (\<lambda>found. case found of None \<Rightarrow> return_p tr
       | Some _ \<Rightarrow> bind_p (group_upgrade k q c (co_id g)) (\<lambda>b. return_p (bunch_iadd tr b)))
     else return_p tr) (\<lambda>_. hist_inv n) (hist_inv n)"
    by (simp add: get_then_upgrade_triple triple_return)
  then show ?case
    unfolding env_upgrade_optional.simps by (rule triple_bind [OF _ triple_then [OF addGroup_triple Cons.IH]])
qed (simp add: triple_return)

lemma hist_inv_0: "hist_inv 0 h \<longleftrightarrow> hist_ok h"
  by (simp add: hist_inv_def)

lemma to_hist_ok:
  "triple (hist_inv (Suc a)) m (\<lambda>_. hist_inv (Suc a)) (hist_inv (Suc a)) \<Longrightarrow>
     triple (\<lambda>h. hist_inv 0 h \<and> hist_inv (Suc a) h) m (\<lambda>_. hist_inv 0) (hist_inv 0)"
  by (erule triple_weaken) (auto simp: hist_inv_def)

lemma environment_install_triple:
  "triple (hist_inv 0) (environment_install k q c eid types strict excluded) (\<lambda>_. hist_inv 0) (hist_inv 0)"
proof (cases "environment_by_id c eid")
  case (Some env)
  show ?thesis
    unfolding environment_install_def Some option.case env_new_def
    by (rule triple_bind [OF alloc_env_triple to_hist_ok], rule triple_then [OF ep_triples(1)],
        rule triple_bind [OF env_install_groups_triple], rule triple_then [OF note_optional_triple triple_return])
qed (simp add: environment_install_def triple_raise)

lemma found_env_triple:
  "(\<And>a. triple (hist_inv (Suc a)) (f a) (\<lambda>_. hist_inv (Suc a)) (hist_inv (Suc a))) \<Longrightarrow>
     triple (hist_inv 0) (bind_p (env_get q eid) (\<lambda>found. case found of None \<Rightarrow> raise_p e | Some a \<Rightarrow> f a)) (\<lambda>_. hist_inv 0) (hist_inv 0)"
proof (rule triple_bind [OF env_get_triple])
  fix r assume f: "\<And>a. triple (hist_inv (Suc a)) (f a) (\<lambda>_. hist_inv (Suc a)) (hist_inv (Suc a))"
  have "triple (hist_inv (Suc a)) (f a) (\<lambda>_. hist_inv 0) (hist_inv 0)" for a
    by (rule triple_weaken [OF f]) (auto simp: hist_inv_def)
  then show "triple (\<lambda>h. hist_inv 0 h \<and> (\<forall>a. r = Some a \<longrightarrow> hist_inv (Suc a) h))
      (case r of None \<Rightarrow> raise_p e | Some a \<Rightarrow> f a) (\<lambda>_. hist_inv 0) (hist_inv 0)"
    by (rule found_env)
qed

lemma environment_remove_triple:
  "triple (hist_inv 0) (environment_remove elems k q eid) (\<lambda>_. hist_inv 0) (hist_inv 0)"
  unfolding environment_remove_def
  by (rule found_env_triple, rule triple_then [OF ep_triples(2)], rule triple_bind [OF triple_gets], rule env_remove_groups_triple)

lemma environment_upgrade_triple:
  "triple (hist_inv 0) (environment_upgrade k q c eid) (\<lambda>_. hist_inv 0) (hist_inv 0)"
  unfolding environment_upgrade_def
proof (rule found_env_triple)
  fix old
  show "triple (hist_inv (Suc old)) (case environment_by_id c eid of
      None \<Rightarrow> raise_p (CompsError (''Environment '' @ sq @ eid @ sq @ '' is not available.''))
    | Some env \<Rightarrow>
        bind_p (gets_p (\<lambda>h. set (map eg_id (se_groups (env_at h old))))) (\<lambda>old_set.
        bind_p (gets_p (\<lambda>h. se_types (env_at h old))) (\<lambda>pkg_types.
        bind_p (env_new (co_id env) (co_name env) (ui_name (cs_langs c) env) pkg_types) (\<lambda>a.
        bind_p (env_upgrade_mandatory k q c pkg_types old_set a (mandatory_groups c env) no_bunch) (\<lambda>tr.
        bind_p (env_upgrade_optional k q c old_set a (optional_groups c env) tr) (\<lambda>tr.
        then_p (ep_upgrade a) (return_p tr)))))))
      (\<lambda>_. hist_inv (Suc old)) (hist_inv (Suc old))"
  proof (cases "environment_by_id c eid")
    case (Some env)
    have tail: "triple (\<lambda>h. hist_inv (Suc old) h \<and> hist_inv (Suc a) h)
        (bind_p (env_upgrade_mandatory k q c types old_set a (mandatory_groups c env) no_bunch) (\<lambda>tr.
         bind_p (env_upgrade_optional k q c old_set a (optional_groups c env) tr) (\<lambda>tr.
         then_p (ep_upgrade a) (return_p tr)))) (\<lambda>_. hist_inv (Suc old)) (hist_inv (Suc old))" for a types old_set
    proof -
      let ?m = "Suc (max old a)"
      have ep: "triple (hist_inv ?m) (ep_upgrade a) (\<lambda>_. hist_inv ?m) (hist_inv ?m)"
        using env_register(3) [of a]
        by (intro snd_triple) (auto simp: hist_inv_def ep_upgrade_def env_persistor.run_upgrade put_ep_def)
      show ?thesis
        by (rule triple_weaken [where P = "hist_inv ?m" and Q = "\<lambda>_. hist_inv ?m" and E = "hist_inv ?m"],
            rule triple_bind [OF env_upgrade_mandatory_triple], rule triple_bind [OF env_upgrade_optional_triple],
            rule triple_then [OF ep triple_return]) (auto simp: hist_inv_def)
    qed
    show ?thesis
      unfolding Some option.case env_new_def
      by (rule triple_bind [OF triple_gets], rule triple_bind [OF triple_gets], rule triple_bind [OF alloc_env_triple tail])
  qed (simp add: triple_raise)
qed

lemma triple_hist_ok: "triple (hist_inv 0) m (\<lambda>_. hist_inv 0) (hist_inv 0) \<Longrightarrow> hist_ok h \<Longrightarrow> hist_ok (snd (m h))"
  using pres_triple unfolding pres_def hist_inv_0 by blast

text \<open>
  C5. The registries of groups and environments stay consistent under every operation of the solver,
  also when it fails half-way: each entry leads to an object with the id it is filed under, and that
  object was reported to the database with the action of the registry.
\<close>

theorem solver_keeps_registries:
  assumes "hist_ok h"
  shows "hist_ok (snd (group_install k q c i types strict h)) \<and> hist_ok (snd (group_remove k q i h)) \<and>
    hist_ok (snd (group_upgrade k q c i h)) \<and> hist_ok (snd (environment_install k q c i types strict excluded h)) \<and>
    hist_ok (snd (environment_remove elems k q i h)) \<and> hist_ok (snd (environment_upgrade k q c i h))"
  by (intro conjI triple_hist_ok [OF _ assms] group_install_triple group_remove_triple group_upgrade_triple
      environment_install_triple environment_remove_triple environment_upgrade_triple)

text \<open>Some numbers for the types, in the examples.\<close>

definition example_nums :: type_nums where
  "example_nums = \<lparr>kc_comps_optional = (\<lambda>ty. if ty = LT_OPTIONAL then 1 else 0),
     kc_swdb_optional = (\<lambda>tys. if OPTIONAL \<in> tys then 8 else 0), kc_type_num = (\<lambda>_. 4)\<rparr>"

lemma solver_keeps_registries_witness:
  "hist_ok (snd (environment_install example_nums example_swdb example_comps ''sugar-desktop'' {MANDATORY} True [] hist0))"
  using solver_keeps_registries [OF hist_ok_0, of example_nums example_swdb example_comps "''sugar-desktop''" "{MANDATORY}" True "[]"] by blast

subsection \<open>Installing\<close>

definition known_types :: "comps_pkg list \<Rightarrow> bool" where
  "known_types ps \<longleftrightarrow> list_all (\<lambda>p. ck_type p \<noteq> LT_UNKNOWN) ps"

definition package_record :: "swdb \<Rightarrow> comps_pkg \<Rightarrow> group_pkg" where
  "package_record q p = \<lparr>gk_name = ck_name p, gk_installed = sq_package_groups q (ck_name p) \<noteq> [],
     gk_type = (case ck_type p of LT_CONDITIONAL \<Rightarrow> {CONDITIONAL} | LT_DEFAULT \<Rightarrow> {DEFAULT} | LT_MANDATORY \<Rightarrow> {MANDATORY} | _ \<Rightarrow> {OPTIONAL})\<rparr>"

definition group_record :: "swdb \<Rightarrow> comps \<Rightarrow> ptype set \<Rightarrow> comps_group \<Rightarrow> swdb_group" where
  "group_record q c types g = \<lparr>sg_id = co_id g, sg_name = co_name g, sg_tname = ui_name (cs_langs c) g, sg_types = types,
     sg_pkgs = map (package_record q) (cg_packages g)\<rparr>"

lemma copy_package_run:
  assumes "ck_type p \<noteq> LT_UNKNOWN"
  shows "copy_package k q a p h = (Inr (), h\<lparr>h_groups := (h_groups h)[a := (group_at h a)\<lparr>sg_pkgs :=
      sg_pkgs (group_at h a) @ [package_record q p]\<rparr>]\<rparr>)"
  using assms by (cases "ck_type p") (simp_all add: copy_package_def addPackage_def bind_p_apply opt_map_def package_record_def)

lemma copy_packages_run:
  "a < length (h_groups h) \<Longrightarrow> known_types ps \<Longrightarrow>
     for_p (copy_package k q a) ps h = (Inr (), h\<lparr>h_groups := (h_groups h)[a := (group_at h a)\<lparr>sg_pkgs :=
        sg_pkgs (group_at h a) @ map (package_record q) ps\<rparr>]\<rparr>)"
proof (induction ps arbitrary: h)
  case Nil
  then show ?case by (simp add: group_at_def)
next
  case (Cons p ps)
  let ?h = "h\<lparr>h_groups := (h_groups h)[a := (group_at h a)\<lparr>sg_pkgs := sg_pkgs (group_at h a) @ [package_record q p]\<rparr>]\<rparr>"
  from Cons.prems have "copy_package k q a p h = (Inr (), ?h)" by (intro copy_package_run) (simp add: known_types_def)
  moreover have "a < length (h_groups ?h)" "known_types ps" using Cons.prems by (simp_all add: known_types_def)
  note Cons.IH [OF this]
  ultimately show ?case using Cons.prems(1) by (simp add: then_p_apply group_at_def)
qed

definition group_bunch :: "comps_group \<Rightarrow> ptype set \<Rightarrow> bool \<Rightarrow> bunch" where
  "group_bunch g types strict =
     (if strict then no_bunch\<lparr>b_install := RawPkg ` pkgs_of_type g types []\<rparr>
      else no_bunch\<lparr>b_install_opt := RawPkg ` pkgs_of_type g types []\<rparr>)"

lemma group_install_run:
  assumes "group_by_id c gid = Some g" and "known_types (cg_packages g)"
  shows "group_install k q c gid types strict h = (Inr (group_bunch g types strict),
    h\<lparr>h_groups := h_groups h @ [group_record q c types g],
      h_gp := (h_gp h)\<lparr>pe_installed := dict_set gid (length (h_groups h)) (pe_installed (h_gp h))\<rparr>,
      h_log := h_log h @ [AddItem (GroupItem (length (h_groups h))) INSTALL USER, SetState (GroupItem (length (h_groups h))) ST_DONE]\<rparr>)"
proof -
  have id: "co_id g = gid" by (rule group_by_idD [OF assms(1)])
  let ?a = "length (h_groups h)"
  let ?h1 = "h\<lparr>h_groups := h_groups h @ [\<lparr>sg_id = gid, sg_name = co_name g, sg_tname = ui_name (cs_langs c) g, sg_types = types, sg_pkgs = []\<rparr>]\<rparr>"
  have "a < length (h_groups ?h1)" if "a = ?a" for a using that by simp
  from copy_packages_run [OF this assms(2), of ?a]
  have copy: "for_p (copy_package k q ?a) (cg_packages g) ?h1 = (Inr (), h\<lparr>h_groups := h_groups h @ [group_record q c types g]\<rparr>)"
    by (simp add: group_at_def group_record_def id)
  show ?thesis
    unfolding group_install_def assms(1) option.case group_new_def alloc_group_def
    using id by (simp add: bind_p_apply then_p_apply copy gp_install_def group_persistor.run_install group_bunch_def put_gp_def
      group_obj_id_def group_at_def group_record_def)
qed

text \<open>What the loop over the mandatory groups does to the history.\<close>

definition groups_recorded :: "swdb \<Rightarrow> comps \<Rightarrow> ptype set \<Rightarrow> nat \<Rightarrow> comps_group list \<Rightarrow> hist \<Rightarrow> hist \<Rightarrow> bool" where
  "groups_recorded q c types a gs h h' \<longleftrightarrow>
     h_ep h' = h_ep h \<and>
     h_groups h' = h_groups h @ map (group_record q c types) gs \<and>
     h_envs h' = (h_envs h)[a := (env_at h a)\<lparr>se_groups := se_groups (env_at h a) @
        map (\<lambda>g. \<lparr>eg_id = co_id g, eg_installed = True, eg_type = {MANDATORY}\<rparr>) gs\<rparr>] \<and>
     (\<forall>i. i \<notin> co_id ` set gs \<longrightarrow> map_of (pe_installed (h_gp h')) i = map_of (pe_installed (h_gp h)) i) \<and>
     (\<forall>g \<in> set gs. \<exists>b. map_of (pe_installed (h_gp h')) (co_id g) = Some b \<and> b < length (h_groups h') \<and>
        group_at h' b = group_record q c types g)"

fun groups_bunch :: "ptype set \<Rightarrow> bool \<Rightarrow> comps_group list \<Rightarrow> bunch \<Rightarrow> bunch" where
  "groups_bunch types strict [] b = b"
| "groups_bunch types strict (g # gs) b = groups_bunch types strict gs (bunch_iadd b (group_bunch g types strict))"

lemma groups_bunch_sets:
  "b_remove b = {} \<Longrightarrow>
   b_install (groups_bunch types strict gs b) = b_install b \<union> (if strict then (\<Union>g \<in> set gs. RawPkg ` pkgs_of_type g types []) else {}) \<and>
   b_install_opt (groups_bunch types strict gs b) = b_install_opt b \<union> (if strict then {} else (\<Union>g \<in> set gs. RawPkg ` pkgs_of_type g types [])) \<and>
   b_remove (groups_bunch types strict gs b) = {} \<and> b_upgrade (groups_bunch types strict gs b) = b_upgrade b"
proof (induction gs arbitrary: b)
  case (Cons g gs)
  have "b_remove (bunch_iadd b (group_bunch g types strict)) = {}" using Cons.prems by (simp add: group_bunch_def)
  from Cons.IH [OF this] show ?case by (auto simp: group_bunch_def)
qed simp

lemma env_install_groups_run:
  assumes "\<And>g. g \<in> set gs \<Longrightarrow> group_by_id c (co_id g) = Some g" and "\<And>g. g \<in> set gs \<Longrightarrow> known_types (cg_packages g)"
    and "a < length (h_envs h)"
  shows "\<exists>h'. env_install_groups k q c types strict excluded a gs tr h
      = (Inr (groups_bunch types strict (filter (\<lambda>g. co_id g \<notin> set excluded) gs) tr), h') \<and>
    groups_recorded q c types a (filter (\<lambda>g. co_id g \<notin> set excluded) gs) h h'"
  using assms
proof (induction gs arbitrary: tr h)
  case Nil
  then show ?case by (simp add: groups_recorded_def env_at_def)
next
  case (Cons g gs)
  let ?keep = "filter (\<lambda>g. co_id g \<notin> set excluded)"
  show ?case
  proof (cases "co_id g \<in> set excluded")
    case True
    with Cons show ?thesis by simp
  next
    case False
    let ?n = "length (h_groups h)"
    let ?h1 = "h\<lparr>h_groups := h_groups h @ [group_record q c types g],
      h_gp := (h_gp h)\<lparr>pe_installed := dict_set (co_id g) ?n (pe_installed (h_gp h))\<rparr>,
      h_log := h_log h @ [AddItem (GroupItem ?n) INSTALL USER, SetState (GroupItem ?n) ST_DONE]\<rparr>"
    let ?h2 = "?h1\<lparr>h_envs := (h_envs h)[a := (env_at h a)\<lparr>se_groups := se_groups (env_at h a) @
      [\<lparr>eg_id = co_id g, eg_installed = True, eg_type = {MANDATORY}\<rparr>]\<rparr>]\<rparr>"
    have "group_by_id c (co_id g) = Some g" "known_types (cg_packages g)" using Cons.prems by auto
    note run = group_install_run [OF this, of k q types strict h]
    have "a < length (h_envs ?h2)" using Cons.prems(3) by simp
    with Cons obtain h' where h': "env_install_groups k q c types strict excluded a gs (bunch_iadd tr (group_bunch g types strict)) ?h2
        = (Inr (groups_bunch types strict (?keep gs) (bunch_iadd tr (group_bunch g types strict))), h')"
      and rec: "groups_recorded q c types a (?keep gs) ?h2 h'" by (metis (no_types, lifting) list.set_intros(2))
    have step: "env_install_groups k q c types strict excluded a (g # gs) tr h
        = (Inr (groups_bunch types strict (?keep (g # gs)) tr), h')"
      using False h' by (simp add: bind_p_apply then_p_apply run addGroup_def env_at_def)
    have at: "group_at h' ?n = group_record q c types g" "?n < length (h_groups h')"
      using rec by (auto simp: groups_recorded_def group_at_def nth_append)
    have head: "\<exists>b. map_of (pe_installed (h_gp h')) (co_id g) = Some b \<and> b < length (h_groups h') \<and> group_at h' b = group_record q c types g"
    proof (cases "co_id g \<in> co_id ` set (?keep gs)")
      case True
      then obtain g' where g': "g' \<in> set (?keep gs)" "co_id g' = co_id g" by auto
      with Cons.prems(1) have "g' = g" by (metis (no_types, lifting) filter_is_subset list.set_intros(1,2) option.inject subsetD)
      with g'(1) rec show ?thesis unfolding groups_recorded_def by blast
    next
      case False
      with rec at show ?thesis by (simp add: groups_recorded_def)
    qed
    have "groups_recorded q c types a (?keep (g # gs)) h h'"
      using False rec head Cons.prems(3) by (auto simp: groups_recorded_def env_at_def)
    with step show ?thesis by blast
  qed
qed

lemma note_optional_run:
  "a < length (h_envs h) \<Longrightarrow> for_p (note_optional excluded a) gs h =
     (Inr (), h\<lparr>h_envs := (h_envs h)[a := (env_at h a)\<lparr>se_groups := se_groups (env_at h a) @
        map (\<lambda>g. \<lparr>eg_id = co_id g, eg_installed = False, eg_type = {OPTIONAL}\<rparr>) (filter (\<lambda>g. co_id g \<notin> set excluded) gs)\<rparr>]\<rparr>)"
proof (induction gs arbitrary: h)
  case Nil
  then show ?case by (simp add: env_at_def)
next
  case (Cons g gs)
  show ?case
  proof (cases "co_id g \<in> set excluded")
    case True
    with Cons show ?thesis by (simp add: note_optional_def then_p_apply)
  next
    case False
    let ?h = "h\<lparr>h_envs := (h_envs h)[a := (env_at h a)\<lparr>se_groups := se_groups (env_at h a) @
      [\<lparr>eg_id = co_id g, eg_installed = False, eg_type = {OPTIONAL}\<rparr>]\<rparr>]\<rparr>"
    have "a < length (h_envs ?h)" using Cons.prems by simp
    note IH = Cons.IH [OF this]
    have "note_optional excluded a g h = (Inr (), ?h)" using False by (simp add: note_optional_def addGroup_def)
    with IH False Cons.prems show ?thesis by (simp add: then_p_apply env_at_def)
  qed
qed

text \<open>
  C37. Installing an environment: if it exists (and its packages have a known type) the operation
  succeeds, groups of the environment that the metadata lacks are passed over, and afterwards the
  environment is registered with exactly the groups that are not excluded, the mandatory ones as
  installed and the optional ones as not, in the order of the metadata; every such mandatory group is
  registered with all its packages; and the packages to install are those of the chosen types of
  these groups, all strict or all optional as asked, with nothing to remove or to upgrade.
\<close>

theorem environment_installed:
  assumes env: "environment_by_id c eid = Some env"
    and types: "\<And>g. g \<in> set (mandatory_groups c env) \<Longrightarrow> known_types (cg_packages g)"
  shows "\<exists>b h' a. environment_install k q c eid types strict excluded h = (Inr b, h') \<and>
    (let mand = filter (\<lambda>g. co_id g \<notin> set excluded) (mandatory_groups c env);
         opt = filter (\<lambda>g. co_id g \<notin> set excluded) (optional_groups c env);
         pkgs = (\<Union>g \<in> set mand. RawPkg ` pkgs_of_type g types [])
     in b = no_bunch\<lparr>b_install := if strict then pkgs else {}, b_install_opt := if strict then {} else pkgs\<rparr> \<and>
        map_of (pe_installed (h_ep h')) eid = Some a \<and> se_id (env_at h' a) = eid \<and>
        se_groups (env_at h' a) =
          map (\<lambda>g. \<lparr>eg_id = co_id g, eg_installed = True, eg_type = {MANDATORY}\<rparr>) mand @
          map (\<lambda>g. \<lparr>eg_id = co_id g, eg_installed = False, eg_type = {OPTIONAL}\<rparr>) opt \<and>
        (\<forall>g \<in> set mand. \<exists>i. map_of (pe_installed (h_gp h')) (co_id g) = Some i \<and> group_at h' i = group_record q c types g))"
proof -
  let ?keep = "filter (\<lambda>g. co_id g \<notin> set excluded)"
  let ?mand = "?keep (mandatory_groups c env)"
  let ?a = "length (h_envs h)"
  let ?env = "\<lparr>se_id = eid, se_name = co_name env, se_tname = ui_name (cs_langs c) env, se_types = types, se_groups = []\<rparr>"
  let ?h1 = "h\<lparr>h_envs := h_envs h @ [?env], h_ep := (h_ep h)\<lparr>pe_installed := dict_set eid ?a (pe_installed (h_ep h))\<rparr>,
     h_log := h_log h @ [AddItem (EnvItem ?a) INSTALL USER, SetState (EnvItem ?a) ST_DONE]\<rparr>"
  have known: "group_by_id c (co_id g) = Some g" if "g \<in> set (mandatory_groups c env)" for g
    using that unfolding mandatory_groups_def by (rule built_groups_known)
  have "?a < length (h_envs ?h1)" by simp
  from env_install_groups_run [where k = k and q = q and types = types and strict = strict and excluded = excluded
      and tr = no_bunch, OF known types this] obtain h2
    where run: "env_install_groups k q c types strict excluded ?a (mandatory_groups c env) no_bunch ?h1
      = (Inr (groups_bunch types strict ?mand no_bunch), h2)" and rec: "groups_recorded q c types ?a ?mand ?h1 h2" by blast
  have len: "?a < length (h_envs h2)" using rec by (simp add: groups_recorded_def)
  let ?h' = "h2\<lparr>h_envs := (h_envs h2)[?a := (env_at h2 ?a)\<lparr>se_groups := se_groups (env_at h2 ?a) @
     map (\<lambda>g. \<lparr>eg_id = co_id g, eg_installed = False, eg_type = {OPTIONAL}\<rparr>) (?keep (optional_groups c env))\<rparr>]\<rparr>"
  have exec: "environment_install k q c eid types strict excluded h = (Inr (groups_bunch types strict ?mand no_bunch), ?h')"
    unfolding environment_install_def env option.case env_new_def alloc_env_def
    by (simp add: bind_p_apply then_p_apply ep_install_def env_persistor.run_install put_ep_def env_obj_id_def env_at_def
      run [unfolded env_at_def] note_optional_run [OF len, unfolded env_at_def])
  have bunch: "groups_bunch types strict ?mand no_bunch
      = no_bunch\<lparr>b_install := if strict then (\<Union>g \<in> set ?mand. RawPkg ` pkgs_of_type g types []) else {},
                 b_install_opt := if strict then {} else (\<Union>g \<in> set ?mand. RawPkg ` pkgs_of_type g types [])\<rparr>"
    using groups_bunch_sets [of no_bunch types strict ?mand] by (intro bunch.equality) simp_all
  have reg: "map_of (pe_installed (h_ep ?h')) eid = Some ?a" using rec by (simp add: groups_recorded_def)
  have at: "env_at ?h' ?a = ?env\<lparr>se_groups := map (\<lambda>g. \<lparr>eg_id = co_id g, eg_installed = True, eg_type = {MANDATORY}\<rparr>) ?mand @
      map (\<lambda>g. \<lparr>eg_id = co_id g, eg_installed = False, eg_type = {OPTIONAL}\<rparr>) (?keep (optional_groups c env))\<rparr>"
    using rec by (simp add: groups_recorded_def env_at_def)
  have "\<forall>g \<in> set ?mand. \<exists>i. map_of (pe_installed (h_gp ?h')) (co_id g) = Some i \<and> group_at ?h' i = group_record q c types g"
    using rec by (auto simp: groups_recorded_def group_at_def)
  with exec bunch reg at show ?thesis
    unfolding Let_def by (intro exI [of _ "groups_bunch types strict ?mand no_bunch"] exI [of _ ?h'] exI [of _ ?a]) simp
qed

lemma environment_installed_witness:
  "\<exists>b h'. environment_install example_nums example_swdb example_comps ''sugar-desktop'' {MANDATORY} True [] hist0 = (Inr b, h') \<and>
     b_install b = {RawPkg (example_cpkg ''tour'' LT_MANDATORY)}"
proof -
  have env: "environment_by_id example_comps ''sugar-desktop'' = Some example_cenv"
    by (simp add: environment_by_id_def example_defs)
  let ?base = "example_cgroup ''base'' ''Base'' [example_cpkg ''tour'' LT_MANDATORY, example_cpkg ''pepper'' LT_OPTIONAL]"
  have mand: "mandatory_groups example_comps example_cenv = [?base]"
    by (simp add: mandatory_groups_def build_group_def group_by_id_def example_defs)
  have "known_types (cg_packages g)" if "g \<in> set (mandatory_groups example_comps example_cenv)" for g
    using that unfolding mand by (simp add: known_types_def example_defs)
  from environment_installed [OF env this, of example_nums example_swdb "{MANDATORY}" True "[]" hist0]
  obtain b h' where b: "environment_install example_nums example_swdb example_comps ''sugar-desktop'' {MANDATORY} True [] hist0 = (Inr b, h')"
    "b_install b = (\<Union>g \<in> set (mandatory_groups example_comps example_cenv). RawPkg ` pkgs_of_type g {MANDATORY} [])"
    by (auto simp: Let_def)
  have "b_install b = {RawPkg (example_cpkg ''tour'' LT_MANDATORY)}"
    unfolding b(2) mand by (simp add: pkgs_of_type_def mandatory_packages_def packages_of_type_def example_defs)
  with b(1) show ?thesis by blast
qed

subsection \<open>Upgrading\<close>

lemma group_upgrade_run:
  assumes "sq_group q gid = Some old" and "group_by_id c gid = Some g" and "known_types (cg_packages g)"
  shows "\<exists>h'. group_upgrade k q c gid h = (Inr (no_bunch\<lparr>
      b_install := TransPkg ` trans_pkg_of_comps k ` {p \<in> pkgs_of_type g (sg_types old) []. ck_name p \<notin> gk_name ` set (sg_pkgs old)},
      b_remove := TransPkg ` trans_pkg_of_name ` {n \<in> gk_name ` set (sg_pkgs old). n \<notin> ck_name ` pkgs_of_type g (sg_types old) []},
      b_upgrade := TransPkg ` trans_pkg_of_comps k ` {p \<in> pkgs_of_type g (sg_types old) []. ck_name p \<in> gk_name ` set (sg_pkgs old)}\<rparr>), h') \<and>
    (\<exists>a. map_of (pe_upgraded (h_gp h')) gid = Some a \<and> group_at h' a = group_record q c (sg_types old) g)"
proof -
  have id: "co_id g = gid" by (rule group_by_idD [OF assms(2)])
  let ?new = "\<lparr>sg_id = gid, sg_name = co_name g, sg_tname = ui_name (cs_langs c) g, sg_types = sg_types old, sg_pkgs = []\<rparr>"
  let ?h1 = "h\<lparr>h_groups := h_groups h @ [old, ?new]\<rparr>"
  let ?a = "Suc (length (h_groups h))"
  have "?a < length (h_groups ?h1)" by simp
  from copy_packages_run [OF this assms(3), of k q]
  have copy: "for_p (copy_package k q ?a) (cg_packages g) ?h1
      = (Inr (), h\<lparr>h_groups := h_groups h @ [old, group_record q c (sg_types old) g]\<rparr>)"
    by (simp add: group_at_def group_record_def id nth_append list_update_append)
  show ?thesis
    using id unfolding group_upgrade_def group_get_def assms(1,2) option.case alloc_group_def group_new_def
    by (simp add: bind_p_apply then_p_apply group_at_def nth_append Let_def copy gp_upgrade_def
      group_persistor.run_upgrade put_gp_def group_obj_id_def group_record_def)
qed

text \<open>
  Upgrading a group splits the names: what the new definition of the group has and the old record
  has not is installed, what both have is upgraded, what only the old record has is removed, each by
  the package types recorded when the group was installed; and the new record, with all packages of
  the group, is registered as upgraded.
\<close>

theorem group_upgraded:
  assumes "sq_group q gid = Some old" and "group_by_id c gid = Some g" and "known_types (cg_packages g)"
  shows "\<exists>b h'. group_upgrade k q c gid h = (Inr b, h') \<and>
    (let new = ck_name ` pkgs_of_type g (sg_types old) []; before = gk_name ` set (sg_pkgs old)
     in member_name ` b_install b = new - before \<and> member_name ` b_upgrade b = new \<inter> before \<and>
        member_name ` b_remove b = before - new \<and> b_install_opt b = {}) \<and>
    (\<exists>a. map_of (pe_upgraded (h_gp h')) gid = Some a \<and> group_at h' a = group_record q c (sg_types old) g)"
proof -
  have names: "member_name ` TransPkg ` trans_pkg_of_comps k ` A = ck_name ` A" for A
    by (simp add: image_image trans_pkg_of_comps_def)
  have names': "member_name ` TransPkg ` trans_pkg_of_name ` B = B" for B
    by (simp add: image_image trans_pkg_of_name_def)
  from group_upgrade_run [OF assms, of k h] obtain h' where
    run: "group_upgrade k q c gid h = (Inr (no_bunch\<lparr>
      b_install := TransPkg ` trans_pkg_of_comps k ` {p \<in> pkgs_of_type g (sg_types old) []. ck_name p \<notin> gk_name ` set (sg_pkgs old)},
      b_remove := TransPkg ` trans_pkg_of_name ` {n \<in> gk_name ` set (sg_pkgs old). n \<notin> ck_name ` pkgs_of_type g (sg_types old) []},
      b_upgrade := TransPkg ` trans_pkg_of_comps k ` {p \<in> pkgs_of_type g (sg_types old) []. ck_name p \<in> gk_name ` set (sg_pkgs old)}\<rparr>), h')"
    and reg: "\<exists>a. map_of (pe_upgraded (h_gp h')) gid = Some a \<and> group_at h' a = group_record q c (sg_types old) g" by blast
  let ?new = "ck_name ` pkgs_of_type g (sg_types old) []" and ?before = "gk_name ` set (sg_pkgs old)"
  have sets: "ck_name ` {p \<in> pkgs_of_type g (sg_types old) []. ck_name p \<notin> ?before} = ?new - ?before"
    "ck_name ` {p \<in> pkgs_of_type g (sg_types old) []. ck_name p \<in> ?before} = ?new \<inter> ?before"
    "{n \<in> ?before. n \<notin> ?new} = ?before - ?new" by auto
  show ?thesis
    by (rule exI, rule exI [of _ h'], rule conjI [OF run], rule conjI [OF _ reg])
      (simp only: Let_def bunch.simps no_bunch_def names names' sets simp_thms)
qed

lemma group_upgraded_witness:
  "\<exists>b h'. group_upgrade example_nums example_swdb example_comps ''base'' hist0 = (Inr b, h') \<and> member_name ` b_upgrade b = {''tour''}"
proof -
  let ?base = "example_cgroup ''base'' ''Base'' [example_cpkg ''tour'' LT_MANDATORY, example_cpkg ''pepper'' LT_OPTIONAL]"
  have "sq_group example_swdb ''base'' = Some example_group" "group_by_id example_comps ''base'' = Some ?base"
    "known_types (cg_packages ?base)"
    by (simp_all add: example_swdb_def group_by_id_def example_defs known_types_def)
  from group_upgraded [OF this, of example_nums hist0] obtain b h' where
    b: "group_upgrade example_nums example_swdb example_comps ''base'' hist0 = (Inr b, h')"
    "member_name ` b_upgrade b = ck_name ` pkgs_of_type ?base (sg_types example_group) [] \<inter> gk_name ` set (sg_pkgs example_group)"
    by (auto simp: Let_def)
  have "member_name ` b_upgrade b = {''tour''}"
    unfolding b(2) by (simp add: pkgs_of_type_def mandatory_packages_def packages_of_type_def example_defs example_group_def)
  with b(1) show ?thesis by blast
qed

subsection \<open>Removing\<close>

lemma removable_loop_Inr:
  "(\<And>p. p \<in> set ps \<Longrightarrow> is_removable_pkg q h (gk_name p) = Inr (R (gk_name p))) \<Longrightarrow>
     removable_loop q h ps = Inr (filter (\<lambda>p. R (gk_name p)) ps)"
  by (induction ps) auto



subsection \<open>No package is both removed and installed\<close>

lemma triple_returns: "triple (\<lambda>_. True) m (\<lambda>b _. Q b) (\<lambda>_. True) \<longleftrightarrow> (\<forall>h b h'. m h = (Inr b, h') \<longrightarrow> Q b)"
  by (fastforce simp: triple_def split: prod.splits sum.splits)

lemma any_result: "triple (\<lambda>_. True) m (\<lambda>_ _. True) (\<lambda>_. True)"
  by (rule tripleI) simp_all

lemma env_remove_groups_disjoint:
  "bunch_disjoint tr \<Longrightarrow> triple (\<lambda>_. True) (env_remove_groups k q gids tr) (\<lambda>b _. bunch_disjoint b) (\<lambda>_. True)"
proof (induction gids arbitrary: tr)
  case (Cons gid gids)
  have "triple (\<lambda>_. True) (if \<not> b then env_remove_groups k q gids tr
      else bind_p (group_remove k q gid) (\<lambda>b. env_remove_groups k q gids (bunch_iadd tr b))) (\<lambda>b _. bunch_disjoint b) (\<lambda>_. True)" for b
    by (cases b) (simp_all add: Cons.IH [OF Cons.prems] triple_bind [OF any_result Cons.IH [OF bunch_iadd_disjoint]])
  then show ?case unfolding env_remove_groups.simps by (intro triple_bind [OF any_result])
qed (simp add: triple_def)

lemma bind_disjoint:
  assumes "triple (\<lambda>_. True) m (\<lambda>tr _. bunch_disjoint tr) (\<lambda>_. True)"
    and "\<And>tr. bunch_disjoint tr \<Longrightarrow> triple (\<lambda>_. True) (f tr) (\<lambda>b _. bunch_disjoint b) (\<lambda>_. True)"
  shows "triple (\<lambda>_. True) (bind_p m f) (\<lambda>b _. bunch_disjoint b) (\<lambda>_. True)"
  using assms(2) by (intro triple_bind [OF assms(1)]) (auto simp: triple_def)

lemma add_bunch_disjoint: "triple (\<lambda>_. True) (bind_p m (\<lambda>b. return_p (bunch_iadd tr b))) (\<lambda>b _. bunch_disjoint b) (\<lambda>_. True)"
  by (rule triple_bind [OF any_result]) (simp add: triple_def)

lemma get_upgrade_disjoint:
  "bunch_disjoint tr \<Longrightarrow> triple (\<lambda>_. True) (bind_p (group_get q gid) (\<lambda>found. case found of None \<Rightarrow> return_p tr
     | Some _ \<Rightarrow> bind_p (group_upgrade k q c gid) (\<lambda>b. return_p (bunch_iadd tr b)))) (\<lambda>b _. bunch_disjoint b) (\<lambda>_. True)"
proof (rule triple_bind [OF any_result])
  fix r :: "nat option" assume "bunch_disjoint tr"
  then show "triple (\<lambda>_. True) (case r of None \<Rightarrow> return_p tr
     | Some _ \<Rightarrow> bind_p (group_upgrade k q c gid) (\<lambda>b. return_p (bunch_iadd tr b))) (\<lambda>b _. bunch_disjoint b) (\<lambda>_. True)"
    by (cases r) (simp_all add: add_bunch_disjoint triple_def [of _ "return_p tr"])
qed

lemma env_upgrade_mandatory_disjoint:
  "bunch_disjoint tr \<Longrightarrow> triple (\<lambda>_. True) (env_upgrade_mandatory k q c types old a gs tr) (\<lambda>b _. bunch_disjoint b) (\<lambda>_. True)"
proof (induction gs arbitrary: tr)
  case (Cons g gs)
  have "triple (\<lambda>_. True) (if co_id g \<in> old then bind_p (group_get q (co_id g)) (\<lambda>found. case found of None \<Rightarrow> return_p tr
       | Some _ \<Rightarrow> bind_p (group_upgrade k q c (co_id g)) (\<lambda>b. return_p (bunch_iadd tr b)))
     else bind_p (group_install k q c (co_id g) types True) (\<lambda>b. return_p (bunch_iadd tr b))) (\<lambda>b _. bunch_disjoint b) (\<lambda>_. True)"
    using Cons.prems by (simp add: get_upgrade_disjoint add_bunch_disjoint)
  then show ?case
    unfolding env_upgrade_mandatory.simps
    by (rule bind_disjoint) (rule triple_then [OF any_result Cons.IH])
qed (simp add: triple_def)

lemma env_upgrade_optional_disjoint:
  "bunch_disjoint tr \<Longrightarrow> triple (\<lambda>_. True) (env_upgrade_optional k q c old a gs tr) (\<lambda>b _. bunch_disjoint b) (\<lambda>_. True)"
proof (induction gs arbitrary: tr)
  case (Cons g gs)
  have "triple (\<lambda>_. True) (if co_id g \<in> old then bind_p (group_get q (co_id g)) (\<lambda>found. case found of None \<Rightarrow> return_p tr
       | Some _ \<Rightarrow> bind_p (group_upgrade k q c (co_id g)) (\<lambda>b. return_p (bunch_iadd tr b)))
     else return_p tr) (\<lambda>b _. bunch_disjoint b) (\<lambda>_. True)"
    using Cons.prems by (simp add: get_upgrade_disjoint triple_def [of _ "return_p tr"])
  then show ?case
    unfolding env_upgrade_optional.simps
    by (rule bind_disjoint) (rule triple_then [OF any_result Cons.IH])
qed (simp add: triple_def)

lemma no_bunch_disjoint: "bunch_disjoint no_bunch"
  by (simp add: bunch_disjoint_def)

lemma environment_upgrade_disjoint:
  "triple (\<lambda>_. True) (environment_upgrade k q c eid) (\<lambda>b _. bunch_disjoint b) (\<lambda>_. True)"
proof -
  have body: "triple (\<lambda>_. True) (bind_p (env_upgrade_mandatory k q c types old_set a ms no_bunch) (\<lambda>tr.
      bind_p (env_upgrade_optional k q c old_set a os tr) (\<lambda>tr. then_p (ep_upgrade a) (return_p tr)))) (\<lambda>b _. bunch_disjoint b) (\<lambda>_. True)"
    for types old_set a ms os
    by (rule bind_disjoint [OF env_upgrade_mandatory_disjoint [OF no_bunch_disjoint] bind_disjoint [OF env_upgrade_optional_disjoint]],
        assumption, rule triple_then [OF any_result]) (simp add: triple_def)
  show ?thesis
    unfolding environment_upgrade_def
  proof (rule triple_bind [OF any_result])
    fix found :: "nat option"
    show "triple (\<lambda>_. True) (case found of
         None \<Rightarrow> raise_p (CompsError (''Environment '' @ sq @ eid @ sq @ '' is not installed.''))
       | Some old \<Rightarrow>
           (case environment_by_id c eid of
              None \<Rightarrow> raise_p (CompsError (''Environment '' @ sq @ eid @ sq @ '' is not available.''))
            | Some env \<Rightarrow>
                bind_p (gets_p (\<lambda>h. set (map eg_id (se_groups (env_at h old))))) (\<lambda>old_set.
                bind_p (gets_p (\<lambda>h. se_types (env_at h old))) (\<lambda>pkg_types.
                bind_p (env_new (co_id env) (co_name env) (ui_name (cs_langs c) env) pkg_types) (\<lambda>a.
                bind_p (env_upgrade_mandatory k q c pkg_types old_set a (mandatory_groups c env) no_bunch) (\<lambda>tr.
                bind_p (env_upgrade_optional k q c old_set a (optional_groups c env) tr) (\<lambda>tr.
                then_p (ep_upgrade a) (return_p tr))))))))
      (\<lambda>b _. bunch_disjoint b) (\<lambda>_. True)"
      by (cases found; cases "environment_by_id c eid")
        (auto intro!: triple_bind [OF any_result] body simp: triple_def [of _ "raise_p e" for e])
  qed
qed

text \<open>
  The sets of packages that the removal or the upgrade of an environment asks for are consistent:
  nothing that is to be installed or upgraded is to be removed, whatever its groups ask for one by
  one.
\<close>

theorem environment_bunch_disjoint:
  "(environment_upgrade k q c eid h = (Inr b, h') \<or> environment_remove elems k q eid h = (Inr b, h')) \<longrightarrow>
     b_remove b \<inter> (b_install b \<union> b_install_opt b \<union> b_upgrade b) = {}"
proof -
  have rm: "triple (\<lambda>_. True) (environment_remove elems k q eid) (\<lambda>b _. bunch_disjoint b) (\<lambda>_. True)"
    unfolding environment_remove_def
  proof (rule triple_bind [OF any_result])
    fix found :: "nat option"
    show "triple (\<lambda>_. True) (case found of
         None \<Rightarrow> raise_p (CompsError (''Environment id '' @ sq @ eid @ sq @ '' is not installed.''))
       | Some a \<Rightarrow>
           then_p (ep_remove a)
           (bind_p (gets_p (\<lambda>h. elems (set (map eg_id (se_groups (env_at h a)))))) (\<lambda>group_ids.
            env_remove_groups k q group_ids no_bunch))) (\<lambda>b _. bunch_disjoint b) (\<lambda>_. True)"
      by (cases found) (auto intro!: triple_then [OF any_result] triple_bind [OF any_result] env_remove_groups_disjoint
        no_bunch_disjoint simp: triple_def [of _ "raise_p e" for e])
  qed
  have "\<forall>h b h'. environment_remove elems k q eid h = (Inr b, h') \<longrightarrow> bunch_disjoint b"
    using rm by (simp only: triple_returns)
  moreover have "\<forall>h b h'. environment_upgrade k q c eid h = (Inr b, h') \<longrightarrow> bunch_disjoint b"
    using environment_upgrade_disjoint by (simp only: triple_returns)
  ultimately show ?thesis unfolding bunch_disjoint_def by blast
qed

lemma environment_bunch_disjoint_witness:
  "\<exists>b h'. environment_upgrade example_nums (example_swdb\<lparr>sq_env := (\<lambda>_. Some \<lparr>se_id = ''sugar-desktop'', se_name = None, se_tname = None,
       se_types = {MANDATORY}, se_groups = []\<rparr>)\<rparr>) (example_comps\<lparr>cs_envs := [example_cenv\<lparr>ce_group_ids := []\<rparr>]\<rparr>) ''sugar-desktop'' hist0 = (Inr b, h') \<and>
     b_remove b \<inter> (b_install b \<union> b_install_opt b \<union> b_upgrade b) = {}"
proof -
  let ?q = "example_swdb\<lparr>sq_env := (\<lambda>_. Some \<lparr>se_id = ''sugar-desktop'', se_name = None, se_tname = None,
       se_types = {MANDATORY}, se_groups = []\<rparr>)\<rparr>"
  let ?c = "example_comps\<lparr>cs_envs := [example_cenv\<lparr>ce_group_ids := []\<rparr>]\<rparr>"
  obtain b h' where run: "environment_upgrade example_nums ?q ?c ''sugar-desktop'' hist0 = (Inr b, h')"
    by (simp add: environment_upgrade_def env_get_def alloc_env_def env_new_def bind_p_apply then_p_apply environment_by_id_def
      mandatory_groups_def optional_groups_def build_group_def group_by_id_def example_defs env_at_def addGroup_def ep_upgrade_def
      env_persistor.run_upgrade hist0_def)
  with environment_bunch_disjoint [of example_nums ?q ?c "''sugar-desktop''" hist0 b h'] show ?thesis by blast
qed

end
