(* ===== verification/I18n.thy ===== *)
theory I18n
  imports Prelude
begin

text \<open>
  dnf/i18n.py, the part that lays out text on a terminal.  \<open>wide\<close> says which characters take two
  columns (\<open>unicodedata.east_asian_width\<close> is \<open>W\<close> or \<open>F\<close>), a table of the Unicode standard; all that is
  used of it is that the space is not wide.  The three list marks beyond code point 255 that
  \<open>textwrap_fill\<close> knows are outside the character type.
\<close>

definition exact_width_char :: "(char \<Rightarrow> bool) \<Rightarrow> char \<Rightarrow> nat" where
  "exact_width_char wide c = (if wide c then 2 else 1)"

definition exact_width :: "(char \<Rightarrow> bool) \<Rightarrow> string \<Rightarrow> nat" where
  "exact_width wide msg = (\<Sum>c\<leftarrow>msg. exact_width_char wide c)"

fun chop_loop :: "(char \<Rightarrow> bool) \<Rightarrow> nat \<Rightarrow> nat \<Rightarrow> string \<Rightarrow> string \<Rightarrow> nat \<times> string" where
  "chop_loop wide chop width chopped [] = (width, chopped)"
| "chop_loop wide chop width chopped (c # cs) =
     (if width + exact_width_char wide c > chop then (width, chopped)
      else chop_loop wide chop (width + exact_width_char wide c) (chopped @ [c]) cs)"

definition chop_str :: "(char \<Rightarrow> bool) \<Rightarrow> string \<Rightarrow> nat option \<Rightarrow> nat \<times> string" where
  "chop_str wide msg chop = (case chop of None \<Rightarrow> (exact_width wide msg, msg) | Some n \<Rightarrow> chop_loop wide n 0 [] msg)"

definition spaces :: "nat \<Rightarrow> string" where
  "spaces n = replicate n CHR '' ''"

definition fill_exact_width ::
  "(char \<Rightarrow> bool) \<Rightarrow> string \<Rightarrow> nat \<Rightarrow> nat option \<Rightarrow> bool \<Rightarrow> string \<Rightarrow> string \<Rightarrow> string" where
  "fill_exact_width wide msg fill chop left prefix suffix =
     (let (width, msg) = chop_str wide msg chop
      in if fill \<le> width then (if prefix \<noteq> [] \<or> suffix \<noteq> [] then prefix @ msg @ suffix else msg)
         else let extra = spaces (fill - width)
              in if left then prefix @ msg @ suffix @ extra else extra @ prefix @ msg @ suffix)"

definition select_short_long :: "(char \<Rightarrow> bool) \<Rightarrow> nat \<Rightarrow> string \<Rightarrow> string \<Rightarrow> string" where
  "select_short_long wide width msg_short msg_long =
     (let width_short = exact_width wide msg_short; width_long = exact_width wide msg_long
      in if width_short = width_long then msg_long
         else if width_short > width_long then (if width_short \<le> width then msg_short else msg_long)
         else (if width_long \<le> width then msg_long else msg_short))"

lemma exact_width_simps [simp]:
  "exact_width wide [] = 0"
  "exact_width wide (c # cs) = exact_width_char wide c + exact_width wide cs"
  "exact_width wide (s @ t) = exact_width wide s + exact_width wide t"
  by (simp_all add: exact_width_def)

lemma spaces_0: "spaces 0 = []"
  by (simp add: spaces_def)

lemma exact_width_spaces: "\<not> wide CHR '' '' \<Longrightarrow> exact_width wide (spaces n) = n"
  by (induction n) (auto simp: spaces_def exact_width_char_def)

lemma exact_width_narrow: "(\<And>c. c \<in> set s \<Longrightarrow> \<not> wide c) \<Longrightarrow> exact_width wide s = length s"
  by (induction s) (auto simp: exact_width_char_def)

text \<open>Chopping takes the longest prefix that fits.\<close>

fun fitting :: "(char \<Rightarrow> bool) \<Rightarrow> nat \<Rightarrow> string \<Rightarrow> string" where
  "fitting wide n [] = []"
| "fitting wide n (c # cs) = (if exact_width_char wide c > n then [] else c # fitting wide (n - exact_width_char wide c) cs)"

lemma chop_loop_eq:
  "w \<le> chop \<Longrightarrow> chop_loop wide chop w chopped s
     = (w + exact_width wide (fitting wide (chop - w) s), chopped @ fitting wide (chop - w) s)"
  by (induction s arbitrary: w chopped) (auto simp: diff_diff_left)

lemma chop_str_eq: "chop_str wide msg (Some n) = (exact_width wide (fitting wide n msg), fitting wide n msg)"
  by (simp add: chop_str_def chop_loop_eq)

lemma chop_str_width: "fst (chop_str wide msg chop) = exact_width wide (snd (chop_str wide msg chop))"
  by (cases chop) (simp_all add: chop_str_eq, simp add: chop_str_def)

lemma fitting_width: "exact_width wide (fitting wide n s) \<le> n"
  by (induction wide n s rule: fitting.induct) auto

lemma fitting_longest:
  "s = p @ r \<Longrightarrow> exact_width wide p \<le> n \<Longrightarrow> \<exists>t. fitting wide n s = p @ t"
proof (induction p arbitrary: s n)
  case (Cons c p)
  from Cons.prems have "\<exists>t. fitting wide (n - exact_width_char wide c) (p @ r) = p @ t"
    by (intro Cons.IH) auto
  with Cons.prems show ?case by auto
qed simp

lemma fitting_prefix: "\<exists>r. s = fitting wide n s @ r"
  by (induction wide n s rule: fitting.induct) auto

text \<open>
  Filling a column: \<open>chop_str\<close> keeps the longest prefix of the text that fits the limit and
  reports its true width, and \<open>fill_exact_width\<close> pads it with spaces, on the side asked for, to a
  width that is exactly the larger of the column and the text, whatever invisible prefix and suffix
  are wrapped around the text.
\<close>

theorem column_width:
  assumes "\<not> wide CHR '' ''"
  shows "let (w, kept) = chop_str wide msg (Some n) in
    w = exact_width wide kept \<and> w \<le> n \<and> (\<exists>r. msg = kept @ r) \<and>
    (\<forall>p r. msg = p @ r \<longrightarrow> exact_width wide p \<le> n \<longrightarrow> length p \<le> length kept) \<and>
    (\<exists>pad. exact_width wide pad = fill - w \<and> set pad \<subseteq> {CHR '' ''} \<and>
       fill_exact_width wide msg fill (Some n) left prefix suffix
         = (if left then prefix @ kept @ suffix @ pad else pad @ prefix @ kept @ suffix) \<and>
       exact_width wide (fill_exact_width wide msg fill (Some n) left [] []) = max fill w)"
proof -
  let ?kept = "fitting wide n msg" and ?w = "exact_width wide (fitting wide n msg)"
  have longest: "length p \<le> length ?kept" if "msg = p @ r" "exact_width wide p \<le> n" for p r
    using fitting_longest [OF that] by auto
  have pad: "exact_width wide (spaces (fill - ?w)) = fill - ?w" "set (spaces (fill - ?w)) \<subseteq> {CHR '' ''}"
    by (rule exact_width_spaces [of wide, OF assms]) (auto simp: spaces_def)
  have filled: "fill_exact_width wide msg fill (Some n) left p s
      = (if left then p @ ?kept @ s @ spaces (fill - ?w) else spaces (fill - ?w) @ p @ ?kept @ s)" for p s
    using spaces_0 by (simp add: fill_exact_width_def chop_str_eq Let_def)
  have "exact_width wide (fill_exact_width wide msg fill (Some n) left [] []) = max fill ?w"
    using pad(1) filled [of "[]" "[]"] by (simp add: max_def spaces_0)
  with pad filled [of prefix suffix]
  have "\<exists>p. exact_width wide p = fill - ?w \<and> set p \<subseteq> {CHR '' ''} \<and>
      fill_exact_width wide msg fill (Some n) left prefix suffix
        = (if left then prefix @ ?kept @ suffix @ p else p @ prefix @ ?kept @ suffix) \<and>
      exact_width wide (fill_exact_width wide msg fill (Some n) left [] []) = max fill ?w"
    by (intro exI [of _ "spaces (fill - ?w)"] conjI)
  moreover have "\<forall>p r. msg = p @ r \<longrightarrow> exact_width wide p \<le> n \<longrightarrow> length p \<le> length ?kept"
    by (intro allI impI longest)
  ultimately show ?thesis
    unfolding chop_str_eq Let_def prod.case using fitting_width [of wide n msg] fitting_prefix [of msg wide n]
    by (intro conjI refl)
qed

lemma column_width_witness:
  "exact_width (\<lambda>c. c = CHR 0xB5) (fill_exact_width (\<lambda>c. c = CHR 0xB5) (''a'' @ [CHR 0xB5, CHR 0xB5]) 5 (Some 4) True [] []) = 5"
proof -
  let ?wide = "\<lambda>c. c = CHR 0xB5" and ?msg = "''a'' @ [CHR 0xB5, CHR 0xB5]"
  have sp: "\<not> ?wide CHR '' ''" by simp
  note c = column_width [where wide = ?wide and msg = ?msg and n = 4 and fill = 5 and left = True
    and prefix = "[]" and suffix = "[]", OF sp]
  have k: "chop_str ?wide ?msg (Some 4) = (3, ''a'' @ [CHR 0xB5])"
    by (simp add: chop_str_def exact_width_char_def)
  have m: "max 5 (3::nat) = 5" by simp
  from c show ?thesis unfolding k prod.case Let_def m by blast
qed

text \<open>
  Choosing between an abbreviated and a full message: the result is one of the two; when one of
  them fits the width, the result is the widest that fits, and when none fits it is the narrowest,
  in whatever order the caller passes them.
\<close>

theorem select_best:
  "let r = select_short_long wide width a b; W = exact_width wide in
     (r = a \<or> r = b) \<and>
     (if W a \<le> width \<or> W b \<le> width
      then W r = Max {w \<in> {W a, W b}. w \<le> width}
      else W r = min (W a) (W b))"
proof -
  let ?W = "exact_width wide"
  consider "?W a \<le> width" "?W b \<le> width" | "?W a \<le> width" "\<not> ?W b \<le> width" | "\<not> ?W a \<le> width" "?W b \<le> width"
    | "\<not> ?W a \<le> width" "\<not> ?W b \<le> width" by blast
  then show ?thesis
  proof cases
    case 1
    then have "{w \<in> {?W a, ?W b}. w \<le> width} = {?W a, ?W b}" by auto
    with 1 show ?thesis by (auto simp: select_short_long_def Let_def)
  next
    case 2
    then have "{w \<in> {?W a, ?W b}. w \<le> width} = {?W a}" by auto
    with 2 show ?thesis by (auto simp: select_short_long_def Let_def)
  next
    case 3
    then have "{w \<in> {?W a, ?W b}. w \<le> width} = {?W b}" by auto
    with 3 show ?thesis by (auto simp: select_short_long_def Let_def)
  next
    case 4
    then show ?thesis by (auto simp: select_short_long_def Let_def)
  qed
qed

subsection \<open>textwrap\_fill\<close>

text \<open>\<open>_indent_at_beg\<close>: the indentation of a line, and that of the text of a list item.\<close>

function indent_at_beg :: "(char \<Rightarrow> bool) \<Rightarrow> string \<Rightarrow> nat \<times> nat" where
  "indent_at_beg wide line =
     (let count = length (takeWhile (\<lambda>c. c = CHR '' '') line)
      in case drop count line of
           [] \<Rightarrow> (count, 0)
         | byte # rest \<Rightarrow>
             if byte \<notin> set ''-*.o'' \<union> {CHR 0xE2} then (count, 0)
             else let list_chr = snd (chop_str wide (byte # rest) (Some 1))
                  in if list_chr \<in> {''-'', ''*'', ''.'', ''o''}
                     then let nxt = indent_at_beg wide rest; n = (if snd nxt \<noteq> 0 then snd nxt else fst nxt)
                          in if n \<noteq> 0 then (count, count + 1 + n) else (count, 0)
                     else (count, 0))"
  by pat_completeness auto
termination
proof (relation "measure (\<lambda>(wide, line). length line)")
  fix wide :: "char \<Rightarrow> bool" and line rest :: string and count byte
  assume "drop count line = byte # rest"
  then have "length (drop count line) = Suc (length rest)" by simp
  then show "((wide, rest), (wide, line)) \<in> measure (\<lambda>(wide, line). length line)" by simp
qed simp

declare indent_at_beg.simps [simp del]

definition rstrip_sp :: "string \<Rightarrow> string" where
  "rstrip_sp s = rev (dropWhile (\<lambda>c. c = CHR '' '') (rev s))"

definition lstrip_sp :: "string \<Rightarrow> string" where
  "lstrip_sp s = dropWhile (\<lambda>c. c = CHR '' '') s"

definition rstrip_nl :: "string \<Rightarrow> string" where
  "rstrip_nl s = rev (dropWhile (\<lambda>c. c = CHR 0x0A) (rev s))"

definition expand_tabs :: "string \<Rightarrow> string" where
  "expand_tabs s = concat (map (\<lambda>c. if c = CHR 0x09 then spaces 8 else [c]) s)"

text \<open>The loop over the words of a line that is too wide: the finished lines and the line being built.\<close>

fun wrap_words ::
  "(char \<Rightarrow> bool) \<Rightarrow> nat \<Rightarrow> string \<Rightarrow> nat \<Rightarrow> string list \<Rightarrow> string list \<Rightarrow> string \<Rightarrow> string list \<times> string" where
  "wrap_words wide width subsequent_indent spcs [] ret line = (ret, line)"
| "wrap_words wide width subsequent_indent spcs (word # words) ret line =
     (let (ret, line) =
        (if width < exact_width wide (line @ word) \<and> exact_width wide line > exact_width wide subsequent_indent
         then (ret @ [rstrip_sp line], subsequent_indent @ spaces spcs) else (ret, line))
      in wrap_words wide width subsequent_indent spcs words ret (line @ word @ '' ''))"

record wrap_state =
  ws_ret :: "string list"
  ws_indent :: string
  ws_wrap_last :: bool
  ws_csab :: nat
  ws_cspc_indent :: nat

definition wrap_line :: "(char \<Rightarrow> bool) \<Rightarrow> nat \<Rightarrow> string \<Rightarrow> string \<Rightarrow> wrap_state \<Rightarrow> wrap_state" where
  "wrap_line wide width subsequent_indent line0 st =
     (let line = rstrip_sp line0;
          lsab = ws_csab st; lspc_indent = ws_cspc_indent st;
          (csab, cspc_indent) = indent_at_beg wide line;
          force_nl = ws_wrap_last st \<and>
            (cspc_indent \<noteq> 0 \<or> csab = length line \<or> lspc_indent = 0 \<and> csab \<ge> 4 \<and> csab \<noteq> lsab);
          ret = (if force_nl then ws_ret st @ [rstrip_sp (ws_indent st)] else ws_ret st);
          indent = (if force_nl then subsequent_indent else ws_indent st);
          wrap_last = (if force_nl then False else ws_wrap_last st);
          line = (if csab = length line then [] else line);
          (line, cspc_indent) = (if wrap_last then (lstrip_sp line, lspc_indent) else (line, cspc_indent))
      in if exact_width wide (indent @ line) \<le> width
         then \<lparr>ws_ret = ret @ [indent @ line], ws_indent = subsequent_indent, ws_wrap_last = False,
               ws_csab = csab, ws_cspc_indent = cspc_indent\<rparr>
         else let spcs = (if cspc_indent = 0 \<and> csab \<ge> 4 then csab else cspc_indent);
                  (ret, line) = wrap_words wide width subsequent_indent spcs (split_on CHR '' '' line) ret indent
              in \<lparr>ws_ret = ret, ws_indent = rstrip_sp line @ '' '', ws_wrap_last = True,
                  ws_csab = csab, ws_cspc_indent = cspc_indent\<rparr>)"

definition textwrap_lines :: "(char \<Rightarrow> bool) \<Rightarrow> string \<Rightarrow> nat \<Rightarrow> string \<Rightarrow> string \<Rightarrow> string list" where
  "textwrap_lines wide txt width initial_indent subsequent_indent =
     (let lines = split_on CHR 0x0A (expand_tabs (rstrip_nl txt));
          st = fold (wrap_line wide width subsequent_indent) lines
            \<lparr>ws_ret = [], ws_indent = initial_indent, ws_wrap_last = False, ws_csab = 0, ws_cspc_indent = 0\<rparr>
      in if ws_wrap_last st then ws_ret st @ [rstrip_sp (ws_indent st)] else ws_ret st)"

definition textwrap_fill :: "(char \<Rightarrow> bool) \<Rightarrow> string \<Rightarrow> nat \<Rightarrow> string \<Rightarrow> string \<Rightarrow> string" where
  "textwrap_fill wide txt width initial_indent subsequent_indent =
     join_str nl (textwrap_lines wide txt width initial_indent subsequent_indent)"

text \<open>Words do not depend on how the white space between them is arranged.\<close>

lemma py_space_simps [simp]: "py_space CHR '' ''" "py_space CHR 0x0A" "py_space CHR 0x09"
  by (simp_all add: py_space_def)

lemma words_acc_split: "words_acc w (s @ c # t) = words_acc w s @ split_ws t" if "py_space c"
  using that by (induction s arbitrary: w) (auto simp: split_ws_def)

lemma split_ws_append_space: "py_space c \<Longrightarrow> split_ws (s @ c # t) = split_ws s @ split_ws t"
  by (simp add: split_ws_def words_acc_split)

lemma split_ws_Nil [simp]: "split_ws [] = []"
  by (simp add: split_ws_def)

lemma split_ws_Cons_space [simp]: "py_space c \<Longrightarrow> split_ws (c # s) = split_ws s"
  using split_ws_append_space [of c "[]" s] by simp

text \<open>A text that can be continued with a word: it is blank, or it ends in a space.\<close>

definition open_end :: "string \<Rightarrow> bool" where
  "open_end s \<longleftrightarrow> s = [] \<or> py_space (last s)"

lemma open_end_append: "open_end s \<Longrightarrow> split_ws (s @ t) = split_ws s @ split_ws t"
proof (cases s rule: rev_cases)
  case (snoc r c)
  moreover assume "open_end s"
  ultimately show ?thesis
    using split_ws_append_space [of c r t] split_ws_append_space [of c r "[]"] by (simp add: open_end_def)
qed simp

lemma split_ws_space_end: "py_space c \<Longrightarrow> split_ws (s @ [c]) = split_ws s"
  using split_ws_append_space [of c s "[]"] by simp

lemma takeWhile_replicate: "takeWhile (\<lambda>c. c = x) s = replicate (length (takeWhile (\<lambda>c. c = x) s)) x"
  by (induction s) auto

lemma strip_end_eq: "s = rev (dropWhile (\<lambda>c. c = x) (rev s)) @ replicate (length (takeWhile (\<lambda>c. c = x) (rev s))) x"
proof -
  have "s = rev (takeWhile (\<lambda>c. c = x) (rev s) @ dropWhile (\<lambda>c. c = x) (rev s))" by simp
  also have "\<dots> = rev (dropWhile (\<lambda>c. c = x) (rev s)) @ rev (takeWhile (\<lambda>c. c = x) (rev s))" by (rule rev_append)
  also have "rev (takeWhile (\<lambda>c. c = x) (rev s)) = replicate (length (takeWhile (\<lambda>c. c = x) (rev s))) x"
    by (subst takeWhile_replicate) (rule rev_replicate)
  finally show ?thesis .
qed

lemma rstrip_sp_eq: "\<exists>n. s = rstrip_sp s @ spaces n"
  using strip_end_eq [of s "CHR '' ''"] unfolding rstrip_sp_def spaces_def by blast

lemma split_ws_replicate_end: "py_space c \<Longrightarrow> split_ws (s @ replicate n c) = split_ws s"
proof (induction n arbitrary: s)
  case (Suc n)
  from Suc.IH [OF Suc.prems, of "s @ [c]"] split_ws_space_end [OF Suc.prems, of s] show ?case by simp
qed simp

lemma split_ws_spaces_end: "split_ws (s @ spaces n) = split_ws s"
  by (simp add: spaces_def split_ws_replicate_end)

lemma split_ws_rstrip_sp [simp]: "split_ws (rstrip_sp s) = split_ws s"
  using rstrip_sp_eq [of s] split_ws_spaces_end by metis

lemma split_ws_lstrip_sp [simp]: "split_ws (lstrip_sp s) = split_ws s"
  by (induction s) (auto simp: lstrip_sp_def)

lemma split_ws_spaces [simp]: "split_ws (spaces n) = []"
  by (induction n) (auto simp: spaces_def)

lemma split_ws_split_on: "py_space c \<Longrightarrow> concat (map split_ws (split_on c s)) = split_ws s"
proof -
  assume c: "py_space c"
  have "concat (map split_ws ss) = split_ws (join_str [c] ss)" for ss
    by (induction "[c]" ss rule: join_str.induct) (simp_all add: split_ws_append_space c)
  then show ?thesis by (simp add: join_split)
qed

lemma split_ws_rstrip_nl: "split_ws (rstrip_nl s) = split_ws s"
  using strip_end_eq [of s "CHR 0x0A"] split_ws_replicate_end [of "CHR 0x0A"] py_space_simps(2)
  unfolding rstrip_nl_def by metis

lemma words_acc_expand_tabs: "words_acc w (expand_tabs s) = words_acc w s"
proof (induction s arbitrary: w)
  case Nil
  show ?case by (simp add: expand_tabs_def)
next
  case (Cons c s)
  have sp: "words_acc w (spaces 8 @ t) = words_acc w (CHR 0x09 # t)" for w t
    by (simp add: spaces_def numeral_eq_Suc)
  show ?case
  proof (cases "c = CHR 0x09")
    case True
    then have "expand_tabs (c # s) = spaces 8 @ expand_tabs s" by (simp add: expand_tabs_def)
    then have "words_acc w (expand_tabs (c # s)) = words_acc w (CHR 0x09 # expand_tabs s)" by (simp only: sp)
    with True Cons.IH show ?thesis by simp
  next
    case False
    then have "expand_tabs (c # s) = c # expand_tabs s" by (simp add: expand_tabs_def)
    with Cons.IH show ?thesis by simp
  qed
qed

lemma split_ws_expand_tabs: "split_ws (expand_tabs s) = split_ws s"
  by (simp add: split_ws_def words_acc_expand_tabs)

definition lines_words :: "string list \<Rightarrow> string list" where
  "lines_words ls = concat (map split_ws ls)"

lemma lines_words_join: "split_ws (join_str nl ls) = lines_words ls"
  unfolding nl_def lines_words_def
  by (induction "[CHR 0x0A]" ls rule: join_str.induct) (simp_all add: split_ws_append_space)

definition blank :: "string \<Rightarrow> bool" where
  "blank s \<longleftrightarrow> set s \<subseteq> {CHR '' ''}"

lemma blank_words: "blank s \<Longrightarrow> split_ws s = [] \<and> open_end s"
proof -
  assume b: "blank s"
  then have "split_ws s = []" by (induction s) (auto simp: blank_def)
  moreover from b have "open_end s" by (cases s rule: rev_cases) (auto simp: blank_def open_end_def)
  ultimately show ?thesis ..
qed

lemma blank_append_spaces: "blank s \<Longrightarrow> blank (s @ spaces n)"
  by (auto simp: blank_def spaces_def)

lemma wrap_words_words:
  assumes "blank subsequent_indent" and "open_end line"
    and "wrap_words wide width subsequent_indent spcs ws ret line = (ret', line')"
  shows "lines_words ret' @ split_ws line' = lines_words ret @ split_ws line @ lines_words ws \<and> open_end line'"
  using assms(2,3)
proof (induction ws arbitrary: ret line)
  case Nil
  then show ?case by (simp add: lines_words_def)
next
  case (Cons w ws)
  define wrap where "wrap \<longleftrightarrow> width < exact_width wide (line @ w) \<and> exact_width wide line > exact_width wide subsequent_indent"
  define r where "r = (if wrap then ret @ [rstrip_sp line] else ret)"
  define l where "l = (if wrap then subsequent_indent @ spaces spcs else line)"
  have ol: "open_end l" and wl: "lines_words r @ split_ws l = lines_words ret @ split_ws line"
    using Cons.prems(1) blank_words [OF blank_append_spaces [OF assms(1)], of spcs]
    by (auto simp: l_def r_def lines_words_def)
  have "wrap_words wide width subsequent_indent spcs ws r (l @ w @ '' '') = (ret', line')"
    using Cons.prems(2) unfolding wrap_words.simps Let_def wrap_def [symmetric]
    by (cases wrap) (simp_all add: r_def l_def)
  moreover have "open_end (l @ w @ '' '')" by (simp add: open_end_def)
  ultimately have "lines_words ret' @ split_ws line' = lines_words r @ split_ws (l @ w @ '' '') @ lines_words ws \<and> open_end line'"
    using Cons.IH by blast
  moreover have "split_ws (l @ w @ '' '') = split_ws l @ split_ws w"
    using open_end_append [OF ol, of "w @ '' ''"] split_ws_space_end [of "CHR '' ''" w] by simp
  ultimately show ?case using wl by (simp add: lines_words_def)
qed

definition wrap_inv :: "string list \<Rightarrow> wrap_state \<Rightarrow> bool" where
  "wrap_inv seen st \<longleftrightarrow> open_end (ws_indent st) \<and> (\<not> ws_wrap_last st \<longrightarrow> blank (ws_indent st)) \<and>
     lines_words (ws_ret st) @ split_ws (ws_indent st) = seen"

lemma indent_all_blank: "fst (indent_at_beg wide line) = length (takeWhile (\<lambda>c. c = CHR '' '') line)"
  by (subst indent_at_beg.simps) (auto simp: Let_def split: list.splits)

lemma all_blank_words: "fst (indent_at_beg wide line) = length line \<Longrightarrow> split_ws line = []"
proof -
  assume "fst (indent_at_beg wide line) = length line"
  then have "length (takeWhile (\<lambda>c. c = CHR '' '') line) = length line" by (simp add: indent_all_blank)
  then have "blank line" by (induction line) (auto simp: blank_def split: if_splits)
  then show ?thesis by (simp add: blank_words)
qed

lemma wrap_line_inv:
  assumes "blank subsequent_indent" and inv: "wrap_inv seen st"
  shows "wrap_inv (seen @ split_ws line) (wrap_line wide width subsequent_indent line st)"
proof -
  obtain csab cspc where ind: "indent_at_beg wide (rstrip_sp line) = (csab, cspc)" by fastforce
  define force where "force \<longleftrightarrow> ws_wrap_last st \<and>
    (cspc \<noteq> 0 \<or> csab = length (rstrip_sp line) \<or> ws_cspc_indent st = 0 \<and> csab \<ge> 4 \<and> csab \<noteq> ws_csab st)"
  define ret where "ret = (if force then ws_ret st @ [rstrip_sp (ws_indent st)] else ws_ret st)"
  define indent where "indent = (if force then subsequent_indent else ws_indent st)"
  define wl where "wl = (if force then False else ws_wrap_last st)"
  define l1 where "l1 = (if csab = length (rstrip_sp line) then [] else rstrip_sp line)"
  define l2 where "l2 = (if wl then lstrip_sp l1 else l1)"
  define cs where "cs = (if wl then ws_cspc_indent st else cspc)"
  have l2: "split_ws l2 = split_ws line"
    using ind all_blank_words [of wide "rstrip_sp line"] by (auto simp: l2_def l1_def)
  have oi: "open_end indent" and seen: "lines_words ret @ split_ws indent = seen"
    using inv assms(1) by (auto simp: indent_def ret_def wrap_inv_def blank_words lines_words_def)
  have eq: "wrap_line wide width subsequent_indent line st =
     (if exact_width wide (indent @ l2) \<le> width
      then \<lparr>ws_ret = ret @ [indent @ l2], ws_indent = subsequent_indent, ws_wrap_last = False, ws_csab = csab, ws_cspc_indent = cs\<rparr>
      else let spcs = (if cs = 0 \<and> csab \<ge> 4 then csab else cs);
               (ret, l) = wrap_words wide width subsequent_indent spcs (split_on CHR '' '' l2) ret indent
           in \<lparr>ws_ret = ret, ws_indent = rstrip_sp l @ '' '', ws_wrap_last = True, ws_csab = csab, ws_cspc_indent = cs\<rparr>)"
    unfolding wrap_line_def Let_def ind prod.case force_def [symmetric] ret_def [symmetric] indent_def [symmetric]
      wl_def [symmetric] l1_def [symmetric]
    by (simp add: l2_def cs_def)
  show ?thesis
  proof (cases "exact_width wide (indent @ l2) \<le> width")
    case True
    with seen l2 oi assms(1) show ?thesis
      by (simp add: eq wrap_inv_def blank_words lines_words_def open_end_append)
  next
    case False
    obtain r l where w: "wrap_words wide width subsequent_indent (if cs = 0 \<and> csab \<ge> 4 then csab else cs)
        (split_on CHR '' '' l2) ret indent = (r, l)" by fastforce
    from wrap_words_words [OF assms(1) oi w]
    have "lines_words r @ split_ws l = seen @ lines_words (split_on CHR '' '' l2)"
      using seen by (simp flip: append_assoc)
    also have "lines_words (split_on CHR '' '' l2) = split_ws line"
      by (simp add: lines_words_def split_ws_split_on l2)
    finally show ?thesis
      using False by (simp add: eq Let_def w wrap_inv_def open_end_def split_ws_space_end)
  qed
qed

lemma wrap_lines_inv:
  "blank subsequent_indent \<Longrightarrow> wrap_inv seen st \<Longrightarrow>
     wrap_inv (seen @ lines_words ls) (fold (wrap_line wide width subsequent_indent) ls st)"
proof (induction ls arbitrary: seen st)
  case (Cons l ls)
  from Cons.IH [OF Cons.prems(1) wrap_line_inv [OF Cons.prems]] show ?case by (simp add: lines_words_def)
qed (simp add: lines_words_def)

text \<open>
  C40. Wrapping never loses, duplicates, splits or reorders a word: whatever the width, and for any
  blank indents, the words of the text \<open>textwrap_fill\<close> returns are the words of its argument.
\<close>

theorem textwrap_words:
  assumes "blank initial_indent" and "blank subsequent_indent"
  shows "split_ws (textwrap_fill wide txt width initial_indent subsequent_indent) = split_ws txt"
proof -
  let ?ls = "split_on CHR 0x0A (expand_tabs (rstrip_nl txt))"
  let ?st = "\<lparr>ws_ret = [], ws_indent = initial_indent, ws_wrap_last = False, ws_csab = 0, ws_cspc_indent = 0\<rparr>"
  let ?fin = "fold (wrap_line wide width subsequent_indent) ?ls ?st"
  have "wrap_inv [] ?st" using assms(1) by (simp add: wrap_inv_def blank_words lines_words_def)
  from wrap_lines_inv [OF assms(2) this] have inv: "wrap_inv (lines_words ?ls) ?fin" by simp
  have "lines_words (if ws_wrap_last ?fin then ws_ret ?fin @ [rstrip_sp (ws_indent ?fin)] else ws_ret ?fin) = lines_words ?ls"
    using inv by (auto simp: wrap_inv_def blank_words lines_words_def)
  also have "lines_words ?ls = split_ws txt"
    by (simp add: lines_words_def split_ws_split_on split_ws_expand_tabs split_ws_rstrip_nl)
  finally show ?thesis by (simp add: textwrap_fill_def textwrap_lines_def Let_def lines_words_join)
qed

lemma textwrap_words_witness: "split_ws (textwrap_fill (\<lambda>_. False) ''a bb  c'' 3 '' '' []) = [''a'', ''bb'', ''c'']"
proof -
  have "split_ws ''a bb  c'' = [''a'', ''bb'', ''c'']" by (simp add: split_ws_def py_space_def)
  with textwrap_words [of "'' ''" "[]" "\<lambda>_. False" "''a bb  c''" 3] show ?thesis by (simp add: blank_def)
qed

end
