(* ===== verification/Columns.thy ===== *)
theory Columns
  imports I18n
begin

text \<open>
  The layout of tables in dnf/cli/output.py (lines 53 to 63, 78 to 136, 146 to 337, 392 to 438 and 1350
  to 1397), with the terminal of dnf/cli/term.py: how wide the columns are, and how a row is laid out.

  The statistics of a column map the lengths of its items to how many there are, in ascending
  order; widths are integers, since a caller marks a column that is aligned to the left by a negative one.
\<close>

subsection \<open>The terminal\<close>

text \<open>\<open>tm_real\<close> is the width the terminal reports, 0 when there is none.\<close>

record terminal =
  tm_real :: nat
  tm_mode :: "(string, string) dict"
  tm_fg :: "(string, string) dict"
  tm_bg :: "(string, string) dict"

definition term_width :: "nat \<Rightarrow> nat" where
  "term_width tw = (if tw = 0 then 80 else if tw < 20 then 20 else tw)"

abbreviation tm_columns :: "terminal \<Rightarrow> nat" where
  "tm_columns t \<equiv> term_width (tm_real t)"

text \<open>What a caller asks to be highlighted: nothing, something that is true but no text, or a text.\<close>

datatype hilite = NoHilite | HiliteTrue | Hilite string

definition high_code :: "terminal \<Rightarrow> string \<Rightarrow> string \<Rightarrow> string" where
  "high_code t hibeg high =
     (if high = ''normal'' then []
      else case map_of (tm_mode t) high of Some m \<Rightarrow> hibeg @ m
      | None \<Rightarrow> (case map_of (tm_fg t) high of Some m \<Rightarrow> hibeg @ m
        | None \<Rightarrow>
            if startswith high ''fg:'' \<and> map_of (tm_fg t) (drop 3 high) \<noteq> None
            then hibeg @ the (map_of (tm_fg t) (drop 3 high))
            else if startswith high ''bg:'' \<and> map_of (tm_bg t) (drop 3 high) \<noteq> None
            then hibeg @ the (map_of (tm_bg t) (drop 3 high))
            else hibeg))"

definition highlight_codes :: "terminal \<Rightarrow> hilite \<Rightarrow> (string \<times> string) res" where
  "highlight_codes t h =
     bind_r (case h of
         NoHilite \<Rightarrow> Inr []
       | HiliteTrue \<Rightarrow> dict_get (tm_mode t) ''bold''
       | Hilite text \<Rightarrow>
           if text = [] then Inr []
           else if text = ''bold'' then dict_get (tm_mode t) ''bold''
           else if text = ''normal'' then Inr []
           else Inr (foldl (high_code t) [] (split_ws (map (\<lambda>c. if c = CHR '','' then CHR '' '' else c) text))))
       (\<lambda>hibeg. if hibeg \<noteq> [] then bind_r (dict_get (tm_mode t) ''normal'') (\<lambda>hiend. Inr (hibeg, hiend)) else Inr ([], []))"

subsection \<open>The widths of the columns\<close>

type_synonym col_stat = "(nat \<times> nat) list"

text \<open>How many items the space left would let fit.\<close>

fun spaces_helps :: "int \<Rightarrow> col_stat \<Rightarrow> int \<Rightarrow> nat" where
  "spaces_helps current [] left = 0"
| "spaces_helps current ((l, n) # tups) left = (if left < int l - current then 0 else n + spaces_helps current tups left)"

text \<open>The column the space helps best: how many items, and which column; no column when it helps none.\<close>

definition better_column :: "col_stat list \<Rightarrow> int list \<Rightarrow> int \<Rightarrow> nat \<times> nat \<Rightarrow> nat \<Rightarrow> nat \<times> nat" where
  "better_column data columns left best d =
     (let helps = fst best; thelps = spaces_helps (columns ! d) (data ! d) left
      in if thelps = 0 then best
         else if helps \<noteq> 0 \<and> d = length data - 1 \<and> thelps < 2 * helps then best
         else if thelps < helps then best
         else (thelps, d))"

definition best_column :: "col_stat list \<Rightarrow> int list \<Rightarrow> int \<Rightarrow> nat \<times> nat" where
  "best_column data columns left = foldl (better_column data columns left) (0, 0) [0..<length data]"

text \<open>What is left when no column can be helped: a share for the columns that overflow, then for all but the last.\<close>

definition share_overflowed :: "col_stat list \<Rightarrow> int list \<Rightarrow> int \<Rightarrow> int list \<times> int" where
  "share_overflowed data columns left =
     (let overflowed = length (filter (\<lambda>c. c \<noteq> []) data); norm = left div int overflowed
      in if overflowed = 0 then (columns, left)
         else (map2 (\<lambda>c w. if c = [] then w else w + norm) data columns, left - int overflowed * norm))"

definition share_rest :: "nat \<Rightarrow> nat \<Rightarrow> int list \<times> int \<Rightarrow> int list res" where
  "share_rest cols remainder_column shared =
     (case shared of (columns, left) \<Rightarrow>
        if int cols - 1 = 0 then Inl ZeroDivisionError
        else let norm = left div (int cols - 1);
                 columns = map (\<lambda>(d, w). if d < cols - 1 then w + norm else w) (enumerate 0 columns)
          in if remainder_column < length columns
             then Inr (columns[remainder_column := columns ! remainder_column + (left - (int cols - 1) * norm)])
             else Inl IndexError)"

lemma better_column_val:
  "snd best < n \<Longrightarrow> d < n \<Longrightarrow> snd (better_column data columns left best d) < n"
  by (simp add: better_column_def Let_def)

lemma better_column_helps:
  assumes "fst best \<noteq> 0 \<longrightarrow> spaces_helps (columns ! snd best) (data ! snd best) left = fst best"
  shows "fst (better_column data columns left best d) \<noteq> 0 \<longrightarrow>
    spaces_helps (columns ! snd (better_column data columns left best d)) (data ! snd (better_column data columns left best d)) left
      = fst (better_column data columns left best d)"
  using assms by (simp add: better_column_def Let_def)

lemma best_column_helps:
  assumes "fst (best_column data columns left) \<noteq> 0"
  shows "spaces_helps (columns ! snd (best_column data columns left)) (data ! snd (best_column data columns left)) left
    = fst (best_column data columns left)"
proof -
  have "fst (foldl (better_column data columns left) best ds) \<noteq> 0 \<longrightarrow>
      spaces_helps (columns ! snd (foldl (better_column data columns left) best ds)) (data ! snd (foldl (better_column data columns left) best ds)) left
        = fst (foldl (better_column data columns left) best ds)"
    if "fst best \<noteq> 0 \<longrightarrow> spaces_helps (columns ! snd best) (data ! snd best) left = fst best" for best ds
    using that by (induction ds arbitrary: best) (simp_all add: better_column_helps)
  with assms show ?thesis unfolding best_column_def by simp
qed

lemma best_column_less: "data \<noteq> [] \<Longrightarrow> snd (best_column data columns left) < length data"
proof -
  have "snd (foldl (better_column data columns left) best ds) < n" if "snd best < n" "\<forall>d \<in> set ds. d < n" for best ds n
    using that by (induction ds arbitrary: best) (simp_all add: better_column_val)
  then show "data \<noteq> [] \<Longrightarrow> ?thesis" unfolding best_column_def by simp
qed

lemma spaces_helps_Cons: "spaces_helps w c left \<noteq> 0 \<Longrightarrow> \<exists>l n rest. c = (l, n) # rest \<and> int l - w \<le> left"
  by (cases c) (auto split: if_splits)

lemma pop_smaller:
  assumes "(helps, val) = best_column data columns left" "helps \<noteq> 0" "data ! val = (l, n) # rest"
  shows "sum_list (map length (data[val := rest])) < sum_list (map length data)"
proof -
  have "data \<noteq> []"
  proof
    assume "data = []"
    with assms show False by (simp add: best_column_def)
  qed
  from best_column_less [OF this, of columns left] assms(1) have len: "val < length data" by (metis snd_conv)
  then have "length (data ! val) \<le> sum_list (map length data)" by (intro member_le_sum_list) auto
  with len assms(3) show ?thesis by (simp add: map_update sum_list_update)
qed

function calc_loop :: "nat \<Rightarrow> col_stat list \<Rightarrow> int list \<Rightarrow> int \<Rightarrow> int list res" where
  "calc_loop remainder_column data columns left =
     (if left \<le> 0 then Inr columns
      else let (helps, val) = best_column data columns left
        in if helps = 0 then share_rest (length data) remainder_column (share_overflowed data columns left)
           else case data ! val of
             [] \<Rightarrow> Inl IndexError
           | (l, n) # rest \<Rightarrow>
               let diff = int l - columns ! val;
                   left = (if columns ! val = 0 \<and> val = length data - 1 then left - 1 else left)
               in calc_loop remainder_column (data[val := rest]) (columns[val := columns ! val + diff]) (left - diff))"
  by pat_completeness auto
termination
  by (relation "measure (\<lambda>(r, data, columns, left). sum_list (map length data))") (auto simp: pop_smaller)

declare calc_loop.simps [simp del]

definition full_columns :: "col_stat list \<Rightarrow> int list \<Rightarrow> string \<Rightarrow> int list res" where
  "full_columns data columns indent =
     (case map (\<lambda>(d, c). if c \<noteq> [] then int (fst (last c)) else columns ! d + 1) (enumerate 0 data) of
        [] \<Rightarrow> Inl IndexError
      | w # ws \<Rightarrow> Inr ((w + int (length indent) * 2) # ws))"

definition initial_left :: "(char \<Rightarrow> bool) \<Rightarrow> nat \<Rightarrow> int list \<Rightarrow> int \<Rightarrow> string \<Rightarrow> int" where
  "initial_left wide cols columns total_width indent =
     total_width - (sum_list columns + (int cols - 1) + int (exact_width wide indent))
       + (if last columns = 0 then 1 else 0)"

text \<open>A caller that gives widths to start from gives one for each column.\<close>

definition calc_columns ::
  "(char \<Rightarrow> bool) \<Rightarrow> terminal \<Rightarrow> (nat, nat) dict list \<Rightarrow> int list option \<Rightarrow> nat \<Rightarrow> int option \<Rightarrow> string \<Rightarrow> int list res" where
  "calc_columns wide t pdata columns remainder_column total_width indent =
     (let data = map (sort_key fst) pdata;
          total_width = (case total_width of None \<Rightarrow> int (tm_real t) | Some w \<Rightarrow> w);
          columns = (case columns of None \<Rightarrow> replicate (length data - 1) 1 @ [0] | Some ws \<Rightarrow> ws)
      in if total_width = 0
         then bind_r (full_columns data columns indent) (\<lambda>full.
           if sum_list full > int (tm_columns t) then Inr full
           else calc_loop remainder_column data columns (initial_left wide (length data) columns (int (tm_columns t)) indent))
         else calc_loop remainder_column data columns (initial_left wide (length data) columns total_width indent))"

definition count_length :: "nat \<Rightarrow> (nat, nat) dict \<Rightarrow> (nat, nat) dict" where
  "count_length l d = dict_set l ((case map_of d l of None \<Rightarrow> 0 | Some n \<Rightarrow> n) + 1) d"

fun count_row :: "string list \<Rightarrow> (nat, nat) dict list \<Rightarrow> (nat, nat) dict list res" where
  "count_row [] ds = Inr ds"
| "count_row (v # vs) [] = Inl IndexError"
| "count_row (v # vs) (d # ds) = bind_r (count_row vs ds) (\<lambda>ds. Inr (count_length (length v) d # ds))"

fun count_rows :: "string list list \<Rightarrow> (nat, nat) dict list \<Rightarrow> (nat, nat) dict list res" where
  "count_rows [] ds = Inr ds"
| "count_rows (row # rows) ds = bind_r (count_row row ds) (count_rows rows)"

definition col_widths :: "(char \<Rightarrow> bool) \<Rightarrow> terminal \<Rightarrow> string list list \<Rightarrow> int list res" where
  "col_widths wide t rows =
     (case rows of [] \<Rightarrow> Inl IndexError
      | row # _ \<Rightarrow>
          bind_r (count_rows rows (replicate (length row) [])) (\<lambda>col_data.
          bind_r (calc_columns wide t col_data None 0 None ''  '') (\<lambda>cols. Inr (map uminus cols))))"

subsection \<open>Rows\<close>

text \<open>A cell: its text, the width of its column, and how it is highlighted.\<close>

type_synonym cell = "string \<times> int \<times> hilite"

text \<open>The operator \<open>%\<close> for templates whose only directives are those for strings.\<close>

fun percent_s :: "string \<Rightarrow> string list \<Rightarrow> string res" where
  "percent_s [] [] = Inr []"
| "percent_s [] (v # vs) = Inl TypeError"
| "percent_s (c # cs) vs =
     (if c \<noteq> CHR ''%'' then bind_r (percent_s cs vs) (\<lambda>t. Inr (c # t))
      else case cs of
        [] \<Rightarrow> Inl (ValueError ''incomplete format'')
      | d # ds \<Rightarrow>
          if d = CHR ''s'' then (case vs of [] \<Rightarrow> Inl TypeError | v # vs \<Rightarrow> bind_r (percent_s ds vs) (\<lambda>t. Inr (v @ t)))
          else if d = CHR ''%'' then bind_r (percent_s ds vs) (\<lambda>t. Inr (CHR ''%'' # t))
          else Inl (ValueError ''unsupported format character''))"

definition fmt_column_align_width :: "int \<Rightarrow> bool \<times> nat" where
  "fmt_column_align_width width = (if width < 0 then (True, nat (- width)) else (False, nat width))"

text \<open>The template, the offset of the next column and the data, after one column.\<close>

definition fmt_column ::
  "(char \<Rightarrow> bool) \<Rightarrow> terminal \<Rightarrow> string \<times> nat \<times> string list \<Rightarrow> cell \<Rightarrow> (string \<times> nat \<times> string list) res" where
  "fmt_column wide t acc cell =
     (case (acc, cell) of ((msg, total_width, data), (val, width, h)) \<Rightarrow>
        bind_r (highlight_codes t h) (\<lambda>(hibeg, hiend).
          if width = 0 then Inr (msg @ ''%s'', total_width, data @ [val])
          else case fmt_column_align_width width of (align_left, width) \<Rightarrow>
            let val_width = exact_width wide val in
            if val_width \<le> width
            then Inr (msg @ ''%s%s%s%s '', total_width + width + 1,
                   data @ (if align_left then [hibeg, val, spaces (width - val_width), hiend]
                           else [hibeg, spaces (width - val_width), val, hiend]))
            else Inr (msg @ ''%s%s%s'' @ nl @ spaces (total_width + width + 1), total_width + width + 1,
                   data @ [hibeg, val, hiend])))"

fun fmt_loop ::
  "(char \<Rightarrow> bool) \<Rightarrow> terminal \<Rightarrow> cell list \<Rightarrow> string \<times> nat \<times> string list \<Rightarrow> (string \<times> nat \<times> string list) res" where
  "fmt_loop wide t [] acc = Inr acc"
| "fmt_loop wide t (cell # cells) acc = bind_r (fmt_column wide t acc cell) (fmt_loop wide t cells)"

definition fmt_columns :: "(char \<Rightarrow> bool) \<Rightarrow> terminal \<Rightarrow> cell list \<Rightarrow> string \<Rightarrow> string \<Rightarrow> string res" where
  "fmt_columns wide t columns msg end_text =
     bind_r (fmt_loop wide t (butlast columns) (msg, length msg, [])) (\<lambda>(msg, total_width, data).
       if columns = [] then Inl IndexError
       else case last columns of (val, width, h) \<Rightarrow>
         bind_r (highlight_codes t h) (\<lambda>(hibeg, hiend).
           case fmt_column_align_width width of (align_left, width) \<Rightarrow>
             percent_s (msg @ ''%s'' @ end_text)
               (data @ [fill_exact_width wide val width None align_left hibeg hiend])))"

definition plain_cells :: "string list \<Rightarrow> int list \<Rightarrow> cell list" where
  "plain_cells row widths = map2 (\<lambda>v w. (v, w, NoHilite)) row widths"

definition banner :: "(char \<Rightarrow> bool) \<Rightarrow> terminal \<Rightarrow> int list \<Rightarrow> string list \<Rightarrow> (string \<times> string \<times> string) res" where
  "banner wide t col_data row =
     (let rule = replicate (tm_columns t) CHR ''=''
      in bind_r (fmt_columns wide t (plain_cells row col_data) '' '' []) (\<lambda>header. Inr (rule, header, rule)))"

subsection \<open>Lists in columns\<close>

function chunks :: "nat \<Rightarrow> 'a list \<Rightarrow> 'a list list" where
  "chunks n xs = (if xs = [] \<or> n = 0 then [] else take n xs # chunks n (drop n xs))"
  by pat_completeness auto
termination by (relation "measure (\<lambda>(n, xs). length xs)") auto

declare chunks.simps [simp del]

definition spread_in_columns :: "nat \<Rightarrow> string \<Rightarrow> string list \<Rightarrow> string list list res" where
  "spread_in_columns cols_count label lst =
     (let right_count = cols_count - 1 in
      if right_count = 0 then Inl ZeroDivisionError
      else let missing_items = nat (- int (length lst) mod int right_count);
               lst = (if lst = [] then replicate right_count [] else lst @ replicate missing_items []);
               rights = chunks right_count lst
        in Inr (map2 (#) (label # replicate (length rights - 1) []) rights))"

text \<open>\<open>_fits_in_cols\<close>: the widths of \<open>num\<close> columns that hold the messages row by row, or none.\<close>

fun fits_loop :: "string list \<Rightarrow> nat list \<Rightarrow> nat \<Rightarrow> int \<Rightarrow> (nat list \<times> int) option" where
  "fits_loop [] col_lens col left = Some (col_lens, left)"
| "fits_loop (m # msgs) col_lens col left =
     (let next = (col + 1) mod length col_lens in
      if length m > col_lens ! col
      then let diff = int (length m) - int (col_lens ! col)
        in if left \<le> diff then None else fits_loop msgs (col_lens[col := length m]) next (left - diff)
      else fits_loop msgs col_lens next left)"

definition fits_in_cols :: "nat \<Rightarrow> string list \<Rightarrow> nat \<Rightarrow> int list" where
  "fits_in_cols columns msgs num =
     (if length msgs < num then []
      else let left = int columns - ((int num - 1) + 2) in
        if left \<le> 0 then []
        else case fits_loop msgs (replicate num 0) 0 left of
          None \<Rightarrow> []
        | Some (col_lens, left) \<Rightarrow> map (\<lambda>w. - (int w + left div int num)) col_lens)"

definition pto_columns :: "nat \<Rightarrow> string list \<Rightarrow> int list" where
  "pto_columns columns msgs =
     (case filter (\<lambda>cols. cols \<noteq> []) (map (fits_in_cols columns msgs) [8, 7, 6, 5, 4, 3, 2]) of
        [] \<Rightarrow> [- (int columns - 2)]
      | cols # _ \<Rightarrow> cols)"

definition pto_callback :: "(char \<Rightarrow> bool) \<Rightarrow> terminal \<Rightarrow> string \<Rightarrow> string list \<Rightarrow> string list res" where
  "pto_callback wide t action msgs =
     (if msgs = [] then Inr []
      else let cols = pto_columns (tm_columns t) msgs
        in bind_r (map_r (\<lambda>ms. fmt_columns wide t (plain_cells ms cols) [] []) (chunks (length cols) msgs)) (\<lambda>rows.
             Inr ((action @ '':'') # map (\<lambda>r. ''  '' @ r) rows)))"

subsection \<open>Keys, values and sections\<close>

text \<open>\<open>sys_maxsize\<close> stands for a line that is never too long.\<close>

definition sys_maxsize :: nat where
  "sys_maxsize = 2 ^ 63 - 1"

definition fmt_key_val_fill :: "(char \<Rightarrow> bool) \<Rightarrow> terminal \<Rightarrow> string \<Rightarrow> string \<Rightarrow> string" where
  "fmt_key_val_fill wide t key val =
     (let keylen = exact_width wide key;
          cols = (if tm_real t = 0 then sys_maxsize else if tm_real t < 20 then 20 else tm_real t);
          nxt = spaces (keylen - 2) @ '': '';
          ret = textwrap_fill wide val cols key nxt
      in if val = [] then key
         else if count_list ret (CHR 0x0A) > 1 \<and> keylen > cols div 3
         then textwrap_fill wide val cols key ''     ...: ''
         else ret)"

definition fmt_section :: "(char \<Rightarrow> bool) \<Rightarrow> terminal \<Rightarrow> string \<Rightarrow> char \<Rightarrow> string" where
  "fmt_section wide t name fill =
     (let cols = tm_columns t - 2; name_len = exact_width wide name
      in if int name_len \<ge> int cols - 4
         then replicate 2 fill @ '' '' @ name @ '' '' @ replicate 2 fill
         else let beg = replicate ((cols - name_len) div 2) fill
           in beg @ '' '' @ name @ '' '' @ replicate (cols - name_len - length beg) fill)"

end
