(* ===== verification/Numerals.thy ===== *)
theory Numerals
  imports Prelude
begin

text \<open>
  Python's \<open>int(text)\<close>: white space around, an optional sign, digits with single underscores between
  them; and that reading a number gives back the one that was printed.
\<close>

definition digit_val :: "char \<Rightarrow> nat option" where
  "digit_val c = (let n = of_char c :: nat in if 48 \<le> n \<and> n \<le> 57 then Some (n - 48) else None)"

fun digits_acc :: "nat \<Rightarrow> string \<Rightarrow> nat option" where
  "digits_acc acc [] = Some acc"
| "digits_acc acc (c # cs) =
     (if c = CHR ''_''
      then (case cs of [] \<Rightarrow> None | d # ds \<Rightarrow> if digit_val d = None then None else digits_acc acc cs)
      else case digit_val c of None \<Rightarrow> None | Some d \<Rightarrow> digits_acc (10 * acc + d) cs)"

definition read_digits :: "string \<Rightarrow> nat option" where
  "read_digits s = (case s of [] \<Rightarrow> None | c # cs \<Rightarrow> if digit_val c = None then None else digits_acc 0 s)"

definition py_int :: "string \<Rightarrow> int option" where
  "py_int s =
     (case strip s of
        [] \<Rightarrow> None
      | c # cs \<Rightarrow>
          if c = CHR ''-'' then map_option (\<lambda>n. - int n) (read_digits cs)
          else if c = CHR ''+'' then map_option int (read_digits cs)
          else map_option int (read_digits (c # cs)))"

definition is_digit :: "char \<Rightarrow> bool" where
  "is_digit c \<longleftrightarrow> digit_val c \<noteq> None"

lemma digit_val_char [simp]: "n < 10 \<Longrightarrow> digit_val (char_of (48 + n)) = Some n"
  by (simp add: digit_val_def Let_def)

lemma digit_not_underscore: "n < 10 \<Longrightarrow> (char_of (48 + n) :: char) \<noteq> CHR ''_''" for n :: nat
proof
  assume "n < 10" "(char_of (48 + n) :: char) = CHR ''_''"
  then have "(of_char (char_of (48 + n) :: char) :: nat) = of_char (CHR ''_'')" by simp
  with \<open>n < 10\<close> show False by simp
qed

lemma nat_str_small: "n < 10 \<Longrightarrow> nat_str n = [char_of (48 + n)]"
  by (subst nat_str.simps) simp

lemma nat_str_large: "\<not> n < 10 \<Longrightarrow> nat_str n = nat_str (n div 10) @ [char_of (48 + n mod 10)]"
  by (subst nat_str.simps) simp

lemma nat_str_digits: "c \<in> set (nat_str n) \<Longrightarrow> \<exists>d < 10 :: nat. c = char_of (48 + d)"
proof (induction n rule: nat_str.induct)
  case step: (1 n)
  show ?case
  proof (cases "n < 10")
    case True
    with step(2) show ?thesis by (auto simp: nat_str_small)
  next
    case False
    with step(2) consider "c \<in> set (nat_str (n div 10))" | "c = char_of (48 + n mod 10)" by (auto simp: nat_str_large)
    then show ?thesis
    proof cases
      case 1
      with step(1) [OF False] show ?thesis by blast
    next
      case 2
      then show ?thesis by (intro exI [of _ "n mod 10"]) simp
    qed
  qed
qed

lemma nat_str_nonempty [simp]: "nat_str n \<noteq> []"
  by (cases "n < 10") (simp_all add: nat_str_small nat_str_large)

lemma nat_str_is_digit: "c \<in> set (nat_str n) \<Longrightarrow> is_digit c"
  by (auto simp: is_digit_def dest!: nat_str_digits)

lemma digits_acc_snoc: "list_all is_digit s \<Longrightarrow> d < 10 \<Longrightarrow>
    digits_acc acc (s @ [char_of (48 + d)]) = map_option (\<lambda>n. 10 * n + d) (digits_acc acc s)"
proof (induction s arbitrary: acc)
  case Nil
  then show ?case by (simp add: digit_not_underscore)
next
  case (Cons c s)
  then obtain v where v: "digit_val c = Some v" by (auto simp: is_digit_def)
  moreover have "digit_val CHR ''_'' = None" by (simp add: digit_val_def)
  ultimately have "c \<noteq> CHR ''_''" by auto
  with Cons v show ?case by simp
qed

lemma digits_acc_nat_str: "digits_acc 0 (nat_str n) = Some n"
proof (induction n rule: nat_str.induct)
  case (1 n)
  show ?case
  proof (cases "n < 10")
    case True
    then show ?thesis by (simp add: nat_str_small digit_not_underscore)
  next
    case False
    have "list_all is_digit (nat_str (n div 10))" by (auto simp: list_all_iff nat_str_is_digit)
    then show ?thesis using 1 False by (simp add: nat_str_large digits_acc_snoc)
  qed
qed

lemma read_digits_nat_str [simp]: "read_digits (nat_str n) = Some n"
proof (cases "nat_str n")
  case (Cons c cs)
  then have "is_digit c" by (metis list.set_intros(1) nat_str_is_digit)
  with Cons digits_acc_nat_str [of n] show ?thesis by (simp add: read_digits_def is_digit_def)
qed simp

lemma is_digit_not_space: "is_digit c \<Longrightarrow> \<not> py_space c"
  by (auto simp: is_digit_def digit_val_def py_space_def Let_def split: if_splits)

lemma strip_no_space: "list_all (\<lambda>c. \<not> py_space c) s \<Longrightarrow> strip s = s"
proof -
  have fix_dw: "list_all (\<lambda>c. \<not> py_space c) t \<Longrightarrow> dropWhile py_space t = t" for t
    by (cases t) auto
  assume "list_all (\<lambda>c. \<not> py_space c) s"
  moreover then have "list_all (\<lambda>c. \<not> py_space c) (rev s)" by (simp add: list_all_iff)
  ultimately show ?thesis by (simp add: strip_def lstrip_def rstrip_def fix_dw)
qed

lemma strip_nat_str [simp]: "strip (nat_str n) = nat_str n"
  by (rule strip_no_space) (auto simp: list_all_iff dest!: nat_str_is_digit is_digit_not_space)

lemma py_int_nat_str [simp]: "py_int (nat_str n) = Some (int n)"
proof (cases "nat_str n")
  case (Cons c cs)
  then have "is_digit c" by (metis list.set_intros(1) nat_str_is_digit)
  moreover have "\<not> is_digit CHR ''-''" "\<not> is_digit CHR ''+''" by (simp_all add: is_digit_def digit_val_def)
  ultimately have "c \<noteq> CHR ''-''" "c \<noteq> CHR ''+''" by auto
  then have "py_int (nat_str n) = map_option int (read_digits (nat_str n))"
    unfolding py_int_def strip_nat_str by (simp add: Cons)
  then show ?thesis by simp
qed simp

lemma py_int_int_str [simp]: "py_int (int_str n) = Some n"
proof (cases "n < 0")
  case True
  have "strip (''-'' @ nat_str (nat (- n))) = ''-'' @ nat_str (nat (- n))"
    by (rule strip_no_space)
      (auto simp: list_all_iff py_space_def [of "CHR ''-''"] dest!: nat_str_is_digit is_digit_not_space)
  with True show ?thesis by (simp add: py_int_def int_str_def)
qed (simp add: int_str_def)

lemma nat_str_length_bound: "n < 10 ^ k \<Longrightarrow> 0 < k \<Longrightarrow> length (nat_str n) \<le> k"
proof (induction k arbitrary: n)
  case (Suc k)
  show ?case
  proof (cases "n < 10")
    case True
    then show ?thesis by (simp add: nat_str_small)
  next
    case False
    with Suc.prems have "n div 10 < 10 ^ k" by (simp add: less_mult_imp_div_less mult.commute)
    moreover have "0 < k" using Suc.prems False by (cases k) auto
    ultimately have "n div 10 < 10 ^ k" "0 < k" by blast+
    with Suc.IH [of "n div 10"] False show ?thesis by (simp add: nat_str_large)
  qed
qed simp

end
