(* ===== verification/Format.thy ===== *)
theory Format
  imports Complex_Main Numerals
begin

text \<open>
  dnf/cli/format.py.  A float is the rational it denotes; the divisions by 1024 of the binary
  convention are exact on doubles, those by 1000 are exact here and rounded there.  \<open>%.1f\<close> and \<open>%.0f\<close>
  round the exact value, ties to even.
\<close>

datatype number = IntNum int | FloatNum rat

definition num_val :: "number \<Rightarrow> rat" where
  "num_val n = (case n of IntNum i \<Rightarrow> of_int i | FloatNum x \<Rightarrow> x)"

definition round_even :: "rat \<Rightarrow> int" where
  "round_even x =
     (let f = \<lfloor>x\<rfloor>; d = x - of_int f
      in if d < 1 / 2 then f else if d > 1 / 2 then f + 1 else if even f then f else f + 1)"

definition fixed0 :: "rat \<Rightarrow> string" where
  "fixed0 x = (if x < 0 then ''-'' @ nat_str (nat (round_even (- x))) else nat_str (nat (round_even x)))"

definition tenths :: "nat \<Rightarrow> string" where
  "tenths n = nat_str (n div 10) @ ''.'' @ nat_str (n mod 10)"

definition fixed1 :: "rat \<Rightarrow> string" where
  "fixed1 x = (if x < 0 then ''-'' @ tenths (nat (round_even (- x * 10))) else tenths (nat (round_even (x * 10))))"

definition symbols :: string where
  "symbols = '' kMGTPEZY''"

text \<open>The loop: the number divided down, whether it was divided at all, and the depth.  \<open>left\<close> counts
  what remains of the list of symbols.\<close>

fun scale_loop :: "rat \<Rightarrow> nat \<Rightarrow> nat \<Rightarrow> number \<Rightarrow> number \<times> nat" where
  "scale_loop step 0 depth n = (n, depth)"
| "scale_loop step (Suc left) depth n =
     (if num_val n > 999 then scale_loop step left (depth + 1) (FloatNum (num_val n / step)) else (n, depth))"

definition number_text :: "number \<Rightarrow> string" where
  "number_text n =
     (case n of
        IntNum i \<Rightarrow> int_str i
      | FloatNum x \<Rightarrow> if x < 995 / 100 then fixed1 x else fixed0 x)"

definition format_number :: "number option \<Rightarrow> bool \<Rightarrow> string \<Rightarrow> string" where
  "format_number num SI space =
     (let step = (if SI then 1000 else 1024);
          n = (case num of None \<Rightarrow> FloatNum 0 | Some n \<Rightarrow> n);
          (n, depth) = scale_loop step (length symbols - 1) 0 n
      in number_text n @ space @ [symbols ! depth])"

datatype secs = Secs rat | Infinity

definition pad2 :: "int \<Rightarrow> string" where
  "pad2 n = (let s = int_str n in if length s < 2 then ''0'' @ s else s)"

definition format_time :: "secs option \<Rightarrow> bool \<Rightarrow> string" where
  "format_time seconds use_hours =
     (case seconds of
        None \<Rightarrow> if use_hours then ''--:--:--'' else ''--:--''
      | Some Infinity \<Rightarrow> ''Infinite''
      | Some (Secs x) \<Rightarrow>
          if x < 0 then (if use_hours then ''--:--:--'' else ''--:--'')
          else let s = \<lfloor>x\<rfloor>; minutes = s div 60; s = s mod 60
               in if use_hours
                  then let hours = minutes div 60; minutes = minutes mod 60
                       in pad2 hours @ '':'' @ pad2 minutes @ '':'' @ pad2 s
                  else pad2 minutes @ '':'' @ pad2 s)"

definition line_end :: "char \<Rightarrow> bool" where
  "line_end c = (let n = of_char c :: nat in 10 \<le> n \<and> n \<le> 13 \<or> 28 \<le> n \<and> n \<le> 30 \<or> n = 133)"

text \<open>\<open>s.splitlines()\<close>.\<close>

fun splitlines_acc :: "string \<Rightarrow> string \<Rightarrow> string list" where
  "splitlines_acc w [] = (if w = [] then [] else [w])"
| "splitlines_acc w (c # cs) =
     (if line_end c
      then w # splitlines_acc [] (if c = CHR 0x0D \<and> cs \<noteq> [] \<and> hd cs = CHR 0x0A then tl cs else cs)
      else splitlines_acc (w @ [c]) cs)"

definition indent_block :: "string \<Rightarrow> string" where
  "indent_block s = join_str nl (map (\<lambda>l. ''  '' @ l) (splitlines_acc [] s))"

subsection \<open>Numbers\<close>

lemma round_even_bounds: "of_int (round_even x) \<le> x + 1 / 2" "x - 1 / 2 \<le> of_int (round_even x)"
  by (auto simp: round_even_def Let_def) linarith+

lemma round_even_nonneg: "0 \<le> x \<Longrightarrow> 0 \<le> round_even x"
proof -
  assume "0 \<le> x"
  with round_even_bounds(2) [of x] have "- 1 < (of_int (round_even x) :: rat)" by linarith
  then show ?thesis by linarith
qed

lemma round_even_less: "x < of_int n + 1 / 2 \<Longrightarrow> round_even x \<le> n"
proof -
  assume "x < of_int n + 1 / 2"
  with round_even_bounds(1) [of x] have "(of_int (round_even x) :: rat) < of_int (n + 1)" by simp
  then show ?thesis by linarith
qed

lemma fixed1_short: "0 \<le> x \<Longrightarrow> x < 995 / 100 \<Longrightarrow> length (fixed1 x) \<le> 3"
proof -
  assume x: "0 \<le> x" "x < 995 / 100"
  from x(2) have "x * 10 < of_int 99 + 1 / 2" by simp
  from round_even_less [OF this] have "nat (round_even (x * 10)) < 100" by linarith
  then have "length (tenths (nat (round_even (x * 10)))) \<le> 3"
    by (simp add: tenths_def nat_str_small less_mult_imp_div_less)
  with x(1) show ?thesis by (simp add: fixed1_def)
qed

lemma fixed0_short: "0 \<le> x \<Longrightarrow> x \<le> 999 \<Longrightarrow> length (fixed0 x) \<le> 3"
proof -
  assume x: "0 \<le> x" "x \<le> 999"
  from x(2) have "x < of_int 999 + 1 / 2" by simp
  from round_even_less [OF this] have "nat (round_even x) < 10 ^ 3" by simp
  from nat_str_length_bound [OF this] x(1) show ?thesis by (simp add: fixed0_def)
qed

lemma number_text_short: "0 \<le> num_val n \<Longrightarrow> num_val n \<le> 999 \<Longrightarrow> length (number_text n) \<le> 3"
proof (cases n)
  case (IntNum i)
  assume a: "0 \<le> num_val n" "num_val n \<le> 999"
  then have i: "0 \<le> i" "i \<le> 999" by (simp_all add: IntNum num_val_def)
  then have "nat i < 10 ^ 3" by simp
  from nat_str_length_bound [OF this] i show ?thesis by (simp add: IntNum number_text_def int_str_def)
qed (auto simp: num_val_def number_text_def fixed1_short fixed0_short)

lemma scale_loop_spec:
  assumes "0 < step"
  shows "\<exists>m d. scale_loop step left depth n = (m, depth + d) \<and> d \<le> left \<and> num_val m * step ^ d = num_val n \<and>
    (0 < d \<longrightarrow> num_val n > 999 * step ^ (d - 1)) \<and> (num_val n \<le> 999 * step ^ left \<longrightarrow> num_val m \<le> 999)"
proof (induction left arbitrary: depth n)
  case (Suc left)
  show ?case
  proof (cases "num_val n > 999")
    case True
    let ?n = "FloatNum (num_val n / step)"
    from Suc.IH [of "depth + 1" ?n] obtain m d where
      m: "scale_loop step left (depth + 1) ?n = (m, depth + 1 + d)" "d \<le> left" "num_val m * step ^ d = num_val ?n"
        "0 < d \<longrightarrow> num_val ?n > 999 * step ^ (d - 1)" "num_val ?n \<le> 999 * step ^ left \<longrightarrow> num_val m \<le> 999" by blast
    have div: "num_val ?n * step = num_val n" using assms by (simp add: num_val_def)
    have "num_val n > 999 * step ^ (Suc d - 1)"
    proof (cases d)
      case 0
      with True show ?thesis by simp
    next
      case (Suc e)
      with m(4) have "999 * step ^ e < num_val ?n" by simp
      with assms have "999 * step ^ e * step < num_val ?n * step" by (simp only: mult_strict_right_mono)
      with div Suc show ?thesis by (simp add: mult.assoc mult.commute)
    qed
    moreover have "num_val m * step ^ Suc d = num_val n" using m(3) div by (metis mult.assoc power_Suc2)
    moreover have "num_val m \<le> 999" if "num_val n \<le> 999 * step ^ Suc left"
    proof -
      from that div assms have "num_val ?n * step \<le> 999 * step ^ left * step" by (simp add: mult.assoc mult.commute)
      with assms have "num_val ?n \<le> 999 * step ^ left" by (simp only: mult_le_cancel_right_pos)
      with m(5) show ?thesis by blast
    qed
    ultimately show ?thesis using True m(1,2) by (intro exI [of _ m] exI [of _ "Suc d"]) simp
  next
    case False
    then show ?thesis by (intro exI [of _ n] exI [of _ 0]) auto
  qed
qed auto

text \<open>
  The width of a formatted number: a non-negative number up to 999 yotta takes at most three
  characters besides the space and the unit; the unit is the smallest one for which the mantissa is
  at most 999, and the mantissa times the power of that unit is the number.
\<close>

theorem format_number_width:
  fixes SI :: bool
  assumes "0 \<le> num_val n" and "num_val n \<le> 999 * (if SI then 1000 else 1024) ^ 8"
  shows "\<exists>m d. format_number (Some n) SI space = number_text m @ space @ [symbols ! d] \<and> d \<le> 8 \<and>
    length (number_text m) \<le> 3 \<and> num_val m \<le> 999 \<and>
    num_val m * (if SI then 1000 else 1024) ^ d = num_val n \<and>
    (0 < d \<longrightarrow> num_val n > 999 * (if SI then 1000 else 1024) ^ (d - 1))"
proof -
  let ?step = "if SI then 1000 else 1024 :: rat"
  have step: "0 < ?step" by simp
  from scale_loop_spec [OF step, of 8 0 n] obtain m d where
    m: "scale_loop ?step 8 0 n = (m, d)" "d \<le> 8" "num_val m * ?step ^ d = num_val n"
      "0 < d \<longrightarrow> num_val n > 999 * ?step ^ (d - 1)" "num_val n \<le> 999 * ?step ^ 8 \<longrightarrow> num_val m \<le> 999"
    by (metis add_0)
  have small: "num_val m \<le> 999" using m(5) assms(2) by blast
  have "0 < ?step ^ d" using step by simp
  with m(3) assms(1) have pos: "0 \<le> num_val m" by (metis zero_le_mult_iff not_less order.asym)
  have "length symbols - 1 = 8" by (simp add: symbols_def)
  then have "format_number (Some n) SI space = number_text m @ space @ [symbols ! d]"
    using m(1) by (simp add: format_number_def Let_def)
  with m small number_text_short [OF pos small] show ?thesis by blast
qed

lemma format_number_width_witness:
  "\<exists>m d. format_number (Some (IntNum 1536)) False '' '' = number_text m @ '' '' @ [symbols ! d] \<and> length (number_text m) \<le> 3"
  using format_number_width [of "IntNum 1536" False "'' ''"] by (auto simp: num_val_def)

subsection \<open>Times\<close>

text \<open>Reading a clock back: the fields are separated by colons, each counts sixty of the next.\<close>

definition read_clock :: "string \<Rightarrow> int option" where
  "read_clock s =
     fold (\<lambda>f acc. case (acc, py_int f) of (Some a, Some n) \<Rightarrow> Some (60 * a + n) | _ \<Rightarrow> None) (split_on CHR '':'' s) (Some 0)"

lemma pad2_props: "0 \<le> n \<Longrightarrow> py_int (pad2 n) = Some n \<and> CHR '':'' \<notin> set (pad2 n)"
proof -
  assume n: "0 \<le> n"
  have colon: "\<not> is_digit CHR '':''" by (simp add: is_digit_def digit_val_def)
  then have notin: "CHR '':'' \<notin> set (nat_str (nat n))" by (meson nat_str_is_digit)
  show ?thesis
  proof (cases "nat n < 10")
    case True
    let ?c = "char_of (48 + nat n) :: char"
    have s: "nat_str (nat n) = [?c]" by (rule nat_str_small [OF True])
    have dig: "is_digit ?c" using nat_str_is_digit [of ?c "nat n"] s by simp
    have "strip (''0'' @ [?c]) = ''0'' @ [?c]"
      by (rule strip_no_space) (use is_digit_not_space [OF dig] in \<open>simp add: py_space_def [of "CHR ''0''"]\<close>)
    then have "py_int (''0'' @ [?c]) = Some n"
      using True n digit_not_underscore [OF True] by (simp add: py_int_def read_digits_def digit_val_def [of "CHR ''0''"])
    with n notin s show ?thesis by (simp add: pad2_def int_str_def)
  next
    case False
    then have "\<not> length (nat_str (nat n)) < 2" by (simp add: nat_str_large)
    with n notin show ?thesis by (simp add: pad2_def int_str_def)
  qed
qed

text \<open>
  A formatted time is read back exactly, with and without hours: the fields of \<open>format_time\<close>,
  each in base sixty, give the whole seconds of its argument.
\<close>

theorem format_time_roundtrip:
  assumes "0 \<le> x"
  shows "read_clock (format_time (Some (Secs x)) use_hours) = Some \<lfloor>x\<rfloor>"
proof -
  let ?s = "\<lfloor>x\<rfloor>"
  have s: "0 \<le> ?s" using assms by simp
  have f: "0 \<le> ?s div 60" "0 \<le> ?s mod 60" "0 \<le> ?s div 60 div 60" "0 \<le> ?s div 60 mod 60"
    using s by (simp_all add: pos_imp_zdiv_nonneg_iff)
  note p = pad2_props [OF f(1)] pad2_props [OF f(2)] pad2_props [OF f(3)] pad2_props [OF f(4)]
  have h: "60 * (60 * (?s div 60 div 60) + ?s div 60 mod 60) + ?s mod 60 = ?s"
    unfolding mult_div_mod_eq [of 60 "?s div 60"] by (rule mult_div_mod_eq)
  have m: "60 * (?s div 60) + ?s mod 60 = ?s" by (rule mult_div_mod_eq)
  show ?thesis
  proof (cases use_hours)
    case True
    then have t: "format_time (Some (Secs x)) use_hours
        = pad2 (?s div 60 div 60) @ CHR '':'' # pad2 (?s div 60 mod 60) @ CHR '':'' # pad2 (?s mod 60)"
      using assms by (simp add: format_time_def Let_def)
    have "split_on CHR '':'' (format_time (Some (Secs x)) use_hours)
        = [pad2 (?s div 60 div 60), pad2 (?s div 60 mod 60), pad2 (?s mod 60)]"
      unfolding t using p by (simp only: split_append_sep split_no_sep not_False_eq_True)
    then show ?thesis using p h by (simp add: read_clock_def)
  next
    case False
    then have t: "format_time (Some (Secs x)) use_hours = pad2 (?s div 60) @ CHR '':'' # pad2 (?s mod 60)"
      using assms by (simp add: format_time_def Let_def)
    have "split_on CHR '':'' (format_time (Some (Secs x)) use_hours) = [pad2 (?s div 60), pad2 (?s mod 60)]"
      unfolding t using p by (simp only: split_append_sep split_no_sep not_False_eq_True)
    then show ?thesis using p m by (simp add: read_clock_def)
  qed
qed

lemma format_time_roundtrip_witness: "read_clock (format_time (Some (Secs 3725)) True) = Some 3725"
  using format_time_roundtrip [of 3725 True] by simp

end
