(* ===== verification/Progress.thy ===== *)
theory Progress
  imports Columns Format Glob Transaction_Items
begin

text \<open>
  What is shown while dnf works, and what is asked: the question to the user and the display of an RPM
  transaction in dnf/cli/output.py (lines 641 to 684, 1419 to 1438, 1889 to 2153), and the meter of
  downloads in dnf/cli/progress.py.  A float is the rational it denotes; where a length is a rounded
  product of floats (the marks of a bar) it is a parameter.
\<close>

subsection \<open>Asking the user\<close>

datatype reply = Typed string | EndOfFile | Interrupt

text \<open>The translations of \<open>y\<close>, \<open>yes\<close>, \<open>n\<close> and \<open>no\<close>.\<close>

record answers =
  an_y :: string
  an_yes :: string
  an_n :: string
  an_no :: string

definition yui :: "answers \<Rightarrow> string list" where
  "yui a = [an_y a, an_yes a]"

definition nui :: "answers \<Rightarrow> string list" where
  "nui a = [an_n a, an_no a]"

definition user_choice :: "answers \<Rightarrow> bool \<Rightarrow> reply \<Rightarrow> string" where
  "user_choice a defaultyes r =
     (let choice = map to_lower (case r of Typed s \<Rightarrow> s | EndOfFile \<Rightarrow> [] | Interrupt \<Rightarrow> hd (nui a))
      in if choice = [] then hd (if defaultyes then yui a else nui a) else choice)"

text \<open>An accepted choice; the English letters count too where they mean nothing else.\<close>

definition accepted_choice :: "answers \<Rightarrow> string \<Rightarrow> string option" where
  "accepted_choice a choice =
     (let aui = yui a @ nui a in
      if choice \<in> set aui then Some choice
      else if choice = ''y'' \<and> ''y'' \<notin> set aui then Some (hd (yui a))
      else if choice = ''n'' \<and> ''n'' \<notin> set aui then Some (hd (nui a))
      else None)"

text \<open>The prompts shown and the answer, with the replies not read; none when the replies end before an accepted one.\<close>

fun userconfirm :: "answers \<Rightarrow> bool \<Rightarrow> string option \<Rightarrow> string option \<Rightarrow> reply list \<Rightarrow> (string list \<times> bool \<times> reply list) option" where
  "userconfirm a defaultyes msg defaultyes_msg [] = None"
| "userconfirm a defaultyes msg defaultyes_msg (r # rs) =
     (let msg = (case msg of None \<Rightarrow> ''Is this ok [y/N]: '' | Some m \<Rightarrow> m);
          msg = (if defaultyes then (case defaultyes_msg of None \<Rightarrow> ''Is this ok [Y/n]: '' | Some m \<Rightarrow> m) else msg)
      in case accepted_choice a (user_choice a defaultyes r) of
           Some choice \<Rightarrow> Some ([msg], choice \<in> set (yui a), rs)
         | None \<Rightarrow> map_option (\<lambda>(ms, yes, rs). (msg # ms, yes, rs)) (userconfirm a defaultyes (Some msg) defaultyes_msg rs))"

subsection \<open>Key import and dependency solving\<close>

definition short_key_id :: "string \<Rightarrow> string" where
  "short_key_id i = (let i = drop (length i - 8) i in replicate (8 - length i) CHR ''0'' @ i)"

definition printable_fingerprint :: "string \<Rightarrow> string" where
  "printable_fingerprint fpr = join_str '' '' (chunks 4 fpr)"

text \<open>\<open>text.replace(old, '')\<close>.\<close>

function remove_all :: "string \<Rightarrow> string \<Rightarrow> string" where
  "remove_all old s =
     (if old = [] then s
      else if s = [] then []
      else if startswith s old then remove_all old (drop (length old) s) else hd s # remove_all old (tl s))"
  by pat_completeness auto
termination
  by (relation "measure (\<lambda>(old, s). length s)") (auto simp: startswith_def)

declare remove_all.simps [simp del]

definition key_import_message :: "string \<Rightarrow> string \<Rightarrow> string \<Rightarrow> string \<Rightarrow> string" where
  "key_import_message key_id userid fingerprint url =
     ''Importing GPG key 0x'' @ short_key_id key_id @ '':'' @ nl @ '' Userid     : '' @ dq @ userid @ dq @ nl @
     '' Fingerprint: '' @ printable_fingerprint fingerprint @ nl @ '' From       : '' @ remove_all ''file://'' url"

text \<open>The answer to the import of a key; the third argument is the reply of \<open>userconfirm\<close>.\<close>

definition key_import_confirm :: "bool \<Rightarrow> bool \<Rightarrow> bool \<Rightarrow> bool" where
  "key_import_confirm assumeyes assumeno reply = (if assumeyes then True else if assumeno then False else reply)"

definition pkg_added_message :: "string \<Rightarrow> string \<Rightarrow> string \<Rightarrow> string \<Rightarrow> string option" where
  "pkg_added_message name arch evr mode =
     map_option (\<lambda>what. ''---> Package '' @ name @ ''.'' @ arch @ '' '' @ evr @ '' will be '' @ what)
       (map_of [(''i'', ''installed''), (''u'', ''an upgrade''), (''e'', ''erased''), (''r'', ''reinstalled''),
                (''d'', ''a downgrade''), (''o'', ''obsoleting''), (''ud'', ''upgraded''), (''od'', ''obsoleted'')] mode)"

subsection \<open>Padding\<close>

text \<open>\<open>%-*s\<close>, \<open>%*s\<close> and \<open>%-*.*s\<close>: a negative width pads by its absolute value, a negative precision keeps nothing.\<close>

definition pad_left_aligned :: "int \<Rightarrow> string \<Rightarrow> string" where
  "pad_left_aligned w s = s @ spaces (nat \<bar>w\<bar> - length s)"

definition pad_right_aligned :: "nat \<Rightarrow> string \<Rightarrow> string" where
  "pad_right_aligned w s = spaces (w - length s) @ s"

definition pad_cut :: "int \<Rightarrow> string \<Rightarrow> string" where
  "pad_cut w s = pad_left_aligned w (take (nat w) s)"

subsection \<open>The progress of a transaction\<close>

definition max_action_width :: "(char \<Rightarrow> bool) \<Rightarrow> nat" where
  "max_action_width wide = foldl (\<lambda>w (k, v). if w < exact_width wide v then exact_width wide v else w) 0 ACTIONS"

text \<open>
  The terminal, and whether it is one; \<open>pe_marks m p\<close> is \<open>int(m * (p / 100.0))\<close>.
\<close>

record progress_env =
  pe_wide :: "char \<Rightarrow> bool"
  pe_tty :: bool
  pe_width :: nat
  pe_marks :: "nat \<Rightarrow> nat \<Rightarrow> nat"

definition overhead :: "nat \<Rightarrow> nat \<Rightarrow> nat" where
  "overhead l wid1 = (2 * l + 2) + (2 + wid1 + 2) + 1 + 2 + 1"

definition progress_bar :: "nat \<Rightarrow> nat \<Rightarrow> string" where
  "progress_bar marks filled = ''['' @ pad_cut (int marks) (replicate filled CHR ''='') @ '']''"

text \<open>The format, and the widths of its two texts.\<close>

definition makefmt :: "progress_env \<Rightarrow> nat \<Rightarrow> nat \<Rightarrow> nat \<Rightarrow> string \<Rightarrow> nat \<Rightarrow> string \<times> nat \<times> int" where
  "makefmt e percent ts_done ts_total pkgname wid1 =
     (let l = length (nat_str ts_total);
          cut = (\<lambda>n. pad_right_aligned l (take l (nat_str n)));
          done_text = cut ts_done @ ''/'' @ cut ts_total;
          over = overhead l wid1;
          width = pe_width e - over;
          pnl = (if exact_width (pe_wide e) pkgname > width div 2 then width div 2 else exact_width (pe_wide e) pkgname);
          marks = int (pe_width e) - int (over + pnl);
          full_pnl = int pnl + marks + 1;
          bar = (\<lambda>filled. if marks > 5 then progress_bar (nat marks) filled else [])
      in if pe_tty e \<and> percent = 100 then ([CHR 0x0D] @ ''  %s: %s   '' @ done_text, wid1, full_pnl)
         else if pe_tty e
         then ([CHR 0x0D] @ ''  %s: %s '' @ bar (pe_marks e (nat marks) percent) @ '' '' @ done_text, wid1, int pnl)
         else if percent = 100 then (''  %s: %s   '' @ done_text, wid1, full_pnl)
         else (''  %s: %s '' @ bar (nat marks) @ '' '' @ done_text, wid1, int pnl))"

record display_state =
  ds_output :: bool
  ds_lastmsg :: string
  ds_lastpackage :: string
  ds_written :: "string list"

definition out_progress ::
  "progress_env \<Rightarrow> nat \<Rightarrow> nat \<Rightarrow> nat \<Rightarrow> nat \<Rightarrow> nat \<Rightarrow> string \<Rightarrow> string \<Rightarrow> nat \<Rightarrow> (display_state, unit) prog" where
  "out_progress e ti_done ti_total ts_done ts_total percent process pkgname wid1 =
     bind_p (gets_p (\<lambda>s. ds_output s \<and> (pe_tty e \<or> ti_done = ti_total))) (\<lambda>shown.
       if \<not> shown then return_p ()
       else case makefmt e percent ts_done ts_total pkgname wid1 of (fmt, wid1, wid2) \<Rightarrow>
         bind_p (lift_p (percent_s fmt [fill_exact_width (pe_wide e) process wid1 (Some wid1) True [] [],
             fill_exact_width (pe_wide e) pkgname (nat wid2) (Some (nat wid2)) True [] []])) (\<lambda>msg.
         bind_p (gets_p ds_lastmsg) (\<lambda>lastmsg.
           if msg \<noteq> lastmsg
           then modify_p (\<lambda>s. s\<lparr>ds_written := ds_written s @ [msg] @ (if ti_done = ti_total then ['' '' @ nl] else []), ds_lastmsg := msg\<rparr>)
           else return_p ())))"

definition display_progress ::
  "progress_env \<Rightarrow> string \<Rightarrow> trans_key \<Rightarrow> nat \<Rightarrow> nat \<Rightarrow> nat \<Rightarrow> nat \<Rightarrow> (display_state, unit) prog" where
  "display_progress e package action ti_done ti_total ts_done ts_total =
     (case map_of ACTIONS action of
        None \<Rightarrow> return_p ()
      | Some action_str \<Rightarrow>
          then_p (modify_p (\<lambda>s. s\<lparr>ds_lastpackage := package\<rparr>))
            (out_progress e ti_done ti_total ts_done ts_total (if ti_total = 0 then 0 else ti_done * 100 div ti_total)
              action_str package (max_action_width (pe_wide e))))"

subsection \<open>A bar on its own\<close>

text \<open>
  What \<open>progressbar\<close> writes; \<open>share w\<close> is \<open>int(w * percent)\<close> for the share of the work that is done.
\<close>

definition progressbar ::
  "(char \<Rightarrow> bool) \<Rightarrow> bool \<Rightarrow> nat \<Rightarrow> (nat \<Rightarrow> nat) \<Rightarrow> nat \<Rightarrow> nat \<Rightarrow> string option \<Rightarrow> string list" where
  "progressbar wide tty tw share current tot name =
     (if \<not> tty then []
      else let name = (if name = None \<and> current = tot then Some ''-'' else name);
               end_text = '' '' @ nat_str current @ ''/'' @ nat_str tot;
               width = tw - (length end_text + 1);
               output = (case name of
                   None \<Rightarrow> [CHR 0x0D] @ ''['' @ pad_left_aligned (int (width - 2)) (replicate (share (width - 2)) CHR ''#'') @ '']'' @ end_text
                 | Some n \<Rightarrow>
                     if current = tot then [CHR 0x0D] @ fill_exact_width wide n width (Some width) True [] [] @ end_text
                     else let width = width - 4;
                              nwid = (if width div 2 > exact_width wide n then exact_width wide n else width div 2);
                              width = width - nwid
                       in [CHR 0x0D] @ fill_exact_width wide n nwid (Some nwid) True [] [] @ '': ['' @
                          pad_left_aligned (int width) (replicate (share width) CHR ''#'') @ '']'' @ end_text)
        in (if current \<le> tot then [output] else []) @ (if current = tot then [nl] else []))"

subsection \<open>The meter of downloads\<close>

datatype dl_status = DL_OK | DL_FAILED | DL_EXISTS | DL_MIRROR | DL_DRPM

definition status_str :: "dl_status \<Rightarrow> string res" where
  "status_str st = (case st of DL_FAILED \<Rightarrow> Inr ''FAILED'' | DL_EXISTS \<Rightarrow> Inr ''SKIPPED'' | DL_MIRROR \<Rightarrow> Inr ''MIRROR''
     | DL_DRPM \<Rightarrow> Inr ''DRPM'' | DL_OK \<Rightarrow> Inl (KeyError ''None''))"

text \<open>The periods of the meter, and the terminal.\<close>

record meter_env =
  me_tty :: bool
  me_width :: nat
  me_update :: rat
  me_tick :: rat
  me_average :: rat

record meter =
  mt_unknown :: int
  mt_total_drpm :: nat
  mt_done_drpm :: nat
  mt_done_files :: nat
  mt_done_size :: int
  mt_active :: "string list"
  mt_state :: "(string, rat \<times> int) dict"
  mt_last_time :: rat
  mt_last_size :: int
  mt_rate :: "rat option"
  mt_total_files :: nat
  mt_total_size :: int
  mt_out :: "string list"

definition meter_message :: "string \<Rightarrow> (meter, unit) prog" where
  "meter_message m = modify_p (\<lambda>s. s\<lparr>mt_out := mt_out s @ [m]\<rparr>)"

definition meter_start :: "nat \<Rightarrow> int \<Rightarrow> nat \<Rightarrow> (meter, unit) prog" where
  "meter_start total_files total_size total_drpms =
     modify_p (\<lambda>s. s\<lparr>mt_total_files := total_files, mt_total_size := total_size, mt_total_drpm := total_drpms, mt_done_drpm := 0,
       mt_done_files := 0, mt_done_size := 0, mt_active := [], mt_state := [], mt_last_time := 0, mt_last_size := 0, mt_rate := None\<rparr>)"

text \<open>The average of the rate, from the growth since the last update.\<close>

definition update_rate :: "meter_env \<Rightarrow> rat \<Rightarrow> meter \<Rightarrow> meter" where
  "update_rate e now s =
     (let delta_time = now - mt_last_time s; delta_size = mt_done_size s - mt_last_size s in
      if mt_last_time s \<noteq> 0 \<and> delta_time > 0 \<and> delta_size > 0
      then let rate = of_int delta_size / delta_time in
        s\<lparr>mt_rate := Some (case mt_rate s of
            None \<Rightarrow> rate
          | Some old \<Rightarrow> let weight = min (delta_time / me_average e) 1 in rate * weight + old * (1 - weight))\<rparr>
      else s)"

definition active_text :: "meter_env \<Rightarrow> rat \<Rightarrow> meter \<Rightarrow> string" where
  "active_text e now s =
     (let text = mt_active s ! nat (\<lfloor>now / me_tick e\<rfloor> mod int (length (mt_active s))) in
      if mt_total_files s > 1
      then let n = nat_str (mt_done_files s + 1) @
                 (if length (mt_active s) > 1 then ''-'' @ nat_str (mt_done_files s + length (mt_active s)) else [])
        in ''('' @ n @ ''/'' @ nat_str (mt_total_files s) @ ''): '' @ text
      else text)"

definition rate_message :: "meter \<Rightarrow> string" where
  "rate_message s =
     (let rated = (case mt_rate s of None \<Rightarrow> None | Some r \<Rightarrow> if r = 0 then None else Some r);
          time_eta = (case rated of
              None \<Rightarrow> ''--:--''
            | Some r \<Rightarrow> if mt_total_size s = 0 then ''--:--'' else format_time (Some (Secs (of_int (mt_total_size s - mt_done_size s) / r))) False)
      in '' '' @ pad_right_aligned 5 (case rated of None \<Rightarrow> ''---  '' | Some r \<Rightarrow> format_number (Some (FloatNum r)) False []) @ ''B/s | '' @
         pad_right_aligned 5 (format_number (Some (IntNum (mt_done_size s))) False []) @ ''B '' @
         pad_right_aligned 9 time_eta @ '' ETA'' @ [CHR 0x0D])"

text \<open>The line that is shown, and the place of the bar when the whole size is not known.\<close>

definition meter_line :: "meter_env \<Rightarrow> rat \<Rightarrow> meter \<Rightarrow> string \<times> int" where
  "meter_line e now s =
     (let text = active_text e now s;
          msg = rate_message s;
          left = int (me_width e) - int (length msg);
          bl = (left - 7) div 2
      in if bl > 8
         then if mt_total_size s \<noteq> 0
           then let pct = mt_done_size s * 100 div mt_total_size s;
                    halves = mt_done_size s * bl * 2 div mt_total_size s;
                    bar = replicate (nat (halves div 2)) CHR ''='' @ replicate (nat (halves mod 2)) CHR ''-'';
                    msg = pad_right_aligned 3 (int_str pct) @ ''% ['' @ pad_left_aligned bl bar @ '']'' @ msg
             in (pad_cut (left - (bl + 7)) text @ msg, mt_unknown s)
           else let n = (if mt_unknown s - 3 < 0 then 0 else mt_unknown s - 3);
                    bar = replicate (nat n) CHR '' '' @ replicate 3 CHR ''='';
                    msg = ''     ['' @ pad_left_aligned bl bar @ '']'' @ msg
             in (pad_cut (left - (bl + 7)) text @ msg, if mt_unknown s + 3 < bl then mt_unknown s + 3 else 0)
         else (pad_cut left text @ msg, mt_unknown s))"

definition meter_update :: "meter_env \<Rightarrow> rat \<Rightarrow> (meter, unit) prog" where
  "meter_update e now =
     then_p (modify_p (\<lambda>s. (update_rate e now s)\<lparr>mt_last_time := now, mt_last_size := mt_done_size s\<rparr>))
       (if \<not> me_tty e then return_p ()
        else bind_p (gets_p (\<lambda>s. s)) (\<lambda>s.
          if mt_active s = [] then raise_p ZeroDivisionError
          else case meter_line e now s of (line, unknown) \<Rightarrow>
            then_p (modify_p (\<lambda>s. s\<lparr>mt_unknown := unknown\<rparr>)) (meter_message line)))"

definition meter_progress :: "meter_env \<Rightarrow> rat \<Rightarrow> string \<Rightarrow> int \<Rightarrow> int \<Rightarrow> (meter, unit) prog" where
  "meter_progress e now text sz dl =
     then_p (modify_p (\<lambda>s.
         if dict_in text (mt_state s) then s
         else s\<lparr>mt_state := dict_set text (now, 0) (mt_state s), mt_active := mt_active s @ [text]\<rparr>))
     (bind_p (gets_p (\<lambda>s. dict_get (mt_state s) text)) (\<lambda>st. bind_p (lift_p st) (\<lambda>(start, old).
      then_p (modify_p (\<lambda>s. s\<lparr>mt_state := dict_set text (start, dl) (mt_state s), mt_done_size := mt_done_size s + (dl - old)\<rparr>))
      (bind_p (gets_p (\<lambda>s. now - mt_last_time s > me_update e)) (\<lambda>due.
        if due
        then then_p (modify_p (\<lambda>s. if sz > mt_total_size s then s\<lparr>mt_total_size := sz\<rparr> else s)) (meter_update e now)
        else return_p ())))))"

text \<open>The first half of \<open>end\<close>: what is counted, with the start of the download and what was done of it.\<close>

definition meter_count_end :: "rat \<Rightarrow> string \<Rightarrow> int \<Rightarrow> dl_status \<Rightarrow> (meter, rat \<times> int) prog" where
  "meter_count_end now text sz status =
     (if status = DL_MIRROR then return_p (now, 0)
      else if status = DL_DRPM then then_p (modify_p (\<lambda>s. s\<lparr>mt_done_drpm := mt_done_drpm s + 1\<rparr>)) (return_p (now, 0))
      else bind_p (gets_p (\<lambda>s. map_of (mt_state s) text)) (\<lambda>st. case st of
          Some (start, dl) \<Rightarrow>
            bind_p (gets_p (\<lambda>s. if text \<in> set (mt_active s) then Inr () else Inl (ValueError ''list.remove(x): x not in list''))) (\<lambda>r.
            then_p (modify_p (\<lambda>s. s\<lparr>mt_state := dict_del text (mt_state s)\<rparr>))
            (bind_p (lift_p r) (\<lambda>_.
             then_p (modify_p (\<lambda>s. s\<lparr>mt_active := remove1 text (mt_active s), mt_done_files := mt_done_files s + 1,
                 mt_done_size := mt_done_size s + (sz - dl)\<rparr>))
               (return_p (start, dl)))))
        | None \<Rightarrow>
            if status = DL_EXISTS
            then then_p (modify_p (\<lambda>s. s\<lparr>mt_done_files := mt_done_files s + 1, mt_done_size := mt_done_size s + sz\<rparr>)) (return_p (now, 0))
            else return_p (now, 0)))"

definition end_message :: "meter_env \<Rightarrow> rat \<Rightarrow> string \<Rightarrow> dl_status \<Rightarrow> string \<Rightarrow> rat \<Rightarrow> int \<Rightarrow> meter \<Rightarrow> string res" where
  "end_message e now text status err_msg start dl s =
     (if status \<noteq> DL_OK
      then bind_r (status_str status) (\<lambda>name.
        let msg = (if status = DL_DRPM \<and> mt_total_drpm s > 1
                   then ''['' @ name @ '' '' @ nat_str (mt_done_drpm s) @ ''/'' @ nat_str (mt_total_drpm s) @ ''] '' @ text @ '': ''
                   else ''['' @ name @ ''] '' @ text @ '': '')
        in Inr (msg @ pad_left_aligned (int (me_width e) - int (length msg) - 1) err_msg @ nl))
      else
        let text = (if mt_total_files s > 1 then ''('' @ nat_str (mt_done_files s) @ ''/'' @ nat_str (mt_total_files s) @ ''): '' @ text else text);
            tm = max (now - start) (1 / 1000);
            msg = '' '' @ pad_right_aligned 5 (format_number (Some (FloatNum (of_int dl / tm))) False []) @ ''B/s | '' @
              pad_right_aligned 5 (format_number (Some (IntNum dl)) False []) @ ''B '' @
              pad_right_aligned 9 (format_time (Some (Secs tm)) False) @ ''    '' @ nl
        in Inr (pad_cut (int (me_width e) - int (length msg)) text @ msg))"

definition meter_end :: "meter_env \<Rightarrow> rat \<Rightarrow> string \<Rightarrow> int \<Rightarrow> dl_status \<Rightarrow> string \<Rightarrow> (meter, unit) prog" where
  "meter_end e now text sz status err_msg =
     bind_p (meter_count_end now text sz status) (\<lambda>(start, dl).
     bind_p (gets_p (end_message e now text status err_msg start dl)) (\<lambda>msg.
     bind_p (lift_p msg) (\<lambda>msg.
     then_p (meter_message msg)
     (bind_p (gets_p mt_active) (\<lambda>active. if active \<noteq> [] then meter_update e now else return_p ())))))"

end
