(* ===== verification/Downloads.thy ===== *)
theory Downloads
  imports Progress Util
begin

text \<open>
  Downloading packages: where a package is (dnf/package.py, lines 276 to 342), payloads, and the rebuilding
  of packages from deltas (dnf/drpm.py).

  librepo, \<open>applydeltarpm\<close> and the kernel are the environment.  What they answer may depend on all that
  happened before, of which the state keeps the log; files can be removed.
\<close>

subsection \<open>Packages and payloads\<close>

record delta =
  de_location :: string
  de_size :: nat

text \<open>\<open>DeltaPayload\<close> or \<open>RPMPayload\<close>, by whether there is a delta.\<close>

record payload =
  pl_pkg :: pkg
  pl_delta :: "delta option"

datatype librepo_status = LR_SUCCESSFUL | LR_ALREADY_EXISTS | LR_ERROR

text \<open>What librepo calls while it downloads.\<close>

datatype librepo_cb =
    CbEnd payload librepo_status "string option"
  | CbProgress payload nat nat
  | CbMirror payload string

datatype dl_event =
    LockDownload bool
  | MeterStart nat nat "nat option"
  | MeterProgress payload nat
  | MeterEnd payload dl_status "string option"
  | DownloadCall "payload list" bool
  | Spawn payload nat
  | Unlink string
  | Expire string
  | TempFiles "string list"
  | CopyFile string string
  | Critical string
  | Info string
  | CallbackTotal nat

record drpm_state =
  dr_queue :: "payload list"
  dr_jobs :: "(nat, payload) dict"
  dr_err :: "(pkg, string list) dict"
  dr_log :: "dl_event list"

text \<open>What \<open>shutil.copy\<close> does with a file.\<close>

datatype copy_result = Copied | SameFile | CopyFails exn

text \<open>
  The environment.  Of a package: its location, base URL, the directory of its repository, whether the
  repository is local, its sizes and its checksum.  Of the system: which files exist, the pids and
  exit codes of children.  \<open>dx_transfer\<close> is one call of librepo: the callbacks it makes, the error it
  raises, and the error of each target.  \<open>dx_relay\<close> is the exception that reaches the caller of librepo
  when a callback raises one, \<open>dx_show\<close> the trace of an exception of the progress display, \<open>dx_lock\<close> the
  failure to take the lock of downloads.  \<open>dx_joined\<close> says that \<open>progress.start\<close> takes three arguments.
\<close>

record dl_env =
  dx_location :: "pkg \<Rightarrow> string"
  dx_baseurl :: "pkg \<Rightarrow> string option"
  dx_local_baseurl :: "pkg \<Rightarrow> string"
  dx_repodir :: "pkg \<Rightarrow> string"
  dx_cachedir :: "pkg \<Rightarrow> string"
  dx_repo_local :: "pkg \<Rightarrow> bool"
  dx_repo_delta :: "pkg \<Rightarrow> bool"
  dx_size :: "pkg \<Rightarrow> nat"
  dx_download_size :: "pkg \<Rightarrow> nat"
  dx_checksum :: "drpm_state \<Rightarrow> pkg \<Rightarrow> string \<Rightarrow> string + bool"
  dx_str :: "pkg \<Rightarrow> string"
  dx_installed :: "pkg list"
  dx_delta :: "pkg \<Rightarrow> pkg \<Rightarrow> delta option"
  dx_applydelta :: bool
  dx_percentage :: nat
  dx_max_jobs :: int
  dx_exists :: "string \<Rightarrow> bool"
  dx_pid :: "drpm_state \<Rightarrow> nat"
  dx_poll :: "drpm_state \<Rightarrow> (nat \<times> int) option"
  dx_wait :: "drpm_state \<Rightarrow> nat \<times> int"
  dx_transfer :: "drpm_state \<Rightarrow> payload list \<Rightarrow> bool \<Rightarrow> librepo_cb list \<times> string option \<times> (payload \<Rightarrow> string option)"
  dx_relay :: "exn \<Rightarrow> exn"
  dx_show :: "drpm_state \<Rightarrow> payload \<Rightarrow> nat \<Rightarrow> string option"
  dx_lock :: "drpm_state \<Rightarrow> exn option"
  dx_copy :: "drpm_state \<Rightarrow> string \<Rightarrow> copy_result"
  dx_joined :: bool
  dx_retries :: nat
  dx_cacheonly :: bool
  dx_destdir :: string

definition dl_event :: "dl_event \<Rightarrow> (drpm_state, unit) prog" where
  "dl_event ev = modify_p (\<lambda>s. s\<lparr>dr_log := dr_log s @ [ev]\<rparr>)"

definition path_basename :: "string \<Rightarrow> string" where
  "path_basename p = rev (takeWhile (\<lambda>c. c \<noteq> CHR ''/'') (rev p))"

definition lstrip_slash :: "string \<Rightarrow> string" where
  "lstrip_slash s = dropWhile (\<lambda>c. c = CHR ''/'') s"

definition SYSTEM_REPO :: string where
  "SYSTEM_REPO = ''@System''"

definition CMDLINE_REPO :: string where
  "CMDLINE_REPO = ''@commandline''"

definition file_url :: "string option \<Rightarrow> bool" where
  "file_url u \<longleftrightarrow> (case u of None \<Rightarrow> False | Some s \<Rightarrow> startswith s ''file://'')"

definition no_baseurl :: "string option \<Rightarrow> bool" where
  "no_baseurl u \<longleftrightarrow> u = None \<or> u = Some []"

definition is_local_pkg :: "dl_env \<Rightarrow> pkg \<Rightarrow> bool" where
  "is_local_pkg e p =
     (if p_reponame p = SYSTEM_REPO then True
      else if is_sub ''://'' (dx_location e p) \<and> \<not> startswith (dx_location e p) ''file://'' then False
      else p_reponame p = CMDLINE_REPO \<or> dx_repo_local e p \<and> (no_baseurl (dx_baseurl e p) \<or> file_url (dx_baseurl e p)))"

definition pkg_dir :: "dl_env \<Rightarrow> pkg \<Rightarrow> string" where
  "pkg_dir e p = (if dx_repo_local e p \<and> \<not> is_local_pkg e p then dx_cachedir e p else dx_repodir e p)"

definition local_pkg :: "dl_env \<Rightarrow> pkg \<Rightarrow> string" where
  "local_pkg e p =
     (let loc = dx_location e p in
      if p_reponame p = CMDLINE_REPO then loc
      else if dx_repo_local e p \<and> file_url (dx_baseurl e p) then path_join2 (dx_local_baseurl e p) (lstrip_slash loc)
      else path_join2 (pkg_dir e p) (lstrip_slash (if is_local_pkg e p then loc else path_basename loc)))"

definition verify_local_pkg :: "dl_env \<Rightarrow> pkg \<Rightarrow> (drpm_state, bool) prog" where
  "verify_local_pkg e p =
     (if p_reponame p = SYSTEM_REPO then raise_p (ValueError ''Can not verify an installed package.'')
      else if p_reponame p = CMDLINE_REPO then return_p True
      else bind_p (gets_p (\<lambda>s. dx_checksum e s p (local_pkg e p))) (\<lambda>r.
        case r of Inl m \<Rightarrow> raise_p (DnfError m) | Inr b \<Rightarrow> return_p b))"

definition download_size :: "dl_env \<Rightarrow> payload \<Rightarrow> nat" where
  "download_size e pl = (case pl_delta pl of None \<Rightarrow> dx_download_size e (pl_pkg pl) | Some d \<Rightarrow> de_size d)"

definition full_size :: "dl_env \<Rightarrow> payload \<Rightarrow> nat" where
  "full_size e pl = dx_download_size e (pl_pkg pl)"

text \<open>\<open>DeltaPayload.localPkg\<close>.\<close>

definition delta_path :: "dl_env \<Rightarrow> payload \<Rightarrow> string" where
  "delta_path e pl = path_join2 (dx_repodir e (pl_pkg pl)) (path_basename (case pl_delta pl of None \<Rightarrow> [] | Some d \<Rightarrow> de_location d))"

subsection \<open>Deltas\<close>

text \<open>The smallest delta, if any is small enough.\<close>

fun best_delta :: "dl_env \<Rightarrow> pkg \<Rightarrow> pkg list \<Rightarrow> rat \<Rightarrow> delta option \<Rightarrow> delta option" where
  "best_delta e po [] best found = found"
| "best_delta e po (ipo # ipos) best found =
     (case dx_delta e po ipo of
        None \<Rightarrow> best_delta e po ipos best found
      | Some d \<Rightarrow>
          if of_nat (de_size d) < best then best_delta e po ipos (of_nat (de_size d)) (Some d)
          else best_delta e po ipos best found)"

definition delta_factory :: "dl_env \<Rightarrow> pkg \<Rightarrow> payload option" where
  "delta_factory e po =
     (if \<not> dx_applydelta e then None
      else if \<not> dx_repo_delta e po \<or> dx_percentage e = 0 then None
      else if is_local_pkg e po then None
      else if dx_exists e (local_pkg e po) then None
      else map_option (\<lambda>d. \<lparr>pl_pkg = po, pl_delta = Some d\<rparr>)
        (best_delta e po (filter (\<lambda>i. p_name i = p_name po \<and> p_arch i = p_arch po) (dx_installed e))
          (of_nat (dx_size e po * dx_percentage e) / 100) None))"

definition rpm_payload :: "pkg \<Rightarrow> payload" where
  "rpm_payload p = \<lparr>pl_pkg = p, pl_delta = None\<rparr>"

text \<open>\<open>_pkg2payload\<close> with the factories the program uses, the last of which always gives a payload.\<close>

definition pkg2payload :: "dl_env \<Rightarrow> bool \<Rightarrow> pkg \<Rightarrow> payload" where
  "pkg2payload e deltas p =
     (if deltas then (case delta_factory e p of Some pl \<Rightarrow> pl | None \<Rightarrow> rpm_payload p) else rpm_payload p)"

definition job_done :: "dl_env \<Rightarrow> nat \<Rightarrow> int \<Rightarrow> (drpm_state, unit) prog" where
  "job_done e pid code =
     bind_p (gets_p (\<lambda>s. map_of (dr_jobs s) pid)) (\<lambda>job. case job of
         None \<Rightarrow> raise_p (KeyError (nat_str pid))
       | Some pl \<Rightarrow>
           then_p (modify_p (\<lambda>s. s\<lparr>dr_jobs := dict_del pid (dr_jobs s)\<rparr>))
           (if code \<noteq> 0
            then then_p (dl_event (Unlink (local_pkg e (pl_pkg pl))))
              (modify_p (\<lambda>s. s\<lparr>dr_err := dict_set (pl_pkg pl) [''Delta RPM rebuild failed''] (dr_err s)\<rparr>))
            else bind_p (verify_local_pkg e (pl_pkg pl)) (\<lambda>good.
              if \<not> good
              then modify_p (\<lambda>s. s\<lparr>dr_err := dict_set (pl_pkg pl) [''Checksum of the delta-rebuilt RPM failed''] (dr_err s)\<rparr>)
              else then_p (dl_event (Unlink (delta_path e pl))) (dl_event (MeterEnd pl DL_DRPM (Some ''done''))))))"

definition start_job :: "dl_env \<Rightarrow> payload \<Rightarrow> (drpm_state, unit) prog" where
  "start_job e pl =
     bind_p (gets_p (dx_pid e)) (\<lambda>pid.
       then_p (dl_event (Spawn pl pid)) (modify_p (\<lambda>s. s\<lparr>dr_jobs := dict_set pid pl (dr_jobs s)\<rparr>)))"

text \<open>\<open>self.start_job(self.queue.pop(0))\<close>.\<close>

definition start_next :: "dl_env \<Rightarrow> (drpm_state, unit) prog" where
  "start_next e =
     bind_p (gets_p dr_queue) (\<lambda>q. case q of
         [] \<Rightarrow> raise_p IndexError
       | pl # rest \<Rightarrow> then_p (modify_p (\<lambda>s. s\<lparr>dr_queue := rest\<rparr>)) (start_job e pl))"

lemma job_done_jobs:
  "job_done e pid code s = (Inr (), s') \<Longrightarrow> dr_jobs s' = dict_del pid (dr_jobs s) \<and> dr_queue s' = dr_queue s \<and> map_of (dr_jobs s) pid \<noteq> None"
  by (auto simp: job_done_def dl_event_def verify_local_pkg_def bind_p_apply then_p_apply split: option.splits sum.splits if_splits)

lemma dict_del_shorter: "map_of d k \<noteq> None \<Longrightarrow> length (dict_del k d) < length d"
  unfolding dict_del_def by (induction d) (auto split: if_splits simp: le_imp_less_Suc length_delete_le)

lemma dict_set_length: "length (dict_set k v d) \<le> Suc (length d)"
  unfolding dict_set_def by (induction d) auto

lemma start_next_run:
  "dr_queue s = pl # rest \<Longrightarrow> \<exists>s'. start_next e s = (Inr (), s') \<and> dr_queue s' = rest \<and> dr_err s' = dr_err s \<and>
    dr_jobs s' = dict_set (dx_pid e (s\<lparr>dr_queue := rest\<rparr>)) pl (dr_jobs s)"
  by (simp add: start_next_def start_job_def dl_event_def bind_p_apply then_p_apply)

text \<open>The finished children are taken care of, until there is none.\<close>

function reap_loop :: "dl_env \<Rightarrow> drpm_state \<Rightarrow> unit res \<times> drpm_state" where
  "reap_loop e s =
     (if dr_jobs s = [] then (Inr (), s)
      else case dx_poll e s of
        None \<Rightarrow> (Inr (), s)
      | Some (pid, code) \<Rightarrow>
          (case job_done e pid code s of (Inl x, s') \<Rightarrow> (Inl x, s') | (Inr _, s') \<Rightarrow> reap_loop e s'))"
  by pat_completeness auto
termination
  by (relation "measure (\<lambda>(e, s). length (dr_jobs s))") (auto dest!: job_done_jobs [OF sym] simp: dict_del_shorter)

declare reap_loop.simps [simp del]

text \<open>New jobs are started while there may be more and something is queued.\<close>

fun start_loop :: "dl_env \<Rightarrow> nat \<Rightarrow> (drpm_state, unit) prog" where
  "start_loop e 0 = bind_p (gets_p (\<lambda>s. int (length (dr_jobs s)) < dx_max_jobs e)) (\<lambda>more. if more then start_next e else return_p ())"
| "start_loop e (Suc queued) =
     bind_p (gets_p (\<lambda>s. int (length (dr_jobs s)) < dx_max_jobs e)) (\<lambda>more.
       if \<not> more then return_p ()
       else then_p (start_next e) (bind_p (gets_p dr_queue) (\<lambda>q. if q = [] then return_p () else start_loop e queued)))"

definition enqueue :: "dl_env \<Rightarrow> payload \<Rightarrow> (drpm_state, unit) prog" where
  "enqueue e pl =
     then_p (reap_loop e)
     (then_p (modify_p (\<lambda>s. s\<lparr>dr_queue := dr_queue s @ [pl]\<rparr>))
       (bind_p (gets_p (\<lambda>s. length (dr_queue s))) (start_loop e)))"

definition wait_step :: "dl_env \<Rightarrow> (drpm_state, unit) prog" where
  "wait_step e =
     bind_p (gets_p (dx_wait e)) (\<lambda>(pid, code).
     then_p (job_done e pid code)
     (bind_p (gets_p dr_queue) (\<lambda>q. if q \<noteq> [] then start_next e else return_p ())))"

lemma wait_step_smaller:
  assumes "wait_step e s = (Inr (), s')"
  shows "length (dr_jobs s') + length (dr_queue s') < length (dr_jobs s) + length (dr_queue s)"
proof -
  obtain pid code where w: "dx_wait e s = (pid, code)" by (cases "dx_wait e s")
  from assms w obtain s1 where 1: "job_done e pid code s = (Inr (), s1)"
    by (auto simp: wait_step_def bind_p_apply then_p_apply split: prod.splits sum.splits)
  note j = job_done_jobs [OF 1]
  with dict_del_shorter [of "dr_jobs s" pid] have less: "length (dr_jobs s1) + length (dr_queue s1) < length (dr_jobs s) + length (dr_queue s)" by simp
  show ?thesis
  proof (cases "dr_queue s1")
    case Nil
    with assms w 1 less show ?thesis by (simp add: wait_step_def bind_p_apply then_p_apply)
  next
    case (Cons pl rest)
    from start_next_run [OF this, of e] obtain s2 where
      2: "start_next e s1 = (Inr (), s2)" "dr_queue s2 = rest" "dr_jobs s2 = dict_set (dx_pid e (s1\<lparr>dr_queue := rest\<rparr>)) pl (dr_jobs s1)" by blast
    with assms w 1 Cons have "s' = s2" by (simp add: wait_step_def bind_p_apply then_p_apply)
    with 2 Cons less dict_set_length [of "dx_pid e (s1\<lparr>dr_queue := rest\<rparr>)" pl "dr_jobs s1"] show ?thesis by simp
  qed
qed

function wait_jobs :: "dl_env \<Rightarrow> drpm_state \<Rightarrow> unit res \<times> drpm_state" where
  "wait_jobs e s =
     (if dr_jobs s = [] then (Inr (), s)
      else case wait_step e s of (Inl x, s') \<Rightarrow> (Inl x, s') | (Inr _, s') \<Rightarrow> wait_jobs e s')"
  by pat_completeness auto
termination
  by (relation "measure (\<lambda>(e, s). length (dr_jobs s) + length (dr_queue s))") (auto dest: wait_step_smaller [OF sym])

declare wait_jobs.simps [simp del]

end
