(* ===== verification/Download_Run.thy ===== *)
theory Download_Run
  imports Downloads Format
begin

text \<open>
  A batch of downloads: the calls of librepo and what its callbacks do, the errors of the batch
  (dnf/repo.py, lines 87 to 157), the rounds of \<open>Base._download_remote_payloads\<close>, and
  \<open>Base.download_packages\<close> around them (dnf/base.py, lines 1238 to 1341 and 2732 to 2775).

  The rounds are a loop without a bound when the option \<open>retries\<close> is 0, so they are a partial
  function.  The beginning of the download, handed to the callback with the size, is left out.
\<close>

subsection \<open>Callbacks\<close>

definition end_status :: "librepo_status \<Rightarrow> string option \<Rightarrow> dl_status option" where
  "end_status st msg =
     (case msg of
        None \<Rightarrow> Some DL_OK
      | Some m \<Rightarrow> if startswith m ''Not finished'' then None else if st = LR_ALREADY_EXISTS then Some DL_EXISTS else Some DL_FAILED)"

definition end_cb :: "dl_env \<Rightarrow> payload \<Rightarrow> librepo_status \<Rightarrow> string option \<Rightarrow> (drpm_state, unit) prog" where
  "end_cb e pl st msg =
     then_p (case end_status st msg of None \<Rightarrow> return_p () | Some d \<Rightarrow> dl_event (MeterEnd pl d msg))
       (if pl_delta pl \<noteq> None \<and> st \<noteq> LR_ERROR then enqueue e pl else return_p ())"

definition librepo_call :: "dl_env \<Rightarrow> librepo_cb \<Rightarrow> (drpm_state, unit) prog" where
  "librepo_call e cb =
     (case cb of
        CbEnd pl st msg \<Rightarrow> end_cb e pl st msg
      | CbProgress pl tot amount \<Rightarrow>
          bind_p (gets_p (\<lambda>s. dx_show e s pl amount)) (\<lambda>r. case r of
            None \<Rightarrow> dl_event (MeterProgress pl amount)
          | Some trace \<Rightarrow> dl_event (Critical trace))
      | CbMirror pl m \<Rightarrow> dl_event (MeterEnd pl DL_MIRROR (Some m)))"

subsection \<open>The errors of a batch\<close>

record dl_errors =
  er_pkg :: "(pkg, string list) dict"
  er_recoverable :: "(pkg, string list) dict"
  er_fatal :: "string option"
  er_skipped :: "pkg list"

text \<open>An error without a package has the empty key.\<close>

definition irrecoverable :: "dl_errors \<Rightarrow> (pkg option, string list) dict" where
  "irrecoverable er =
     (if er_pkg er \<noteq> [] then map (\<lambda>(p, ms). (Some p, ms)) (er_pkg er)
      else case er_fatal er of None \<Rightarrow> [] | Some m \<Rightarrow> if m = [] then [] else [(None, [m])])"

definition errmap2str :: "dl_env \<Rightarrow> (pkg option, string list) dict \<Rightarrow> string" where
  "errmap2str e errmap =
     join_str nl (concat (map (\<lambda>(key, errs). map (\<lambda>err. case key of Some p \<Rightarrow> dx_str e p @ '': '' @ err | None \<Rightarrow> err) errs) errmap))"

definition bandwidth_used :: "dl_env \<Rightarrow> dl_errors \<Rightarrow> payload \<Rightarrow> nat" where
  "bandwidth_used e er pl = (if pl_pkg pl \<in> set (er_skipped er) then 0 else download_size e pl)"

fun update_saving :: "dl_env \<Rightarrow> nat \<times> nat \<Rightarrow> payload list \<Rightarrow> (pkg, string list) dict \<Rightarrow> nat \<times> nat" where
  "update_saving e saving [] errs = saving"
| "update_saving e (used, full) (pl # pls) errs =
     update_saving e (if dict_in (pl_pkg pl) errs then (used + download_size e pl, full)
       else (used + download_size e pl, full + full_size e pl)) pls errs"

fun collect_errors :: "(payload \<Rightarrow> string option) \<Rightarrow> payload list \<Rightarrow> dl_errors \<Rightarrow> (drpm_state, dl_errors) prog" where
  "collect_errors target_err [] er = return_p er"
| "collect_errors target_err (pl # pls) er =
     (case target_err pl of
        None \<Rightarrow> collect_errors target_err pls er
      | Some m \<Rightarrow>
          if startswith m ''Not finished'' then collect_errors target_err pls er
          else if m = ''Already downloaded'' then collect_errors target_err pls (er\<lparr>er_skipped := pl_pkg pl # er_skipped er\<rparr>)
          else then_p (dl_event (Expire (p_reponame (pl_pkg pl))))
            (collect_errors target_err pls (er\<lparr>er_pkg := dict_set (pl_pkg pl) [m] (er_pkg er)\<rparr>)))"

definition runtime_message :: "exn \<Rightarrow> string option" where
  "runtime_message x = (case x of RuntimeError m \<Rightarrow> Some m | _ \<Rightarrow> None)"

text \<open>The call of librepo: the message of a \<open>RuntimeError\<close>, if it ends in one.\<close>

definition call_librepo :: "dl_env \<Rightarrow> librepo_cb list \<Rightarrow> string option \<Rightarrow> (drpm_state, string option) prog" where
  "call_librepo e cbs err =
     catch_p
       (then_p (catch_p (for_p (librepo_call e) cbs) (\<lambda>x. Some (raise_p (dx_relay e x))))
         (case err of None \<Rightarrow> return_p None | Some m \<Rightarrow> raise_p (RuntimeError m)))
       (\<lambda>x. map_option (\<lambda>m. return_p (Some m)) (runtime_message x))"

definition sorted_targets :: "payload list \<Rightarrow> payload list" where
  "sorted_targets payloads = filter (\<lambda>pl. pl_delta pl \<noteq> None) payloads @ filter (\<lambda>pl. pl_delta pl = None) payloads"

definition download_payloads :: "dl_env \<Rightarrow> payload list \<Rightarrow> bool \<Rightarrow> (drpm_state, dl_errors) prog" where
  "download_payloads e payloads fail_fast =
     then_p (modify_p (\<lambda>s. s\<lparr>dr_err := []\<rparr>))
     (bind_p (gets_p (\<lambda>s. dx_transfer e s (sorted_targets payloads) fail_fast)) (\<lambda>(cbs, err, target_err).
      then_p (dl_event (DownloadCall (sorted_targets payloads) fail_fast))
      (bind_p (call_librepo e cbs err) (\<lambda>fatal.
       then_p (wait_jobs e)
       (bind_p (gets_p dr_err) (\<lambda>recoverable.
         collect_errors target_err (sorted_targets payloads)
           \<lparr>er_pkg = [], er_recoverable = recoverable, er_fatal = fatal, er_skipped = []\<rparr>))))))"

subsection \<open>Rounds\<close>

type_synonym round = "dl_errors \<times> nat \<times> nat \<times> nat"

definition check_irrecoverable :: "dl_env \<Rightarrow> dl_errors \<Rightarrow> (drpm_state, unit) prog" where
  "check_irrecoverable e er =
     (if irrecoverable er \<noteq> [] then raise_p (DownloadError (errmap2str e (irrecoverable er))) else return_p ())"

definition meter_begin :: "dl_env \<Rightarrow> payload list \<Rightarrow> nat option \<Rightarrow> (drpm_state, unit) prog" where
  "meter_begin e payloads drpms = dl_event (MeterStart (length payloads) (\<Sum>pl\<leftarrow>payloads. download_size e pl) drpms)"

definition first_round :: "dl_env \<Rightarrow> payload list \<Rightarrow> bool \<Rightarrow> (drpm_state, round) prog" where
  "first_round e payloads fail_fast =
     then_p (meter_begin e payloads
       (if dx_joined e then Some (length (filter (\<lambda>pl. pl_delta pl \<noteq> None) payloads)) else None))
     (bind_p (download_payloads e payloads fail_fast) (\<lambda>er.
      then_p (check_irrecoverable e er)
        (return_p (er, (\<Sum>pl\<leftarrow>payloads. bandwidth_used e er pl), update_saving e (0, 0) payloads (er_recoverable er)))))"

text \<open>What was not rebuilt is downloaded in full.\<close>

definition retry_round :: "dl_env \<Rightarrow> bool \<Rightarrow> round \<Rightarrow> (drpm_state, round) prog" where
  "retry_round e fail_fast rd =
     (case rd of (er, remote, saving) \<Rightarrow>
        then_p (dl_event (Info ''Some packages were not downloaded. Retrying.''))
        (let payloads = map rpm_payload (dict_keys (er_recoverable er)) in
         then_p (meter_begin e payloads None)
         (bind_p (download_payloads e payloads fail_fast) (\<lambda>er.
          then_p (check_irrecoverable e er)
            (return_p (er, remote + (\<Sum>pl\<leftarrow>payloads. bandwidth_used e er pl), update_saving e saving payloads []))))))"

partial_function (option) retry_loop ::
  "dl_env \<Rightarrow> bool \<Rightarrow> bool \<Rightarrow> nat \<Rightarrow> round \<Rightarrow> drpm_state \<Rightarrow> (round res \<times> drpm_state) option" where
  "retry_loop e fail_fast forever retries rd s =
     (if er_recoverable (fst rd) \<noteq> [] \<and> (forever \<or> 0 < retries)
      then case retry_round e fail_fast rd s of
          (Inl x, s') \<Rightarrow> Some (Inl x, s')
        | (Inr rd', s') \<Rightarrow> retry_loop e fail_fast forever (retries - 1) rd' s'
      else Some (Inr rd, s))"

text \<open>The body of the lock.\<close>

definition all_rounds :: "dl_env \<Rightarrow> payload list \<Rightarrow> bool \<Rightarrow> drpm_state \<Rightarrow> (round res \<times> drpm_state) option" where
  "all_rounds e payloads fail_fast s =
     (case first_round e payloads fail_fast s of
        (Inl x, s1) \<Rightarrow> Some (Inl x, s1)
      | (Inr rd, s1) \<Rightarrow>
          (case retry_loop e fail_fast (dx_retries e = 0) (dx_retries e) rd s1 of
             None \<Rightarrow> None
           | Some (Inl x, s2) \<Rightarrow> Some (Inl x, s2)
           | Some (Inr rd', s2) \<Rightarrow>
               Some ((if er_recoverable (fst rd') = [] then return_p rd'
                  else then_p (dl_event (Info (errmap2str e (map (\<lambda>(p, ms). (Some p, ms)) (er_recoverable (fst rd')))))) (return_p rd')) s2)))"

text \<open>The message on what deltas saved or wasted: sizes in megabytes, and a share.\<close>

definition saving_message :: "nat \<Rightarrow> nat \<Rightarrow> string option res" where
  "saving_message used full =
     (let mb = (\<lambda>n. fixed1 (of_nat n / 1024 ^ 2)) in
      if used = full then Inr None
      else if used < full
      then Inr (Some (''Delta RPMs reduced '' @ mb full @ '' MB of updates to '' @ mb used @ '' MB ('' @
        fixed1 (100 - of_nat used / of_nat full * 100) @ ''% saved)''))
      else if full = 0 then Inl ZeroDivisionError
      else Inr (Some (''Failed Delta RPMs increased '' @ mb full @ '' MB of updates to '' @ mb used @ '' MB ('' @
        fixed1 (of_nat used / of_nat full * 100 - 100) @ ''% wasted)'')))"

definition report_round :: "bool \<Rightarrow> round \<Rightarrow> (drpm_state, unit) prog" where
  "report_round callback_total rd =
     (case rd of (er, remote, used, full) \<Rightarrow>
        then_p (if callback_total then dl_event (CallbackTotal remote) else return_p ())
        (bind_p (lift_p (saving_message used full)) (\<lambda>m. case m of None \<Rightarrow> return_p () | Some t \<Rightarrow> dl_event (Info t))))"

definition download_remote_payloads ::
  "dl_env \<Rightarrow> payload list \<Rightarrow> bool \<Rightarrow> bool \<Rightarrow> drpm_state \<Rightarrow> (unit res \<times> drpm_state) option" where
  "download_remote_payloads e payloads callback_total fail_fast s =
     (case dx_lock e s of
        Some x \<Rightarrow> Some (Inl x, s)
      | None \<Rightarrow>
          (case all_rounds e payloads fail_fast (snd (dl_event (LockDownload True) s)) of
             None \<Rightarrow> None
           | Some (r, s1) \<Rightarrow>
               let s2 = snd (dl_event (LockDownload False) s1) in
               (case r of Inl x \<Rightarrow> Some (Inl x, s2) | Inr rd \<Rightarrow> Some (report_round callback_total rd s2))))"

subsection \<open>Packages\<close>

text \<open>All packages are checked, whatever the first ones are; an exception of the check is logged.\<close>

fun verify_packages :: "dl_env \<Rightarrow> (pkg \<Rightarrow> string) \<Rightarrow> pkg list \<Rightarrow> bool \<Rightarrow> (drpm_state, bool) prog" where
  "verify_packages e message [] verified = return_p verified"
| "verify_packages e message (p # ps) verified =
     bind_p (catch_p (verify_local_pkg e p) (\<lambda>x. Some (then_p (dl_event (Critical (exn_text x))) (return_p False)))) (\<lambda>good.
       if good then verify_packages e message ps verified
       else then_p (dl_event (Critical (message p))) (verify_packages e message ps False))"

definition checksum_message :: "dl_env \<Rightarrow> string \<Rightarrow> pkg \<Rightarrow> string" where
  "checksum_message e source p =
     ''Package '' @ dq @ dx_str e p @ dq @ '' from '' @ source @ '' '' @ dq @ p_reponame p @ dq @ '' has incorrect checksum''"

definition local_repository_pkgs :: "dl_env \<Rightarrow> pkg list \<Rightarrow> pkg list" where
  "local_repository_pkgs e ps = filter (\<lambda>p. is_local_pkg e p \<and> p_reponame p \<noteq> CMDLINE_REPO) ps"

definition remote_pkgs :: "dl_env \<Rightarrow> pkg list \<Rightarrow> pkg list" where
  "remote_pkgs e ps = filter (\<lambda>p. \<not> is_local_pkg e p) ps"

definition select_remote_pkgs :: "dl_env \<Rightarrow> pkg list \<Rightarrow> (drpm_state, pkg list \<times> pkg list) prog" where
  "select_remote_pkgs e install_pkgs =
     (let local = local_repository_pkgs e install_pkgs; remote = remote_pkgs e install_pkgs in
      bind_p (verify_packages e (checksum_message e ''local repository'') local True) (\<lambda>verified.
        if \<not> verified then raise_p (DnfError ''Some packages from local repository have incorrect checksum'')
        else if \<not> dx_cacheonly e then return_p (remote, local)
        else bind_p (verify_packages e (checksum_message e ''repository'') remote True) (\<lambda>verified.
          if verified then return_p ([], local)
          else raise_p (DnfError (''Some packages have invalid cache, but cannot be downloaded due to '' @ dq @ ''--cacheonly'' @ dq @ '' option'')))))"

text \<open>A copy of a file onto itself is nothing to do.\<close>

definition copy_file :: "dl_env \<Rightarrow> string \<Rightarrow> (drpm_state, unit) prog" where
  "copy_file e path =
     bind_p (gets_p (\<lambda>s. dx_copy e s path)) (\<lambda>c. case c of
         Copied \<Rightarrow> dl_event (CopyFile path (dx_destdir e))
       | SameFile \<Rightarrow> return_p ()
       | CopyFails x \<Rightarrow> raise_p x)"

definition local_location :: "dl_env \<Rightarrow> pkg \<Rightarrow> string" where
  "local_location e p =
     path_join2 (if no_baseurl (dx_baseurl e p) then dx_repodir e p else dx_local_baseurl e p) (lstrip_slash (dx_location e p))"

definition download_packages :: "dl_env \<Rightarrow> pkg list \<Rightarrow> bool \<Rightarrow> drpm_state \<Rightarrow> (unit res \<times> drpm_state) option" where
  "download_packages e pkglist callback_total s =
     (case select_remote_pkgs e pkglist s of
        (Inl x, s1) \<Rightarrow> Some (Inl x, s1)
      | (Inr (remote, local), s1) \<Rightarrow>
          let copy = (if dx_destdir e = [] then return_p ()
            else then_p (for_p (\<lambda>p. copy_file e (local_pkg e p)) remote) (for_p (\<lambda>p. copy_file e (local_location e p)) local)) in
          if remote = [] then Some (copy s1)
          else (case download_remote_payloads e (map (pkg2payload e True) remote) callback_total True
              (snd (dl_event (TempFiles (map (local_pkg e) remote)) s1)) of
            None \<Rightarrow> None
          | Some (Inl x, s2) \<Rightarrow> Some (Inl x, s2)
          | Some (Inr _, s2) \<Rightarrow> Some (copy s2)))"

end
