(* ===== verification/Download_Properties.thy ===== *)
theory Download_Properties
  imports Download_Run
begin

text \<open>
  What the downloads guarantee.  Every delta that was downloaded is rebuilt, in the order of the
  downloads and by no more processes at a time than configured; packages that could not be rebuilt
  are downloaded in full, in one more round; and the sizes reported are those of the packages.
\<close>

subsection \<open>The rebuilding of packages\<close>

text \<open>The deltas of which the rebuilding was started, and those of which the download has ended.\<close>

fun spawned :: "dl_event list \<Rightarrow> payload list" where
  "spawned [] = []"
| "spawned (Spawn pl pid # evs) = pl # spawned evs"
| "spawned (ev # evs) = spawned evs"

fun ended_deltas :: "librepo_cb list \<Rightarrow> payload list" where
  "ended_deltas [] = []"
| "ended_deltas (CbEnd pl st msg # cbs) = (if pl_delta pl \<noteq> None \<and> st \<noteq> LR_ERROR then pl # ended_deltas cbs else ended_deltas cbs)"
| "ended_deltas (cb # cbs) = ended_deltas cbs"

lemma spawned_append [simp]: "spawned (xs @ ys) = spawned xs @ spawned ys"
  by (induction xs rule: spawned.induct) auto

text \<open>All of \<open>ds\<close> has been started or waits, and the processes are within the limit.\<close>

definition rebuilding :: "dl_env \<Rightarrow> payload list \<Rightarrow> drpm_state \<Rightarrow> bool" where
  "rebuilding e ds s \<longleftrightarrow> spawned (dr_log s) @ dr_queue s = ds \<and> int (length (dr_jobs s)) \<le> max 0 (dx_max_jobs e)"

text \<open>What waits has a process to wait for.\<close>

definition busy :: "drpm_state \<Rightarrow> bool" where
  "busy s \<longleftrightarrow> dr_queue s \<noteq> [] \<longrightarrow> dr_jobs s \<noteq> []"

lemma dl_event_run [simp]: "dl_event ev s = (Inr (), s\<lparr>dr_log := dr_log s @ [ev]\<rparr>)"
  by (simp add: dl_event_def)

lemma dict_del_length: "length (dict_del k d) \<le> length d"
  unfolding dict_del_def by (rule length_delete_le)

lemma job_done_run:
  assumes "job_done e pid code s = (r, s')"
  shows "dr_queue s' = dr_queue s \<and> spawned (dr_log s') = spawned (dr_log s) \<and> length (dr_jobs s') \<le> length (dr_jobs s) \<and>
    (r = Inr () \<longrightarrow> length (dr_jobs s') < length (dr_jobs s))"
  using assms dict_del_length [of pid "dr_jobs s"] dict_del_shorter [of "dr_jobs s" pid]
  by (auto simp: job_done_def verify_local_pkg_def bind_p_apply then_p_apply split: option.splits sum.splits if_splits)

lemma reap_loop_run:
  assumes "reap_loop e s = (r, s')"
  shows "dr_queue s' = dr_queue s \<and> spawned (dr_log s') = spawned (dr_log s) \<and> length (dr_jobs s') \<le> length (dr_jobs s)"
  using assms
proof (induction "length (dr_jobs s)" arbitrary: s rule: less_induct)
  case less
  show ?case
  proof (cases "dr_jobs s = [] \<or> dx_poll e s = None")
    case True
    with less.prems show ?thesis by (subst (asm) reap_loop.simps) (auto split: if_splits)
  next
    case False
    then obtain pid code where p: "dr_jobs s \<noteq> []" "dx_poll e s = Some (pid, code)" by auto
    obtain r1 s1 where j: "job_done e pid code s = (r1, s1)" by (cases "job_done e pid code s")
    note run = job_done_run [OF j]
    show ?thesis
    proof (cases r1)
      case (Inl x)
      with less.prems p j have "s' = s1" by (subst (asm) reap_loop.simps) simp
      with run show ?thesis by simp
    next
      case (Inr u)
      with less.prems p j have rest: "reap_loop e s1 = (r, s')" by (subst (asm) reap_loop.simps) simp
      from Inr run have "length (dr_jobs s1) < length (dr_jobs s)" by simp
      from less.hyps [OF this rest] run show ?thesis by auto
    qed
  qed
qed

lemma start_next_rebuilding:
  assumes "rebuilding e ds s" and "dr_queue s \<noteq> []" and "int (length (dr_jobs s)) < dx_max_jobs e"
  obtains s' where "start_next e s = (Inr (), s')" "rebuilding e ds s'" "dr_queue s' = tl (dr_queue s)" "dr_jobs s' \<noteq> []"
proof -
  obtain pl rest where q: "dr_queue s = pl # rest" by (cases "dr_queue s") (use assms(2) in auto)
  let ?pid = "dx_pid e (s\<lparr>dr_queue := rest\<rparr>)"
  let ?s = "s\<lparr>dr_queue := rest, dr_log := dr_log s @ [Spawn pl ?pid], dr_jobs := dict_set ?pid pl (dr_jobs s)\<rparr>"
  have "start_next e s = (Inr (), ?s)" by (simp add: start_next_def start_job_def q bind_p_apply then_p_apply)
  moreover have "rebuilding e ds ?s"
    using assms q dict_set_length [of ?pid pl "dr_jobs s"] by (auto simp: rebuilding_def)
  ultimately show ?thesis using that q by auto
qed

lemma start_loop_run:
  assumes "rebuilding e ds s" and "dr_queue s \<noteq> []" and "length (dr_queue s) \<le> n"
  shows "\<exists>s'. start_loop e n s = (Inr (), s') \<and> rebuilding e ds s' \<and> (1 \<le> dx_max_jobs e \<longrightarrow> busy s')"
  using assms
proof (induction n arbitrary: s)
  case (Suc n)
  show ?case
  proof (cases "int (length (dr_jobs s)) < dx_max_jobs e")
    case True
    obtain s1 where s1: "start_next e s = (Inr (), s1)" "rebuilding e ds s1" "dr_queue s1 = tl (dr_queue s)" "dr_jobs s1 \<noteq> []"
      using start_next_rebuilding [OF Suc.prems(1,2) True] .
    show ?thesis
    proof (cases "dr_queue s1 = []")
      case True
      with \<open>int _ < _\<close> s1 show ?thesis by (simp add: bind_p_apply then_p_apply busy_def)
    next
      case False
      have "length (dr_queue s1) \<le> n" using s1(3) Suc.prems(3) by simp
      from Suc.IH [OF s1(2) False this] False \<open>int _ < _\<close> s1(1) show ?thesis by (simp add: bind_p_apply then_p_apply)
    qed
  next
    case False
    then have "1 \<le> dx_max_jobs e \<longrightarrow> busy s" by (auto simp: busy_def)
    with False Suc.prems(1) show ?thesis by (simp add: bind_p_apply)
  qed
qed simp

lemma enqueue_run:
  assumes "rebuilding e ds s" and "enqueue e pl s = (r, s')"
  shows "(r = Inr () \<longrightarrow> rebuilding e (ds @ [pl]) s' \<and> (1 \<le> dx_max_jobs e \<longrightarrow> busy s')) \<and> (r \<noteq> Inr () \<longrightarrow> rebuilding e ds s')"
proof -
  obtain r1 s1 where 1: "reap_loop e s = (r1, s1)" by (cases "reap_loop e s")
  from reap_loop_run [OF this] assms(1) have reb: "rebuilding e ds s1" by (auto simp: rebuilding_def)
  show ?thesis
  proof (cases r1)
    case (Inl x)
    with 1 reb assms(2) show ?thesis by (auto simp: enqueue_def then_p_apply)
  next
    case (Inr u)
    let ?s = "s1\<lparr>dr_queue := dr_queue s1 @ [pl]\<rparr>"
    have "rebuilding e (ds @ [pl]) ?s" using reb by (simp add: rebuilding_def)
    from start_loop_run [OF this, of "length (dr_queue ?s)"] obtain s2 where
      "start_loop e (length (dr_queue ?s)) ?s = (Inr (), s2)" "rebuilding e (ds @ [pl]) s2" "1 \<le> dx_max_jobs e \<longrightarrow> busy s2" by auto
    with Inr 1 assms(2) show ?thesis by (auto simp: enqueue_def then_p_apply bind_p_apply)
  qed
qed

lemma log_rebuilding [simp]:
  "spawned [ev] = [] \<Longrightarrow> rebuilding e ds (s\<lparr>dr_log := dr_log s @ [ev]\<rparr>) \<longleftrightarrow> rebuilding e ds s"
  "busy (s\<lparr>dr_log := l\<rparr>) \<longleftrightarrow> busy s"
  by (simp_all add: rebuilding_def busy_def)

lemma librepo_call_run:
  assumes "rebuilding e ds s" and "1 \<le> dx_max_jobs e" and "busy s" and "librepo_call e cb s = (r, s')"
  shows "(r = Inr () \<longrightarrow> rebuilding e (ds @ ended_deltas [cb]) s' \<and> busy s') \<and> (r \<noteq> Inr () \<longrightarrow> rebuilding e ds s')"
proof (cases cb)
  case (CbEnd pl st msg)
  define s1 where "s1 = (case end_status st msg of None \<Rightarrow> s | Some d \<Rightarrow> s\<lparr>dr_log := dr_log s @ [MeterEnd pl d msg]\<rparr>)"
  have 1: "(case end_status st msg of None \<Rightarrow> return_p () | Some d \<Rightarrow> dl_event (MeterEnd pl d msg)) s = (Inr (), s1)"
    by (simp add: s1_def split: option.split)
  have reb: "rebuilding e ds s1" "busy s1" using assms by (auto simp: s1_def split: option.split)
  show ?thesis
  proof (cases "pl_delta pl \<noteq> None \<and> st \<noteq> LR_ERROR")
    case True
    with assms(4) 1 have "enqueue e pl s1 = (r, s')" by (simp add: CbEnd librepo_call_def end_cb_def)
    from enqueue_run [OF reb(1) this] True assms(2) show ?thesis by (simp add: CbEnd)
  next
    case False
    with assms(4) 1 have "r = Inr ()" "s' = s1" by (auto simp: CbEnd librepo_call_def end_cb_def)
    with False reb show ?thesis by (auto simp: CbEnd)
  qed
next
  case (CbProgress pl tot amount)
  with assms show ?thesis by (auto simp: librepo_call_def bind_p_apply split: option.splits)
next
  case (CbMirror pl m)
  with assms show ?thesis by (auto simp: librepo_call_def)
qed

lemma ended_deltas_Cons: "ended_deltas (cb # cbs) = ended_deltas [cb] @ ended_deltas cbs"
  by (cases cb) auto

lemma librepo_calls_run:
  assumes "rebuilding e ds s" and "1 \<le> dx_max_jobs e" and "busy s" and "for_p (librepo_call e) cbs s = (r, s')"
  shows "\<exists>n. rebuilding e (ds @ take n (ended_deltas cbs)) s' \<and> (r = Inr () \<longrightarrow> busy s' \<and> length (ended_deltas cbs) \<le> n)"
  using assms
proof (induction cbs arbitrary: ds s)
  case (Cons cb cbs)
  obtain r1 s1 where 1: "librepo_call e cb s = (r1, s1)" by (cases "librepo_call e cb s")
  note run = librepo_call_run [OF Cons.prems(1-3) 1]
  show ?case
  proof (cases r1)
    case (Inl x)
    with 1 Cons.prems(4) run have "rebuilding e (ds @ take 0 (ended_deltas (cb # cbs))) s'" "r \<noteq> Inr ()" by (auto simp: then_p_apply)
    then show ?thesis by metis
  next
    case (Inr u)
    with run have reb: "rebuilding e (ds @ ended_deltas [cb]) s1" "busy s1" by auto
    from Inr 1 Cons.prems(4) have rest: "for_p (librepo_call e) cbs s1 = (r, s')" by (simp add: then_p_apply)
    from Cons.IH [OF reb(1) Cons.prems(2) reb(2) rest] obtain n where
      n: "rebuilding e ((ds @ ended_deltas [cb]) @ take n (ended_deltas cbs)) s'" "r = Inr () \<longrightarrow> busy s' \<and> length (ended_deltas cbs) \<le> n" by blast
    let ?n = "length (ended_deltas [cb]) + n"
    have "(ds @ ended_deltas [cb]) @ take n (ended_deltas cbs) = ds @ take ?n (ended_deltas (cb # cbs))"
      by (subst (3) ended_deltas_Cons) simp
    moreover have "length (ended_deltas (cb # cbs)) \<le> ?n" if "length (ended_deltas cbs) \<le> n"
      using that by (subst ended_deltas_Cons) simp
    ultimately show ?thesis using n by metis
  qed
qed (auto intro: exI [of _ 0])

lemma wait_jobs_run:
  assumes "rebuilding e ds s" and "wait_jobs e s = (r, s')"
  shows "rebuilding e ds s' \<and> (r = Inr () \<longrightarrow> dr_jobs s' = [] \<and> (busy s \<longrightarrow> dr_queue s' = []))"
  using assms
proof (induction "length (dr_jobs s) + length (dr_queue s)" arbitrary: s rule: less_induct)
  case less
  show ?case
  proof (cases "dr_jobs s = []")
    case True
    with less.prems show ?thesis by (subst (asm) wait_jobs.simps) (auto simp: busy_def)
  next
    case False
    obtain pid code where w: "dx_wait e s = (pid, code)" by (cases "dx_wait e s")
    obtain r1 s1 where j: "job_done e pid code s = (r1, s1)" by (cases "job_done e pid code s")
    note run = job_done_run [OF j]
    have reb: "rebuilding e ds s1" using less.prems(1) run by (auto simp: rebuilding_def)
    obtain r2 s2 where st: "wait_step e s = (r2, s2)" by (cases "wait_step e s")
    have step: "rebuilding e ds s2 \<and> (r2 = Inr () \<longrightarrow> busy s2)"
    proof (cases r1)
      case (Inl x)
      with st w j reb show ?thesis by (auto simp: wait_step_def bind_p_apply then_p_apply)
    next
      case (Inr u)
      show ?thesis
      proof (cases "dr_queue s1 = []")
        case True
        with st w j reb Inr show ?thesis by (auto simp: wait_step_def bind_p_apply then_p_apply busy_def)
      next
        case False
        have "int (length (dr_jobs s1)) < dx_max_jobs e" using run Inr less.prems(1) by (auto simp: rebuilding_def)
        then obtain s3 where "start_next e s1 = (Inr (), s3)" "rebuilding e ds s3" "dr_jobs s3 \<noteq> []"
          using start_next_rebuilding [OF reb False] by metis
        with st w j Inr False show ?thesis by (auto simp: wait_step_def bind_p_apply then_p_apply busy_def)
      qed
    qed
    show ?thesis
    proof (cases r2)
      case (Inl x)
      with less.prems(2) \<open>dr_jobs s \<noteq> []\<close> st step show ?thesis by (subst (asm) wait_jobs.simps) auto
    next
      case (Inr u)
      with st have "wait_step e s = (Inr (), s2)" by simp
      note smaller = wait_step_smaller [OF this]
      from less.prems(2) \<open>dr_jobs s \<noteq> []\<close> st Inr have "wait_jobs e s2 = (r, s')" by (subst (asm) wait_jobs.simps) simp
      from less.hyps [OF smaller _ this] step Inr show ?thesis by auto
    qed
  qed
qed

text \<open>
  C20. Every delta that is downloaded is rebuilt.  From an idle state, whatever librepo calls back and
  however the processes end, the rebuilding of the downloaded deltas is started in the order of the
  downloads, each once, with at most the configured number of processes; and when neither a
  callback nor the wait raises, all of them were started and none runs or waits at the end.
\<close>

theorem deltas_rebuilt:
  assumes "dr_jobs s = []" and "dr_queue s = []" and "1 \<le> dx_max_jobs e"
    and "then_p (for_p (librepo_call e) cbs) (wait_jobs e) s = (r, s')"
  shows "int (length (dr_jobs s')) \<le> dx_max_jobs e \<and>
    (\<exists>n. spawned (dr_log s') @ dr_queue s' = spawned (dr_log s) @ take n (ended_deltas cbs)) \<and>
    (r = Inr () \<longrightarrow> dr_jobs s' = [] \<and> spawned (dr_log s') = spawned (dr_log s) @ ended_deltas cbs)"
proof -
  have start: "rebuilding e (spawned (dr_log s)) s" "busy s" using assms by (simp_all add: rebuilding_def busy_def)
  obtain r1 s1 where 1: "for_p (librepo_call e) cbs s = (r1, s1)" by (cases "for_p (librepo_call e) cbs s")
  from librepo_calls_run [OF start(1) assms(3) start(2) 1] obtain n where
    n: "rebuilding e (spawned (dr_log s) @ take n (ended_deltas cbs)) s1" "r1 = Inr () \<longrightarrow> busy s1 \<and> length (ended_deltas cbs) \<le> n" by blast
  show ?thesis
  proof (cases r1)
    case (Inl x)
    with 1 assms(3,4) n show ?thesis by (auto simp: then_p_apply rebuilding_def)
  next
    case (Inr u)
    with 1 assms(4) have "wait_jobs e s1 = (r, s')" by (simp add: then_p_apply)
    from wait_jobs_run [OF n(1) this] n(2) Inr assms(3) show ?thesis
      by (auto simp: rebuilding_def intro: exI [of _ "length (ended_deltas cbs)"])
  qed
qed

subsection \<open>Rounds\<close>

fun download_calls :: "dl_event list \<Rightarrow> payload list list" where
  "download_calls [] = []"
| "download_calls (DownloadCall pls ff # evs) = pls # download_calls evs"
| "download_calls (ev # evs) = download_calls evs"

lemma download_calls_append [simp]: "download_calls (xs @ ys) = download_calls xs @ download_calls ys"
  by (induction xs rule: download_calls.induct) auto

fun cb_payload :: "librepo_cb \<Rightarrow> payload" where
  "cb_payload (CbEnd pl st msg) = pl"
| "cb_payload (CbProgress pl tot amount) = pl"
| "cb_payload (CbMirror pl m) = pl"

text \<open>librepo calls back for the targets it was given.\<close>

definition librepo_ok :: "dl_env \<Rightarrow> bool" where
  "librepo_ok e \<longleftrightarrow> (\<forall>s pls ff. \<forall>cb \<in> set (fst (dx_transfer e s pls ff)). cb_payload cb \<in> set pls)"

text \<open>The packages that are being rebuilt or could not be, all of \<open>P\<close>, with \<open>C\<close> the calls of librepo so far.\<close>

definition confined :: "pkg set \<Rightarrow> payload list list \<Rightarrow> drpm_state \<Rightarrow> bool" where
  "confined P C s \<longleftrightarrow> (\<forall>pl \<in> set (dr_queue s) \<union> snd ` set (dr_jobs s). pl_pkg pl \<in> P) \<and>
    dict_wf (dr_err s) \<and> set (dict_keys (dr_err s)) \<subseteq> P \<and> download_calls (dr_log s) = C"

lemma dict_set_values: "snd ` set (dict_set k v d) \<subseteq> insert v (snd ` set d)"
  unfolding dict_set_def by (induction d) auto

lemma dict_del_values: "snd ` set (dict_del k d) \<subseteq> snd ` set d"
  unfolding dict_del_def by (induction d) auto

lemma pres_gets_bind: "(\<And>s. I s \<Longrightarrow> pres I (f (g s))) \<Longrightarrow> pres I (bind_p (gets_p g) f)"
  by (rule presI) (auto simp: bind_p_apply dest: presD)

lemma pres_event: "download_calls [ev] = [] \<Longrightarrow> pres (confined P C) (dl_event ev)"
  unfolding dl_event_def by (rule pres_modify) (simp add: confined_def)

lemma pres_verify: "pres (confined P C) (verify_local_pkg e p)"
  unfolding verify_local_pkg_def by (intro pres_intro)

lemma confined_err: "confined P C s \<Longrightarrow> p \<in> P \<Longrightarrow> confined P C (s\<lparr>dr_err := dict_set p m (dr_err s)\<rparr>)"
  by (auto simp: confined_def set_dict_keys split: if_splits)

lemma confined_jobs_del:
  assumes "confined P C s"
  shows "confined P C (s\<lparr>dr_jobs := dict_del k (dr_jobs s)\<rparr>)"
  using assms dict_del_values [of k "dr_jobs s"] by (simp add: confined_def) blast

lemma confined_jobs_set:
  assumes "confined P C s" and "pl_pkg pl \<in> P"
  shows "confined P C (s\<lparr>dr_jobs := dict_set k pl (dr_jobs s)\<rparr>)"
  using assms dict_set_values [of k pl "dr_jobs s"] by (simp add: confined_def) blast

lemmas confined_steps = confined_jobs_del confined_jobs_set confined_err

lemma pres_job_done: "pres (confined P C) (job_done e pid code)"
  unfolding job_done_def
proof (rule pres_gets_bind)
  fix s assume s: "confined P C s"
  show "pres (confined P C) (case map_of (dr_jobs s) pid of None \<Rightarrow> raise_p (KeyError (nat_str pid))
     | Some pl \<Rightarrow> then_p (modify_p (\<lambda>s. s\<lparr>dr_jobs := dict_del pid (dr_jobs s)\<rparr>))
           (if code \<noteq> 0
            then then_p (dl_event (Unlink (local_pkg e (pl_pkg pl))))
              (modify_p (\<lambda>s. s\<lparr>dr_err := dict_set (pl_pkg pl) [''Delta RPM rebuild failed''] (dr_err s)\<rparr>))
            else bind_p (verify_local_pkg e (pl_pkg pl)) (\<lambda>good.
              if \<not> good
              then modify_p (\<lambda>s. s\<lparr>dr_err := dict_set (pl_pkg pl) [''Checksum of the delta-rebuilt RPM failed''] (dr_err s)\<rparr>)
              else then_p (dl_event (Unlink (delta_path e pl))) (dl_event (MeterEnd pl DL_DRPM (Some ''done''))))))"
  proof (intro pres_intro pres_event pres_verify confined_steps)
    fix pl
    assume "map_of (dr_jobs s) pid = Some pl"
    then have "pl \<in> snd ` set (dr_jobs s)" by (force dest: map_of_SomeD)
    with s show "pl_pkg pl \<in> P" "pl_pkg pl \<in> P" by (auto simp: confined_def)
  qed simp_all
qed

lemma pres_start_next: "pres (confined P C) (start_next e)"
  unfolding start_next_def
proof (rule pres_gets_bind)
  fix s assume s: "confined P C s"
  show "pres (confined P C) (case dr_queue s of [] \<Rightarrow> raise_p IndexError
     | pl # rest \<Rightarrow> then_p (modify_p (\<lambda>s. s\<lparr>dr_queue := rest\<rparr>)) (start_job e pl))"
  proof (cases "dr_queue s")
    case Nil
    then show ?thesis by (simp add: pres_basic)
  next
    case (Cons pl rest)
    with s have P: "pl_pkg pl \<in> P" "\<forall>pl \<in> set rest. pl_pkg pl \<in> P" by (auto simp: confined_def)
    show ?thesis unfolding Cons list.case start_job_def
      by (intro pres_intro pres_event confined_steps P(1)) (use P(2) in \<open>auto simp: confined_def\<close>)
  qed
qed

lemma pres_reap_loop: "pres (confined P C) (reap_loop e)"
proof (rule presI)
  fix s r s'
  assume "confined P C s" and "reap_loop e s = (r, s')"
  then show "confined P C s'"
  proof (induction "length (dr_jobs s)" arbitrary: s rule: less_induct)
    case less
    show ?case
    proof (cases "dr_jobs s = [] \<or> dx_poll e s = None")
      case True
      with less.prems show ?thesis by (subst (asm) reap_loop.simps) (auto split: if_splits)
    next
      case False
      then obtain pid code where p: "dr_jobs s \<noteq> []" "dx_poll e s = Some (pid, code)" by auto
      obtain r1 s1 where j: "job_done e pid code s = (r1, s1)" by (cases "job_done e pid code s")
      note s1 = presD [OF pres_job_done less.prems(1) j]
      show ?thesis
      proof (cases r1)
        case (Inl x)
        with less.prems(2) p j s1 show ?thesis by (subst (asm) reap_loop.simps) simp
      next
        case (Inr u)
        with less.prems(2) p j have rest: "reap_loop e s1 = (r, s')" by (subst (asm) reap_loop.simps) simp
        from Inr job_done_run [OF j] have "length (dr_jobs s1) < length (dr_jobs s)" by simp
        from less.hyps [OF this s1 rest] show ?thesis .
      qed
    qed
  qed
qed

lemma pres_start_loop: "pres (confined P C) (start_loop e n)"
  by (induction n) (simp only: start_loop.simps, intro pres_intro pres_start_next, assumption?)+

lemma pres_enqueue: "pl_pkg pl \<in> P \<Longrightarrow> pres (confined P C) (enqueue e pl)"
  unfolding enqueue_def by (intro pres_intro pres_reap_loop pres_start_loop) (simp add: confined_def)

lemma pres_end_event: "pres (confined P C) (case d of None \<Rightarrow> return_p () | Some d \<Rightarrow> dl_event (MeterEnd pl d msg))"
  by (cases d) (simp_all add: pres_basic pres_event)

lemma pres_librepo_call:
  assumes "pl_delta (cb_payload cb) \<noteq> None \<Longrightarrow> pl_pkg (cb_payload cb) \<in> P"
  shows "pres (confined P C) (librepo_call e cb)"
proof (cases cb)
  case (CbEnd pl st msg)
  with assms show ?thesis
    by (simp only: librepo_call_def end_cb_def librepo_cb.case) (intro pres_intro pres_end_event pres_enqueue; simp)
next
  case (CbProgress pl tot amount)
  then show ?thesis by (simp only: librepo_call_def librepo_cb.case) (intro pres_intro pres_event; simp)
next
  case (CbMirror pl m)
  then show ?thesis by (simp only: librepo_call_def librepo_cb.case) (intro pres_event; simp)
qed

lemma pres_wait_step: "pres (confined P C) (wait_step e)"
  unfolding wait_step_def by (intro pres_intro pres_job_done pres_start_next)

lemma pres_wait_jobs: "pres (confined P C) (wait_jobs e)"
proof (rule presI)
  fix s r s'
  assume "confined P C s" and "wait_jobs e s = (r, s')"
  then show "confined P C s'"
  proof (induction "length (dr_jobs s) + length (dr_queue s)" arbitrary: s rule: less_induct)
    case less
    show ?case
    proof (cases "dr_jobs s = []")
      case True
      with less.prems show ?thesis by (subst (asm) wait_jobs.simps) simp
    next
      case False
      obtain r1 s1 where st: "wait_step e s = (r1, s1)" by (cases "wait_step e s")
      note s1 = presD [OF pres_wait_step less.prems(1) st]
      show ?thesis
      proof (cases r1)
        case (Inl x)
        with less.prems(2) False st s1 show ?thesis by (subst (asm) wait_jobs.simps) simp
      next
        case (Inr u)
        with st have "wait_step e s = (Inr (), s1)" by simp
        note smaller = wait_step_smaller [OF this]
        from less.prems(2) False st Inr have "wait_jobs e s1 = (r, s')" by (subst (asm) wait_jobs.simps) simp
        from less.hyps [OF smaller s1 this] show ?thesis .
      qed
    qed
  qed
qed

lemma wait_jobs_done: "wait_jobs e s = (Inr (), s') \<Longrightarrow> dr_jobs s' = []"
proof (induction "length (dr_jobs s) + length (dr_queue s)" arbitrary: s rule: less_induct)
  case less
  show ?case
  proof (cases "dr_jobs s = []")
    case True
    with less.prems show ?thesis by (subst (asm) wait_jobs.simps) simp
  next
    case False
    with less.prems obtain s1 where st: "wait_step e s = (Inr (), s1)" "wait_jobs e s1 = (Inr (), s')"
      by (subst (asm) wait_jobs.simps) (auto split: prod.splits sum.splits)
    from less.hyps [OF wait_step_smaller [OF st(1)] st(2)] show ?thesis .
  qed
qed

lemma pres_call_librepo:
  assumes "\<And>cb. cb \<in> set cbs \<Longrightarrow> pres I (librepo_call e cb)"
  shows "pres I (call_librepo e cbs err)"
  unfolding call_librepo_def
proof (intro pres_intro assms)
  fix x and n :: "(drpm_state, string option) prog"
  assume "map_option (\<lambda>m. return_p (Some m)) (runtime_message x) = Some n"
  then show "pres I n" by (auto simp: pres_basic)
next
  fix x and n :: "(drpm_state, unit) prog"
  assume "Some (raise_p (dx_relay e x)) = Some n"
  then show "pres I n" by (auto simp: pres_basic)
qed

lemma pres_collect_errors: "pres (confined P C) (collect_errors f pls er)"
proof (induction pls arbitrary: er)
  case (Cons pl pls)
  have "pres (confined P C) (dl_event (Expire (p_reponame (pl_pkg pl))))" by (rule pres_event) simp
  with Cons show ?case by (simp only: collect_errors.simps) (intro pres_intro; simp)
qed (simp add: pres_basic)

lemma collect_errors_run:
  "\<exists>s' er'. collect_errors f pls er s = (Inr er', s') \<and> er_recoverable er' = er_recoverable er \<and> dr_jobs s' = dr_jobs s"
proof (induction pls arbitrary: er s)
  case (Cons pl pls)
  show ?case
  proof (cases "\<exists>m. f pl = Some m \<and> \<not> startswith m ''Not finished'' \<and> m \<noteq> ''Already downloaded''")
    case True
    then obtain m where m: "f pl = Some m" "\<not> startswith m ''Not finished''" "m \<noteq> ''Already downloaded''" by blast
    from Cons [of "er\<lparr>er_pkg := dict_set (pl_pkg pl) [m] (er_pkg er)\<rparr>" "s\<lparr>dr_log := dr_log s @ [Expire (p_reponame (pl_pkg pl))]\<rparr>"]
    show ?thesis by (simp add: m)
  next
    case False
    then show ?thesis using Cons [of er s] Cons [of "er\<lparr>er_skipped := pl_pkg pl # er_skipped er\<rparr>" s]
      by (auto split: option.split)
  qed
qed simp

text \<open>One call of librepo, with what may be rebuilt, and how it leaves the state.\<close>

lemma download_payloads_run:
  assumes "librepo_ok e" and "confined P C s" and P: "\<forall>pl \<in> set payloads. pl_delta pl \<noteq> None \<longrightarrow> pl_pkg pl \<in> P"
    and run: "download_payloads e payloads ff s = (r, s')"
  shows "confined P (C @ [sorted_targets payloads]) s' \<and>
    (\<forall>er. r = Inr er \<longrightarrow> dict_wf (er_recoverable er) \<and> set (dict_keys (er_recoverable er)) \<subseteq> P \<and> dr_jobs s' = [])"
proof -
  let ?C = "C @ [sorted_targets payloads]" and ?s = "s\<lparr>dr_err := []\<rparr>"
  obtain cbs err f where t: "dx_transfer e ?s (sorted_targets payloads) ff = (cbs, err, f)" by (metis prod_cases3)
  define s1 where "s1 = ?s\<lparr>dr_log := dr_log s @ [DownloadCall (sorted_targets payloads) ff]\<rparr>"
  have s1: "confined P ?C s1" using assms(2) by (simp add: s1_def confined_def set_dict_keys)
  have cbs: "pl_pkg (cb_payload cb) \<in> P" if "cb \<in> set cbs" "pl_delta (cb_payload cb) \<noteq> None" for cb
  proof -
    from assms(1) t that(1) have "cb_payload cb \<in> set (sorted_targets payloads)" by (metis fst_conv librepo_ok_def)
    with that(2) P show ?thesis by (auto simp: sorted_targets_def)
  qed
  obtain r2 s2 where 2: "call_librepo e cbs err s1 = (r2, s2)" by (cases "call_librepo e cbs err s1")
  have s2: "confined P ?C s2" by (rule presD [OF pres_call_librepo [OF pres_librepo_call] s1 2]) (use cbs in blast)
  show ?thesis
  proof (cases r2)
    case (Inl x)
    with run t 2 s2 show ?thesis by (auto simp: download_payloads_def bind_p_apply then_p_apply s1_def)
  next
    case (Inr fatal)
    obtain r3 s3 where 3: "wait_jobs e s2 = (r3, s3)" by (cases "wait_jobs e s2")
    note s3 = presD [OF pres_wait_jobs s2 3]
    show ?thesis
    proof (cases r3)
      case (Inl x)
      with run t 2 3 \<open>r2 = Inr fatal\<close> s3 show ?thesis by (auto simp: download_payloads_def bind_p_apply then_p_apply s1_def)
    next
      case (Inr u)
      let ?er = "\<lparr>er_pkg = [], er_recoverable = dr_err s3, er_fatal = fatal, er_skipped = []\<rparr>"
      from collect_errors_run [of f "sorted_targets payloads" ?er s3] obtain s4 er where
        4: "collect_errors f (sorted_targets payloads) ?er s3 = (Inr er, s4)" "er_recoverable er = dr_err s3" "dr_jobs s4 = dr_jobs s3" by auto
      note s4 = presD [OF pres_collect_errors s3 4(1)]
      from run t 2 3 4 \<open>r2 = Inr fatal\<close> Inr have "r = Inr er" "s' = s4"
        by (auto simp: download_payloads_def bind_p_apply then_p_apply s1_def)
      with s3 s4 4 wait_jobs_done [of e s2 s3] 3 Inr show ?thesis by (auto simp: confined_def)
    qed
  qed
qed

text \<open>Nothing is rebuilt when no delta is downloaded, so nothing fails to be rebuilt.\<close>

lemma download_in_full:
  assumes "librepo_ok e" and "dr_jobs s = []" and "\<forall>pl \<in> set payloads. pl_delta pl = None"
    and run: "download_payloads e payloads ff s = (Inr er, s')"
  shows "er_recoverable er = []"
proof -
  let ?I = "\<lambda>s. dr_jobs s = [] \<and> dr_err s = []" and ?s = "s\<lparr>dr_err := []\<rparr>"
  obtain cbs err f where t: "dx_transfer e ?s (sorted_targets payloads) ff = (cbs, err, f)" by (metis prod_cases3)
  define s1 where "s1 = ?s\<lparr>dr_log := dr_log s @ [DownloadCall (sorted_targets payloads) ff]\<rparr>"
  have event: "pres ?I (dl_event ev)" for ev unfolding dl_event_def by (rule pres_modify) simp
  have "pres ?I (librepo_call e cb)" if "cb \<in> set cbs" for cb
  proof -
    from assms(1) t that have "cb_payload cb \<in> set (sorted_targets payloads)" by (metis fst_conv librepo_ok_def)
    with assms(3) have "pl_delta (cb_payload cb) = None" by (auto simp: sorted_targets_def)
    then show ?thesis
      by (cases cb) (auto simp: librepo_call_def end_cb_def simp del: return_p_def dl_event_run intro!: pres_intro event split: option.split)
  qed
  then have call: "pres ?I (call_librepo e cbs err)" by (rule pres_call_librepo)
  from run t obtain fatal s2 where 2: "call_librepo e cbs err s1 = (Inr fatal, s2)"
    and rest: "then_p (wait_jobs e) (bind_p (gets_p dr_err) (\<lambda>recoverable. collect_errors f (sorted_targets payloads)
      \<lparr>er_pkg = [], er_recoverable = recoverable, er_fatal = fatal, er_skipped = []\<rparr>)) s2 = (Inr er, s')"
    by (auto simp: download_payloads_def bind_p_apply s1_def then_p_apply [of "modify_p _"] then_p_apply [of "dl_event _"]
      split: prod.splits sum.splits)
  have "?I s2" by (rule presD [OF call _ 2]) (use assms(2) in \<open>simp add: s1_def\<close>)
  then have "wait_jobs e s2 = (Inr (), s2)" "dr_err s2 = []" by (simp_all add: wait_jobs.simps)
  with rest collect_errors_run [of f "sorted_targets payloads" "\<lparr>er_pkg = [], er_recoverable = [], er_fatal = fatal, er_skipped = []\<rparr>" s2]
  show ?thesis by (auto simp: then_p_apply bind_p_apply)
qed

lemma update_saving_sums:
  "update_saving e (used, full) pls errs = (used + (\<Sum>pl\<leftarrow>pls. download_size e pl),
     full + (\<Sum>pl\<leftarrow>filter (\<lambda>pl. \<not> dict_in (pl_pkg pl) errs) pls. full_size e pl))"
  by (induction pls arbitrary: used full) auto

lemma sum_split_failed:
  assumes "distinct ps" and "distinct fs" and "set fs \<subseteq> set ps"
  shows "(\<Sum>p\<leftarrow>filter (\<lambda>p. p \<notin> set fs) ps. g p) + (\<Sum>p\<leftarrow>fs. g p) = (\<Sum>p\<leftarrow>ps. g p :: nat)"
proof -
  have "(\<Sum>p\<leftarrow>filter (\<lambda>p. p \<notin> set fs) ps. g p) = sum g (set ps - set fs)"
    using assms(1) by (subst sum_list_distinct_conv_sum_set) (auto intro: sum.cong)
  then show ?thesis using assms sum.subset_diff [OF assms(3), of g] by (simp add: sum_list_distinct_conv_sum_set)
qed

lemma meter_confined: "pres (confined P C) (meter_begin e payloads n)"
  unfolding meter_begin_def by (rule pres_event) simp

lemma check_confined: "pres (confined P C) (check_irrecoverable e er)"
  unfolding check_irrecoverable_def by (intro pres_intro)

lemma meter_begin_run: "meter_begin e payloads n s = (Inr (), s\<lparr>dr_log := dr_log s @
    [MeterStart (length payloads) (\<Sum>pl\<leftarrow>payloads. download_size e pl) n]\<rparr>)"
  by (simp add: meter_begin_def)

lemma confined_event: "download_calls [ev] = [] \<Longrightarrow> confined P C (s\<lparr>dr_log := dr_log s @ [ev]\<rparr>) \<longleftrightarrow> confined P C s"
  by (simp add: confined_def)

text \<open>A round after its announcement: a call of librepo, the check of its errors, and the result.\<close>

lemma round_cases:
  assumes "bind_p (download_payloads e payloads ff) (\<lambda>er. then_p (check_irrecoverable e er) (return_p (g er))) s = (r, s')"
  obtains x where "r = Inl x" "download_payloads e payloads ff s = (Inl x, s')"
  | x er where "r = Inl x" "download_payloads e payloads ff s = (Inr er, s')"
  | er where "r = Inr (g er)" "download_payloads e payloads ff s = (Inr er, s')"
  using assms by (auto simp: bind_p_apply then_p_apply check_irrecoverable_def split: prod.splits sum.splits if_splits)

lemma first_round_run:
  assumes "librepo_ok e" and "confined P C s" and "\<forall>pl \<in> set payloads. pl_delta pl \<noteq> None \<longrightarrow> pl_pkg pl \<in> P"
    and "first_round e payloads ff s = (r, s')"
  shows "confined P (C @ [sorted_targets payloads]) s' \<and>
    (\<forall>er remote saving. r = Inr (er, remote, saving) \<longrightarrow> dict_wf (er_recoverable er) \<and> set (dict_keys (er_recoverable er)) \<subseteq> P \<and>
      dr_jobs s' = [] \<and> saving = update_saving e (0, 0) payloads (er_recoverable er))"
proof -
  define n where "n = (if dx_joined e then Some (length (filter (\<lambda>pl. pl_delta pl \<noteq> None) payloads)) else None)"
  define s1 where "s1 = snd (meter_begin e payloads n s)"
  have s1: "confined P C s1" using assms(2) by (simp add: s1_def meter_begin_run confined_event)
  from assms(4) have "bind_p (download_payloads e payloads ff) (\<lambda>er. then_p (check_irrecoverable e er)
      (return_p (er, (\<Sum>pl\<leftarrow>payloads. bandwidth_used e er pl), update_saving e (0, 0) payloads (er_recoverable er)))) s1 = (r, s')"
    by (simp add: first_round_def s1_def n_def meter_begin_run)
  then show ?thesis
    by (rule round_cases) (use download_payloads_run [OF assms(1) s1 assms(3)] in auto)
qed

lemma retry_round_run:
  assumes "librepo_ok e" and "confined P C s" and "dr_jobs s = []" and "retry_round e ff (er, remote, saving) s = (r, s')"
  shows "confined P (C @ [map rpm_payload (dict_keys (er_recoverable er))]) s' \<and>
    (\<forall>er' remote' saving'. r = Inr (er', remote', saving') \<longrightarrow> er_recoverable er' = [] \<and>
      saving' = update_saving e saving (map rpm_payload (dict_keys (er_recoverable er))) [])"
proof -
  let ?pls = "map rpm_payload (dict_keys (er_recoverable er))"
  define s1 where "s1 = snd (meter_begin e ?pls None (snd (dl_event (Info ''Some packages were not downloaded. Retrying.'') s)))"
  have s1: "confined P C s1" "dr_jobs s1 = []" using assms(2,3) by (simp_all add: s1_def meter_begin_run confined_def)
  have full: "\<forall>pl \<in> set ?pls. pl_delta pl = None" "sorted_targets ?pls = ?pls"
    by (simp_all add: rpm_payload_def sorted_targets_def filter_empty_conv filter_id_conv)
  from assms(4) have "bind_p (download_payloads e ?pls ff) (\<lambda>er. then_p (check_irrecoverable e er)
      (return_p (er, remote + (\<Sum>pl\<leftarrow>?pls. bandwidth_used e er pl), update_saving e saving ?pls []))) s1 = (r, s')"
    by (simp add: retry_round_def s1_def meter_begin_run Let_def)
  then show ?thesis
    by (rule round_cases)
      (use download_payloads_run [OF assms(1) s1(1), of ?pls] download_in_full [OF assms(1) s1(2) full(1)] full in auto)
qed

text \<open>The rounds: at most one of them is a retry, of just the packages that were not rebuilt.\<close>

lemma all_rounds_run:
  assumes "librepo_ok e" and idle: "dr_jobs s = []" "dr_queue s = []"
  shows "\<exists>r s' failed. all_rounds e payloads ff s = Some (r, s') \<and>
    distinct failed \<and> set failed \<subseteq> pl_pkg ` {pl \<in> set payloads. pl_delta pl \<noteq> None} \<and>
    download_calls (dr_log s') = download_calls (dr_log s) @ sorted_targets payloads # (if failed = [] then [] else [map rpm_payload failed]) \<and>
    (\<forall>er remote used full. r = Inr (er, remote, used, full) \<longrightarrow> er_recoverable er = [] \<and>
      used = (\<Sum>pl\<leftarrow>payloads. download_size e pl) + (\<Sum>p\<leftarrow>failed. dx_download_size e p) \<and>
      (distinct (map pl_pkg payloads) \<longrightarrow> full = (\<Sum>pl\<leftarrow>payloads. dx_download_size e (pl_pkg pl))))"
proof -
  let ?P = "pl_pkg ` {pl \<in> set payloads. pl_delta pl \<noteq> None}" and ?C = "download_calls (dr_log s)"
  let ?s = "s\<lparr>dr_err := []\<rparr>"
  have same: "first_round e payloads ff s = first_round e payloads ff ?s"
    by (simp add: first_round_def meter_begin_run download_payloads_def then_p_apply bind_p_apply)
  have s: "confined ?P ?C ?s" using idle by (simp add: confined_def set_dict_keys)
  have P: "\<forall>pl \<in> set payloads. pl_delta pl \<noteq> None \<longrightarrow> pl_pkg pl \<in> ?P" by blast
  obtain r1 s1 where 1: "first_round e payloads ff ?s = (r1, s1)" by (cases "first_round e payloads ff ?s")
  note run1 = first_round_run [OF assms(1) s P 1]
  have full_size: "full_size e = (\<lambda>pl. dx_download_size e (pl_pkg pl))" by (simp add: full_size_def fun_eq_iff)
  show ?thesis
  proof (cases r1)
    case (Inl x)
    with 1 run1 show ?thesis by (intro exI [of _ "Inl x"] exI [of _ s1] exI [of _ "[]"]) (auto simp: all_rounds_def same confined_def)
  next
    case (Inr rd)
    obtain er remote used full where rd: "rd = (er, remote, used, full)" by (cases rd)
    define failed where "failed = dict_keys (er_recoverable er)"
    from run1 Inr rd have f: "distinct failed" "set failed \<subseteq> ?P" "dr_jobs s1 = []" "confined ?P (?C @ [sorted_targets payloads]) s1"
      and sums: "(used, full) = update_saving e (0, 0) payloads (er_recoverable er)"
      by (auto simp: failed_def dict_wf_def dict_keys_def)
    have "set failed \<subseteq> set (map pl_pkg payloads)" using f(2) by auto
    from sum_split_failed [OF _ f(1) this, of "dx_download_size e"]
    have total: "distinct (map pl_pkg payloads) \<Longrightarrow> (\<Sum>pl\<leftarrow>filter (\<lambda>pl. pl_pkg pl \<notin> set failed) payloads. dx_download_size e (pl_pkg pl)) + (\<Sum>p\<leftarrow>failed. dx_download_size e p) =
        (\<Sum>pl\<leftarrow>payloads. dx_download_size e (pl_pkg pl))"
      by (simp add: filter_map o_def)
    have in_failed: "dict_in p (er_recoverable er) \<longleftrightarrow> p \<in> set failed" for p
      by (auto simp: failed_def dict_in_def set_dict_keys)
    have used: "used = (\<Sum>pl\<leftarrow>payloads. download_size e pl)"
      "full = (\<Sum>pl\<leftarrow>filter (\<lambda>pl. pl_pkg pl \<notin> set failed) payloads. dx_download_size e (pl_pkg pl))"
      using sums by (simp_all add: update_saving_sums in_failed full_size)
    have empty: "er_recoverable er = [] \<longleftrightarrow> failed = []" by (simp add: failed_def dict_keys_def)
    show ?thesis
    proof (cases "failed = []")
      case True
      with empty have "retry_loop e ff (dx_retries e = 0) (dx_retries e) rd s1 = Some (Inr rd, s1)" by (simp add: retry_loop.simps rd)
      with 1 Inr f rd used total True empty show ?thesis
        by (intro exI [of _ "Inr rd"] exI [of _ s1] exI [of _ "[]"]) (auto simp: all_rounds_def same confined_def)
    next
      case False
      obtain r2 s2 where 2: "retry_round e ff rd s1 = (r2, s2)" by (cases "retry_round e ff rd s1")
      note run2 = retry_round_run [OF assms(1) f(4) f(3) 2 [unfolded rd], folded failed_def]
      have go: "retry_loop e ff (dx_retries e = 0) (dx_retries e) rd s1 = (case r2 of Inl x \<Rightarrow> Some (Inl x, s2)
          | Inr rd' \<Rightarrow> retry_loop e ff (dx_retries e = 0) (dx_retries e - 1) rd' s2)"
        by (subst retry_loop.simps) (use False empty 2 rd in \<open>auto split: sum.split\<close>)
      show ?thesis
      proof (cases r2)
        case (Inl x)
        with 1 \<open>r1 = Inr rd\<close> go run2 f False show ?thesis
          by (intro exI [of _ "Inl x"] exI [of _ s2] exI [of _ failed]) (auto simp: all_rounds_def same confined_def)
      next
        case (Inr rd')
        obtain er' remote' saving' where rd': "rd' = (er', remote', saving')" by (cases rd')
        from run2 [THEN conjunct2, rule_format, of er' remote' saving'] Inr rd' have e': "er_recoverable er' = []" "saving' = update_saving e (used, full) (map rpm_payload failed) []" by simp_all
        then have "saving' = (used + (\<Sum>p\<leftarrow>failed. dx_download_size e p), full + (\<Sum>p\<leftarrow>failed. dx_download_size e p))"
          by (simp add: update_saving_sums dict_in_def filter_map o_def rpm_payload_def download_size_def full_size_def)
        moreover have "retry_loop e ff (dx_retries e = 0) (dx_retries e - 1) rd' s2 = Some (Inr rd', s2)"
          by (simp add: retry_loop.simps rd' e')
        ultimately show ?thesis using 1 \<open>r1 = Inr rd\<close> go run2 f False Inr rd' e' used total
          by (intro exI [of _ "Inr rd'"] exI [of _ s2] exI [of _ failed]) (auto simp: all_rounds_def same confined_def)
      qed
    qed
  qed
qed

text \<open>What is checked before, and copied after, leaves no trace on the rebuilding.\<close>

definition resting :: "payload list list \<Rightarrow> drpm_state \<Rightarrow> bool" where
  "resting C s \<longleftrightarrow> dr_jobs s = [] \<and> dr_queue s = [] \<and> download_calls (dr_log s) = C"

lemma resting_event: "download_calls [ev] = [] \<Longrightarrow> pres (resting C) (dl_event ev)"
  unfolding dl_event_def by (rule pres_modify) (simp add: resting_def)

lemma resting_verify: "pres (resting C) (verify_packages e message ps b)"
proof (induction ps arbitrary: b)
  case (Cons p ps)
  have "pres (resting C) (verify_local_pkg e p)" unfolding verify_local_pkg_def by (intro pres_intro)
  then show ?case unfolding verify_packages.simps
    by (intro pres_intro Cons.IH resting_event) (auto intro!: pres_then pres_basic resting_event)
qed (simp add: pres_basic)

lemma resting_select: "pres (resting C) (select_remote_pkgs e ps)"
  unfolding select_remote_pkgs_def Let_def by (intro pres_intro resting_verify)

lemma calls_event: "download_calls [ev] = [] \<Longrightarrow> pres (\<lambda>s. download_calls (dr_log s) = C) (dl_event ev)"
  unfolding dl_event_def by (rule pres_modify) simp

lemma calls_copy: "pres (\<lambda>s. download_calls (dr_log s) = C) (copy_file e path)"
  unfolding copy_file_def by (rule pres_bind, intro pres_intro) (auto split: copy_result.split intro!: pres_basic calls_event)

lemma calls_report: "pres (\<lambda>s. download_calls (dr_log s) = C) (report_round ct rd)"
  unfolding report_round_def by (cases rd) (auto intro!: pres_then pres_bind pres_basic pres_if pres_option calls_event)

lemma remote_payloads_end:
  assumes "librepo_ok e" and "dr_jobs s = []" and "dr_queue s = []"
  shows "\<exists>r s' k. download_remote_payloads e payloads ct ff s = Some (r, s') \<and> k \<le> 2 \<and>
    length (download_calls (dr_log s')) = length (download_calls (dr_log s)) + k"
proof (cases "dx_lock e s")
  case (Some x)
  then show ?thesis by (auto simp: download_remote_payloads_def intro: exI [of _ 0])
next
  case None
  let ?s = "s\<lparr>dr_log := dr_log s @ [LockDownload True]\<rparr>"
  obtain r1 s1 failed where 1: "all_rounds e payloads ff ?s = Some (r1, s1)"
    "download_calls (dr_log s1) = download_calls (dr_log s) @ sorted_targets payloads # (if failed = [] then [] else [map rpm_payload failed])"
    using all_rounds_run [OF assms(1), of ?s payloads ff] assms(2,3) by auto
  let ?s1 = "s1\<lparr>dr_log := dr_log s1 @ [LockDownload False]\<rparr>"
  show ?thesis
  proof (cases r1)
    case (Inl x)
    with None 1 show ?thesis
      by (intro exI [of _ "Inl x"] exI [of _ ?s1] exI [of _ "if failed = [] then 1 else 2"]) (simp add: download_remote_payloads_def)
  next
    case (Inr rd)
    obtain r2 s2 where 2: "report_round ct rd ?s1 = (r2, s2)" by (cases "report_round ct rd ?s1")
    from presD [OF calls_report _ 2] have "download_calls (dr_log s2) = download_calls (dr_log ?s1)" by blast
    with None 1 Inr 2 show ?thesis
      by (intro exI [of _ r2] exI [of _ s2] exI [of _ "if failed = [] then 1 else 2"]) (simp add: download_remote_payloads_def)
  qed
qed

text \<open>
  C19. Downloading ends.  Whatever librepo answers, with any number of retries and also when they
  are not limited, \<open>download_packages\<close> returns or raises after at most two calls of librepo, as
  long as librepo calls back for the targets it was given.
\<close>

theorem downloads_end:
  assumes "librepo_ok e" and "dr_jobs s = []" and "dr_queue s = []"
  shows "\<exists>r s' k. download_packages e ps ct s = Some (r, s') \<and> k \<le> 2 \<and>
    length (download_calls (dr_log s')) = length (download_calls (dr_log s)) + k"
proof -
  let ?C = "download_calls (dr_log s)"
  obtain r1 s1 where 1: "select_remote_pkgs e ps s = (r1, s1)" by (cases "select_remote_pkgs e ps s")
  have "resting ?C s" using assms(2,3) by (simp add: resting_def)
  from presD [OF resting_select this 1] have s1: "dr_jobs s1 = []" "dr_queue s1 = []" "download_calls (dr_log s1) = ?C" by (auto simp: resting_def)
  show ?thesis
  proof (cases r1)
    case (Inl x)
    with 1 s1 show ?thesis by (intro exI [of _ "Inl x"] exI [of _ s1] exI [of _ 0]) (simp add: download_packages_def)
  next
    case (Inr rl)
    obtain remote locals where rl: "rl = (remote, locals)" by (cases rl)
    define copy where "copy = (if dx_destdir e = [] then return_p ()
      else then_p (for_p (\<lambda>p. copy_file e (local_pkg e p)) remote) (for_p (\<lambda>p. copy_file e (local_location e p)) locals))"
    have keeps: "\<exists>r s'. copy u = (r, s') \<and> download_calls (dr_log s') = download_calls (dr_log u)" for u
    proof -
      have "pres (\<lambda>s. download_calls (dr_log s) = download_calls (dr_log u)) copy"
        unfolding copy_def by (intro pres_intro calls_copy)
      from presD [OF this] show ?thesis by (metis prod.collapse)
    qed
    show ?thesis
    proof (cases "remote = []")
      case True
      from keeps [of s1] obtain r s' where "copy s1 = (r, s')" "download_calls (dr_log s') = ?C" using s1(3) by auto
      with 1 Inr rl True show ?thesis
        by (intro exI [of _ r] exI [of _ s'] exI [of _ 0]) (auto simp: download_packages_def Let_def copy_def split: if_splits)
    next
      case False
      let ?s = "s1\<lparr>dr_log := dr_log s1 @ [TempFiles (map (local_pkg e) remote)]\<rparr>"
      obtain r2 s2 k where 2: "download_remote_payloads e (map (pkg2payload e True) remote) ct True ?s = Some (r2, s2)" "k \<le> 2"
        "length (download_calls (dr_log s2)) = length ?C + k"
        using remote_payloads_end [OF assms(1), of ?s "map (pkg2payload e True) remote" ct True] s1 by auto
      from keeps [of s2] obtain r3 s3 where 3: "copy s2 = (r3, s3)" "download_calls (dr_log s3) = download_calls (dr_log s2)" by blast
      show ?thesis
      proof (cases r2)
        case (Inl x)
        with 1 \<open>r1 = Inr rl\<close> rl False 2 show ?thesis
          by (intro exI [of _ "Inl x"] exI [of _ s2] exI [of _ k]) (simp add: download_packages_def)
      next
        case (Inr u)
        with 1 \<open>r1 = Inr rl\<close> rl False 2 3 show ?thesis
          by (intro exI [of _ r3] exI [of _ s3] exI [of _ k]) (simp add: download_packages_def copy_def [symmetric])
      qed
    qed
  qed
qed


subsection \<open>An example: a delta that cannot be rebuilt\<close>

definition sample_pkg :: pkg where
  "sample_pkg = \<lparr>p_name = ''a'', p_epoch = 0, p_version = ''1'', p_release = ''1'', p_arch = ''noarch'', p_reponame = ''r'',
     p_force_repoid = None, p_from_cmdline = False, p_module_hotfixes = False, p_modularitylabel = None, p_active_module = False, p_idx = 0\<rparr>"

definition sample_delta :: payload where
  "sample_delta = \<lparr>pl_pkg = sample_pkg, pl_delta = Some \<lparr>de_location = ''d/a.drpm'', de_size = 10\<rparr>\<rparr>"

definition sample_idle :: drpm_state where
  "sample_idle = \<lparr>dr_queue = [], dr_jobs = [], dr_err = [], dr_log = []\<rparr>"

definition sample_env :: dl_env where
  "sample_env = \<lparr>dx_location = \<lambda>_. ''p/a.rpm'', dx_baseurl = \<lambda>_. None, dx_local_baseurl = \<lambda>_. [], dx_repodir = \<lambda>_. ''/c'', dx_cachedir = \<lambda>_. ''/c'',
     dx_repo_local = \<lambda>_. False, dx_repo_delta = \<lambda>_. True, dx_size = \<lambda>_. 100, dx_download_size = \<lambda>_. 100, dx_checksum = \<lambda>_ _ _. Inr True,
     dx_str = p_name, dx_installed = [sample_pkg], dx_delta = \<lambda>_ _. None, dx_applydelta = True, dx_percentage = 75, dx_max_jobs = 2,
     dx_exists = \<lambda>_. False, dx_pid = \<lambda>_. 7, dx_poll = \<lambda>_. None, dx_wait = \<lambda>_. (7, 256),
     dx_transfer = \<lambda>_ pls _. (map (\<lambda>pl. CbEnd pl LR_SUCCESSFUL None) pls, None, \<lambda>_. None),
     dx_relay = \<lambda>x. x, dx_show = \<lambda>_ _ _. None, dx_lock = \<lambda>_. None, dx_copy = \<lambda>_ _. Copied, dx_joined = True, dx_retries = 10,
     dx_cacheonly = False, dx_destdir = []\<rparr>"

lemma sample_librepo: "librepo_ok sample_env"
  by (auto simp: librepo_ok_def sample_env_def)

lemma sample_is_idle: "dr_jobs sample_idle = []" "dr_queue sample_idle = []" "1 \<le> dx_max_jobs sample_env"
  by (simp_all add: sample_idle_def sample_env_def)

lemma deltas_rebuilt_witness:
  "\<exists>s'. then_p (for_p (librepo_call sample_env) [CbEnd sample_delta LR_SUCCESSFUL None]) (wait_jobs sample_env) sample_idle = (Inr (), s') \<and>
    dr_jobs s' = [] \<and> spawned (dr_log s') = [sample_delta]"
proof -
  let ?run = "then_p (for_p (librepo_call sample_env) [CbEnd sample_delta LR_SUCCESSFUL None]) (wait_jobs sample_env) sample_idle"
  have "fst ?run = Inr ()" by code_simp
  then have run: "?run = (Inr (), snd ?run)" by (metis prod.collapse)
  from deltas_rebuilt [OF sample_is_idle run] run show ?thesis by (auto simp: sample_idle_def sample_delta_def)
qed

lemma downloads_end_witness:
  "\<exists>r s' k. download_packages sample_env [sample_pkg] True sample_idle = Some (r, s') \<and> k \<le> 2 \<and>
    length (download_calls (dr_log s')) = length (download_calls (dr_log sample_idle)) + k"
  by (rule downloads_end [OF sample_librepo sample_is_idle(1,2)])

lemma run_returns: "(case m of (Inr a, t) \<Rightarrow> P a t | _ \<Rightarrow> False) \<Longrightarrow> \<exists>a t. m = (Inr a, t) \<and> P a t"
  by (cases m; cases "fst m") auto


end
