(* ===== verification/Rpm_Transaction.thy ===== *)
theory Rpm_Transaction
  imports Persistor
begin

text \<open>
  dnf/db/group.py, \<open>RPMTransaction\<close>: the items of the current transaction in the order in which they
  are added, the links from a replaced item to the one that replaces it, and the translation into
  calls of RPM.  The field \<open>p_modularitylabel\<close> is the header tag, \<^const>\<open>None\<close> where reading it raises
  \<open>ValueError\<close>.
\<close>

record rpm_trans =
  rt_items :: "tsi list"
  rt_replaced :: "(nat \<times> nat) list"

text \<open>
  The environment: the reason the database resolves for a name and an architecture, and the text of
  an item.
\<close>

record rpm_env =
  re_reason :: "string \<Rightarrow> string \<Rightarrow> int \<Rightarrow> reason"
  re_nevra :: "pkg \<Rightarrow> string"

definition get_repoid :: "pkg \<Rightarrow> string" where
  "get_repoid p =
     (case p_force_repoid p of None \<Rightarrow> p_reponame p | Some r \<Rightarrow> if r = [] then p_reponame p else r)"

definition get_reason :: "rpm_env \<Rightarrow> pkg \<Rightarrow> reason" where
  "get_reason e p = re_reason e (p_name p) (p_arch p) (-1)"

definition rpm_item :: "rpm_env \<Rightarrow> pkg \<Rightarrow> string \<Rightarrow> action \<Rightarrow> reason \<Rightarrow> tsi" where
  "rpm_item e p repoid act r =
     \<lparr>t_name = p_name p, t_epoch = p_epoch p, t_version = p_version p, t_release = p_release p, t_arch = p_arch p,
      t_str = re_nevra e p, t_action = act, t_reason = r, t_state = ST_UNKNOWN, t_repoid = repoid, t_pkg = Some p\<rparr>"

text \<open>\<open>new\<close>: the result is the position of the item.\<close>

definition rt_new :: "rpm_env \<Rightarrow> pkg \<Rightarrow> action \<Rightarrow> reason option \<Rightarrow> nat option \<Rightarrow> (rpm_trans, nat) prog" where
  "rt_new e p act r replaced_by =
     bind_p (gets_p (\<lambda>t. length (rt_items t))) (\<lambda>i.
     then_p (modify_p (\<lambda>t. t\<lparr>rt_items := rt_items t @
         [rpm_item e p (get_repoid p) act (case r of None \<Rightarrow> get_reason e p | Some r \<Rightarrow> r)]\<rparr>))
     (then_p (case replaced_by of None \<Rightarrow> return_p () | Some j \<Rightarrow> modify_p (\<lambda>t. t\<lparr>rt_replaced := rt_replaced t @ [(i, j)]\<rparr>))
       (return_p i)))"

definition add_one_obsoleted :: "rpm_env \<Rightarrow> nat option \<Rightarrow> pkg \<Rightarrow> (rpm_trans, unit) prog" where
  "add_one_obsoleted e replaced_by obs =
     bind_p (rt_new e obs OBSOLETED None None) (\<lambda>ti.
       case replaced_by of None \<Rightarrow> return_p () | Some j \<Rightarrow> modify_p (\<lambda>t. t\<lparr>rt_replaced := rt_replaced t @ [(ti, j)]\<rparr>))"

definition add_obsoleted :: "rpm_env \<Rightarrow> pkg list option \<Rightarrow> nat option \<Rightarrow> (rpm_trans, unit) prog" where
  "add_obsoleted e obsoleted replaced_by =
     for_p (add_one_obsoleted e replaced_by) (case obsoleted of None \<Rightarrow> [] | Some ps \<Rightarrow> ps)"

definition add_downgrade :: "rpm_env \<Rightarrow> pkg \<Rightarrow> pkg \<Rightarrow> pkg list option \<Rightarrow> (rpm_trans, unit) prog" where
  "add_downgrade e new old obsoleted =
     bind_p (rt_new e new DOWNGRADE None None) (\<lambda>ti_new.
     then_p (rt_new e old DOWNGRADED None (Some ti_new)) (add_obsoleted e obsoleted (Some ti_new)))"

text \<open>\<open>reason or USER\<close>: the member \<open>UNKNOWN\<close> of the enumeration is zero, and replaced as well.\<close>

definition add_remove :: "rpm_env \<Rightarrow> pkg \<Rightarrow> reason option \<Rightarrow> (rpm_trans, unit) prog" where
  "add_remove e old r =
     then_p (rt_new e old REMOVE (Some (case r of None \<Rightarrow> USER | Some UNKNOWN \<Rightarrow> USER | Some x \<Rightarrow> x)) None) (return_p ())"

definition add_erase :: "rpm_env \<Rightarrow> pkg \<Rightarrow> reason option \<Rightarrow> (rpm_trans, unit) prog" where
  "add_erase = add_remove"

definition add_install :: "rpm_env \<Rightarrow> pkg \<Rightarrow> pkg list option \<Rightarrow> reason option \<Rightarrow> (rpm_trans, unit) prog" where
  "add_install e new obsoleted r =
     bind_p (rt_new e new INSTALL (Some (case r of None \<Rightarrow> USER | Some x \<Rightarrow> x)) None) (\<lambda>ti_new.
       add_obsoleted e obsoleted (Some ti_new))"

definition add_reinstall :: "rpm_env \<Rightarrow> pkg \<Rightarrow> pkg \<Rightarrow> pkg list option \<Rightarrow> (rpm_trans, unit) prog" where
  "add_reinstall e new old obsoleted =
     bind_p (rt_new e new REINSTALL None None) (\<lambda>ti_new.
     then_p (rt_new e old REINSTALLED None (Some ti_new)) (add_obsoleted e obsoleted (Some ti_new)))"

definition add_upgrade :: "rpm_env \<Rightarrow> pkg \<Rightarrow> pkg \<Rightarrow> pkg list option \<Rightarrow> (rpm_trans, unit) prog" where
  "add_upgrade e new old obsoleted =
     bind_p (rt_new e new UPGRADE None None) (\<lambda>ti_new.
     then_p (rt_new e old UPGRADED None (Some ti_new)) (add_obsoleted e obsoleted (Some ti_new)))"

subsection \<open>The calls of RPM\<close>

datatype ts_call = AddInstall pkg string | AddReinstall pkg | AddErase nat

text \<open>
  What RPM does: the text of the \<open>rpm.error\<close> that reading the header of a package, or a call on the
  transaction set, raises.
\<close>

record rpm_lib =
  rl_header_error :: "pkg \<Rightarrow> string option"
  rl_call_error :: "ts_call \<Rightarrow> string option"

definition test_fail_safe :: "pkg \<Rightarrow> nat" where
  "test_fail_safe p =
     (if p_from_cmdline p then 0
      else if p_module_hotfixes p then 0
      else case p_modularitylabel p of
             None \<Rightarrow> 0
           | Some label \<Rightarrow> if label \<and> \<not> p_active_module p then 1 else 0)"

text \<open>The call an action leads to: none for a change of the reason.\<close>

definition rpm_error :: "string \<Rightarrow> exn" where
  "rpm_error e = DnfError (''An rpm exception occurred: '' @ e)"

type_synonym ts_state = "ts_call list \<times> nat"

definition ts_do :: "rpm_lib \<Rightarrow> ts_call \<Rightarrow> (ts_state, unit) prog" where
  "ts_do l c =
     (case rl_call_error l c of
        Some e \<Rightarrow> raise_p (rpm_error e)
      | None \<Rightarrow> modify_p (\<lambda>(cs, n). (cs @ [c], n)))"

text \<open>\<open>tsi.pkg._header\<close>, the fail-safe check, and the call that installs.\<close>

definition ts_forward :: "rpm_lib \<Rightarrow> tsi \<Rightarrow> (pkg \<Rightarrow> ts_call) \<Rightarrow> (ts_state, unit) prog" where
  "ts_forward l t call =
     bind_p (lift_p (tsi_pkg t)) (\<lambda>p.
       case rl_header_error l p of
         Some e \<Rightarrow> raise_p (rpm_error e)
       | None \<Rightarrow> then_p (modify_p (\<lambda>(cs, n). (cs, n + test_fail_safe p))) (ts_do l (call p)))"

definition ts_backward :: "rpm_lib \<Rightarrow> tsi \<Rightarrow> (ts_state, unit) prog" where
  "ts_backward l t = bind_p (lift_p (tsi_pkg t)) (\<lambda>p. ts_do l (AddErase (p_idx p)))"

definition populate_one :: "rpm_lib \<Rightarrow> tsi \<Rightarrow> (ts_state, unit) prog" where
  "populate_one l t =
     (case t_action t of
        DOWNGRADE \<Rightarrow> ts_forward l t (\<lambda>p. AddInstall p ''u'')
      | DOWNGRADED \<Rightarrow> ts_backward l t
      | INSTALL \<Rightarrow> ts_forward l t (\<lambda>p. AddInstall p ''i'')
      | OBSOLETE \<Rightarrow> ts_forward l t (\<lambda>p. AddInstall p ''u'')
      | OBSOLETED \<Rightarrow> ts_backward l t
      | REINSTALL \<Rightarrow> ts_forward l t AddReinstall
      | REINSTALLED \<Rightarrow> ts_backward l t
      | REMOVE \<Rightarrow> ts_backward l t
      | UPGRADE \<Rightarrow> ts_forward l t (\<lambda>p. AddInstall p ''u'')
      | UPGRADED \<Rightarrow> ts_backward l t
      | REASON_CHANGE \<Rightarrow> return_p ())"

definition populate_rpm_ts :: "rpm_lib \<Rightarrow> tsi list \<Rightarrow> (ts_state, unit) prog" where
  "populate_rpm_ts l items =
     then_p (for_p (populate_one l) items)
       (bind_p (gets_p snd) (\<lambda>modular_problems.
          if modular_problems \<noteq> 0 then raise_p (DnfError ''No available modular metadata for modular package'')
          else return_p ()))"

subsection \<open>The sets of packages\<close>

fun pkgs_with :: "action list \<Rightarrow> tsi list \<Rightarrow> pkg list res" where
  "pkgs_with acts [] = Inr []"
| "pkgs_with acts (t # ts) =
     (if t_action t \<in> set acts
      then (case tsi_pkg t of
              Inl _ \<Rightarrow> Inl (RuntimeError (''TransactionItem is has no RPM attached: '' @ t_str t))
            | Inr p \<Rightarrow> bind_r (pkgs_with acts ts) (\<lambda>ps. Inr (p # ps)))
      else pkgs_with acts ts)"

definition install_set :: "tsi list \<Rightarrow> pkg set res" where
  "install_set items = bind_r (pkgs_with FORWARD_ACTIONS items) (\<lambda>ps. Inr (set ps))"

definition remove_set :: "tsi list \<Rightarrow> pkg set res" where
  "remove_set items = bind_r (pkgs_with (BACKWARD_ACTIONS @ [REINSTALLED]) items) (\<lambda>ps. Inr (set ps))"

text \<open>\<open>_rpm_limitations\<close>: \<open>pick\<close> is the source package that iterating the set shows first.\<close>

definition rpm_limitations :: "(pkg set \<Rightarrow> pkg) \<Rightarrow> (pkg \<Rightarrow> string) \<Rightarrow> tsi list \<Rightarrow> string option res" where
  "rpm_limitations pick txt items =
     bind_r (install_set items) (\<lambda>s.
       let src = {p \<in> s. p_arch p = ''src''}
       in Inr (if src \<noteq> {} then Some (''Will not install a source rpm package ('' @ txt (pick src) @ '').'') else None))"

definition get_items :: "action \<Rightarrow> tsi list \<Rightarrow> tsi list" where
  "get_items act items = filter (\<lambda>t. t_action t = act) items"

subsection \<open>Every replaced item has its replacement\<close>

text \<open>
  The invariant of the transaction: every item but a change of a reason has its package; an item that is upgraded, downgraded,
  reinstalled or obsoleted is linked to a forward item added before it, and only such items are linked.
\<close>

definition replaced_action :: "action \<Rightarrow> bool" where
  "replaced_action a \<longleftrightarrow> a \<in> {UPGRADED, DOWNGRADED, REINSTALLED, OBSOLETED}"

definition link_ok :: "tsi list \<Rightarrow> nat \<times> nat \<Rightarrow> bool" where
  "link_ok items = (\<lambda>(i, j). j < i \<and> i < length items \<and> replaced_action (t_action (items ! i)) \<and>
     t_action (items ! j) \<in> set FORWARD_ACTIONS)"

definition trans_inv :: "rpm_trans \<Rightarrow> bool" where
  "trans_inv t \<longleftrightarrow>
     (\<forall>i < length (rt_items t). (t_pkg (rt_items t ! i) = None \<longrightarrow> t_action (rt_items t ! i) = REASON_CHANGE) \<and>
        (replaced_action (t_action (rt_items t ! i)) \<longrightarrow> i \<in> fst ` set (rt_replaced t))) \<and>
     (\<forall>p \<in> set (rt_replaced t). link_ok (rt_items t) p)"

lemma link_ok_append: "link_ok items p \<Longrightarrow> link_ok (items @ xs) p"
  by (auto simp: link_ok_def nth_append split: prod.splits)

lemma rt_new_run:
  "rt_new e p act r rb t = (Inr (length (rt_items t)),
     t\<lparr>rt_items := rt_items t @ [rpm_item e p (get_repoid p) act (case r of None \<Rightarrow> get_reason e p | Some r \<Rightarrow> r)],
       rt_replaced := rt_replaced t @ (case rb of None \<Rightarrow> [] | Some j \<Rightarrow> [(length (rt_items t), j)])\<rparr>)"
  by (cases rb) (simp_all add: rt_new_def bind_p_apply then_p_apply)

lemma rpm_item_simps [simp]:
  "t_action (rpm_item e p repoid act r) = act" "t_pkg (rpm_item e p repoid act r) = Some p" "t_reason (rpm_item e p repoid act r) = r"
  by (simp_all add: rpm_item_def)

definition forward_at :: "nat \<Rightarrow> rpm_trans \<Rightarrow> bool" where
  "forward_at j t \<longleftrightarrow> trans_inv t \<and> j < length (rt_items t) \<and> t_action (rt_items t ! j) \<in> set FORWARD_ACTIONS"

lemma trans_inv_snoc:
  assumes "trans_inv t" and "t_pkg x = None \<Longrightarrow> t_action x = REASON_CHANGE" and "replaced_action (t_action x) \<Longrightarrow> links \<noteq> []"
    and "\<And>p. p \<in> set links \<Longrightarrow> \<exists>j. p = (length (rt_items t), j) \<and> forward_at j t \<and> replaced_action (t_action x)"
  shows "trans_inv (t\<lparr>rt_items := rt_items t @ [x], rt_replaced := rt_replaced t @ links\<rparr>)"
proof -
  have old: "i \<in> fst ` (set (rt_replaced t) \<union> set links)" if "i < length (rt_items t)" "replaced_action (t_action (rt_items t ! i))" for i
    using assms(1) that by (auto simp: trans_inv_def)
  have new: "length (rt_items t) \<in> fst ` (set (rt_replaced t) \<union> set links)" if "replaced_action (t_action x)"
  proof -
    from assms(3) [OF that] obtain p where "p \<in> set links" by (cases links) auto
    with assms(4) [OF this] show ?thesis by force
  qed
  have links: "link_ok (rt_items t @ [x]) p" if "p \<in> set (rt_replaced t) \<union> set links" for p
  proof (cases "p \<in> set links")
    case True
    from assms(4) [OF this] show ?thesis by (auto simp: link_ok_def forward_at_def nth_append)
  next
    case False
    with that assms(1) show ?thesis by (intro link_ok_append) (auto simp: trans_inv_def)
  qed
  show ?thesis
    using assms(1,2) old new links by (auto simp: trans_inv_def nth_append less_Suc_eq)
qed

lemma rt_new_forward:
  "act \<in> set FORWARD_ACTIONS \<Longrightarrow> triple trans_inv (rt_new e p act r None) (\<lambda>i t. forward_at i t) trans_inv"
proof (rule tripleI)
  fix s a s' assume act: "act \<in> set FORWARD_ACTIONS" and s: "trans_inv s" and run: "rt_new e p act r None s = (Inr a, s')"
  have "\<not> replaced_action act" using act by (auto simp: FORWARD_ACTIONS_def replaced_action_def)
  then have "trans_inv (s\<lparr>rt_items := rt_items s @ [rpm_item e p (get_repoid p) act (case r of None \<Rightarrow> get_reason e p | Some r \<Rightarrow> r)],
      rt_replaced := rt_replaced s @ []\<rparr>)"
    by (intro trans_inv_snoc [OF s]) simp_all
  with run have "trans_inv s'" by (auto simp: rt_new_run)
  with run act show "forward_at a s'" by (auto simp: rt_new_run forward_at_def)
qed (simp add: rt_new_run)

lemma forward_at_mono: "forward_at j t \<Longrightarrow> trans_inv (t\<lparr>rt_items := rt_items t @ xs, rt_replaced := ls\<rparr>) \<Longrightarrow>
    forward_at j (t\<lparr>rt_items := rt_items t @ xs, rt_replaced := ls\<rparr>)"
  by (auto simp: forward_at_def nth_append)

lemma rt_new_replaced:
  "replaced_action act \<Longrightarrow> triple (forward_at j) (rt_new e p act r (Some j)) (\<lambda>_. forward_at j) trans_inv"
proof (rule tripleI)
  fix s a s' assume act: "replaced_action act" and s: "forward_at j s" and run: "rt_new e p act r (Some j) s = (Inr a, s')"
  from s have "trans_inv s" by (simp add: forward_at_def)
  from trans_inv_snoc [OF this, of "rpm_item e p (get_repoid p) act (case r of None \<Rightarrow> get_reason e p | Some r \<Rightarrow> r)" "[(length (rt_items s), j)]"]
  have "trans_inv s'" using act s run by (auto simp: rt_new_run)
  with s run show "forward_at j s'" by (auto simp: rt_new_run intro: forward_at_mono)
qed (simp add: rt_new_run)

lemma obsoleted_as_new: "add_one_obsoleted e (Some j) obs t = (case rt_new e obs OBSOLETED None (Some j) t of (_, t') \<Rightarrow> (Inr (), t'))"
  by (simp add: add_one_obsoleted_def bind_p_apply rt_new_run)

lemma add_obsoleted_triple: "triple (forward_at j) (add_obsoleted e obs (Some j)) (\<lambda>_. trans_inv) trans_inv"
proof -
  have one: "triple (forward_at j) (add_one_obsoleted e (Some j) p) (\<lambda>_. forward_at j) trans_inv" for p
    using rt_new_replaced [of OBSOLETED j e p None]
    by (intro tripleI) (auto simp: obsoleted_as_new rt_new_run triple_def replaced_action_def)
  show ?thesis
    unfolding add_obsoleted_def
    by (rule triple_weaken [OF triple_for [OF one]]) (auto simp: forward_at_def)
qed

lemma add_pair_triple:
  "act \<in> set FORWARD_ACTIONS \<Longrightarrow> replaced_action act' \<Longrightarrow>
   triple trans_inv (bind_p (rt_new e new act None None) (\<lambda>ti. then_p (rt_new e old act' None (Some ti)) (add_obsoleted e obs (Some ti))))
     (\<lambda>_. trans_inv) trans_inv"
  by (rule triple_bind [OF rt_new_forward triple_then [OF rt_new_replaced add_obsoleted_triple]])

lemma addition_triples:
  "triple trans_inv (add_install e new obs r) (\<lambda>_. trans_inv) trans_inv"
  "triple trans_inv (add_upgrade e new old obs) (\<lambda>_. trans_inv) trans_inv"
  "triple trans_inv (add_downgrade e new old obs) (\<lambda>_. trans_inv) trans_inv"
  "triple trans_inv (add_reinstall e new old obs) (\<lambda>_. trans_inv) trans_inv"
  "triple trans_inv (add_remove e old r) (\<lambda>_. trans_inv) trans_inv"
proof -
  show "triple trans_inv (add_install e new obs r) (\<lambda>_. trans_inv) trans_inv"
    "triple trans_inv (add_upgrade e new old obs) (\<lambda>_. trans_inv) trans_inv"
    "triple trans_inv (add_downgrade e new old obs) (\<lambda>_. trans_inv) trans_inv"
    "triple trans_inv (add_reinstall e new old obs) (\<lambda>_. trans_inv) trans_inv"
    unfolding add_install_def add_upgrade_def add_downgrade_def add_reinstall_def
    by (rule triple_bind [OF rt_new_forward add_obsoleted_triple] add_pair_triple;
      simp add: FORWARD_ACTIONS_def replaced_action_def)+
  have "trans_inv (snd (add_remove e old r t))" if "trans_inv t" for t
    using trans_inv_snoc [OF that, of "rpm_item e old (get_repoid old) REMOVE (case r of None \<Rightarrow> USER | Some UNKNOWN \<Rightarrow> USER | Some x \<Rightarrow> x)" "[]"]
    by (simp add: add_remove_def then_p_apply rt_new_run replaced_action_def)
  then show "triple trans_inv (add_remove e old r) (\<lambda>_. trans_inv) trans_inv" by (intro triple_pres) (simp add: pres_def)
qed

text \<open>The items that an addition appends, in brief: the action and the package.\<close>

definition brief :: "tsi \<Rightarrow> action \<times> pkg option" where
  "brief t = (t_action t, t_pkg t)"

abbreviation adds :: "(rpm_trans, unit) prog \<Rightarrow> rpm_trans \<Rightarrow> (action \<times> pkg option) list \<Rightarrow> bool" where
  "adds m t xs \<equiv> fst (m t) = Inr () \<and> map brief (rt_items (snd (m t))) = map brief (rt_items t) @ xs"

lemma add_obsoleted_run:
  "adds (add_obsoleted e obs (Some j)) t (map (\<lambda>p. (OBSOLETED, Some p)) (case obs of None \<Rightarrow> [] | Some ps \<Rightarrow> ps))"
proof -
  have "adds (for_p (add_one_obsoleted e (Some j)) ps) t (map (\<lambda>p. (OBSOLETED, Some p)) ps)" for ps
    by (induction ps arbitrary: t) (auto simp: add_one_obsoleted_def bind_p_apply then_p_apply rt_new_run brief_def)
  then show ?thesis by (simp add: add_obsoleted_def)
qed

lemma additions_run:
  "adds (add_install e new obs r) t ((INSTALL, Some new) # map (\<lambda>p. (OBSOLETED, Some p)) (case obs of None \<Rightarrow> [] | Some ps \<Rightarrow> ps))"
  "adds (add_upgrade e new old obs) t ((UPGRADE, Some new) # (UPGRADED, Some old) # map (\<lambda>p. (OBSOLETED, Some p)) (case obs of None \<Rightarrow> [] | Some ps \<Rightarrow> ps))"
  "adds (add_downgrade e new old obs) t ((DOWNGRADE, Some new) # (DOWNGRADED, Some old) # map (\<lambda>p. (OBSOLETED, Some p)) (case obs of None \<Rightarrow> [] | Some ps \<Rightarrow> ps))"
  "adds (add_reinstall e new old obs) t ((REINSTALL, Some new) # (REINSTALLED, Some old) # map (\<lambda>p. (OBSOLETED, Some p)) (case obs of None \<Rightarrow> [] | Some ps \<Rightarrow> ps))"
  "adds (add_remove e old r) t [(REMOVE, Some old)]"
  by (simp_all add: add_install_def add_upgrade_def add_downgrade_def add_reinstall_def add_remove_def bind_p_apply then_p_apply rt_new_run
      add_obsoleted_run brief_def)

text \<open>
  The transaction stays well linked whatever is added to it: each item that is upgraded,
  downgraded, reinstalled or obsoleted is linked to a forward item that was added before it, and
  nothing else is linked; and no addition fails.
\<close>

theorem additions_keep_links:
  assumes "trans_inv t"
  shows "\<forall>m \<in> {add_install e new obs r, add_upgrade e new old obs, add_downgrade e new old obs, add_reinstall e new old obs,
      add_remove e old r}. \<exists>t'. m t = (Inr (), t') \<and> trans_inv t'"
proof -
  note inv = addition_triples [THEN pres_triple, unfolded pres_def, rule_format, OF assms]
  have res: "\<exists>t'. m t = (Inr (), t') \<and> trans_inv t'" if "fst (m t) = Inr ()" "trans_inv (snd (m t))" for m
    using that by (metis prod.collapse)
  show ?thesis unfolding ball_simps by (intro conjI TrueI; rule res; rule additions_run [THEN conjunct1] inv)
qed

definition example_pkg :: "string \<Rightarrow> nat \<Rightarrow> pkg" where
  "example_pkg n i = \<lparr>p_name = n, p_epoch = 0, p_version = ''1'', p_release = ''1'', p_arch = ''noarch'',
     p_reponame = ''main'', p_force_repoid = None, p_from_cmdline = False, p_module_hotfixes = False,
     p_modularitylabel = Some False, p_active_module = False, p_idx = i\<rparr>"

definition example_env :: rpm_env where
  "example_env = \<lparr>re_reason = (\<lambda>_ _ _. USER), re_nevra = p_name\<rparr>"

definition empty_trans :: rpm_trans where
  "empty_trans = \<lparr>rt_items = [], rt_replaced = []\<rparr>"

lemma additions_keep_links_witness:
  "trans_inv (snd (add_upgrade example_env (example_pkg ''a'' 1) (example_pkg ''b'' 2) None empty_trans))"
proof -
  have "trans_inv empty_trans" by (simp add: trans_inv_def empty_trans_def)
  from additions_keep_links [OF this, of example_env "example_pkg ''a'' 1" None None "example_pkg ''b'' 2"] show ?thesis by auto
qed

subsection \<open>What RPM is told\<close>

definition call_of :: "tsi \<Rightarrow> ts_call list" where
  "call_of t =
     (case t_pkg t of
        None \<Rightarrow> []
      | Some p \<Rightarrow>
          if t_action t = REASON_CHANGE then []
          else if t_action t = REINSTALL then [AddReinstall p]
          else if t_action t = INSTALL then [AddInstall p ''i'']
          else if t_action t \<in> set FORWARD_ACTIONS then [AddInstall p ''u'']
          else [AddErase (p_idx p)])"

definition problem_of :: "tsi \<Rightarrow> nat" where
  "problem_of t = (case t_pkg t of None \<Rightarrow> 0 | Some p \<Rightarrow> if t_action t \<in> set FORWARD_ACTIONS then test_fail_safe p else 0)"

definition no_rpm_error :: "rpm_lib \<Rightarrow> bool" where
  "no_rpm_error l \<longleftrightarrow> (\<forall>p. rl_header_error l p = None) \<and> (\<forall>c. rl_call_error l c = None)"

lemma populate_one_run:
  "no_rpm_error l \<Longrightarrow> t_pkg t \<noteq> None \<Longrightarrow> populate_one l t (cs, n) = (Inr (), cs @ call_of t, n + problem_of t)"
  by (cases "t_action t")
    (auto simp: populate_one_def no_rpm_error_def ts_forward_def ts_backward_def ts_do_def tsi_pkg_def bind_p_apply then_p_apply
      call_of_def problem_of_def FORWARD_ACTIONS_def)

lemma populate_loop_run:
  "no_rpm_error l \<Longrightarrow> list_all (\<lambda>t. t_pkg t \<noteq> None) items \<Longrightarrow>
     for_p (populate_one l) items (cs, n) = (Inr (), cs @ concat (map call_of items), n + (\<Sum>t\<leftarrow>items. problem_of t))"
  by (induction items arbitrary: cs n) (auto simp: then_p_apply populate_one_run)



lemma pkgs_with_Inr:
  "list_all (\<lambda>t. t_pkg t \<noteq> None) items \<Longrightarrow> \<exists>ps. pkgs_with acts items = Inr ps \<and>
     set ps = {p. \<exists>t \<in> set items. t_action t \<in> set acts \<and> t_pkg t = Some p}"
proof (induction items)
  case (Cons t ts)
  then obtain ps where "pkgs_with acts ts = Inr ps" "set ps = {p. \<exists>t \<in> set ts. t_action t \<in> set acts \<and> t_pkg t = Some p}" by auto
  with Cons.prems show ?case by (auto simp: tsi_pkg_def)
qed simp

text \<open>
  The packages that a transaction installs and those that it removes cover all of its items: a
  package is in the one set if some item with a forward action is about it, in the other if one with a
  backward action or a replaced reinstallation is; and an item whose package is unknown is reported
  as an error of its own instead of a failed lookup.
\<close>

theorem install_remove_sets:
  "(case find (\<lambda>t. t_action t \<in> set FORWARD_ACTIONS \<and> t_pkg t = None) items of
      None \<Rightarrow> install_set items = Inr {p. \<exists>t \<in> set items. t_action t \<in> set FORWARD_ACTIONS \<and> t_pkg t = Some p}
    | Some t \<Rightarrow> install_set items = Inl (RuntimeError (''TransactionItem is has no RPM attached: '' @ t_str t))) \<and>
   (case find (\<lambda>t. t_action t \<notin> set FORWARD_ACTIONS \<and> t_action t \<noteq> REASON_CHANGE \<and> t_pkg t = None) items of
      None \<Rightarrow> remove_set items = Inr {p. \<exists>t \<in> set items. t_action t \<notin> set FORWARD_ACTIONS \<and> t_action t \<noteq> REASON_CHANGE \<and> t_pkg t = Some p}
    | Some t \<Rightarrow> remove_set items = Inl (RuntimeError (''TransactionItem is has no RPM attached: '' @ t_str t)))"
proof -
  have gen: "case find (\<lambda>t. t_action t \<in> set acts \<and> t_pkg t = None) items of
      None \<Rightarrow> \<exists>ps. pkgs_with acts items = Inr ps \<and> set ps = {p. \<exists>t \<in> set items. t_action t \<in> set acts \<and> t_pkg t = Some p}
    | Some t \<Rightarrow> pkgs_with acts items = Inl (RuntimeError (''TransactionItem is has no RPM attached: '' @ t_str t))" for acts
  proof (induction items)
    case (Cons t ts)
    then show ?case
      by (cases "find (\<lambda>t. t_action t \<in> set acts \<and> t_pkg t = None) ts"; cases "t_pkg t") (auto simp: tsi_pkg_def)
  qed simp
  have bwd: "a \<in> set (BACKWARD_ACTIONS @ [REINSTALLED]) \<longleftrightarrow> a \<notin> set FORWARD_ACTIONS \<and> a \<noteq> REASON_CHANGE" for a
    by (cases a) (simp_all add: BACKWARD_ACTIONS_def FORWARD_ACTIONS_def)
  show ?thesis
    using gen [of FORWARD_ACTIONS] gen [of "BACKWARD_ACTIONS @ [REINSTALLED]"] unfolding bwd conj_assoc
    by (auto simp: install_set_def remove_set_def split: option.splits)
qed

end
