(* ===== verification/Goal_Transaction.thy ===== *)
theory Goal_Transaction
  imports Rpm_Transaction
begin

text \<open>
  \<open>Base._goal2transaction\<close> of dnf/base.py: what the solver decided becomes the items of the RPM
  transaction in the history database.
\<close>

text \<open>What the solved goal lists, and the rest the translation reads.\<close>

record goal =
  gl_downgrades :: "pkg list"
  gl_reinstalls :: "pkg list"
  gl_installs :: "pkg list"
  gl_upgrades :: "pkg list"
  gl_erasures :: "pkg list"
  gl_obsoleted :: "pkg list"
  gl_obsoleted_by :: "pkg \<Rightarrow> pkg list"
  gl_reason :: "pkg \<Rightarrow> reason"

record goal_env =
  ge_rpm :: rpm_env
  ge_installonly :: "pkg \<Rightarrow> bool"
  ge_installed :: "pkg list"
  ge_cmp :: "reason \<Rightarrow> reason \<Rightarrow> int"
  ge_repo :: "string \<Rightarrow> string"

text \<open>The transaction, and the packages reported to the progress of the dependency resolution.\<close>

record goal_state =
  gs_trans :: rpm_trans
  gs_added :: "(pkg \<times> string) list"

definition on_trans :: "(rpm_trans, 'a) prog \<Rightarrow> (goal_state, 'a) prog" where
  "on_trans m = (\<lambda>s. case m (gs_trans s) of (r, t) \<Rightarrow> (r, s\<lparr>gs_trans := t\<rparr>))"

definition pkg_added :: "string \<Rightarrow> pkg \<Rightarrow> (goal_state, unit) prog" where
  "pkg_added mode p = modify_p (\<lambda>s. s\<lparr>gs_added := gs_added s @ [(p, mode)]\<rparr>)"

definition downgrade_one :: "goal \<Rightarrow> goal_env \<Rightarrow> pkg \<Rightarrow> (goal_state, unit) prog" where
  "downgrade_one g e p =
     (case gl_obsoleted_by g p of
        [] \<Rightarrow> raise_p IndexError
      | downgraded # obs \<Rightarrow>
          then_p (pkg_added ''dd'' downgraded)
          (then_p (pkg_added ''d'' p) (on_trans (add_downgrade (ge_rpm e) p downgraded (Some obs)))))"

text \<open>The obsoleted packages with the NEVRA of the package come first, the last of them foremost.\<close>

definition same_nevra_first :: "goal_env \<Rightarrow> pkg \<Rightarrow> pkg list \<Rightarrow> pkg list" where
  "same_nevra_first e p obs =
     foldl (\<lambda>obsoletes q. if re_nevra (ge_rpm e) q = re_nevra (ge_rpm e) p then q # obsoletes else obsoletes @ [q]) [] obs"

definition reinstall_one :: "goal \<Rightarrow> goal_env \<Rightarrow> pkg \<Rightarrow> (goal_state, unit) prog" where
  "reinstall_one g e p =
     then_p (pkg_added ''r'' p)
     (case same_nevra_first e p (gl_obsoleted_by g p) of
        [] \<Rightarrow> raise_p IndexError
      | reinstalled # obs \<Rightarrow> on_trans (add_reinstall (ge_rpm e) p reinstalled (Some obs)))"

definition relevant :: "goal \<Rightarrow> pkg \<Rightarrow> pkg list \<Rightarrow> pkg list" where
  "relevant g p obs = filter (\<lambda>i. i \<in> set (gl_obsoleted g) \<or> p_name i = p_name p) obs"

definition better_reason :: "goal_env \<Rightarrow> reason \<Rightarrow> pkg \<Rightarrow> reason" where
  "better_reason e r obsolete =
     (let ro = get_reason (ge_rpm e) obsolete in if ge_cmp e r ro = - 1 then ro else r)"

definition install_reason :: "goal \<Rightarrow> goal_env \<Rightarrow> pkg \<Rightarrow> reason" where
  "install_reason g e p =
     foldl (better_reason e)
       (if ge_installonly e p \<and> list_ex (\<lambda>i. ge_installonly e i \<and> p_name i = p_name p) (ge_installed e)
        then get_reason (ge_rpm e) p else gl_reason g p)
       (relevant g p (gl_obsoleted_by g p))"

definition install_one :: "goal \<Rightarrow> goal_env \<Rightarrow> pkg \<Rightarrow> (goal_state, unit) prog" where
  "install_one g e p =
     then_p (pkg_added ''i'' p)
     (then_p (on_trans (add_install (ge_rpm e) p (Some (relevant g p (gl_obsoleted_by g p))) (Some (install_reason g e p))))
       (for_p (pkg_added ''od'') (relevant g p (gl_obsoleted_by g p))))"

text \<open>The package that is upgraded: the first of the same name, else the first; and the others.\<close>

definition pick_upgraded :: "pkg \<Rightarrow> pkg list \<Rightarrow> (pkg \<times> pkg list) res" where
  "pick_upgraded p obs =
     (case find (\<lambda>i. p_name i = p_name p) obs of
        Some u \<Rightarrow> Inr (u, remove1 u obs)
      | None \<Rightarrow> (case obs of [] \<Rightarrow> Inl IndexError | u # rest \<Rightarrow> Inr (u, rest)))"

definition upgrade_one :: "goal \<Rightarrow> goal_env \<Rightarrow> pkg \<Rightarrow> (goal_state, unit) prog" where
  "upgrade_one g e p =
     bind_p (lift_p (pick_upgraded p (gl_obsoleted_by g p))) (\<lambda>(upgraded, rest).
       let obs = relevant g p rest in
       then_p (for_p (pkg_added ''od'') obs)
       (then_p
         (if ge_installonly e p then on_trans (add_install (ge_rpm e) p (Some obs) None)
          else then_p (on_trans (add_upgrade (ge_rpm e) p upgraded (Some obs))) (pkg_added ''ud'' upgraded))
         (pkg_added ''u'' p)))"

text \<open>\<open>history.set_reason\<close>: an item without a package, done at once.\<close>

definition reason_item :: "goal_env \<Rightarrow> pkg \<Rightarrow> reason \<Rightarrow> tsi" where
  "reason_item e p r = (rpm_item (ge_rpm e) p (ge_repo e (re_nevra (ge_rpm e) p)) REASON_CHANGE r)\<lparr>t_state := ST_DONE, t_pkg := None\<rparr>"

definition set_pkg_reason :: "goal_env \<Rightarrow> pkg \<Rightarrow> reason \<Rightarrow> (goal_state, unit) prog" where
  "set_pkg_reason e p r = on_trans (modify_p (\<lambda>t. t\<lparr>rt_items := rt_items t @ [reason_item e p r]\<rparr>))"

definition erase_one :: "goal \<Rightarrow> goal_env \<Rightarrow> pkg \<Rightarrow> (goal_state, unit) prog" where
  "erase_one g e p =
     then_p (case filter (\<lambda>i. i \<notin> set (gl_erasures g) \<and> p_name i = p_name p \<and> p_arch i = p_arch p) (ge_installed e) of
        [] \<Rightarrow> return_p ()
      | remaining # _ \<Rightarrow> set_pkg_reason e remaining (get_reason (ge_rpm e) remaining))
     (then_p (pkg_added ''e'' p) (on_trans (add_erase (ge_rpm e) p (Some (gl_reason g p)))))"

definition goal2transaction :: "goal \<Rightarrow> goal_env \<Rightarrow> (goal_state, unit) prog" where
  "goal2transaction g e =
     then_p (for_p (downgrade_one g e) (gl_downgrades g))
     (then_p (for_p (reinstall_one g e) (gl_reinstalls g))
     (then_p (for_p (install_one g e) (gl_installs g))
     (then_p (for_p (upgrade_one g e) (gl_upgrades g))
       (for_p (erase_one g e) (gl_erasures g)))))"

subsection \<open>Choices\<close>

lemma same_nevra_first_eq:
  "same_nevra_first e p obs =
     rev (filter (\<lambda>q. re_nevra (ge_rpm e) q = re_nevra (ge_rpm e) p) obs) @ filter (\<lambda>q. re_nevra (ge_rpm e) q \<noteq> re_nevra (ge_rpm e) p) obs"
  unfolding same_nevra_first_def by (induction obs rule: rev_induct) auto

lemma same_nevra_first_Nil: "same_nevra_first e p obs = [] \<longleftrightarrow> obs = []"
  by (auto simp: same_nevra_first_eq filter_empty_conv)

lemma pick_upgraded_total: "obs \<noteq> [] \<Longrightarrow> \<exists>u rest. pick_upgraded p obs = Inr (u, rest)"
  by (auto simp: pick_upgraded_def split: option.splits list.splits)

lemma find_member: "find P xs = Some x \<Longrightarrow> x \<in> set xs \<and> P x"
  by (induction xs) (auto split: if_splits)

lemma pick_upgraded_spec:
  "pick_upgraded p obs = Inr (u, rest) \<Longrightarrow>
    u \<in> set obs \<and> rest = remove1 u obs \<and> ((\<exists>q \<in> set obs. p_name q = p_name p) \<longrightarrow> p_name u = p_name p)"
  by (auto simp: pick_upgraded_def find_None_iff split: option.splits list.splits dest: find_member)

subsection \<open>The items of a solved goal\<close>

text \<open>A step returns, keeps the transaction well linked, and appends these items.\<close>

definition appends :: "(goal_state, unit) prog \<Rightarrow> (action \<times> pkg option) list \<Rightarrow> bool" where
  "appends m xs \<longleftrightarrow> (\<forall>s. trans_inv (gs_trans s) \<longrightarrow>
     (\<exists>s'. m s = (Inr (), s') \<and> trans_inv (gs_trans s') \<and>
        map brief (rt_items (gs_trans s')) = map brief (rt_items (gs_trans s)) @ xs))"

lemma appends_then: "appends m xs \<Longrightarrow> appends n ys \<Longrightarrow> appends (then_p m n) (xs @ ys)"
  unfolding appends_def by (metis append.assoc then_p_eq(2))

lemma appends_skip: "appends (pkg_added mode p) []" "appends (return_p ()) []"
  by (simp_all add: appends_def pkg_added_def)

lemma appends_for: "(\<And>x. x \<in> set xs \<Longrightarrow> appends (f x) (g x)) \<Longrightarrow> appends (for_p f xs) (concat (map g xs))"
  by (induction xs) (auto intro: appends_then appends_skip)

lemma appends_after: "appends m [] \<Longrightarrow> appends n xs \<Longrightarrow> appends (then_p m n) xs"
  using appends_then [of m "[]" n xs] by simp

lemma appends_before: "appends m xs \<Longrightarrow> appends n [] \<Longrightarrow> appends (then_p m n) xs"
  using appends_then [of m xs n "[]"] by simp

lemma appends_added: "appends (for_p (pkg_added mode) ps) []"
  by (induction ps) (simp_all only: for_p.simps appends_skip appends_after)

lemma appends_trans:
  "triple trans_inv m (\<lambda>_. trans_inv) trans_inv \<Longrightarrow> (\<And>t. adds m t xs) \<Longrightarrow> appends (on_trans m) xs"
proof -
  assume t: "triple trans_inv m (\<lambda>_. trans_inv) trans_inv" and adds: "\<And>t. adds m t xs"
  have inv: "trans_inv (snd (m t))" if "trans_inv t" for t using pres_triple [OF t] that by (simp add: pres_def)
  have "\<exists>s'. on_trans m s = (Inr (), s') \<and> trans_inv (gs_trans s') \<and>
      map brief (rt_items (gs_trans s')) = map brief (rt_items (gs_trans s)) @ xs" if "trans_inv (gs_trans s)" for s
    using inv [OF that] adds [of "gs_trans s"] by (cases "m (gs_trans s)") (auto simp: on_trans_def)
  then show ?thesis by (simp add: appends_def)
qed

abbreviation obsoletions :: "pkg list \<Rightarrow> (action \<times> pkg option) list" where
  "obsoletions ps \<equiv> map (\<lambda>p. (OBSOLETED, Some p)) ps"

lemma appends_additions:
  "appends (on_trans (add_install e new (Some ps) r)) ((INSTALL, Some new) # obsoletions ps)"
  "appends (on_trans (add_upgrade e new old (Some ps))) ((UPGRADE, Some new) # (UPGRADED, Some old) # obsoletions ps)"
  "appends (on_trans (add_downgrade e new old (Some ps))) ((DOWNGRADE, Some new) # (DOWNGRADED, Some old) # obsoletions ps)"
  "appends (on_trans (add_reinstall e new old (Some ps))) ((REINSTALL, Some new) # (REINSTALLED, Some old) # obsoletions ps)"
  "appends (on_trans (add_remove e old r)) [(REMOVE, Some old)]"
  by (rule appends_trans; (rule addition_triples | simp add: additions_run))+

definition downgrade_items :: "goal \<Rightarrow> pkg \<Rightarrow> (action \<times> pkg option) list" where
  "downgrade_items g p = (DOWNGRADE, Some p) # (DOWNGRADED, Some (hd (gl_obsoleted_by g p))) # obsoletions (tl (gl_obsoleted_by g p))"

definition reinstall_items :: "goal \<Rightarrow> goal_env \<Rightarrow> pkg \<Rightarrow> (action \<times> pkg option) list" where
  "reinstall_items g e p = (let obs = same_nevra_first e p (gl_obsoleted_by g p) in
     (REINSTALL, Some p) # (REINSTALLED, Some (hd obs)) # obsoletions (tl obs))"

definition install_items :: "goal \<Rightarrow> pkg \<Rightarrow> (action \<times> pkg option) list" where
  "install_items g p = (INSTALL, Some p) # obsoletions (relevant g p (gl_obsoleted_by g p))"

definition upgrade_items :: "goal \<Rightarrow> goal_env \<Rightarrow> pkg \<Rightarrow> (action \<times> pkg option) list" where
  "upgrade_items g e p = (case pick_upgraded p (gl_obsoleted_by g p) of Inl _ \<Rightarrow> [] | Inr (u, rest) \<Rightarrow>
     if ge_installonly e p then (INSTALL, Some p) # obsoletions (relevant g p rest)
     else (UPGRADE, Some p) # (UPGRADED, Some u) # obsoletions (relevant g p rest))"

definition erase_items :: "goal \<Rightarrow> goal_env \<Rightarrow> pkg \<Rightarrow> (action \<times> pkg option) list" where
  "erase_items g e p =
     (if list_ex (\<lambda>i. i \<notin> set (gl_erasures g) \<and> p_name i = p_name p \<and> p_arch i = p_arch p) (ge_installed e)
      then [(REASON_CHANGE, None)] else []) @ [(REMOVE, Some p)]"

lemma downgrade_appends: "gl_obsoleted_by g p \<noteq> [] \<Longrightarrow> appends (downgrade_one g e p) (downgrade_items g p)"
  by (auto simp: downgrade_one_def downgrade_items_def neq_Nil_conv intro!: appends_after appends_skip appends_additions)

lemma reinstall_appends:
  assumes "gl_obsoleted_by g p \<noteq> []"
  shows "appends (reinstall_one g e p) (reinstall_items g e p)"
proof -
  obtain r obs where "same_nevra_first e p (gl_obsoleted_by g p) = r # obs"
    using assms same_nevra_first_Nil by (metis list.exhaust)
  then show ?thesis
    by (auto simp: reinstall_one_def reinstall_items_def intro!: appends_after appends_skip appends_additions)
qed

lemma install_appends: "appends (install_one g e p) (install_items g p)"
  unfolding install_one_def install_items_def by (intro appends_after appends_skip appends_before appends_additions appends_added)

lemma appends_bind_lift: "r = Inr a \<Longrightarrow> appends (f a) xs \<Longrightarrow> appends (bind_p (lift_p r) f) xs"
  by (simp add: appends_def bind_p_apply)

lemma upgrade_appends:
  assumes "gl_obsoleted_by g p \<noteq> []"
  shows "appends (upgrade_one g e p) (upgrade_items g e p)"
proof -
  from pick_upgraded_total [OF assms] obtain u rest where pick: "pick_upgraded p (gl_obsoleted_by g p) = Inr (u, rest)" by blast
  let ?obs = "relevant g p rest"
  have "appends (if ge_installonly e p then on_trans (add_install (ge_rpm e) p (Some ?obs) None)
      else then_p (on_trans (add_upgrade (ge_rpm e) p u (Some ?obs))) (pkg_added ''ud'' u)) (upgrade_items g e p)"
    by (auto simp: upgrade_items_def pick intro!: appends_before appends_additions appends_skip)
  from appends_after [OF appends_added appends_before [OF this appends_skip(1)]] show ?thesis
    unfolding upgrade_one_def by (intro appends_bind_lift [OF pick]) (simp add: Let_def)
qed

lemma set_reason_appends: "appends (set_pkg_reason e p r) [(REASON_CHANGE, None)]"
proof -
  have "trans_inv (t\<lparr>rt_items := rt_items t @ [reason_item e p r]\<rparr>)" if "trans_inv t" for t
    using trans_inv_snoc [OF that, of "reason_item e p r" "[]"] by (simp add: reason_item_def replaced_action_def rpm_item_def)
  then have "triple trans_inv (modify_p (\<lambda>t. t\<lparr>rt_items := rt_items t @ [reason_item e p r]\<rparr>)) (\<lambda>_. trans_inv) trans_inv"
    by (rule triple_basic)
  then show ?thesis
    unfolding set_pkg_reason_def by (rule appends_trans) (simp add: brief_def reason_item_def rpm_item_def)
qed

lemma erase_appends: "appends (erase_one g e p) (erase_items g e p)"
proof -
  let ?P = "\<lambda>i. i \<notin> set (gl_erasures g) \<and> p_name i = p_name p \<and> p_arch i = p_arch p"
  have "appends (case filter ?P (ge_installed e) of [] \<Rightarrow> return_p () | r # _ \<Rightarrow> set_pkg_reason e r (get_reason (ge_rpm e) r))
      (if list_ex ?P (ge_installed e) then [(REASON_CHANGE, None)] else [])"
  proof (cases "filter ?P (ge_installed e)")
    case Nil
    then have "\<not> list_ex ?P (ge_installed e)" by (auto simp: filter_empty_conv list_ex_iff)
    then show ?thesis by (simp only: Nil list.case if_False appends_skip)
  next
    case (Cons r rs)
    then have "r \<in> set (filter ?P (ge_installed e))" by simp
    then have "list_ex ?P (ge_installed e)" by (auto simp: list_ex_iff)
    then show ?thesis by (simp only: Cons list.case if_True set_reason_appends)
  qed
  from appends_then [OF this appends_after [OF appends_skip(1) appends_additions(5)]]
  show ?thesis by (simp add: erase_one_def erase_items_def add_erase_def)
qed

lemma goal_appends:
  assumes "\<forall>p \<in> set (gl_downgrades g @ gl_reinstalls g @ gl_upgrades g). gl_obsoleted_by g p \<noteq> []"
  shows "appends (goal2transaction g e)
    (concat (map (downgrade_items g) (gl_downgrades g)) @ concat (map (reinstall_items g e) (gl_reinstalls g)) @
     concat (map (install_items g) (gl_installs g)) @ concat (map (upgrade_items g e) (gl_upgrades g)) @
     concat (map (erase_items g e) (gl_erasures g)))"
  unfolding goal2transaction_def
  by (intro appends_then appends_for downgrade_appends reinstall_appends install_appends upgrade_appends erase_appends)
    (use assms in simp_all)

lemma filter_singles:
  "(\<And>x. x \<in> set xs \<Longrightarrow> filter P (f x) = [g x]) \<Longrightarrow> filter P (concat (map f xs)) = map g xs"
  by (induction xs) simp_all

lemma filter_none: "(\<And>x. x \<in> set xs \<Longrightarrow> filter P (f x) = []) \<Longrightarrow> filter P (concat (map f xs)) = []"
  by (induction xs) simp_all

lemma filter_each: "(\<And>x. x \<in> set xs \<Longrightarrow> filter P (f x) = g x) \<Longrightarrow> filter P (concat (map f xs)) = concat (map g xs)"
  by (induction xs) simp_all

definition upgraded_by :: "goal \<Rightarrow> pkg \<Rightarrow> pkg" where
  "upgraded_by g p = (case pick_upgraded p (gl_obsoleted_by g p) of Inr (u, _) \<Rightarrow> u | Inl _ \<Rightarrow> p)"

lemma upgrade_filter:
  assumes "gl_obsoleted_by g p \<noteq> []"
  shows "filter (\<lambda>(a, _). a \<in> set FORWARD_ACTIONS) (upgrade_items g e p) = [(if ge_installonly e p then INSTALL else UPGRADE, Some p)]"
    and "filter (\<lambda>(a, _). a = REMOVE) (upgrade_items g e p) = []"
    and "filter (\<lambda>(a, _). a \<in> {UPGRADED, DOWNGRADED, REINSTALLED}) (upgrade_items g e p) =
      (if ge_installonly e p then [] else [(UPGRADED, Some (upgraded_by g p))])"
  using pick_upgraded_total [OF assms, of p]
  by (auto simp: upgrade_items_def upgraded_by_def FORWARD_ACTIONS_def filter_map o_def)


definition example_goal :: goal where
  "example_goal = \<lparr>gl_downgrades = [], gl_reinstalls = [], gl_installs = [example_pkg ''c'' 3], gl_upgrades = [example_pkg ''a'' 1],
     gl_erasures = [example_pkg ''d'' 4], gl_obsoleted = [], gl_obsoleted_by = (\<lambda>p. if p = example_pkg ''a'' 1 then [example_pkg ''b'' 2] else []),
     gl_reason = (\<lambda>_. USER)\<rparr>"

definition reason_rank :: "reason \<Rightarrow> int" where
  "reason_rank r = (case r of UNKNOWN \<Rightarrow> 0 | CLEAN \<Rightarrow> 1 | WEAK_DEPENDENCY \<Rightarrow> 2 | DEPENDENCY \<Rightarrow> 3 | GROUP \<Rightarrow> 4 | USER \<Rightarrow> 5)"

definition example_goal_env :: goal_env where
  "example_goal_env = \<lparr>ge_rpm = example_env, ge_installonly = (\<lambda>_. False), ge_installed = [],
     ge_cmp = (\<lambda>a b. if reason_rank a < reason_rank b then - 1 else if reason_rank b < reason_rank a then 1 else 0), ge_repo = (\<lambda>_. [])\<rparr>"


subsection \<open>The reason of an installation\<close>

text \<open>How libdnf compares reasons: \<open>-1\<close> is a strict weak order.\<close>

definition reasons_ordered :: "goal_env \<Rightarrow> bool" where
  "reasons_ordered e \<longleftrightarrow> (\<forall>a. ge_cmp e a a \<noteq> - 1) \<and>
     (\<forall>a b c. ge_cmp e a b \<noteq> - 1 \<longrightarrow> ge_cmp e b c \<noteq> - 1 \<longrightarrow> ge_cmp e a c \<noteq> - 1) \<and>
     (\<forall>a b. ge_cmp e a b = - 1 \<longrightarrow> ge_cmp e b a \<noteq> - 1)"

lemma better_reasons:
  assumes "reasons_ordered e"
  shows "let b = foldl (better_reason e) r ps; cands = insert r (get_reason (ge_rpm e) ` set ps)
    in b \<in> cands \<and> (\<forall>x \<in> cands. ge_cmp e b x \<noteq> - 1)"
proof (induction ps rule: rev_induct)
  case Nil
  have "ge_cmp e r r \<noteq> - 1" using assms unfolding reasons_ordered_def by blast
  then show ?case by simp
next
  case (snoc p ps)
  let ?b = "foldl (better_reason e) r ps" and ?p = "get_reason (ge_rpm e) p" and ?old = "insert r (get_reason (ge_rpm e) ` set ps)"
  have IH: "?b \<in> ?old" "\<forall>x \<in> ?old. ge_cmp e ?b x \<noteq> - 1" using snoc unfolding Let_def by blast+
  have cands: "insert r (get_reason (ge_rpm e) ` set (ps @ [p])) = insert ?p ?old" by auto
  have step: "foldl (better_reason e) r (ps @ [p]) = (if ge_cmp e ?b ?p = - 1 then ?p else ?b)" by (simp add: better_reason_def Let_def)
  show ?case unfolding Let_def cands step
  proof (cases "ge_cmp e ?b ?p = - 1")
    case True
    then have "ge_cmp e ?p ?b \<noteq> - 1" "ge_cmp e ?p ?p \<noteq> - 1" using assms unfolding reasons_ordered_def by blast+
    moreover have "ge_cmp e ?p x \<noteq> - 1" if "x \<in> ?old" for x
      using assms IH(2) that \<open>ge_cmp e ?p ?b \<noteq> - 1\<close> unfolding reasons_ordered_def by blast
    ultimately show "(if ge_cmp e ?b ?p = - 1 then ?p else ?b) \<in> insert ?p ?old \<and>
        (\<forall>x \<in> insert ?p ?old. ge_cmp e (if ge_cmp e ?b ?p = - 1 then ?p else ?b) x \<noteq> - 1)"
      unfolding if_P [OF True] by blast
  next
    case False
    then show "(if ge_cmp e ?b ?p = - 1 then ?p else ?b) \<in> insert ?p ?old \<and>
        (\<forall>x \<in> insert ?p ?old. ge_cmp e (if ge_cmp e ?b ?p = - 1 then ?p else ?b) x \<noteq> - 1)"
      unfolding if_not_P [OF False] using IH by blast
  qed
qed

text \<open>
  An installed package inherits the best reason: the reason it is recorded with is that of the goal
  - for an install-only package of which a version is installed, the recorded one - or that of a package
  it obsoletes, and none of these is better.
\<close>

theorem install_reason_best:
  assumes "reasons_ordered e"
  shows "let own = (if ge_installonly e p \<and> (\<exists>i \<in> set (ge_installed e). ge_installonly e i \<and> p_name i = p_name p)
                    then get_reason (ge_rpm e) p else gl_reason g p);
             cands = insert own (get_reason (ge_rpm e) ` {q \<in> set (gl_obsoleted_by g p). q \<in> set (gl_obsoleted g) \<or> p_name q = p_name p})
    in install_reason g e p \<in> cands \<and> (\<forall>x \<in> cands. ge_cmp e (install_reason g e p) x \<noteq> - 1)"
proof -
  let ?own = "if ge_installonly e p \<and> list_ex (\<lambda>i. ge_installonly e i \<and> p_name i = p_name p) (ge_installed e)
    then get_reason (ge_rpm e) p else gl_reason g p"
  have "set (relevant g p (gl_obsoleted_by g p)) = {q \<in> set (gl_obsoleted_by g p). q \<in> set (gl_obsoleted g) \<or> p_name q = p_name p}"
    by (auto simp: relevant_def)
  from better_reasons [OF assms, of ?own "relevant g p (gl_obsoleted_by g p)", unfolded this Let_def] show ?thesis
    unfolding install_reason_def list_ex_iff Let_def .
qed

lemma install_reason_best_witness: "install_reason example_goal example_goal_env (example_pkg ''c'' 3) = USER"
proof -
  have "ge_cmp example_goal_env a b = - 1 \<longleftrightarrow> reason_rank a < reason_rank b" for a b by (simp add: example_goal_env_def)
  then have "reasons_ordered example_goal_env" unfolding reasons_ordered_def by (simp only: not_less) (meson order_refl order_trans less_imp_le)
  from install_reason_best [OF this, of "example_pkg ''c'' 3" example_goal] show ?thesis
    by (simp add: Let_def example_goal_env_def example_goal_def example_pkg_def)
qed

end
