(* ===== verification/Transaction_Replay.thy ===== *)
theory Transaction_Replay
  imports Comps_Solver Rpm_Transaction Numerals
begin

text \<open>
  dnf/transaction_sr.py: storing a transaction as JSON and replaying a stored one.  Parameters: the
  queries on the package sack (hawkey), the conversions between names and members of libdnf's
  enumerations, and the printed form of a JSON value that is not a string.
\<close>

subsection \<open>JSON values as Python sees them\<close>

text \<open>Numbers are integers; no number is accepted anywhere, so that floats behave alike.\<close>

datatype json = JNull | JBool bool | JNum int | JStr string | JArr "json list" | JObj "(string \<times> json) list"

text \<open>\<open>key in value\<close>, \<open>value[key]\<close> and iteration.\<close>

fun j_contains :: "string \<Rightarrow> json \<Rightarrow> bool res" where
  "j_contains k (JObj d) = Inr (map_of d k \<noteq> None)"
| "j_contains k (JArr xs) = Inr (JStr k \<in> set xs)"
| "j_contains k (JStr s) = Inr (is_sub k s)"
| "j_contains k _ = Inl TypeError"

fun j_item :: "json \<Rightarrow> string \<Rightarrow> json res" where
  "j_item (JObj d) k = (case map_of d k of None \<Rightarrow> Inl (KeyError k) | Some v \<Rightarrow> Inr v)"
| "j_item _ k = Inl TypeError"

fun j_get :: "json \<Rightarrow> string \<Rightarrow> json \<Rightarrow> json res" where
  "j_get (JObj d) k dflt = Inr (case map_of d k of None \<Rightarrow> dflt | Some v \<Rightarrow> v)"
| "j_get _ k dflt = Inl (AttributeError ''get'')"

fun j_iter :: "json \<Rightarrow> json list res" where
  "j_iter (JArr xs) = Inr xs"
| "j_iter (JObj d) = Inr (map (\<lambda>(k, _). JStr k) d)"
| "j_iter (JStr s) = Inr (map (\<lambda>c. JStr [c]) s)"
| "j_iter _ = Inl TypeError"

fun j_true :: "json \<Rightarrow> bool" where
  "j_true JNull = False"
| "j_true (JBool b) = b"
| "j_true (JNum n) = (n \<noteq> 0)"
| "j_true (JStr s) = (s \<noteq> [])"
| "j_true (JArr xs) = (xs \<noteq> [])"
| "j_true (JObj d) = (d \<noteq> [])"

text \<open>A string where a C function requires one.\<close>

fun need_str :: "json \<Rightarrow> string res" where
  "need_str (JStr s) = Inr s"
| "need_str _ = Inl TypeError"

subsection \<open>The environment\<close>

record nevra_parts =
  nv_name :: string
  nv_epoch :: "nat option"
  nv_version :: string
  nv_release :: string
  nv_arch :: string

record solvable =
  so_id :: nat
  so_nevra :: string

text \<open>A query is the list of the packages it evaluates to.\<close>

record hawkey =
  hk_nevras :: "string \<Rightarrow> nevra_parts list"
  hk_na :: "string \<Rightarrow> string \<Rightarrow> solvable list"
  hk_evr :: "solvable list \<Rightarrow> nat \<Rightarrow> string \<Rightarrow> string \<Rightarrow> solvable list"
  hk_repo :: "solvable list \<Rightarrow> string \<Rightarrow> solvable list"
  hk_installed :: "solvable list \<Rightarrow> solvable list"
  hk_available :: "solvable list \<Rightarrow> solvable list"
  hk_union :: "solvable list \<Rightarrow> solvable list \<Rightarrow> solvable list"
  hk_installonly :: "solvable list \<Rightarrow> solvable list"

record libdnf =
  ld_reason :: "string \<Rightarrow> reason option"
  ld_reason_str :: "reason \<Rightarrow> string"
  ld_reason_cmp :: "reason \<Rightarrow> reason \<Rightarrow> int"
  ld_types :: "string \<Rightarrow> string + ptype set"
  ld_types_str :: "ptype set \<Rightarrow> string"
  ld_fmt :: "json \<Rightarrow> string"

record replay_env =
  ve_hawkey :: hawkey
  ve_lib :: libdnf
  ve_swdb :: swdb
  ve_comps :: comps

definition VERSION_MAJOR :: int where "VERSION_MAJOR = 0"
definition VERSION_MINOR :: int where "VERSION_MINOR = 0"

definition VERSION :: string where
  "VERSION = int_str VERSION_MAJOR @ ''.'' @ int_str VERSION_MINOR"

text \<open>The text of a JSON value in a message.\<close>

definition show_j :: "libdnf \<Rightarrow> json \<Rightarrow> string" where
  "show_j l v = (case v of JStr s \<Rightarrow> s | _ \<Rightarrow> ld_fmt l v)"

definition quoted :: "string \<Rightarrow> string" where
  "quoted s = dq @ s @ dq"

subsection \<open>Loading\<close>

definition assert_type :: "bool \<Rightarrow> string \<Rightarrow> string \<Rightarrow> unit res" where
  "assert_type ok i expected =
     (if \<not> ok then Inl (TransactionError (''Unexpected type of '' @ quoted i @ '', '' @ expected @ '' expected.'')) else Inr ())"

definition check_version :: "string \<Rightarrow> string \<Rightarrow> unit res" where
  "check_version version filename =
     (case split_on CHR ''.'' version of
        [major, minor] \<Rightarrow>
          (case py_int major of
             None \<Rightarrow> Inl (TransactionReplayError filename [''Invalid major version '' @ quoted major @ '', number expected.''])
           | Some m \<Rightarrow>
               (case py_int minor of
                  None \<Rightarrow> Inl (TransactionReplayError filename [''Invalid minor version '' @ quoted minor @ '', number expected.''])
                | Some _ \<Rightarrow>
                    if m \<noteq> VERSION_MAJOR
                    then Inl (IncompatibleTransactionVersionError filename
                      [''Incompatible major version '' @ quoted (int_str m) @ '', supported major version is '' @ quoted (int_str VERSION_MAJOR) @ ''.''])
                    else Inr ()))
      | _ \<Rightarrow> Inl (ValueError ''values to unpack''))"

definition is_jstr :: "json \<Rightarrow> bool" where "is_jstr v = (case v of JStr _ \<Rightarrow> True | _ \<Rightarrow> False)"
definition is_jarr :: "json \<Rightarrow> bool" where "is_jarr v = (case v of JArr _ \<Rightarrow> True | _ \<Rightarrow> False)"
definition is_jbool :: "json \<Rightarrow> bool" where "is_jbool v = (case v of JBool _ \<Rightarrow> True | _ \<Rightarrow> False)"

definition verify_toplevel_json :: "string \<Rightarrow> json \<Rightarrow> unit res" where
  "verify_toplevel_json fn data =
     bind_r (j_contains ''version'' data) (\<lambda>has.
       if \<not> has then Inl (TransactionReplayError fn [''Missing key '' @ quoted ''version'' @ ''.''])
       else bind_r (j_item data ''version'') (\<lambda>v.
            bind_r (assert_type (is_jstr v) ''version'' ''string'') (\<lambda>_.
            bind_r (need_str v) (\<lambda>s. check_version s fn))))"

record replay_data =
  rd_rpms :: "json list"
  rd_groups :: "json list"
  rd_environments :: "json list"

definition load_array :: "json \<Rightarrow> string \<Rightarrow> json list res" where
  "load_array data key =
     bind_r (j_get data key (JArr [])) (\<lambda>v.
     bind_r (assert_type (is_jarr v) key ''array'') (\<lambda>_. j_iter v))"

definition load_from_data :: "string \<Rightarrow> json \<Rightarrow> replay_data res" where
  "load_from_data fn data =
     bind_r (verify_toplevel_json fn data) (\<lambda>_.
     bind_r (load_array data ''rpms'') (\<lambda>rpms.
     bind_r (load_array data ''groups'') (\<lambda>groups.
     bind_r (load_array data ''environments'') (\<lambda>envs.
       Inr \<lparr>rd_rpms = rpms, rd_groups = groups, rd_environments = envs\<rparr>))))"

text \<open>What reading and parsing a file gives: the value, an error of the system, or a JSON error.\<close>

datatype file_json = FileError string | JsonError string | JsonValue json

definition load_from_file :: "string \<Rightarrow> file_json \<Rightarrow> replay_data res" where
  "load_from_file fn content =
     (case content of
        FileError e \<Rightarrow> Inl (OSError e)
      | JsonError e \<Rightarrow> Inl (TransactionReplayError fn [e @ ''.''])
      | JsonValue v \<Rightarrow>
          (case load_from_data fn v of
             Inl (TransactionError e) \<Rightarrow> Inl (TransactionReplayError fn [e])
           | r \<Rightarrow> r))"

definition replay_init :: "string \<Rightarrow> json option \<Rightarrow> file_json \<Rightarrow> replay_data res" where
  "replay_init filename data content =
     (if filename \<noteq> [] \<and> (case data of None \<Rightarrow> False | Some d \<Rightarrow> j_true d)
      then Inl (ValueError ''Conflicting TransactionReplay arguments have been specified: filename, data'')
      else if filename \<noteq> [] then load_from_file filename content
      else load_from_data filename (case data of None \<Rightarrow> JNull | Some d \<Rightarrow> d))"

subsection \<open>Serializing\<close>

datatype hist_item =
    PackageItem string string reason string
  | HGroupItem string swdb_group
  | HEnvItem string swdb_env
  | OtherItem

definition ser_package :: "libdnf \<Rightarrow> string \<Rightarrow> string \<Rightarrow> reason \<Rightarrow> string \<Rightarrow> json" where
  "ser_package l act nevra r repo =
     JObj [(''action'', JStr act), (''nevra'', JStr nevra), (''reason'', JStr (ld_reason_str l r)), (''repo_id'', JStr repo)]"

definition ser_group :: "libdnf \<Rightarrow> string \<Rightarrow> swdb_group \<Rightarrow> json" where
  "ser_group l act g =
     JObj [(''action'', JStr act), (''id'', JStr (sg_id g)),
       (''packages'', JArr (map (\<lambda>p. JObj [(''name'', JStr (gk_name p)), (''installed'', JBool (gk_installed p)),
          (''package_type'', JStr (ld_types_str l (gk_type p)))]) (sg_pkgs g))),
       (''package_types'', JStr (ld_types_str l (sg_types g)))]"

definition ser_env :: "libdnf \<Rightarrow> string \<Rightarrow> swdb_env \<Rightarrow> json" where
  "ser_env l act e =
     JObj [(''action'', JStr act), (''id'', JStr (se_id e)),
       (''groups'', JArr (map (\<lambda>g. JObj [(''id'', JStr (eg_id g)), (''installed'', JBool (eg_installed g)),
          (''group_type'', JStr (ld_types_str l (eg_type g)))]) (se_groups e))),
       (''package_types'', JStr (ld_types_str l (se_types e)))]"

fun serialize_loop :: "libdnf \<Rightarrow> hist_item list \<Rightarrow> json list \<times> json list \<times> json list" where
  "serialize_loop l [] = ([], [], [])"
| "serialize_loop l (i # is) =
     (let (rpms, groups, envs) = serialize_loop l is
      in case i of
           PackageItem a n r repo \<Rightarrow> (ser_package l a n r repo # rpms, groups, envs)
         | HGroupItem a g \<Rightarrow> (rpms, ser_group l a g # groups, envs)
         | HEnvItem a e \<Rightarrow> (rpms, groups, ser_env l a e # envs)
         | OtherItem \<Rightarrow> (rpms, groups, envs))"

definition serialize_transaction :: "libdnf \<Rightarrow> hist_item list option \<Rightarrow> json" where
  "serialize_transaction l transaction =
     (case transaction of
        None \<Rightarrow> JObj [(''version'', JStr VERSION)]
      | Some items \<Rightarrow>
          let (rpms, groups, envs) = serialize_loop l items
          in JObj ([(''version'', JStr VERSION)] @
               (if rpms \<noteq> [] then [(''rpms'', JArr rpms)] else []) @
               (if groups \<noteq> [] then [(''groups'', JArr groups)] else []) @
               (if envs \<noteq> [] then [(''environments'', JArr envs)] else [])))"

subsection \<open>Replaying\<close>

datatype goal_call = GoalInstall "solvable list" bool | GoalErase solvable

record replay =
  ry_nevra_cache :: "string list"
  ry_reasons :: "(string, reason) dict"
  ry_warnings :: "string list"
  ry_goal :: "goal_call list"
  ry_reason_changes :: "(solvable \<times> reason) list"
  ry_hist :: hist
  ry_errors :: "string list"

record replay_conf =
  rc_filename :: string
  rc_ignore_extras :: bool
  rc_ignore_installed :: bool
  rc_skip_unavailable :: bool
  rc_strict :: bool

text \<open>The effective \<open>_skip_unavailable\<close>.\<close>

definition skip_unavailable :: "replay_conf \<Rightarrow> bool" where
  "skip_unavailable c = (if \<not> rc_strict c then True else rc_skip_unavailable c)"

definition raise_or_warn :: "bool \<Rightarrow> string \<Rightarrow> (replay, unit) prog" where
  "raise_or_warn warn_only msg =
     (if warn_only then modify_p (\<lambda>s. s\<lparr>ry_warnings := ry_warnings s @ [msg]\<rparr>) else raise_p (TransactionError msg))"

definition on_hist :: "(hist, 'a) prog \<Rightarrow> (replay, 'a) prog" where
  "on_hist m = (\<lambda>s. case m (ry_hist s) of (r, h) \<Rightarrow> (r, s\<lparr>ry_hist := h\<rparr>))"

text \<open>The fields of an rpm: the action, the NEVRA, the repository and the reason.\<close>

definition pkg_fields :: "libdnf \<Rightarrow> json \<Rightarrow> (json \<times> json \<times> json \<times> reason) res" where
  "pkg_fields l d =
     (case bind_r (j_item d ''action'') (\<lambda>a. bind_r (j_item d ''nevra'') (\<lambda>n. bind_r (j_item d ''repo_id'') (\<lambda>repo.
           bind_r (j_item d ''reason'') (\<lambda>r. bind_r (need_str r) (\<lambda>rs.
             case ld_reason l rs of
               None \<Rightarrow> Inl (TransactionError (''Unexpected value of package reason '' @ quoted rs @ '' for rpm nevra '' @ quoted (show_j l n) @ ''.''))
             | Some reason \<Rightarrow> Inr (a, n, repo, reason)))))) of
        Inl (KeyError k) \<Rightarrow> Inl (TransactionError (''Missing object key '' @ quoted k @ '' in an rpm.''))
      | r \<Rightarrow> r)"

definition goal_install :: "replay_conf \<Rightarrow> solvable list \<Rightarrow> (replay, unit) prog" where
  "goal_install c query = modify_p (\<lambda>s. s\<lparr>ry_goal := ry_goal s @ [GoalInstall query (\<not> rc_strict c)]\<rparr>)"

definition forward_names :: "string list" where
  "forward_names = [''Install'', ''Upgrade'', ''Downgrade'']"

definition backward_names :: "string list" where
  "backward_names = [''Upgraded'', ''Downgraded'', ''Reinstalled'', ''Removed'', ''Obsoleted'']"

definition find_query :: "hawkey \<Rightarrow> nevra_parts \<Rightarrow> json \<Rightarrow> solvable list res" where
  "find_query hk nv repo_id =
     (let query_na = hk_na hk (nv_name nv) (nv_arch nv);
          epoch = (case nv_epoch nv of None \<Rightarrow> 0 | Some e \<Rightarrow> e);
          query = hk_evr hk query_na epoch (nv_version nv) (nv_release nv)
      in if j_true repo_id
         then bind_r (need_str repo_id) (\<lambda>repo.
                let query_repo = hk_repo hk query repo
                in Inr (if query_repo \<noteq> [] then hk_union hk query_repo (hk_installed hk query) else query))
         else Inr query)"

text \<open>What follows once the query has a package: the caches, and the dispatch on the action.\<close>

definition remember :: "json \<Rightarrow> string \<Rightarrow> reason \<Rightarrow> (replay, unit) prog" where
  "remember act nevra r =
     then_p (if act \<noteq> JStr ''Reason Change'' then modify_p (\<lambda>s. s\<lparr>ry_nevra_cache := ry_nevra_cache s @ [nevra]\<rparr>) else return_p ())
       (if act \<in> JStr ` set ([''Install'', ''Upgrade'', ''Downgrade'', ''Reinstall'', ''Removed''])
        then modify_p (\<lambda>s. s\<lparr>ry_reasons := dict_set nevra r (ry_reasons s)\<rparr>) else return_p ())"

definition dispatch :: "replay_env \<Rightarrow> replay_conf \<Rightarrow> json \<Rightarrow> string \<Rightarrow> reason \<Rightarrow> string \<Rightarrow> solvable list \<Rightarrow> solvable list \<Rightarrow> (replay, unit) prog" where
  "dispatch v c act nevra r na query_na query =
     (let hk = ve_hawkey v
      in if act \<in> JStr ` set forward_names
         then then_p
           (if act = JStr ''Install'' \<and> hk_installed hk query_na \<noteq> [] \<and> hk_installonly hk query_na = []
            then raise_or_warn (rc_ignore_installed c)
              (''Package '' @ quoted na @ '' is already installed for action '' @ quoted (show_j (ve_lib v) act) @ ''.'')
            else return_p ())
           (goal_install c query)
         else if act = JStr ''Reinstall''
         then (let query = hk_available hk query
               in if query = []
                  then raise_or_warn (skip_unavailable c)
                    (''Package nevra '' @ quoted nevra @ '' not available in repositories for action '' @ quoted (show_j (ve_lib v) act) @ ''.'')
                  else goal_install c query)
         else if act \<in> JStr ` set backward_names
         then (let query = hk_installed hk query
               in if query = []
                  then raise_or_warn (rc_ignore_installed c)
                    (''Package nevra '' @ quoted nevra @ '' not installed for action '' @ quoted (show_j (ve_lib v) act) @ ''.'')
                  else if \<not> skip_unavailable c \<or> act = JStr ''Removed''
                  then for_p (\<lambda>p. modify_p (\<lambda>s. s\<lparr>ry_goal := ry_goal s @ [GoalErase p]\<rparr>)) query
                  else return_p ())
         else if act = JStr ''Reason Change''
         then modify_p (\<lambda>s. s\<lparr>ry_reason_changes := ry_reason_changes s @ [(hd query, r)]\<rparr>)
         else raise_p (TransactionError (''Unexpected value of package action '' @ quoted (show_j (ve_lib v) act) @ '' for rpm nevra '' @ quoted nevra @ ''.'')))"

definition replay_pkg_action :: "replay_env \<Rightarrow> replay_conf \<Rightarrow> json \<Rightarrow> (replay, unit) prog" where
  "replay_pkg_action v c d =
     bind_p (lift_p (pkg_fields (ve_lib v) d)) (\<lambda>(act, nevra_j, repo_id, r).
     bind_p (lift_p (need_str nevra_j)) (\<lambda>nevra.
       case hk_nevras (ve_hawkey v) nevra of
         [nv] \<Rightarrow>
           bind_p (lift_p (find_query (ve_hawkey v) nv repo_id)) (\<lambda>query.
             if query = []
             then raise_or_warn (skip_unavailable c) (''Cannot find rpm nevra '' @ quoted nevra @ ''.'')
             else then_p (remember act nevra r)
               (dispatch v c act nevra r (nv_name nv @ ''.'' @ nv_arch nv) (hk_na (ve_hawkey v) (nv_name nv) (nv_arch nv)) query))
       | _ \<Rightarrow> raise_p (TransactionError (''Cannot parse NEVRA for package '' @ quoted nevra @ ''.''))))"

subsection \<open>Groups and environments\<close>

definition key_error :: "string \<Rightarrow> 'a res \<Rightarrow> 'a res" where
  "key_error place r =
     (case r of Inl (KeyError k) \<Rightarrow> Inl (TransactionError (''Missing object key '' @ quoted k @ '' in '' @ place @ ''.'')) | _ \<Rightarrow> r)"

definition group_pkg_fields :: "libdnf \<Rightarrow> json \<Rightarrow> (string \<times> bool \<times> ptype set) res" where
  "group_pkg_fields l p =
     bind_r (j_item p ''name'') (\<lambda>name.
     bind_r (assert_type (is_jstr name) ''groups.packages.name'' ''string'') (\<lambda>_.
     bind_r (j_item p ''installed'') (\<lambda>installed.
     bind_r (assert_type (is_jbool installed) ''groups.packages.installed'' ''boolean'') (\<lambda>_.
     bind_r (j_item p ''package_type'') (\<lambda>ty.
     bind_r (assert_type (is_jstr ty) ''groups.packages.package_type'' ''string'') (\<lambda>_.
     bind_r (need_str name) (\<lambda>n. bind_r (need_str ty) (\<lambda>t.
       case ld_types l t of
         Inl e \<Rightarrow> Inl (TransactionError e)
       | Inr tys \<Rightarrow> Inr (n, installed = JBool True, tys)))))))))"

definition replay_group_pkg :: "libdnf \<Rightarrow> nat \<Rightarrow> json \<Rightarrow> (replay, unit) prog" where
  "replay_group_pkg l a p =
     bind_p (lift_p (group_pkg_fields l p)) (\<lambda>(name, installed, tys). on_hist (addPackage a name installed tys))"

definition with_key_error :: "string \<Rightarrow> (replay, unit) prog \<Rightarrow> (replay, unit) prog" where
  "with_key_error place m = (\<lambda>s. case m s of (r, s') \<Rightarrow> (key_error place r, s'))"

definition create_swdb_group :: "replay_env \<Rightarrow> replay_conf \<Rightarrow> json \<Rightarrow> ptype set \<Rightarrow> json \<Rightarrow> (replay, nat option) prog" where
  "create_swdb_group v c group_id pkg_types pkgs =
     (case group_id of
        JStr gid \<Rightarrow>
          (case group_by_id (ve_comps v) gid of
             None \<Rightarrow> then_p (raise_or_warn (skip_unavailable c) (''Group id '' @ sq @ gid @ sq @ '' is not available.'')) (return_p None)
           | Some g \<Rightarrow>
               bind_p (on_hist (group_new gid (co_name g) (ui_name (cs_langs (ve_comps v)) g) pkg_types)) (\<lambda>a.
               then_p (with_key_error ''groups.packages''
                   (bind_p (lift_p (j_iter pkgs)) (for_p (replay_group_pkg (ve_lib v) a))))
                 (return_p (Some a))))
      | _ \<Rightarrow> raise_p AssertionError)"

definition finish_group :: "(nat \<Rightarrow> (hist, unit) prog) \<Rightarrow> nat option \<Rightarrow> (replay, unit) prog" where
  "finish_group reg found = (case found of None \<Rightarrow> return_p () | Some a \<Rightarrow> on_hist (reg a))"

definition swdb_group_install :: "replay_env \<Rightarrow> replay_conf \<Rightarrow> json \<Rightarrow> ptype set \<Rightarrow> json \<Rightarrow> (replay, unit) prog" where
  "swdb_group_install v c group_id pkg_types pkgs =
     bind_p (create_swdb_group v c group_id pkg_types pkgs) (finish_group gp_install)"

text \<open>The other three first ask whether the group is installed.\<close>

definition swdb_group_change ::
  "(nat \<Rightarrow> (hist, unit) prog) \<Rightarrow> replay_env \<Rightarrow> replay_conf \<Rightarrow> json \<Rightarrow> ptype set \<Rightarrow> json \<Rightarrow> (replay, unit) prog" where
  "swdb_group_change reg v c group_id pkg_types pkgs =
     bind_p (lift_p (need_str group_id)) (\<lambda>gid.
     bind_p (on_hist (group_get (ve_swdb v) gid)) (\<lambda>found.
       case found of
         None \<Rightarrow> raise_or_warn (rc_ignore_installed c) (''Group id '' @ sq @ gid @ sq @ '' is not installed.'')
       | Some _ \<Rightarrow> bind_p (create_swdb_group v c group_id pkg_types pkgs) (finish_group reg)))"

definition env_group_fields :: "libdnf \<Rightarrow> json \<Rightarrow> (string \<times> bool \<times> ptype set) res" where
  "env_group_fields l g =
     bind_r (j_item g ''id'') (\<lambda>i.
     bind_r (assert_type (is_jstr i) ''environments.groups.id'' ''string'') (\<lambda>_.
     bind_r (j_item g ''installed'') (\<lambda>installed.
     bind_r (assert_type (is_jbool installed) ''environments.groups.installed'' ''boolean'') (\<lambda>_.
     bind_r (j_item g ''group_type'') (\<lambda>ty.
     bind_r (assert_type (is_jstr ty) ''environments.groups.group_type'' ''string'') (\<lambda>_.
     bind_r (need_str i) (\<lambda>n. bind_r (need_str ty) (\<lambda>t.
       case ld_types l t of
         Inl e \<Rightarrow> Inl (TransactionError e)
       | Inr tys \<Rightarrow>
           if tys \<notin> {{MANDATORY}, {OPTIONAL}}
           then Inl (TransactionError (''Invalid value '' @ quoted t @ '' of environments.groups.group_type, '' @
             ''only '' @ quoted ''mandatory'' @ '' or '' @ quoted ''optional'' @ '' is supported.''))
           else Inr (n, installed = JBool True, tys)))))))))"

definition replay_env_group :: "libdnf \<Rightarrow> nat \<Rightarrow> json \<Rightarrow> (replay, unit) prog" where
  "replay_env_group l a g =
     bind_p (lift_p (env_group_fields l g)) (\<lambda>(i, installed, tys). on_hist (addGroup a i installed tys))"

definition create_swdb_environment :: "replay_env \<Rightarrow> replay_conf \<Rightarrow> json \<Rightarrow> ptype set \<Rightarrow> json \<Rightarrow> (replay, nat option) prog" where
  "create_swdb_environment v c env_id pkg_types groups =
     (case env_id of
        JStr eid \<Rightarrow>
          (case environment_by_id (ve_comps v) eid of
             None \<Rightarrow> then_p (raise_or_warn (skip_unavailable c) (''Environment id '' @ sq @ eid @ sq @ '' is not available.'')) (return_p None)
           | Some e \<Rightarrow>
               bind_p (on_hist (env_new eid (co_name e) (ui_name (cs_langs (ve_comps v)) e) pkg_types)) (\<lambda>a.
               then_p (with_key_error ''environments.groups''
                   (bind_p (lift_p (j_iter groups)) (for_p (replay_env_group (ve_lib v) a))))
                 (return_p (Some a))))
      | _ \<Rightarrow> raise_p AssertionError)"

definition swdb_environment_install :: "replay_env \<Rightarrow> replay_conf \<Rightarrow> json \<Rightarrow> ptype set \<Rightarrow> json \<Rightarrow> (replay, unit) prog" where
  "swdb_environment_install v c env_id pkg_types groups =
     bind_p (create_swdb_environment v c env_id pkg_types groups) (finish_group ep_install)"

definition swdb_environment_change ::
  "(nat \<Rightarrow> (hist, unit) prog) \<Rightarrow> replay_env \<Rightarrow> replay_conf \<Rightarrow> json \<Rightarrow> ptype set \<Rightarrow> json \<Rightarrow> (replay, unit) prog" where
  "swdb_environment_change reg v c env_id pkg_types groups =
     bind_p (lift_p (need_str env_id)) (\<lambda>eid.
     bind_p (on_hist (env_get (ve_swdb v) eid)) (\<lambda>found.
       case found of
         None \<Rightarrow> raise_or_warn (rc_ignore_installed c) (''Environment id '' @ sq @ eid @ sq @ '' is not installed.'')
       | Some _ \<Rightarrow> bind_p (create_swdb_environment v c env_id pkg_types groups) (finish_group reg)))"

subsection \<open>The run\<close>

definition add_error :: "string \<Rightarrow> (replay, unit) prog" where
  "add_error msg = modify_p (\<lambda>s. s\<lparr>ry_errors := ry_errors s @ [msg]\<rparr>)"

text \<open>\<open>except TransactionError\<close>; the other clause turns a missing key into an error of the list.\<close>

definition collect :: "(replay, unit) prog \<Rightarrow> (replay, unit) prog" where
  "collect m = catch_p m (\<lambda>e. case e of TransactionError msg \<Rightarrow> Some (add_error msg) | _ \<Rightarrow> None)"

definition collect_keys :: "string \<Rightarrow> (replay, unit) prog \<Rightarrow> (replay, unit) prog" where
  "collect_keys place m = catch_p m (\<lambda>e. case e of
     KeyError k \<Rightarrow> Some (add_error (''Missing object key '' @ quoted k @ '' in '' @ place @ ''.''))
   | TransactionError msg \<Rightarrow> Some (add_error msg)
   | _ \<Rightarrow> None)"

definition replay_group_item :: "replay_env \<Rightarrow> replay_conf \<Rightarrow> json \<Rightarrow> (replay, unit) prog" where
  "replay_group_item v c d = collect_keys ''a group''
     (bind_p (lift_p (j_item d ''action'')) (\<lambda>act.
      bind_p (lift_p (j_item d ''id'')) (\<lambda>gid.
      bind_p (lift_p (bind_r (j_item d ''package_types'') need_str)) (\<lambda>ts.
        case ld_types (ve_lib v) ts of
          Inl e \<Rightarrow> add_error e
        | Inr tys \<Rightarrow>
            let run = (\<lambda>f. bind_p (lift_p (j_item d ''packages'')) (\<lambda>pkgs. f v c gid tys pkgs))
            in if act = JStr ''Install'' then run swdb_group_install
               else if act = JStr ''Removed'' then run (swdb_group_change gp_remove)
               else if act = JStr ''Upgrade'' \<or> act = JStr ''Upgraded'' then run (swdb_group_change gp_upgrade)
               else if act = JStr ''Downgrade'' \<or> act = JStr ''Downgraded'' then run (swdb_group_change gp_downgrade)
               else add_error (''Unexpected value of group action '' @ quoted (show_j (ve_lib v) act) @ '' for group '' @ quoted (show_j (ve_lib v) gid) @ ''.'')))))"

definition replay_env_item :: "replay_env \<Rightarrow> replay_conf \<Rightarrow> json \<Rightarrow> (replay, unit) prog" where
  "replay_env_item v c d = collect_keys ''an environment''
     (bind_p (lift_p (j_item d ''action'')) (\<lambda>act.
      bind_p (lift_p (j_item d ''id'')) (\<lambda>eid.
      bind_p (lift_p (bind_r (j_item d ''package_types'') need_str)) (\<lambda>ts.
        case ld_types (ve_lib v) ts of
          Inl e \<Rightarrow> add_error e
        | Inr tys \<Rightarrow>
            let run = (\<lambda>f. bind_p (lift_p (j_item d ''groups'')) (\<lambda>groups. f v c eid tys groups))
            in if act = JStr ''Install'' then run swdb_environment_install
               else if act = JStr ''Removed'' then run (swdb_environment_change ep_remove)
               else if act = JStr ''Upgrade'' \<or> act = JStr ''Upgraded'' then run (swdb_environment_change ep_upgrade)
               else if act = JStr ''Downgrade'' \<or> act = JStr ''Downgraded'' then run (swdb_environment_change ep_downgrade)
               else add_error (''Unexpected value of environment action '' @ quoted (show_j (ve_lib v) act) @ '' for environment '' @ quoted (show_j (ve_lib v) eid) @ ''.'')))))"

definition replay_run :: "replay_env \<Rightarrow> replay_conf \<Rightarrow> replay_data \<Rightarrow> (replay, unit) prog" where
  "replay_run v c d =
     then_p (modify_p (\<lambda>s. s\<lparr>ry_errors := []\<rparr>))
     (then_p (for_p (\<lambda>p. collect (replay_pkg_action v c p)) (rd_rpms d))
     (then_p (for_p (replay_group_item v c) (rd_groups d))
     (then_p (for_p (replay_env_item v c) (rd_environments d))
     (bind_p (gets_p ry_errors) (\<lambda>errors.
        if errors \<noteq> [] then raise_p (TransactionReplayError (rc_filename c) errors) else return_p ())))))"

subsection \<open>After the transaction is resolved\<close>

text \<open>One item: its new reason, the errors and the warnings.  \<open>txt\<close> is \<open>str\<close> of a package.\<close>

definition extra_msg :: "string \<Rightarrow> string" where
  "extra_msg nevra = ''Package nevra '' @ quoted nevra @ '', which is not present in the transaction file, was pulled into the transaction.''"

definition is_extra :: "replay_conf \<Rightarrow> string list \<Rightarrow> string \<Rightarrow> action \<Rightarrow> bool" where
  "is_extra c cache nevra act \<longleftrightarrow>
     nevra \<notin> set cache \<and> (\<not> rc_ignore_installed c \<or> act \<notin> {UPGRADED, DOWNGRADED, REINSTALLED})"

definition post_reason :: "libdnf \<Rightarrow> (string, reason) dict \<Rightarrow> string \<Rightarrow> tsi \<Rightarrow> tsi" where
  "post_reason l reasons nevra t =
     (case map_of reasons nevra of
        None \<Rightarrow> t
      | Some r \<Rightarrow> if t_action t \<in> {INSTALL, REMOVE} \<or> ld_reason_cmp l r (t_reason t) > 0 then t\<lparr>t_reason := r\<rparr> else t)"

fun post_loop ::
  "libdnf \<Rightarrow> replay_conf \<Rightarrow> (pkg \<Rightarrow> string) \<Rightarrow> string list \<Rightarrow> (string, reason) dict \<Rightarrow> tsi list \<Rightarrow>
     tsi list \<times> string list \<times> string list" where
  "post_loop l c txt cache reasons [] = ([], [], [])"
| "post_loop l c txt cache reasons (t # ts) =
     (let (ts', errs, warns) = post_loop l c txt cache reasons ts
      in case tsi_pkg t of
           Inl _ \<Rightarrow> (t # ts', errs, warns)
         | Inr p \<Rightarrow>
             let nevra = txt p; t' = post_reason l reasons nevra t
             in if is_extra c cache nevra (t_action t)
                then if \<not> rc_ignore_extras c then (t' # ts', extra_msg nevra # errs, warns)
                     else (t' # ts', errs, extra_msg nevra # warns)
                else (t' # ts', errs, warns))"

definition post_transaction ::
  "libdnf \<Rightarrow> replay_conf \<Rightarrow> (pkg \<Rightarrow> string) \<Rightarrow> tsi list option \<Rightarrow> replay \<Rightarrow> unit res \<times> tsi list option \<times> replay" where
  "post_transaction l c txt transaction s =
     (case transaction of
        None \<Rightarrow> (Inr (), None, s)
      | Some items \<Rightarrow>
          let (items', errors, warns) = post_loop l c txt (ry_nevra_cache s) (ry_reasons s) items;
              s' = s\<lparr>ry_warnings := ry_warnings s @ warns\<rparr>
          in (if errors \<noteq> [] then Inl (TransactionReplayError (rc_filename c) errors) else Inr (), Some items', s'))"

end
