(* ===== verification/History.thy ===== *)
theory History
  imports Rpm_Transaction Format
begin

text \<open>
  dnf/db/history.py: the interface to the history database.  The database itself is libdnf's; what
  dnf tells it is a list of calls, and what it answers are parameters.
\<close>

subsection \<open>Old transactions\<close>

datatype trans_state = TR_UNKNOWN | TR_DONE | TR_ERROR

record db_trans =
  dt_id :: int
  dt_rpmdb_begin :: string
  dt_rpmdb_end :: string
  dt_state :: trans_state

record trans_wrapper =
  tw_trans :: db_trans
  tw_altered_lt :: bool
  tw_altered_gt :: bool

definition wrap_trans :: "db_trans \<Rightarrow> trans_wrapper" where
  "wrap_trans t = \<lparr>tw_trans = t, tw_altered_lt = False, tw_altered_gt = False\<rparr>"

lemma wrap_trans_simps [simp]:
  "tw_trans (wrap_trans t) = t" "\<not> tw_altered_lt (wrap_trans t)" "\<not> tw_altered_gt (wrap_trans t)"
  by (simp_all add: wrap_trans_def)

definition return_code :: "trans_wrapper \<Rightarrow> int" where
  "return_code w = (if dt_state (tw_trans w) \<noteq> TR_DONE then 1 else 0)"

definition compare_rpmdbv :: "string \<Rightarrow> trans_wrapper \<Rightarrow> trans_wrapper" where
  "compare_rpmdbv rpmdbv w = w\<lparr>tw_altered_gt := (dt_rpmdb_end (tw_trans w) \<noteq> rpmdbv)\<rparr>"

definition to_int :: "string \<Rightarrow> int res" where
  "to_int s = (case py_int s of
     None \<Rightarrow> Inl (ValueError (''invalid literal for int() with base 10: '' @ sq @ s @ sq)) | Some n \<Rightarrow> Inr n)"

text \<open>The loop that sets the flags: \<open>prev\<close> is the previous wrapper, as it has become.\<close>

fun mark_altered :: "trans_wrapper \<Rightarrow> trans_wrapper list \<Rightarrow> trans_wrapper list" where
  "mark_altered prev [] = [prev]"
| "mark_altered prev (t # ts) =
     (if dt_rpmdb_begin (tw_trans t) \<noteq> dt_rpmdb_end (tw_trans prev)
      then prev\<lparr>tw_altered_gt := True\<rparr> # mark_altered (t\<lparr>tw_altered_lt := True\<rparr>) ts
      else prev # mark_altered t ts)"

definition populate_altered :: "trans_wrapper list \<Rightarrow> trans_wrapper list" where
  "populate_altered ws = (case ws of [] \<Rightarrow> [] | w # ws \<Rightarrow> mark_altered w ws)"

definition old :: "db_trans list \<Rightarrow> string list \<Rightarrow> trans_wrapper list res" where
  "old db tids =
     bind_r (map_r to_int tids) (\<lambda>tids.
       let result = map wrap_trans db;
           result = (if tids \<noteq> [] then filter (\<lambda>w. dt_id (tw_trans w) \<in> set tids) result else result)
       in Inr (rev (populate_altered result)))"

definition last_trans :: "db_trans list \<Rightarrow> trans_wrapper option" where
  "last_trans db = (if db = [] then None else Some (wrap_trans (List.last db)))"

lemma mark_altered_length [simp]: "length (mark_altered w ws) = Suc (length ws)"
  by (induction w ws rule: mark_altered.induct) auto

lemma mark_altered_head:
  "\<exists>b. mark_altered w ws ! 0 = w\<lparr>tw_altered_gt := b\<rparr> \<and>
     b = (tw_altered_gt w \<or> (ws \<noteq> [] \<and> dt_rpmdb_begin (tw_trans (hd ws)) \<noteq> dt_rpmdb_end (tw_trans w)))"
  by (cases ws) (auto intro: exI [of _ "tw_altered_gt w"])

text \<open>What is expected of the flags of the wrapper at a position.\<close>

definition differs_before :: "trans_wrapper list \<Rightarrow> nat \<Rightarrow> bool" where
  "differs_before ws i \<longleftrightarrow> 0 < i \<and> i < length ws \<and> dt_rpmdb_begin (tw_trans (ws ! i)) \<noteq> dt_rpmdb_end (tw_trans (ws ! (i - 1)))"

lemma differs_before_Cons: "differs_before (t # ts) (Suc i) \<longleftrightarrow>
    (if i = 0 then ts \<noteq> [] \<and> dt_rpmdb_begin (tw_trans (hd ts)) \<noteq> dt_rpmdb_end (tw_trans t) else differs_before ts i)"
  by (cases ts; cases i) (auto simp: differs_before_def)

lemma mark_altered_nth:
  "i \<le> length ws \<Longrightarrow>
     tw_trans (mark_altered w ws ! i) = tw_trans ((w # ws) ! i) \<and>
     tw_altered_lt (mark_altered w ws ! i) = (tw_altered_lt ((w # ws) ! i) \<or> differs_before (w # ws) i) \<and>
     tw_altered_gt (mark_altered w ws ! i) = (tw_altered_gt ((w # ws) ! i) \<or> differs_before (w # ws) (Suc i))"
proof (induction w ws arbitrary: i rule: mark_altered.induct)
  case (1 prev)
  then show ?case by (simp add: differs_before_def)
next
  case (2 prev t ts)
  define b where "b \<longleftrightarrow> dt_rpmdb_begin (tw_trans t) \<noteq> dt_rpmdb_end (tw_trans prev)"
  define t' where "t' = (if b then t\<lparr>tw_altered_lt := True\<rparr> else t)"
  have eq: "mark_altered prev (t # ts) = (if b then prev\<lparr>tw_altered_gt := True\<rparr> else prev) # mark_altered t' ts"
    by (simp add: b_def t'_def)
  show ?case
  proof (cases i)
    case 0
    then show ?thesis unfolding eq by (auto simp: differs_before_def b_def)
  next
    case (Suc j)
    with 2(3) have j: "j \<le> length ts" by simp
    have IH: "tw_trans (mark_altered t' ts ! j) = tw_trans ((t' # ts) ! j) \<and>
     tw_altered_lt (mark_altered t' ts ! j) = (tw_altered_lt ((t' # ts) ! j) \<or> differs_before (t' # ts) j) \<and>
     tw_altered_gt (mark_altered t' ts ! j) = (tw_altered_gt ((t' # ts) ! j) \<or> differs_before (t' # ts) (Suc j))"
      using 2(1,2) [of j] j unfolding b_def t'_def by (cases "dt_rpmdb_begin (tw_trans t) \<noteq> dt_rpmdb_end (tw_trans prev)") simp_all
    have d: "differs_before (t' # ts) k = differs_before (t # ts) k" for k
      by (cases k) (auto simp: differs_before_def t'_def nth_Cons split: nat.splits)
    show ?thesis
    proof (cases j)
      case 0
      with IH Suc d show ?thesis
        unfolding eq by (auto simp: t'_def b_def differs_before_def [of _ 0] differs_before_Cons [of prev])
    next
      case (Suc k)
      with IH d \<open>i = Suc j\<close> show ?thesis unfolding eq by (simp add: differs_before_Cons [of prev])
    qed
  qed
qed

text \<open>
  The listing of old transactions: newest first, each as the database has it, flagged as altered
  before if the RPM database it began with is not the one its predecessor in the listing ended with,
  and as altered after if its successor in the listing began with another one.
\<close>

theorem old_listing:
  "\<exists>ws. old db [] = Inr (rev ws) \<and> map tw_trans ws = db \<and>
     (\<forall>i < length db.
        (tw_altered_lt (ws ! i) \<longleftrightarrow> 0 < i \<and> dt_rpmdb_begin (db ! i) \<noteq> dt_rpmdb_end (db ! (i - 1))) \<and>
        (tw_altered_gt (ws ! i) \<longleftrightarrow> Suc i < length db \<and> dt_rpmdb_begin (db ! Suc i) \<noteq> dt_rpmdb_end (db ! i)))"
proof (cases db)
  case Nil
  then show ?thesis by (simp add: old_def populate_altered_def)
next
  case (Cons t ts)
  let ?ws = "mark_altered (wrap_trans t) (map wrap_trans ts)"
  have w: "wrap_trans t # map wrap_trans ts = map wrap_trans db" by (simp add: Cons)
  have nth: "tw_trans (?ws ! i) = db ! i \<and> tw_altered_lt (?ws ! i) = differs_before (map wrap_trans db) i \<and>
      tw_altered_gt (?ws ! i) = differs_before (map wrap_trans db) (Suc i)" if "i < length db" for i
  proof -
    have "map wrap_trans db ! i = wrap_trans (db ! i)" using that by simp
    moreover have "i \<le> length (map wrap_trans ts)" using that by (simp add: Cons)
    ultimately show ?thesis using mark_altered_nth [of i "map wrap_trans ts" "wrap_trans t"] unfolding w by simp
  qed
  have len: "length ?ws = length db" by (simp add: Cons)
  have "map tw_trans ?ws = db" using nth len by (intro nth_equalityI) auto
  moreover have "old db [] = Inr (rev ?ws)" by (simp add: old_def populate_altered_def Cons)
  moreover have "(tw_altered_lt (?ws ! i) \<longleftrightarrow> 0 < i \<and> dt_rpmdb_begin (db ! i) \<noteq> dt_rpmdb_end (db ! (i - 1))) \<and>
      (tw_altered_gt (?ws ! i) \<longleftrightarrow> Suc i < length db \<and> dt_rpmdb_begin (db ! Suc i) \<noteq> dt_rpmdb_end (db ! i))" if "i < length db" for i
    using nth [OF that] that by (auto simp: differs_before_def)
  ultimately show ?thesis by blast
qed

text \<open>
  With a selection of ids the predecessor in the listing need not be the previous transaction: of
  three transactions that follow one another without any alteration, the first and the third are
  flagged when only they are asked for.
\<close>

definition chain :: "db_trans list" where
  "chain = [\<lparr>dt_id = 1, dt_rpmdb_begin = ''a'', dt_rpmdb_end = ''b'', dt_state = TR_DONE\<rparr>,
            \<lparr>dt_id = 2, dt_rpmdb_begin = ''b'', dt_rpmdb_end = ''c'', dt_state = TR_DONE\<rparr>,
            \<lparr>dt_id = 3, dt_rpmdb_begin = ''c'', dt_rpmdb_end = ''d'', dt_state = TR_DONE\<rparr>]"

lemma old_listing_witness: "\<exists>ws. old chain [] = Inr (rev ws) \<and> tw_trans (ws ! 2) = chain ! 2 \<and> \<not> tw_altered_lt (ws ! 2)"
proof -
  from old_listing [of chain] obtain ws where ws: "old chain [] = Inr (rev ws)" "map tw_trans ws = chain"
      and flags: "\<forall>i < length chain. tw_altered_lt (ws ! i) \<longleftrightarrow> 0 < i \<and> dt_rpmdb_begin (chain ! i) \<noteq> dt_rpmdb_end (chain ! (i - 1))"
    by blast
  have two: "2 < length chain" by (simp add: chain_def)
  moreover have "length ws = length chain" using arg_cong [OF ws(2), of length] by (simp only: length_map)
  ultimately have "2 < length ws" by simp
  then have "tw_trans (ws ! 2) = map tw_trans ws ! 2" by simp
  then have "tw_trans (ws ! 2) = chain ! 2" by (simp only: ws(2))
  moreover have "dt_rpmdb_begin (chain ! 2) = dt_rpmdb_end (chain ! (2 - 1))" by (simp add: chain_def)
  then have "\<not> tw_altered_lt (ws ! 2)" using flags two by blast
  ultimately show ?thesis using ws(1) by blast
qed

lemma selection_flags:
  "map_r to_int [''1'', ''3''] = Inr [1, 3]"
  "map (\<lambda>w. (tw_altered_lt w, tw_altered_gt w)) (rev (populate_altered (map wrap_trans chain))) = [(False, False), (False, False), (False, False)]"
  "map (\<lambda>w. (tw_altered_lt w, tw_altered_gt w)) (rev (populate_altered (filter (\<lambda>w. dt_id (tw_trans w) \<in> set [1, 3]) (map wrap_trans chain))))
     = [(True, False), (False, True)]"
  by (simp_all add: to_int_def py_int_def strip_def lstrip_def rstrip_def py_space_def read_digits_def digit_val_def
      populate_altered_def chain_def wrap_trans_def)

subsection \<open>Reasons\<close>

definition user_installed :: "rpm_env \<Rightarrow> pkg \<Rightarrow> bool" where
  "user_installed e p =
     (let r = re_reason e (p_name p) (p_arch p) (-1)
      in if r = USER then True else if r = UNKNOWN then True else False)"

definition get_erased_reason :: "rpm_env \<Rightarrow> pkg \<Rightarrow> int \<Rightarrow> bool \<Rightarrow> reason" where
  "get_erased_reason e p first_trans rollback =
     (let result = (if rollback then re_reason e (p_name p) (p_arch p) first_trans
                    else re_reason e (p_name p) (p_arch p) (-1))
      in if result = UNKNOWN then USER else result)"

lemma erased_reason_known: "get_erased_reason e p i b \<noteq> UNKNOWN"
  by (simp add: get_erased_reason_def Let_def)

subsection \<open>A session with the database\<close>

datatype db_call =
    InitTransaction
  | BeginTransaction int string string int string
  | SetReleasever string
  | SetPersistence int
  | ReasonChange tsi
  | ConsoleLine int string
  | EndTransaction int string trans_state
  | CloseTransaction
  | CloseDatabase

record session =
  si_open :: bool
  si_tid :: "int option"
  si_output :: "(int \<times> string) list"
  si_calls :: "db_call list"
  si_releasever :: string

definition new_session :: "string \<Rightarrow> session" where
  "new_session releasever = \<lparr>si_open = False, si_tid = None, si_output = [], si_calls = [], si_releasever = releasever\<rparr>"

definition call_db :: "db_call \<Rightarrow> (session, unit) prog" where
  "call_db c = modify_p (\<lambda>s. s\<lparr>si_calls := si_calls s @ [c]\<rparr>)"

text \<open>The property \<open>swdb\<close>: \<open>err\<close> is the text of the RuntimeError that opening the database raises.\<close>

definition swdb_open :: "string option \<Rightarrow> (session, unit) prog" where
  "swdb_open err =
     bind_p (gets_p si_open) (\<lambda>opened.
       if opened then return_p ()
       else case err of
         Some e \<Rightarrow> raise_p (DatabaseError e)
       | None \<Rightarrow> then_p (modify_p (\<lambda>s. s\<lparr>si_open := True\<rparr>)) (call_db InitTransaction))"

definition on_swdb :: "string option \<Rightarrow> db_call \<Rightarrow> (session, unit) prog" where
  "on_swdb err c = then_p (swdb_open err) (call_db c)"

definition set_reason :: "rpm_env \<Rightarrow> (string \<Rightarrow> string) \<Rightarrow> string option \<Rightarrow> pkg \<Rightarrow> string \<Rightarrow> reason \<Rightarrow> (session, unit) prog" where
  "set_reason e repo_of err p txt r =
     on_swdb err (ReasonChange ((rpm_item e p (repo_of txt) REASON_CHANGE r)\<lparr>t_state := ST_DONE\<rparr>))"

text \<open>
  \<open>beg\<close>: \<open>now\<close> and \<open>uid\<close> are the time and the login uid, \<open>tid\<close> the id the database gives.
\<close>

definition beg ::
  "string option \<Rightarrow> int \<Rightarrow> int \<Rightarrow> int \<Rightarrow> string \<Rightarrow> string option \<Rightarrow> string \<Rightarrow> int \<Rightarrow> (session, int) prog" where
  "beg err now uid tid rpmdb_version cmdline comment persistence =
     then_p (catch_p (on_swdb err InitTransaction) (\<lambda>_. Some (return_p ())))
     (then_p (on_swdb err (BeginTransaction now rpmdb_version (case cmdline of None \<Rightarrow> [] | Some c \<Rightarrow> c) uid comment))
     (bind_p (gets_p si_releasever) (\<lambda>rv.
      then_p (on_swdb err (SetReleasever rv))
     (then_p (on_swdb err (SetPersistence persistence))
     (then_p (modify_p (\<lambda>s. s\<lparr>si_tid := Some tid\<rparr>)) (return_p tid))))))"

definition log_scriptlet_output :: "string \<Rightarrow> (session, unit) prog" where
  "log_scriptlet_output msg =
     bind_p (gets_p si_tid) (\<lambda>tid.
       if tid = None then return_p ()
       else modify_p (\<lambda>s. s\<lparr>si_output := si_output s @ map (\<lambda>l. (1, l)) (splitlines_acc [] msg)\<rparr>))"

definition end_trans :: "string option \<Rightarrow> int \<Rightarrow> string \<Rightarrow> trans_state option \<Rightarrow> tsi list \<Rightarrow> (session, unit) prog" where
  "end_trans err now end_rpmdb_version rc rpm_items =
     bind_p (gets_p si_tid) (\<lambda>tid.
       if tid = None then return_p ()
       else
         let rc = (case rc of
                None \<Rightarrow> if list_ex (\<lambda>t. t_state t = ST_ERROR) rpm_items then TR_ERROR else TR_DONE
              | Some r \<Rightarrow> r)
         in bind_p (gets_p si_output) (\<lambda>output.
            then_p (for_p (\<lambda>(fd, line). on_swdb err (ConsoleLine fd line)) output)
            (then_p (modify_p (\<lambda>s. s\<lparr>si_output := []\<rparr>))
              (on_swdb err (EndTransaction now end_rpmdb_version rc)))))"

definition close_session :: "(session, unit) prog" where
  "close_session =
     then_p (modify_p (\<lambda>s. s\<lparr>si_tid := None\<rparr>))
     (bind_p (gets_p si_open) (\<lambda>opened.
      then_p (if opened then then_p (call_db CloseTransaction) (call_db CloseDatabase) else return_p ())
        (modify_p (\<lambda>s. s\<lparr>si_open := False, si_output := []\<rparr>))))"

lemma on_swdb_open: "si_open s \<Longrightarrow> on_swdb err c s = (Inr (), s\<lparr>si_calls := si_calls s @ [c]\<rparr>)"
  by (simp add: on_swdb_def swdb_open_def call_db_def then_p_apply bind_p_apply)

lemma on_swdb_closed: "\<not> si_open s \<Longrightarrow> on_swdb None c s = (Inr (), s\<lparr>si_open := True, si_calls := si_calls s @ [InitTransaction, c]\<rparr>)"
  by (simp add: on_swdb_def swdb_open_def call_db_def then_p_apply bind_p_apply)

lemma console_lines_run:
  "si_open s \<Longrightarrow> for_p (\<lambda>(fd, line). on_swdb err (ConsoleLine fd line)) outs s
     = (Inr (), s\<lparr>si_calls := si_calls s @ map (\<lambda>(fd, line). ConsoleLine fd line) outs\<rparr>)"
proof (induction outs arbitrary: s)
  case (Cons x outs)
  obtain fd line where x: "x = (fd, line)" by (cases x)
  let ?s = "s\<lparr>si_calls := si_calls s @ [ConsoleLine fd line]\<rparr>"
  from Cons.prems have "si_open ?s" by simp
  from Cons.IH [OF this] Cons.prems show ?case by (simp add: x then_p_apply on_swdb_open)
qed simp

lemma log_run: "si_tid s \<noteq> None \<Longrightarrow> log_scriptlet_output m s =
    (Inr (), s\<lparr>si_output := si_output s @ map (\<lambda>l. (1, l)) (splitlines_acc [] m)\<rparr>)"
  by (auto simp: log_scriptlet_output_def bind_p_apply)

lemma log_lines_run:
  "si_tid s \<noteq> None \<Longrightarrow> for_p log_scriptlet_output msgs s =
     (Inr (), s\<lparr>si_output := si_output s @ map (\<lambda>l. (1, l)) (concat (map (splitlines_acc []) msgs))\<rparr>)"
proof (induction msgs arbitrary: s)
  case (Cons m msgs)
  let ?s = "s\<lparr>si_output := si_output s @ map (\<lambda>l. (1, l)) (splitlines_acc [] m)\<rparr>"
  from Cons.prems have "si_tid ?s \<noteq> None" by simp
  from Cons.IH [OF this] Cons.prems show ?case by (simp add: then_p_apply log_run)
qed simp

lemma beg_run:
  "\<not> si_open s \<Longrightarrow> beg None now uid tid v cmdline comment persistence s = (Inr tid,
     s\<lparr>si_open := True, si_tid := Some tid, si_calls := si_calls s @ [InitTransaction, InitTransaction,
        BeginTransaction now v (case cmdline of None \<Rightarrow> [] | Some c \<Rightarrow> c) uid comment, SetReleasever (si_releasever s), SetPersistence persistence]\<rparr>)"
  by (simp add: beg_def then_p_apply bind_p_apply catch_p_apply on_swdb_closed on_swdb_open)

text \<open>
  A whole session with the history database: opening, beginning, then any messages of scriptlets,
  then the end.  The database is told of the transaction, then of every line of every message exactly
  once and in order, and at last that the transaction ended, as failed exactly if some RPM item is in
  the error state; nothing is left pending.
\<close>

theorem history_session:
  "snd (then_p (beg None t0 uid tid v0 cmdline comment persistence)
      (then_p (for_p log_scriptlet_output msgs) (end_trans None t1 v1 None items)) (new_session rv)) =
   \<lparr>si_open = True, si_tid = Some tid, si_output = [],
    si_calls = [InitTransaction, InitTransaction, BeginTransaction t0 v0 (case cmdline of None \<Rightarrow> [] | Some c \<Rightarrow> c) uid comment,
        SetReleasever rv, SetPersistence persistence] @
      map (ConsoleLine 1) (concat (map (splitlines_acc []) msgs)) @
      [EndTransaction t1 v1 (if \<exists>t \<in> set items. t_state t = ST_ERROR then TR_ERROR else TR_DONE)],
    si_releasever = rv\<rparr>"
proof -
  have closed: "\<not> si_open (new_session rv)" by (simp add: new_session_def)
  have two: "map (\<lambda>(fd, line). ConsoleLine fd line) (map (\<lambda>l. (1, l)) ls) = map (ConsoleLine 1) ls" for ls by simp
  show ?thesis
    by (simp add: then_p_apply beg_run [OF closed] log_lines_run end_trans_def bind_p_apply Let_def console_lines_run
      on_swdb_open two list_ex_iff comp_def, simp add: new_session_def)
qed

text \<open>
  Without a transaction that began, output of scriptlets and the end of the transaction leave the
  session and the database as they are, and closing forgets the transaction, so that the next output
  is dropped as well.
\<close>

theorem history_without_begin:
  "(si_tid s = None \<longrightarrow> snd (log_scriptlet_output m s) = s \<and> snd (end_trans err now v rc items s) = s) \<and>
   snd (then_p close_session (log_scriptlet_output m) s) = snd (close_session s) \<and>
   si_tid (snd (close_session s)) = None \<and> si_output (snd (close_session s)) = []"
  by (auto simp: log_scriptlet_output_def end_trans_def bind_p_apply then_p_apply close_session_def call_db_def)

lemma history_without_begin_witness: "snd (log_scriptlet_output ''x'' (new_session [])) = new_session []"
  using history_without_begin [of "new_session []" "''x''"] by (simp add: new_session_def)

end
