(* ===== verification/History_Command.thy ===== *)
theory History_Command
  imports Transaction_Replay History
begin

text \<open>
  dnf/cli/commands/history.py: which command runs and what it demands, how its arguments become
  transactions, and how transactions are reverted and stored.

  The history database is a list of transactions, oldest first.  The search for a package, the reason
  a package had, the merging of transactions and the answer of the user are parameters.
\<close>

subsection \<open>The command and its arguments\<close>

definition HISTORY_CMDS :: "string list" where
  "HISTORY_CMDS = [''list'', ''info'', ''redo'', ''replay'', ''rollback'', ''store'', ''undo'', ''userinstalled'']"

record history_demands =
  hd_action :: string
  hd_transactions :: "string list"
  hd_filename :: "string option"
  hd_available :: bool
  hd_resolving :: bool
  hd_root :: bool
  hd_fresh :: bool
  hd_sack :: bool
  hd_one_id :: bool
  hd_keep_requirements :: bool
  hd_no_weak_deps :: bool

definition one_id_message :: "string \<Rightarrow> string" where
  "one_id_message act = ''Found more than one transaction ID.'' @ nl @ sq @ act @ sq @ '' requires one transaction ID or package name.''"

text \<open>The check that a key is known, for \<open>gpgcheck\<close>, \<open>repo_gpgcheck\<close> and \<open>gpgkey\<close> of the enabled repositories.\<close>

definition checkGPGKey :: "bool \<Rightarrow> bool \<Rightarrow> (bool \<times> bool \<times> string list) list \<Rightarrow> unit res" where
  "checkGPGKey gpgcheck known repos =
     (if \<not> gpgcheck \<or> known then Inr ()
      else if \<exists>(g, r, keys) \<in> set repos. (g \<or> r) \<and> keys = [] then Inl (CliError [])
      else Inr ())"

text \<open>The command that runs, and its arguments.\<close>

definition history_action :: "string option \<Rightarrow> string list \<Rightarrow> string \<times> string list" where
  "history_action act args =
     (case act of
        None \<Rightarrow> (hd HISTORY_CMDS, args)
      | Some a \<Rightarrow> if a = [] then (hd HISTORY_CMDS, args) else if a \<in> set HISTORY_CMDS then (a, args) else (hd HISTORY_CMDS, a # args))"

text \<open>\<open>configure\<close>; \<open>abspath\<close> is \<open>os.path.abspath\<close>, \<open>readable\<close> whether the database can be read.\<close>

definition configure_history ::
  "(string \<Rightarrow> string) \<Rightarrow> unit res \<Rightarrow> string \<Rightarrow> bool \<Rightarrow> string option \<Rightarrow> string list \<Rightarrow> history_demands res" where
  "configure_history abspath gpg db_path readable act args =
     (let (act, args) = history_action act args;
          d = \<lparr>hd_action = act, hd_transactions = args, hd_filename = None, hd_available = False, hd_resolving = False, hd_root = False,
            hd_fresh = True, hd_sack = False, hd_one_id = False, hd_keep_requirements = False, hd_no_weak_deps = False\<rparr>
      in bind_r
        (if act = ''replay''
         then (case args of
             [] \<Rightarrow> Inl (CliError ''No transaction file name given.'')
           | [f] \<Rightarrow> bind_r gpg (\<lambda>_. Inr (d\<lparr>hd_filename := Some (abspath f), hd_transactions := [], hd_available := True,
               hd_resolving := True, hd_root := True, hd_keep_requirements := True, hd_no_weak_deps := True\<rparr>))
           | _ \<Rightarrow> Inl (CliError ''More than one argument given as transaction file name.''))
         else if act = ''store''
         then (if args = [] then Inl (CliError ''No transaction ID or package name given.'') else Inr (d\<lparr>hd_one_id := True\<rparr>))
         else if act \<in> {''redo'', ''undo'', ''rollback''}
         then (if args = [] then Inl (CliError ''No transaction ID or package name given.'')
           else if 1 < length args then Inl (CliError (one_id_message act))
           else bind_r gpg (\<lambda>_. Inr (d\<lparr>hd_one_id := True, hd_available := True, hd_resolving := True, hd_root := True\<rparr>)))
         else Inr (d\<lparr>hd_fresh := False\<rparr>))
        (\<lambda>d. if db_path \<noteq> '':memory:'' \<and> \<not> readable
          then Inl (CliError (''You don'' @ sq @ ''t have access to the history DB: '' @ db_path)) else Inr (d\<lparr>hd_sack := True\<rparr>)))"

text \<open>What to say of a failed check of the transaction; \<open>None\<close> is what every command says.\<close>

definition one_of :: "string list \<Rightarrow> string res" where
  "one_of xs = (case xs of [x] \<Rightarrow> Inr x | _ \<Rightarrow> Inl (ValueError ''unpack''))"

definition history_error_output :: "string \<Rightarrow> string list \<Rightarrow> bool \<Rightarrow> string list option res" where
  "history_error_output act args check_error =
     (if check_error \<and> act = ''undo''
      then bind_r (one_of args) (\<lambda>i.
        Inr (Some [''Cannot undo transaction '' @ i @ '', doing so would result in an inconsistent package database.'']))
      else if check_error \<and> act = ''rollback''
      then (case args of
          [] \<Rightarrow> Inl IndexError
        | a # rest \<Rightarrow> bind_r (one_of (if a \<noteq> ''force'' then args else rest)) (\<lambda>i.
            Inr (Some [''Cannot rollback transaction '' @ i @ '', doing so would result in an inconsistent package database.''])))
      else Inr None)"

text \<open>\<open>s.split('..', n)\<close>.\<close>

fun cut_dots :: "string \<Rightarrow> (string \<times> string) option" where
  "cut_dots (a # b # s) =
     (if a = CHR ''.'' \<and> b = CHR ''.'' then Some ([], s) else map_option (\<lambda>(x, y). (a # x, y)) (cut_dots (b # s)))"
| "cut_dots _ = None"

fun split_dots :: "nat \<Rightarrow> string \<Rightarrow> string list" where
  "split_dots 0 s = [s]"
| "split_dots (Suc n) s = (case cut_dots s of None \<Rightarrow> [s] | Some (x, y) \<Rightarrow> x # split_dots n y)"

datatype hc_message = HcCritical string | HcWarning string | HcInfo string

definition hc_say :: "hc_message \<Rightarrow> (hc_message list, unit) prog" where
  "hc_say m = modify_p (\<lambda>ms. ms @ [m])"

text \<open>A transaction id; what is not positive counts from the newest transaction.\<close>

definition str2transaction_id :: "int option \<Rightarrow> string \<Rightarrow> int res" where
  "str2transaction_id newest s =
     bind_r (to_int (if s = ''last'' then ''0'' else if startswith s ''last-'' then drop 4 s else s)) (\<lambda>n.
       if 0 < n then Inr n
       else case newest of None \<Rightarrow> Inl (AttributeError ''tid'') | Some l \<Rightarrow> Inr (n + l))"

definition is_value_error :: "exn \<Rightarrow> bool" where
  "is_value_error x = (case x of ValueError m \<Rightarrow> True | _ \<Rightarrow> False)"

definition cannot_convert :: "string \<Rightarrow> string" where
  "cannot_convert t = ''Can'' @ sq @ ''t convert '' @ sq @ t @ sq @ '' to transaction ID.'' @ nl @
     ''Use '' @ sq @ ''<number>'' @ sq @ '', '' @ sq @ ''last'' @ sq @ '', '' @ sq @ ''last-<number>'' @ sq @ ''.''"

definition range_id :: "int option \<Rightarrow> string \<Rightarrow> (hc_message list, int) prog" where
  "range_id newest s =
     catch_p (lift_p (str2transaction_id newest s))
       (\<lambda>x. if is_value_error x then Some (then_p (hc_say (HcCritical (cannot_convert s))) (raise_p (CliError []))) else None)"

text \<open>The ids of an argument, and the range it is, in ascending order.\<close>

definition arg_range :: "bool \<Rightarrow> string \<Rightarrow> int option \<Rightarrow> string \<Rightarrow> (hc_message list, int \<times> int) prog" where
  "arg_range require_one act newest t =
     (case split_dots 2 t of
        [b, e] \<Rightarrow>
          bind_p (range_id newest b) (\<lambda>b.
          bind_p (range_id newest e) (\<lambda>e.
            if require_one \<and> b \<noteq> e then then_p (hc_say (HcCritical (one_id_message act))) (raise_p (CliError []))
            else return_p (min b e, max b e)))
      | _ \<Rightarrow> then_p (hc_say (HcCritical (''Invalid transaction ID range definition '' @ sq @ t @ sq @ ''.'' @ nl @
            ''Use '' @ sq @ ''<transaction-id>..<transaction-id>'' @ sq @ ''.''))) (raise_p (CliError [])))"

definition arg_ids :: "bool \<Rightarrow> int option \<Rightarrow> (string \<Rightarrow> int list) \<Rightarrow> string \<Rightarrow> (hc_message list, int list) prog" where
  "arg_ids require_one newest search t =
     catch_p (bind_p (lift_p (str2transaction_id newest t)) (\<lambda>n. return_p [n]))
       (\<lambda>x. if \<not> is_value_error x then None
         else Some (let found = search t; msg = ''No transaction which manipulates package '' @ sq @ t @ sq @ '' was found.'' in
           if found \<noteq> [] then return_p found
           else if require_one then then_p (hc_say (HcCritical msg)) (raise_p (CliError []))
           else then_p (hc_say (HcInfo msg)) (return_p [])))"

definition add_arg ::
  "bool \<Rightarrow> string \<Rightarrow> int option \<Rightarrow> (string \<Rightarrow> int list) \<Rightarrow> string \<Rightarrow> int list \<times> (int \<times> int) list \<Rightarrow> (hc_message list, int list \<times> (int \<times> int) list) prog" where
  "add_arg require_one act newest search t = (\<lambda>(tids, merged).
     if is_sub ''..'' t
     then bind_p (arg_range require_one act newest t) (\<lambda>(b, e). return_p (tids @ [b..e], merged @ [(b, e)]))
     else bind_p (arg_ids require_one newest search t) (\<lambda>ids. return_p (tids @ ids, merged)))"

definition args2transaction_ids ::
  "bool \<Rightarrow> string \<Rightarrow> int option \<Rightarrow> (string \<Rightarrow> int list) \<Rightarrow> string list \<Rightarrow> (hc_message list, int list \<times> (int \<times> int) set) prog" where
  "args2transaction_ids require_one act newest search args =
     bind_p (fold_p (add_arg require_one act newest search) args ([], [])) (\<lambda>(tids, merged).
       return_p (rev (sort (remdups tids)), set merged))"

subsection \<open>The transactions of the history\<close>

definition history_get_transactions :: "db_trans list \<Rightarrow> int list \<Rightarrow> trans_wrapper list res" where
  "history_get_transactions db tids =
     (if tids = [] then Inl (CliError ''No transaction ID given'')
      else bind_r (old db (map int_str tids)) (\<lambda>ws.
        if ws = [] then Inl (CliError (''Transaction ID '' @ dq @ int_str (hd tids) @ dq @ '' not found.'')) else Inr ws))"

definition history_get_transaction :: "db_trans list \<Rightarrow> int list \<Rightarrow> trans_wrapper res" where
  "history_get_transaction db tids =
     bind_r (history_get_transactions db tids) (\<lambda>ws.
       if 1 < length ws then Inl (CliError ''Found more than one transaction ID!'') else Inr (hd ws))"

subsection \<open>Reverting\<close>

definition action_map :: "(string, string) dict" where
  "action_map =
     [(''Install'', ''Removed''), (''Removed'', ''Install''), (''Upgrade'', ''Downgraded''), (''Upgraded'', ''Downgrade''),
      (''Downgrade'', ''Upgraded''), (''Downgraded'', ''Upgrade''), (''Reinstalled'', ''Reinstall''), (''Reinstall'', ''Reinstalled''),
      (''Obsoleted'', ''Install''), (''Obsolete'', ''Obsoleted''), (''Reason Change'', ''Reason Change'')]"

text \<open>The reason a package had in a transaction, by name and architecture, as text; and the NEVRAs a text can mean.\<close>

record revert_env =
  re_nevras :: "string \<Rightarrow> nevra_parts list"
  re_reason :: "string \<Rightarrow> string \<Rightarrow> int \<Rightarrow> string"

text \<open>An assignment to an entry of a JSON object.\<close>

definition j_put :: "string \<Rightarrow> json \<Rightarrow> json \<Rightarrow> json" where
  "j_put k v d = (case d of JObj kvs \<Rightarrow> JObj (dict_set k v kvs) | _ \<Rightarrow> d)"

text \<open>The reverse of an action; an action that is no text of the table is no key of it.\<close>

definition reverse_action :: "json \<Rightarrow> string res" where
  "reverse_action v =
     (case v of
        JStr a \<Rightarrow> (case map_of action_map a of None \<Rightarrow> Inl (KeyError a) | Some b \<Rightarrow> Inr b)
      | JArr _ \<Rightarrow> Inl TypeError
      | JObj _ \<Rightarrow> Inl TypeError
      | _ \<Rightarrow> Inl (KeyError ''''))"

definition revert_reason :: "revert_env \<Rightarrow> int \<Rightarrow> string \<Rightarrow> json \<Rightarrow> json res" where
  "revert_reason e tid act ti =
     bind_r (j_contains ''nevra'' ti) (\<lambda>has.
       if act \<noteq> ''Reason Change'' \<or> \<not> has then Inr ti
       else bind_r (bind_r (j_item ti ''nevra'') need_str) (\<lambda>n. case re_nevras e n of
           [] \<Rightarrow> Inl IndexError
         | nv # _ \<Rightarrow> Inr (j_put ''reason'' (JStr (re_reason e (nv_name nv) (nv_arch nv) (tid - 1))) ti)))"

definition revert_item :: "revert_env \<Rightarrow> int \<Rightarrow> json \<Rightarrow> json res" where
  "revert_item e tid ti =
     bind_r (j_item ti ''action'') (\<lambda>a.
     bind_r (reverse_action a) (\<lambda>act.
       let ti = j_put ''action'' (JStr act) ti in
       bind_r (j_get ti ''reason'' JNull) (\<lambda>reason.
       let ti = (if act = ''Install'' \<and> reason = JStr ''clean'' then j_put ''reason'' (JStr ''dependency'') ti else ti) in
       bind_r (revert_reason e tid act ti) (\<lambda>ti.
       bind_r (j_get ti ''repo_id'' JNull) (\<lambda>repo.
         Inr (if repo = JStr ''@System'' then j_put ''repo_id'' JNull ti else ti))))))"

definition revert_content :: "revert_env \<Rightarrow> int \<Rightarrow> string \<Rightarrow> json \<Rightarrow> json res" where
  "revert_content e tid key data =
     bind_r (j_contains key data) (\<lambda>has.
       if \<not> has then Inr data
       else bind_r (j_item data key) (\<lambda>v.
         bind_r (j_iter v) (\<lambda>tis.
         bind_r (map_r (revert_item e tid) tis) (\<lambda>tis. Inr (j_put key (JArr tis) data)))))"

definition revert_data :: "revert_env \<Rightarrow> int \<Rightarrow> json \<Rightarrow> json res" where
  "revert_data e tid data =
     bind_r (revert_content e tid ''rpms'' data) (\<lambda>data.
     bind_r (revert_content e tid ''groups'' data) (\<lambda>data. revert_content e tid ''environments'' data))"

text \<open>\<open>_revert_transaction\<close>: what is reverted is replayed, with what is installed or pulled in being fine.\<close>

definition revert_conf :: "bool \<Rightarrow> bool \<Rightarrow> replay_conf" where
  "revert_conf skip strict = \<lparr>rc_filename = [], rc_ignore_extras = True, rc_ignore_installed = True, rc_skip_unavailable = skip, rc_strict = strict\<rparr>"

definition replay_of :: "replay_env \<Rightarrow> bool \<Rightarrow> bool \<Rightarrow> json \<Rightarrow> (replay, unit) prog" where
  "replay_of v skip strict data =
     bind_p (lift_p (replay_init [] (Some data) (JsonError []))) (\<lambda>rd. replay_run v (revert_conf skip strict) rd)"

definition revert_transaction ::
  "replay_env \<Rightarrow> revert_env \<Rightarrow> bool \<Rightarrow> bool \<Rightarrow> int \<Rightarrow> hist_item list option \<Rightarrow> (replay, unit) prog" where
  "revert_transaction v e skip strict tid items =
     bind_p (lift_p (revert_data e tid (serialize_transaction (ve_lib v) items))) (replay_of v skip strict)"

text \<open>Undo and redo of one transaction; \<open>items\<close> gives the items of a transaction.\<close>

definition hcmd_undo ::
  "replay_env \<Rightarrow> revert_env \<Rightarrow> bool \<Rightarrow> bool \<Rightarrow> db_trans list \<Rightarrow> (db_trans \<Rightarrow> hist_item list) \<Rightarrow> int list \<Rightarrow> (replay, unit) prog" where
  "hcmd_undo v e skip strict db items tids =
     bind_p (lift_p (history_get_transaction db tids)) (\<lambda>w.
       revert_transaction v e skip strict (dt_id (tw_trans w)) (Some (items (tw_trans w))))"

definition hcmd_redo ::
  "replay_env \<Rightarrow> bool \<Rightarrow> bool \<Rightarrow> db_trans list \<Rightarrow> (db_trans \<Rightarrow> hist_item list) \<Rightarrow> int list \<Rightarrow> (replay, unit) prog" where
  "hcmd_redo v skip strict db items tids =
     bind_p (lift_p (history_get_transaction db tids)) (\<lambda>w.
       replay_of v skip strict (serialize_transaction (ve_lib v) (Some (items (tw_trans w)))))"

definition incomplete_warning :: "trans_wrapper \<Rightarrow> hc_message list" where
  "incomplete_warning w =
     (if tw_altered_lt w then [HcWarning (''Transaction history is incomplete, before '' @ int_str (dt_id (tw_trans w)) @ ''.'')]
      else if tw_altered_gt w then [HcWarning (''Transaction history is incomplete, after '' @ int_str (dt_id (tw_trans w)) @ ''.'')]
      else [])"

text \<open>The transactions that a rollback reverts, newest first, with the warnings.\<close>

definition rollback_transactions :: "db_trans list \<Rightarrow> int list \<Rightarrow> (trans_wrapper list \<times> hc_message list) res" where
  "rollback_transactions db tids =
     bind_r (history_get_transaction db tids) (\<lambda>w.
       case last_trans db of
         None \<Rightarrow> Inl (AttributeError ''tid'')
       | Some l \<Rightarrow>
           let first = dt_id (tw_trans w); final = dt_id (tw_trans l) in
           if first = final then Inr ([], [])
           else bind_r (old db (map int_str [first + 1..final])) (\<lambda>ws. Inr (ws, concat (map incomplete_warning ws))))"

text \<open>The merged transaction: its items and the first of its ids, as libdnf merges them.\<close>

definition hcmd_rollback ::
  "replay_env \<Rightarrow> revert_env \<Rightarrow> bool \<Rightarrow> bool \<Rightarrow> db_trans list \<Rightarrow> (db_trans list \<Rightarrow> hist_item list) \<Rightarrow> (db_trans list \<Rightarrow> int) \<Rightarrow> int list \<Rightarrow>
    (replay, hc_message list) prog" where
  "hcmd_rollback v e skip strict db merged_items merged_tid tids =
     bind_p (lift_p (rollback_transactions db tids)) (\<lambda>(ws, warnings).
       let ts = map tw_trans ws in
       then_p (revert_transaction v e skip strict (merged_tid ts) (if ts = [] then None else Some (merged_items ts)))
         (return_p warnings))"

subsection \<open>Storing\<close>

text \<open>What happens to a file: it is written with the data, or the user keeps it.\<close>

datatype store_result = Stored string json | NotOverwritten string

definition hcmd_store ::
  "libdnf \<Rightarrow> db_trans list \<Rightarrow> (db_trans \<Rightarrow> hist_item list) \<Rightarrow> string option \<Rightarrow> bool \<Rightarrow> bool \<Rightarrow> (string \<Rightarrow> bool) \<Rightarrow> bool \<Rightarrow> (string \<Rightarrow> string option) \<Rightarrow>
    int list \<Rightarrow> store_result res" where
  "hcmd_store l db items outfile assumeno assumeyes isfile confirm write_error tids =
     bind_r (history_get_transaction db tids) (\<lambda>w.
       let filename = (case outfile of None \<Rightarrow> ''transaction.json'' | Some f \<Rightarrow> f) in
       if (assumeno \<or> \<not> assumeyes) \<and> isfile filename \<and> (assumeno \<or> \<not> confirm) then Inr (NotOverwritten filename)
       else case write_error filename of
         Some m \<Rightarrow> Inl (CliError (''Error storing transaction: '' @ m))
       | None \<Rightarrow> Inr (Stored filename (serialize_transaction l (Some (items (tw_trans w))))))"

subsection \<open>Running\<close>

text \<open>What \<open>run\<close> calls once it has the ids; \<open>HNone\<close> when no transaction is found for a listing.\<close>

datatype history_call =
    HList "int list" bool
  | HInfo "int list" "string list" "(int \<times> int) set"
  | HUndo "int list"
  | HRedo "int list"
  | HRollback "int list"
  | HUserinstalled
  | HStore "int list"
  | HNone

definition history_dispatch :: "string \<Rightarrow> string list \<Rightarrow> bool \<Rightarrow> int list \<Rightarrow> (int \<times> int) set \<Rightarrow> history_call" where
  "history_dispatch act args rv tids merged =
     (if act = ''list'' \<and> (tids \<noteq> [] \<or> args = []) then HList tids rv
      else if act = ''info'' \<and> (tids \<noteq> [] \<or> args = []) then HInfo tids args merged
      else if act = ''undo'' then HUndo tids
      else if act = ''redo'' then HRedo tids
      else if act = ''rollback'' then HRollback tids
      else if act = ''userinstalled'' then HUserinstalled
      else if act = ''store'' then HStore tids
      else HNone)"

definition hcmd_replay :: "replay_env \<Rightarrow> replay_conf \<Rightarrow> string \<Rightarrow> file_json \<Rightarrow> (replay, unit) prog" where
  "hcmd_replay v c filename content =
     bind_p (lift_p (replay_init filename None content)) (\<lambda>rd. replay_run v c rd)"

definition replaying :: "string \<Rightarrow> bool" where
  "replaying act \<longleftrightarrow> act \<in> {''replay'', ''redo'', ''rollback'', ''undo''}"

definition history_warnings :: "string \<Rightarrow> string list \<Rightarrow> string list" where
  "history_warnings act warnings =
     (if \<not> replaying act \<or> warnings = [] then []
      else ''Warning, the following problems occurred while running a transaction:'' # map (\<lambda>w. ''  '' @ w) warnings)"

end
