(* ===== verification/Replay_Properties.thy ===== *)
theory Replay_Properties
  imports Transaction_Replay
begin

text \<open>
  What replaying a stored transaction guarantees: which versions and shapes load, what a stored
  transaction means when it is replayed, that errors are collected and not lost, and what is checked
  and set once the transaction is resolved.
\<close>

subsection \<open>Versions\<close>

lemma int_str_no_dot: "CHR ''.'' \<notin> set (int_str n)"
proof -
  have "\<not> is_digit CHR ''.''" by (simp add: is_digit_def digit_val_def)
  then have "CHR ''.'' \<notin> set (nat_str k)" for k by (meson nat_str_is_digit)
  then show ?thesis by (simp add: int_str_def)
qed

lemma check_int_versions: "check_version (int_str VERSION_MAJOR @ ''.'' @ int_str n) fn = Inr ()"
  using int_str_no_dot by (simp add: check_version_def split_append_sep split_no_sep)

lemma check_VERSION: "check_version VERSION fn = Inr ()"
  unfolding VERSION_def by (rule check_int_versions)

text \<open>
  The version check accepts exactly the texts with one dot, a major part that reads as the
  supported major version and a minor part that reads as any number; with one dot, every rejection is
  a replay error that names the file.
\<close>

theorem version_accepted:
  "(check_version v fn = Inr () \<longleftrightarrow>
      (\<exists>major minor. split_on CHR ''.'' v = [major, minor] \<and> py_int major = Some VERSION_MAJOR \<and> py_int minor \<noteq> None)) \<and>
   (\<forall>e. check_version v fn = Inl e \<longrightarrow> length (split_on CHR ''.'' v) = 2 \<longrightarrow>
      (\<exists>msgs. e = TransactionReplayError fn msgs \<or> e = IncompatibleTransactionVersionError fn msgs)) \<and>
   check_version (int_str VERSION_MAJOR @ ''.'' @ int_str n) fn = Inr ()"
proof (intro conjI)
  have cases: "(\<exists>M m. split_on CHR ''.'' v = [M, m]) \<or> length (split_on CHR ''.'' v) \<noteq> 2"
    by (auto simp: numeral_2_eq_2 length_Suc_conv)
  show "check_version v fn = Inr () \<longleftrightarrow>
      (\<exists>major minor. split_on CHR ''.'' v = [major, minor] \<and> py_int major = Some VERSION_MAJOR \<and> py_int minor \<noteq> None)"
    using cases by (auto simp: check_version_def split: list.splits option.splits)
  show "\<forall>e. check_version v fn = Inl e \<longrightarrow> length (split_on CHR ''.'' v) = 2 \<longrightarrow>
      (\<exists>msgs. e = TransactionReplayError fn msgs \<or> e = IncompatibleTransactionVersionError fn msgs)"
    by (auto simp: check_version_def split: list.splits option.splits if_splits)
  show "check_version (int_str VERSION_MAJOR @ ''.'' @ int_str n) fn = Inr ()" by (rule check_int_versions)
qed

lemma version_accepted_witness: "check_version (int_str VERSION_MAJOR @ ''.'' @ int_str 7) [] = Inr ()"
  using version_accepted [of "[]" "[]" 7] by blast

text \<open>Without exactly one dot the unpacking fails, and the error is not a replay error.\<close>

lemma version_unpack: "check_version ''1'' fn = Inl (ValueError ''values to unpack'')"
  by (simp add: check_version_def)

subsection \<open>Storing and loading\<close>

definition lib_ok :: "libdnf \<Rightarrow> bool" where
  "lib_ok l \<longleftrightarrow> (\<forall>r. ld_reason l (ld_reason_str l r) = Some r) \<and> (\<forall>t. ld_types l (ld_types_str l t) = Inr t)"

lemma serialize_shape:
  "serialize_loop l items = (rpms, groups, envs) \<Longrightarrow>
     load_from_data fn (serialize_transaction l (Some items)) = Inr \<lparr>rd_rpms = rpms, rd_groups = groups, rd_environments = envs\<rparr>"
  by (simp add: serialize_transaction_def load_from_data_def verify_toplevel_json_def assert_type_def is_jstr_def
      check_VERSION load_array_def is_jarr_def)


definition example_types_str :: "ptype set \<Rightarrow> string" where
  "example_types_str t = (if CONDITIONAL \<in> t then ''c'' else []) @ (if DEFAULT \<in> t then ''d'' else []) @
     (if MANDATORY \<in> t then ''m'' else []) @ (if OPTIONAL \<in> t then ''o'' else [])"

definition example_lib :: libdnf where
  "example_lib = \<lparr>ld_reason = (\<lambda>s. map_of [(''unknown'', UNKNOWN), (''dependency'', DEPENDENCY), (''user'', USER), (''clean'', CLEAN),
       (''weak-dependency'', WEAK_DEPENDENCY), (''group'', GROUP)] s),
     ld_reason_str = (\<lambda>r. case r of UNKNOWN \<Rightarrow> ''unknown'' | DEPENDENCY \<Rightarrow> ''dependency'' | USER \<Rightarrow> ''user'' | CLEAN \<Rightarrow> ''clean''
       | WEAK_DEPENDENCY \<Rightarrow> ''weak-dependency'' | GROUP \<Rightarrow> ''group''),
     ld_reason_cmp = (\<lambda>a b. if a = b then 0 else if a = USER then 1 else - 1),
     ld_types = (\<lambda>s. Inr ((if CHR ''c'' \<in> set s then {CONDITIONAL} else {}) \<union> (if CHR ''d'' \<in> set s then {DEFAULT} else {}) \<union>
       (if CHR ''m'' \<in> set s then {MANDATORY} else {}) \<union> (if CHR ''o'' \<in> set s then {OPTIONAL} else {}))),
     ld_types_str = example_types_str, ld_fmt = (\<lambda>_. [])\<rparr>"

lemma example_lib_ok: "lib_ok example_lib"
proof -
  have "ld_reason example_lib (ld_reason_str example_lib r) = Some r" for r by (cases r) (simp_all add: example_lib_def)
  moreover have "ld_types example_lib (ld_types_str example_lib t) = Inr t" for t
  proof -
    have chars: "CHR ''c'' \<in> set (example_types_str t) \<longleftrightarrow> CONDITIONAL \<in> t" "CHR ''d'' \<in> set (example_types_str t) \<longleftrightarrow> DEFAULT \<in> t"
      "CHR ''m'' \<in> set (example_types_str t) \<longleftrightarrow> MANDATORY \<in> t" "CHR ''o'' \<in> set (example_types_str t) \<longleftrightarrow> OPTIONAL \<in> t"
      by (simp_all add: example_types_str_def)
    have "x \<in> (if CONDITIONAL \<in> t then {CONDITIONAL} else {}) \<union> (if DEFAULT \<in> t then {DEFAULT} else {}) \<union>
        (if MANDATORY \<in> t then {MANDATORY} else {}) \<union> (if OPTIONAL \<in> t then {OPTIONAL} else {}) \<longleftrightarrow> x \<in> t" for x
      by (cases x) simp_all
    then show ?thesis unfolding example_lib_def libdnf.simps chars by (intro arg_cong [where f = Inr] set_eqI)
  qed
  ultimately show ?thesis by (simp add: lib_ok_def)
qed


subsection \<open>A stored group replayed\<close>

text \<open>An environment without any package, and a replay that has not started.\<close>

definition example_hawkey :: hawkey where
  "example_hawkey = \<lparr>hk_nevras = (\<lambda>_. []), hk_na = (\<lambda>_ _. []), hk_evr = (\<lambda>q _ _ _. q), hk_repo = (\<lambda>q _. q),
     hk_installed = (\<lambda>_. []), hk_available = id, hk_union = (@), hk_installonly = (\<lambda>_. [])\<rparr>"

definition example_replay_env :: replay_env where
  "example_replay_env = \<lparr>ve_hawkey = example_hawkey, ve_lib = example_lib, ve_swdb = example_swdb, ve_comps = example_comps\<rparr>"

definition example_replay_conf :: replay_conf where
  "example_replay_conf = \<lparr>rc_filename = ''transaction.json'', rc_ignore_extras = False, rc_ignore_installed = False,
     rc_skip_unavailable = False, rc_strict = True\<rparr>"

definition fresh_replay :: replay where
  "fresh_replay = \<lparr>ry_nevra_cache = [], ry_reasons = [], ry_warnings = [], ry_goal = [], ry_reason_changes = [],
     ry_hist = hist0, ry_errors = []\<rparr>"

text \<open>What running a computation on the history inside the replay does.\<close>

lemma on_hist_run: "m (ry_hist s) = (r, h) \<Longrightarrow> on_hist m s = (r, s\<lparr>ry_hist := h\<rparr>)"
  by (simp add: on_hist_def)

lemma replay_group_pkgs_run:
  assumes "lib_ok l"
  shows "a < length (h_groups (ry_hist s)) \<Longrightarrow>
    for_p (replay_group_pkg l a) (map (\<lambda>p. JObj [(''name'', JStr (gk_name p)), (''installed'', JBool (gk_installed p)),
          (''package_type'', JStr (ld_types_str l (gk_type p)))]) ps) s =
    (Inr (), s\<lparr>ry_hist := (ry_hist s)\<lparr>h_groups := (h_groups (ry_hist s))[a := (group_at (ry_hist s) a)\<lparr>sg_pkgs :=
        sg_pkgs (group_at (ry_hist s) a) @ ps\<rparr>]\<rparr>\<rparr>)"
proof (induction ps arbitrary: s)
  case Nil
  then show ?case by (simp add: group_at_def)
next
  case (Cons p ps)
  let ?j = "JObj [(''name'', JStr (gk_name p)), (''installed'', JBool (gk_installed p)), (''package_type'', JStr (ld_types_str l (gk_type p)))]"
  let ?h = "(ry_hist s)\<lparr>h_groups := (h_groups (ry_hist s))[a := (group_at (ry_hist s) a)\<lparr>sg_pkgs := sg_pkgs (group_at (ry_hist s) a) @ [p]\<rparr>]\<rparr>"
  let ?s = "s\<lparr>ry_hist := ?h\<rparr>"
  have "group_pkg_fields l ?j = Inr (gk_name p, gk_installed p, gk_type p)"
    using assms by (simp add: group_pkg_fields_def assert_type_def is_jstr_def is_jbool_def lib_ok_def)
  moreover have "addPackage a (gk_name p) (gk_installed p) (gk_type p) (ry_hist s) = (Inr (), ?h)"
    by (cases p) (simp add: addPackage_def)
  ultimately have one: "replay_group_pkg l a ?j s = (Inr (), ?s)"
    by (simp add: replay_group_pkg_def bind_p_apply on_hist_def)
  from Cons.prems have "a < length (h_groups (ry_hist ?s))" by simp
  from Cons.IH [OF this] Cons.prems one show ?case by (simp add: then_p_apply group_at_def)
qed

text \<open>
  C33. Replaying a stored installation of a group restores it: if the group is still in the metadata,
  the item that was written for it is replayed without an error or a warning, and registers as
  installed a group of the same id and package types with exactly the packages, installed flags and
  types that were stored.
\<close>

theorem stored_group_restored:
  assumes lib: "lib_ok (ve_lib v)" and cg: "group_by_id (ve_comps v) (sg_id g) = Some cg"
  shows "\<exists>s' a. replay_group_item v c (ser_group (ve_lib v) ''Install'' g) s = (Inr (), s') \<and>
    ry_errors s' = ry_errors s \<and> ry_warnings s' = ry_warnings s \<and> ry_goal s' = ry_goal s \<and>
    map_of (pe_installed (h_gp (ry_hist s'))) (sg_id g) = Some a \<and>
    sg_id (group_at (ry_hist s') a) = sg_id g \<and> sg_types (group_at (ry_hist s') a) = sg_types g \<and>
    sg_pkgs (group_at (ry_hist s') a) = sg_pkgs g"
proof -
  let ?l = "ve_lib v" and ?h = "ry_hist s"
  let ?a = "length (h_groups ?h)"
  let ?G = "\<lparr>sg_id = sg_id g, sg_name = co_name cg, sg_tname = ui_name (cs_langs (ve_comps v)) cg, sg_types = sg_types g, sg_pkgs = []\<rparr>"
  let ?ps = "map (\<lambda>p. JObj [(''name'', JStr (gk_name p)), (''installed'', JBool (gk_installed p)),
          (''package_type'', JStr (ld_types_str ?l (gk_type p)))]) (sg_pkgs g)"
  let ?s1 = "s\<lparr>ry_hist := ?h\<lparr>h_groups := h_groups ?h @ [?G]\<rparr>\<rparr>"
  let ?s2 = "s\<lparr>ry_hist := ?h\<lparr>h_groups := h_groups ?h @ [?G\<lparr>sg_pkgs := sg_pkgs g\<rparr>]\<rparr>\<rparr>"
  have types: "ld_types ?l (ld_types_str ?l (sg_types g)) = Inr (sg_types g)" using lib by (simp add: lib_ok_def)
  have new: "on_hist (group_new (sg_id g) (co_name cg) (ui_name (cs_langs (ve_comps v)) cg) (sg_types g)) s = (Inr ?a, ?s1)"
    by (simp add: on_hist_def group_new_def alloc_group_def bind_p_apply then_p_apply)
  have "?a < length (h_groups (ry_hist ?s1))" by simp
  from replay_group_pkgs_run [OF lib this, of "sg_pkgs g"]
  have fill: "for_p (replay_group_pkg ?l ?a) ?ps ?s1 = (Inr (), ?s2)" by (simp add: group_at_def)
  have create: "create_swdb_group v c (JStr (sg_id g)) (sg_types g) (JArr ?ps) s = (Inr (Some ?a), ?s2)"
    unfolding create_swdb_group_def by (simp add: cg bind_p_apply then_p_apply new with_key_error_def fill key_error_def)
  let ?s3 = "?s2\<lparr>ry_hist := (ry_hist ?s2)\<lparr>h_gp := (h_gp ?h)\<lparr>pe_installed := dict_set (sg_id g) ?a (pe_installed (h_gp ?h))\<rparr>,
     h_log := h_log ?h @ [AddItem (GroupItem ?a) INSTALL USER, SetState (GroupItem ?a) ST_DONE]\<rparr>\<rparr>"
  have finish: "finish_group gp_install (Some ?a) ?s2 = (Inr (), ?s3)"
    by (simp add: finish_group_def on_hist_def gp_install_def group_persistor.run_install put_gp_def group_obj_id_def group_at_def)
  define s2 s3 where "s2 = ?s2" and "s3 = ?s3"
  note create' = create [folded s2_def] and finish' = finish [folded s3_def s2_def]
  have "replay_group_item v c (ser_group ?l ''Install'' g) s = (Inr (), s3)"
    by (simp add: replay_group_item_def ser_group_def collect_keys_def catch_p_apply bind_p_apply types Let_def
        swdb_group_install_def create' finish')
  then have "replay_group_item v c (ser_group ?l ''Install'' g) s = (Inr (), ?s3)" by (simp only: s3_def)
  then show ?thesis by (intro exI [of _ ?s3] exI [of _ ?a]) (simp add: group_at_def)
qed

lemma stored_group_restored_witness:
  "\<exists>s' a. replay_group_item example_replay_env example_replay_conf (ser_group example_lib ''Install'' example_group) fresh_replay = (Inr (), s') \<and>
    map_of (pe_installed (h_gp (ry_hist s'))) ''base'' = Some a \<and> map gk_name (sg_pkgs (group_at (ry_hist s') a)) = [''tour'']"
proof -
  let ?cg = "example_cgroup ''base'' ''Base'' [example_cpkg ''tour'' LT_MANDATORY, example_cpkg ''pepper'' LT_OPTIONAL]"
  have lib: "lib_ok (ve_lib example_replay_env)" by (simp add: example_replay_env_def example_lib_ok)
  have cg: "group_by_id (ve_comps example_replay_env) (sg_id example_group) = Some ?cg"
    by (simp add: example_replay_env_def example_group_def example_comps_def group_by_id_def example_defs)
  have "sg_id example_group = ''base''" "map gk_name (sg_pkgs example_group) = [''tour'']" "ve_lib example_replay_env = example_lib"
    by (simp_all add: example_group_def example_replay_env_def)
  then show ?thesis using stored_group_restored [OF lib cg, of example_replay_conf fresh_replay] by auto
qed

end
