(* ===== verification/History_Command_Properties.thy ===== *)
theory History_Command_Properties
  imports History_Command Replay_Properties
begin

text \<open>
  What the history commands guarantee: the arguments name the transactions they should, what is
  reverted twice is as it was, and a rollback reverts just the transactions after the one it names.
\<close>

subsection \<open>Arguments\<close>

text \<open>The transactions an argument stands for.\<close>

definition arg_meaning :: "int option \<Rightarrow> (string \<Rightarrow> int list) \<Rightarrow> string \<Rightarrow> int set" where
  "arg_meaning newest search t =
     (if is_sub ''..'' t
      then (case split_dots 2 t of
          [b, e] \<Rightarrow> (case (str2transaction_id newest b, str2transaction_id newest e) of (Inr i, Inr j) \<Rightarrow> {min i j..max i j} | _ \<Rightarrow> {})
        | _ \<Rightarrow> {})
      else (case str2transaction_id newest t of Inr n \<Rightarrow> {n} | Inl _ \<Rightarrow> set (search t)))"

lemma hc_say_run [simp]: "hc_say m ms = (Inr (), ms @ [m])"
  by (simp add: hc_say_def)

lemma range_id_run: "range_id newest s ms = (Inr n, ms') \<longleftrightarrow> str2transaction_id newest s = Inr n \<and> ms' = ms"
  by (cases "str2transaction_id newest s") (auto simp: range_id_def catch_p_apply then_p_apply split: if_splits)

lemma arg_range_run:
  assumes "arg_range require_one act newest t ms = (Inr (b, e), ms')" and "is_sub ''..'' t"
  shows "b \<le> e \<and> arg_meaning newest search t = {b..e} \<and> (require_one \<longrightarrow> b = e)"
proof -
  from assms(1) obtain x y i j where s: "split_dots 2 t = [x, y]" "str2transaction_id newest x = Inr i" "str2transaction_id newest y = Inr j"
    "require_one \<longrightarrow> i = j" "b = min i j" "e = max i j"
    by (auto simp: arg_range_def bind_p_apply then_p_apply range_id_run split: list.splits prod.splits sum.splits if_splits)
  with assms(2) show ?thesis by (auto simp: arg_meaning_def)
qed

lemma arg_ids_run:
  assumes "arg_ids require_one newest search t ms = (Inr ids, ms')" and "\<not> is_sub ''..'' t"
  shows "set ids = arg_meaning newest search t"
  using assms by (cases "str2transaction_id newest t")
    (auto simp: arg_ids_def arg_meaning_def catch_p_apply bind_p_apply then_p_apply Let_def split: if_splits)

text \<open>The ranges that are remembered are ascending and among the ids.\<close>

definition good_ranges :: "bool \<Rightarrow> int set \<Rightarrow> (int \<times> int) set \<Rightarrow> bool" where
  "good_ranges require_one ids merged \<longleftrightarrow> (\<forall>(b, e) \<in> merged. b \<le> e \<and> {b..e} \<subseteq> ids \<and> (require_one \<longrightarrow> b = e))"

lemma good_ranges_insert:
  "good_ranges require_one (ids \<union> {b..e}) (insert (b, e) merged)" if "good_ranges require_one ids merged" "b \<le> e" "require_one \<longrightarrow> b = e"
  using that by (fastforce simp: good_ranges_def)

lemma good_ranges_mono: "good_ranges require_one ids merged \<Longrightarrow> good_ranges require_one (ids \<union> more_ids) merged"
  by (fastforce simp: good_ranges_def)

lemma add_args_run:
  assumes "fold_p (add_arg require_one act newest search) args (tids, merged) ms = (Inr (tids', merged'), ms')"
    and "good_ranges require_one (set tids) (set merged)"
  shows "set tids' = set tids \<union> (\<Union>t \<in> set args. arg_meaning newest search t) \<and> good_ranges require_one (set tids') (set merged')"
  using assms
proof (induction args arbitrary: tids merged ms)
  case (Cons t args)
  from Cons.prems(1) obtain tids1 merged1 ms1 where 1: "add_arg require_one act newest search t (tids, merged) ms = (Inr (tids1, merged1), ms1)"
    and rest: "fold_p (add_arg require_one act newest search) args (tids1, merged1) ms1 = (Inr (tids', merged'), ms')"
    by (auto simp: bind_p_apply split: prod.splits sum.splits)
  have step: "set tids1 = set tids \<union> arg_meaning newest search t \<and> good_ranges require_one (set tids1) (set merged1)"
  proof (cases "is_sub ''..'' t")
    case True
    with 1 obtain b e ms2 where r: "arg_range require_one act newest t ms = (Inr (b, e), ms2)"
      and eq: "tids1 = tids @ [b..e]" "merged1 = merged @ [(b, e)]"
      by (auto simp: add_arg_def bind_p_apply split: prod.splits sum.splits)
    from arg_range_run [OF r True] good_ranges_insert [OF Cons.prems(2), of b e] show ?thesis by (simp add: eq)
  next
    case False
    with 1 obtain ids ms2 where i: "arg_ids require_one newest search t ms = (Inr ids, ms2)" and eq: "tids1 = tids @ ids" "merged1 = merged"
      by (auto simp: add_arg_def bind_p_apply split: prod.splits sum.splits)
    from arg_ids_run [OF i False] good_ranges_mono [OF Cons.prems(2)] show ?thesis by (simp add: eq)
  qed
  note IH = Cons.IH [OF rest conjunct2 [OF step]]
  from IH step have "set tids' = set tids \<union> (\<Union>t \<in> set (t # args). arg_meaning newest search t)" by (simp add: Un_assoc)
  with IH show ?case by blast
qed simp



subsection \<open>Reverting twice\<close>

definition reversible_actions :: "string list" where
  "reversible_actions = [''Install'', ''Removed'', ''Upgrade'', ''Upgraded'', ''Downgrade'', ''Downgraded'', ''Reinstall'', ''Reinstalled'']"

definition reverse_of :: "string \<Rightarrow> string" where
  "reverse_of a = the (map_of action_map a)"

text \<open>Actions with a reverse, and no detail that reverting forgets.\<close>

fun revertible :: "libdnf \<Rightarrow> hist_item \<Rightarrow> bool" where
  "revertible l (PackageItem a n r repo) \<longleftrightarrow> a \<in> set reversible_actions \<and> repo \<noteq> ''@System'' \<and>
     (a \<in> {''Install'', ''Removed''} \<longrightarrow> ld_reason_str l r \<noteq> ''clean'')"
| "revertible l (HGroupItem a g) \<longleftrightarrow> a \<in> set reversible_actions"
| "revertible l (HEnvItem a e) \<longleftrightarrow> a \<in> set reversible_actions"
| "revertible l OtherItem \<longleftrightarrow> True"

fun reverse_hist :: "hist_item \<Rightarrow> hist_item" where
  "reverse_hist (PackageItem a n r repo) = PackageItem (reverse_of a) n r repo"
| "reverse_hist (HGroupItem a g) = HGroupItem (reverse_of a) g"
| "reverse_hist (HEnvItem a e) = HEnvItem (reverse_of a) e"
| "reverse_hist OtherItem = OtherItem"

lemma reverse_of_reversible:
  assumes "a \<in> set reversible_actions"
  shows "map_of action_map a = Some (reverse_of a)" "reverse_of a \<in> set reversible_actions" "reverse_of (reverse_of a) = a"
    "reverse_of a \<noteq> ''Reason Change''" "reverse_of a \<in> {''Install'', ''Removed''} \<longleftrightarrow> a \<in> {''Install'', ''Removed''}"
  using assms by (auto simp: reversible_actions_def reverse_of_def action_map_def)

lemma revertible_reverse: "revertible l i \<Longrightarrow> revertible l (reverse_hist i) \<and> reverse_hist (reverse_hist i) = i"
  by (cases i) (use reverse_of_reversible in auto)

lemma revert_ser_package:
  assumes "revertible l (PackageItem a n r repo)"
  shows "revert_item e t (ser_package l a n r repo) = Inr (ser_package l (reverse_of a) n r repo)"
  using assms reverse_of_reversible [of a]
  by (auto simp: revert_item_def ser_package_def reverse_action_def revert_reason_def j_put_def dict_set_def)

lemma revert_ser_group:
  assumes "a \<in> set reversible_actions"
  shows "revert_item e t (ser_group l a g) = Inr (ser_group l (reverse_of a) g)"
  using reverse_of_reversible [OF assms]
  by (auto simp: revert_item_def ser_group_def reverse_action_def revert_reason_def j_put_def dict_set_def)

lemma revert_ser_env:
  assumes "a \<in> set reversible_actions"
  shows "revert_item e t (ser_env l a g) = Inr (ser_env l (reverse_of a) g)"
  using reverse_of_reversible [OF assms]
  by (auto simp: revert_item_def ser_env_def reverse_action_def revert_reason_def j_put_def dict_set_def)

lemma revert_loop:
  assumes "\<forall>i \<in> set items. revertible l i" and "serialize_loop l items = (rpms, groups, envs)"
    and "serialize_loop l (map reverse_hist items) = (rpms', groups', envs')"
  shows "map_r (revert_item e t) rpms = Inr rpms' \<and> map_r (revert_item e t) groups = Inr groups' \<and> map_r (revert_item e t) envs = Inr envs'"
  using assms
proof (induction items arbitrary: rpms groups envs rpms' groups' envs')
  case (Cons i items)
  obtain r g v where s: "serialize_loop l items = (r, g, v)" by (metis prod_cases3)
  obtain r' g' v' where s': "serialize_loop l (map reverse_hist items) = (r', g', v')" by (metis prod_cases3)
  from Cons.prems(1) have "\<forall>i \<in> set items. revertible l i" "revertible l i" by simp_all
  with Cons.IH [OF _ s s'] have IH: "map_r (revert_item e t) r = Inr r'" "map_r (revert_item e t) g = Inr g'" "map_r (revert_item e t) v = Inr v'" by simp_all
  show ?case
    using Cons.prems(2,3) s s' IH \<open>revertible l i\<close>
    by (cases i) (auto simp: revert_ser_package revert_ser_group revert_ser_env simp del: revertible.simps(1))
qed simp

lemma map_r_Nil_iff: "map_r f xs = Inr ys \<Longrightarrow> xs = [] \<longleftrightarrow> ys = []"
  by (cases xs) (auto simp: bind_r_Inr_iff)

lemma revert_serialized:
  assumes "\<forall>i \<in> set items. revertible l i"
  shows "revert_data e t (serialize_transaction l (Some items)) = Inr (serialize_transaction l (Some (map reverse_hist items)))"
proof -
  obtain r g v where s: "serialize_loop l items = (r, g, v)" by (metis prod_cases3)
  obtain r' g' v' where s': "serialize_loop l (map reverse_hist items) = (r', g', v')" by (metis prod_cases3)
  have m: "map_r (revert_item e t) r = Inr r'" "map_r (revert_item e t) g = Inr g'" "map_r (revert_item e t) v = Inr v'"
    using revert_loop [OF assms s s'] by simp_all
  note n = m [THEN map_r_Nil_iff]
  show ?thesis
    using m n by (cases "r = []"; cases "g = []"; cases "v = []")
      (auto simp: serialize_transaction_def s s' revert_data_def revert_content_def j_put_def dict_set_def)
qed


definition example_reverting :: revert_env where
  "example_reverting = \<lparr>re_nevras = (\<lambda>_. []), re_reason = (\<lambda>_ _ _. ''user'')\<rparr>"

definition example_items :: "hist_item list" where
  "example_items = [PackageItem ''Install'' ''tour-1-1.noarch'' USER ''main'', PackageItem ''Upgraded'' ''lib-1-1.x86_64'' DEPENDENCY ''main'']"


subsection \<open>Rolling back\<close>

lemma mark_altered_trans: "map tw_trans (mark_altered w ws) = tw_trans w # map tw_trans ws"
  by (induction w ws rule: mark_altered.induct) auto

lemma populate_altered_trans: "map tw_trans (populate_altered ws) = map tw_trans ws"
  by (cases ws) (simp_all add: populate_altered_def mark_altered_trans)

lemma to_int_ids: "map_r to_int (map int_str ids) = Inr ids"
  by (induction ids) (simp_all add: to_int_def)

lemma filter_wrap: "map tw_trans (filter (\<lambda>w. dt_id (tw_trans w) \<in> A) (map wrap_trans db)) = filter (\<lambda>t. dt_id t \<in> A) db"
  by (induction db) auto

lemma old_ids:
  assumes "old db (map int_str ids) = Inr ws" and "ids \<noteq> []"
  shows "map tw_trans ws = rev (filter (\<lambda>t. dt_id t \<in> set ids) db)"
proof -
  from assms have "ws = rev (populate_altered (filter (\<lambda>w. dt_id (tw_trans w) \<in> set ids) (map wrap_trans db)))"
    by (simp add: old_def to_int_ids)
  then show ?thesis by (simp add: rev_map [symmetric] populate_altered_trans filter_wrap)
qed

lemma sorted_last_id: "sorted (map dt_id db) \<Longrightarrow> t \<in> set db \<Longrightarrow> dt_id t \<le> dt_id (List.last db)"
  by (induction db) auto

lemma get_transaction_member:
  assumes "history_get_transaction db tids = Inr w"
  shows "tw_trans w \<in> set db"
proof -
  from assms obtain ws where old: "old db (map int_str tids) = Inr ws" and ne: "tids \<noteq> []" "ws \<noteq> []" "w = hd ws"
    by (auto simp: history_get_transaction_def history_get_transactions_def bind_r_Inr_iff split: if_splits)
  then have "tw_trans w \<in> set (map tw_trans ws)" by simp
  with old_ids [OF old ne(1)] show ?thesis by (metis filter_is_subset set_rev subset_iff)
qed

text \<open>
  C27. What a rollback reverts.  In a history with ascending ids it merges exactly the transactions
  after the one that is named, up to the last, newest first, and none if it is the last itself.
\<close>

theorem rollback_after:
  assumes "rollback_transactions db tids = Inr (ws, warnings)" and "history_get_transaction db tids = Inr w"
    and "sorted (map dt_id db)"
  shows "map tw_trans ws = rev (filter (\<lambda>t. dt_id (tw_trans w) < dt_id t) db)"
proof -
  let ?first = "dt_id (tw_trans w)" and ?final = "dt_id (List.last db)"
  note most = sorted_last_id [OF assms(3)]
  from assms(1,2) have db: "db \<noteq> []" by (auto simp: rollback_transactions_def last_trans_def split: if_splits)
  show ?thesis
  proof (cases "?first = ?final")
    case True
    with assms(1,2) db have "ws = []" by (simp add: rollback_transactions_def last_trans_def)
    moreover have "filter (\<lambda>t. ?first < dt_id t) db = []" using most True by (fastforce simp: filter_empty_conv)
    ultimately show ?thesis by simp
  next
    case False
    with assms(1,2) db have old: "old db (map int_str [?first + 1..?final]) = Inr ws"
      by (auto simp: rollback_transactions_def last_trans_def bind_r_Inr_iff)
    have same: "filter (\<lambda>t. dt_id t \<in> set [?first + 1..?final]) db = filter (\<lambda>t. ?first < dt_id t) db"
      using most by (intro filter_cong) auto
    show ?thesis
    proof (cases "[?first + 1..?final] = []")
      case True
      with False have "?final < ?first" by simp
      moreover have "tw_trans w \<in> set db" using get_transaction_member [OF assms(2)] .
      ultimately show ?thesis using most by fastforce
    next
      case False
      from old_ids [OF old False] show ?thesis unfolding same .
    qed
  qed
qed

lemma rollback_after_witness:
  "\<exists>ws. rollback_transactions chain [1] = Inr ws \<and> map tw_trans (fst ws) = [chain ! 2, chain ! 1]"
proof -
  let ?w = "wrap_trans (chain ! 0)" and ?ws = "(rev (populate_altered (map wrap_trans (tl chain))), [])"
  have run: "rollback_transactions chain [1] = Inr ?ws" "history_get_transaction chain [1] = Inr ?w" 
    by (simp_all add: rollback_transactions_def history_get_transaction_def history_get_transactions_def old_def to_int_def
      chain_def last_trans_def populate_altered_def incomplete_warning_def upto.simps)
  have "sorted (map dt_id chain)" by (simp add: chain_def)
  note after = rollback_after [OF run this]
  have "rev (filter (\<lambda>t. dt_id (tw_trans ?w) < dt_id t) chain) = [chain ! 2, chain ! 1]" by (simp add: chain_def)
  with after have "map tw_trans (fst ?ws) = [chain ! 2, chain ! 1]" unfolding fst_conv by (rule trans)
  then show ?thesis using run(1) by (intro exI conjI)
qed

end
