(* ===== verification/Lock.thy ===== *)
theory Lock
  imports Prelude
begin

text \<open>
  dnf/lock.py: the lock file of a process.  First the decision \<open>_try_lock\<close> takes on the contents of
  the file and the bookkeeping of \<open>__enter__\<close> and \<open>__exit__\<close> in one process; then the interleaving
  of any number of processes at the granularity of system calls, with inodes, so that a file that
  was unlinked stays readable through a descriptor opened before.
\<close>

subsection \<open>One process\<close>

text \<open>
  What \<open>os.read(fd, 20)\<close> gives: nothing, the text of an integer, or something else.
\<close>

datatype content = Empty | PidText int | Malformed

text \<open>
  The critical part of \<open>_try_lock\<close>, under the file lock: the value returned or the exception, and
  the new contents.  \<open>alive\<close> says whether \<open>/proc/<pid>/stat\<close> exists.
\<close>

definition malformed_msg :: "string \<Rightarrow> string" where
  "malformed_msg target = ''Malformed lock file found: '' @ target @ ''.'' @ nl @
     ''Ensure no other dnf/yum process is running and '' @
     ''remove the lock file manually or run '' @
     ''systemd-tmpfiles --remove dnf.conf.''"

definition lock_decide :: "string \<Rightarrow> (int \<Rightarrow> bool) \<Rightarrow> int \<Rightarrow> content \<Rightarrow> int res \<times> content" where
  "lock_decide target alive pid old =
     (case old of
        Empty \<Rightarrow> (Inr pid, PidText pid)
      | Malformed \<Rightarrow> (Inl (LockError (malformed_msg target)), Malformed)
      | PidText old_pid \<Rightarrow>
          if old_pid = pid then (Inr pid, PidText old_pid)
          else if \<not> alive old_pid then (Inr pid, PidText pid)
          else (Inr old_pid, PidText old_pid))"

text \<open>\<open>_try_lock\<close>: \<open>flock_free\<close> is whether the non-blocking file lock is obtained.\<close>

definition try_lock :: "string \<Rightarrow> (int \<Rightarrow> bool) \<Rightarrow> bool \<Rightarrow> int \<Rightarrow> content \<Rightarrow> int res \<times> content" where
  "try_lock target alive flock_free pid old = (if \<not> flock_free then (Inr (-1), old) else lock_decide target alive pid old)"

text \<open>
  The object: its nesting count and the reentrant lock of the threads (the owner and its depth).
\<close>

record plock =
  lk_blocking :: bool
  lk_count :: int
  lk_owner :: "nat option"
  lk_depth :: nat
  lk_description :: string
  lk_log :: "int list"

definition new_lock :: "string \<Rightarrow> bool \<Rightarrow> plock" where
  "new_lock description blocking =
     \<lparr>lk_blocking = blocking, lk_count = 0, lk_owner = None, lk_depth = 0, lk_description = description, lk_log = []\<rparr>"

definition lock_thread :: "nat \<Rightarrow> (plock, unit) prog" where
  "lock_thread me =
     bind_p (gets_p lk_owner) (\<lambda>owner.
       if owner \<noteq> None \<and> owner \<noteq> Some me
       then bind_p (gets_p lk_description) (\<lambda>d. raise_p (ThreadLockError (d @ '' already locked by a different thread'')))
       else modify_p (\<lambda>l. l\<lparr>lk_owner := Some me, lk_depth := Suc (lk_depth l), lk_count := lk_count l + 1\<rparr>))"

definition unlock_thread :: "(plock, unit) prog" where
  "unlock_thread = modify_p (\<lambda>l. l\<lparr>lk_count := lk_count l - 1, lk_depth := lk_depth l - 1,
     lk_owner := (if lk_depth l \<le> 1 then None else lk_owner l)\<rparr>)"

text \<open>
  The loop of \<open>__enter__\<close>, over the values \<open>_try_lock\<close> gives one after the other: the lock is
  obtained (\<open>Some\<close>), or the values are used up while it still waits (\<open>None\<close>).  A new holder is
  logged once.
\<close>

fun enter_loop :: "int \<Rightarrow> int \<Rightarrow> int res list \<Rightarrow> (plock, unit option) prog" where
  "enter_loop my_pid prev_pid [] = return_p None"
| "enter_loop my_pid prev_pid (r # rs) =
     bind_p (lift_p r) (\<lambda>pid.
       if pid = my_pid then return_p (Some ())
       else if pid = -1 then enter_loop my_pid prev_pid rs
       else bind_p (gets_p lk_blocking) (\<lambda>blocking.
         if \<not> blocking
         then then_p unlock_thread (bind_p (gets_p lk_description) (\<lambda>d.
                raise_p (ProcessLockError (d @ '' already locked by '' @ int_str pid) pid)))
         else then_p
           (if prev_pid \<noteq> pid then modify_p (\<lambda>l. l\<lparr>lk_log := lk_log l @ [pid]\<rparr>) else return_p ())
           (enter_loop my_pid pid rs)))"

definition enter :: "nat \<Rightarrow> int \<Rightarrow> int res list \<Rightarrow> (plock, unit option) prog" where
  "enter me my_pid results = then_p (lock_thread me) (enter_loop my_pid (-1) results)"

text \<open>\<open>__exit__\<close>: the flag says whether the file is unlinked.\<close>

definition exit_lock :: "(plock, bool) prog" where
  "exit_lock = bind_p (gets_p (\<lambda>l. lk_count l = 1)) (\<lambda>last. then_p unlock_thread (return_p last))"

lemma lock_decide_acquires_iff:
  "(\<exists>c. lock_decide target alive pid old = (Inr pid, c)) \<longleftrightarrow>
     old = Empty \<or> old = PidText pid \<or> (\<exists>q. old = PidText q \<and> \<not> alive q)"
  by (cases old) (auto simp: lock_decide_def)

lemma lock_decide_content: "lock_decide target alive pid old = (Inr pid, c) \<Longrightarrow> c = PidText pid"
  by (cases old) (auto simp: lock_decide_def split: if_splits)

lemma lock_decide_refuses: "lock_decide target alive pid old = (r, c) \<Longrightarrow> r \<noteq> Inr pid \<Longrightarrow> c = old"
  by (cases old) (auto simp: lock_decide_def split: if_splits)

text \<open>The thread's lock is held exactly as often as the lock was entered.\<close>

definition lock_inv :: "plock \<Rightarrow> bool" where
  "lock_inv l \<longleftrightarrow> lk_count l = int (lk_depth l) \<and> (lk_owner l = None \<longleftrightarrow> lk_depth l = 0)"

lemma lock_inv_new: "lock_inv (new_lock d b)"
  by (simp add: lock_inv_def new_lock_def)

lemma pres_lock_thread: "pres lock_inv (lock_thread me)"
  unfolding lock_thread_def by (intro pres_intro) (auto simp: lock_inv_def)

lemma unlock_thread_inv: "lock_inv l \<Longrightarrow> lk_depth l \<noteq> 0 \<Longrightarrow> lock_inv (snd (unlock_thread l))"
  by (auto simp: lock_inv_def unlock_thread_def)

text \<open>The two exceptions that mean the lock is taken; \<open>_try_lock\<close> raises neither.\<close>

fun busy_error :: "exn \<Rightarrow> bool" where
  "busy_error (ThreadLockError m) = True"
| "busy_error (ProcessLockError m p) = True"
| "busy_error e = False"

lemma enter_loop_balance:
  assumes "lock_inv l" and "lk_depth l \<noteq> 0" and "\<forall>e. Inl e \<in> set rs \<longrightarrow> \<not> busy_error e"
    and "enter_loop my_pid prev rs l = (res, l')"
  shows "lock_inv l' \<and> lk_count l' = lk_count l - (case res of Inl e \<Rightarrow> if busy_error e then 1 else 0 | Inr _ \<Rightarrow> 0)"
  using assms
proof (induction rs arbitrary: prev l)
  case (Cons r rs)
  show ?case
  proof (cases r)
    case (Inl e)
    with Cons.prems show ?thesis by (auto simp: bind_p_def)
  next
    case (Inr pid)
    have sub: "\<forall>e. Inl e \<in> set rs \<longrightarrow> \<not> busy_error e" using Cons.prems(3) by simp
    show ?thesis
    proof (cases "pid = my_pid \<or> pid = -1")
      case True
      with Cons Inr sub show ?thesis by (auto simp: bind_p_def split: if_splits)
    next
      case False
      show ?thesis
      proof (cases "lk_blocking l")
        case True
        define l1 where "l1 = (if prev \<noteq> pid then l\<lparr>lk_log := lk_log l @ [pid]\<rparr> else l)"
        have "lock_inv l1" "lk_depth l1 \<noteq> 0" "lk_count l1 = lk_count l"
          using Cons.prems(1,2) by (auto simp: l1_def lock_inv_def)
        moreover have "enter_loop my_pid pid rs l1 = (res, l')"
          using Cons.prems(4) Inr False True by (auto simp: bind_p_def then_p_def l1_def split: if_splits)
        ultimately show ?thesis using Cons.IH [of l1 pid] sub by simp
      next
        case nonblocking: False
        with Cons.prems Inr False unlock_thread_inv [OF Cons.prems(1,2)] show ?thesis
          by (auto simp: bind_p_def then_p_def unlock_thread_def)
      qed
    qed
  qed
qed auto

text \<open>
  Entering the lock keeps the object's bookkeeping: the count is the depth of the thread lock, a
  successful or waiting entry counts once, and a refusal because another thread or process holds the
  lock counts nothing.  Any other exception of \<open>_try_lock\<close>, such as the one for a malformed file,
  leaves the lock entered.
\<close>

theorem enter_balance:
  assumes "lock_inv l" and "\<forall>e. Inl e \<in> set rs \<longrightarrow> \<not> busy_error e"
    and "enter me my_pid rs l = (res, l')"
  shows "lock_inv l' \<and> lk_count l' = lk_count l + (case res of Inl e \<Rightarrow> if busy_error e then 0 else 1 | Inr _ \<Rightarrow> 1)"
proof (cases "lk_owner l \<noteq> None \<and> lk_owner l \<noteq> Some me")
  case True
  with assms show ?thesis by (auto simp: enter_def lock_thread_def bind_p_def then_p_def)
next
  case False
  define l1 where "l1 = l\<lparr>lk_owner := Some me, lk_depth := Suc (lk_depth l), lk_count := lk_count l + 1\<rparr>"
  have "lock_inv l1" "lk_depth l1 \<noteq> 0" and count: "lk_count l1 = lk_count l + 1"
    using assms(1) by (auto simp: l1_def lock_inv_def)
  moreover have "enter_loop my_pid (-1) rs l1 = (res, l')"
    using assms(3) False by (auto simp: enter_def lock_thread_def bind_p_def then_p_def l1_def)
  ultimately show ?thesis
    using enter_loop_balance [OF _ _ assms(2)] by (auto split: sum.splits)
qed

lemma enter_balance_witness:
  "lock_inv (new_lock ''RPMDB'' False) \<and>
   enter 0 7 [Inr 9] (new_lock ''RPMDB'' False) =
     (Inl (ProcessLockError (''RPMDB already locked by '' @ int_str 9) 9), new_lock ''RPMDB'' False) \<and>
   lk_count (new_lock ''RPMDB'' False) = lk_count (new_lock ''RPMDB'' False) + 0"
proof -
  have run: "enter 0 7 [Inr 9] (new_lock ''RPMDB'' False) =
      (Inl (ProcessLockError (''RPMDB already locked by '' @ int_str 9) 9), new_lock ''RPMDB'' False)"
    by (simp add: enter_def lock_thread_def unlock_thread_def new_lock_def prog_simps)
  from enter_balance [OF lock_inv_new _ run] show ?thesis
    using run lock_inv_new by simp
qed

text \<open>The malformed file: the exception leaves the count at one, so a later exit does not unlink.\<close>

lemma malformed_leaks:
  "snd (enter 0 7 [fst (try_lock target alive True 7 Malformed)] (new_lock d b)) = (new_lock d b)\<lparr>lk_owner := Some 0, lk_depth := 1, lk_count := 1\<rparr>"
  by (simp add: enter_def lock_thread_def try_lock_def lock_decide_def new_lock_def prog_simps)

end
