(* ===== verification/Lock_Interleaving.thy ===== *)
theory Lock_Interleaving
  imports Lock
begin

text \<open>
  dnf/lock.py with many processes.  A step is one system call, or one group of calls no other
  process can observe in between: opening (and creating) the file, taking the file lock, the reading
  and writing done under the file lock up to the closing of the descriptor, the unlinking of
  \<open>__exit__\<close>, and the death of a process.  The path leads to an inode or to none; a descriptor keeps
  an inode whether or not the path still leads to it.
\<close>

datatype pc = Out | Opened nat | Flocked nat | Inside

record sys =
  sy_target :: string
  sy_dir :: "nat option"
  sy_cont :: "nat \<Rightarrow> content"
  sy_flock :: "nat \<Rightarrow> int option"
  sy_alive :: "int \<Rightarrow> bool"
  sy_next :: nat
  sy_pc :: "int \<Rightarrow> pc"

definition goto_pc :: "int \<Rightarrow> pc \<Rightarrow> sys \<Rightarrow> sys" where
  "goto_pc p c s = s\<lparr>sy_pc := (sy_pc s)(p := c)\<rparr>"

definition do_open :: "int \<Rightarrow> sys \<Rightarrow> sys" where
  "do_open p s =
     (case sy_dir s of
        Some i \<Rightarrow> goto_pc p (Opened i) s
      | None \<Rightarrow> goto_pc p (Opened (sy_next s))
          (s\<lparr>sy_dir := Some (sy_next s), sy_cont := (sy_cont s)(sy_next s := Empty), sy_next := Suc (sy_next s)\<rparr>))"

text \<open>The decision under the file lock, the write if any, and the closing that releases the lock.\<close>

definition do_decide :: "int \<Rightarrow> nat \<Rightarrow> sys \<Rightarrow> sys" where
  "do_decide p i s =
     (let (r, c) = lock_decide (sy_target s) (sy_alive s) p (sy_cont s i)
      in goto_pc p (if r = Inr p then Inside else Out)
           (s\<lparr>sy_cont := (sy_cont s)(i := c), sy_flock := (sy_flock s)(i := None)\<rparr>))"

definition do_die :: "int \<Rightarrow> sys \<Rightarrow> sys" where
  "do_die p s = goto_pc p Out (s\<lparr>sy_alive := (sy_alive s)(p := False),
     sy_flock := (\<lambda>i. if sy_flock s i = Some p then None else sy_flock s i)\<rparr>)"

inductive lock_step :: "sys \<Rightarrow> sys \<Rightarrow> bool" where
  open_file: "sy_alive s p \<Longrightarrow> sy_pc s p = Out \<Longrightarrow> lock_step s (do_open p s)"
| flock_busy: "sy_alive s p \<Longrightarrow> sy_pc s p = Opened i \<Longrightarrow> sy_flock s i \<noteq> None \<Longrightarrow> lock_step s (goto_pc p Out s)"
| flock_ok: "sy_alive s p \<Longrightarrow> sy_pc s p = Opened i \<Longrightarrow> sy_flock s i = None \<Longrightarrow>
    lock_step s (goto_pc p (Flocked i) (s\<lparr>sy_flock := (sy_flock s)(i := Some p)\<rparr>))"
| decide: "sy_alive s p \<Longrightarrow> sy_pc s p = Flocked i \<Longrightarrow> lock_step s (do_decide p i s)"
| unlink: "sy_alive s p \<Longrightarrow> sy_pc s p = Inside \<Longrightarrow> lock_step s (goto_pc p Out (s\<lparr>sy_dir := None\<rparr>))"
| die: "sy_alive s p \<Longrightarrow> lock_step s (do_die p s)"

inductive_cases lock_stepE: "lock_step s t"

definition uses :: "sys \<Rightarrow> int \<Rightarrow> nat \<Rightarrow> bool" where
  "uses s p i \<longleftrightarrow> sy_pc s p = Opened i \<or> sy_pc s p = Flocked i"

text \<open>
  The lucky steps: no process dies while another still has a descriptor of a file that the dying
  process wrote and unlinked.
\<close>

definition leaves_trap :: "sys \<Rightarrow> int \<Rightarrow> bool" where
  "leaves_trap s p \<longleftrightarrow> (\<exists>q i. q \<noteq> p \<and> uses s q i \<and> sy_cont s i = PidText p \<and> sy_dir s \<noteq> Some i)"

definition safe_step :: "sys \<Rightarrow> sys \<Rightarrow> bool" where
  "safe_step s t \<longleftrightarrow> lock_step s t \<and> (\<forall>p. sy_alive s p \<and> \<not> sy_alive t p \<longrightarrow> \<not> leaves_trap s p)"

text \<open>
  A start: nobody is in the code, no file lock is held, and the file, if there is one, does not name
  a living process.
\<close>

definition lock_start :: "sys \<Rightarrow> bool" where
  "lock_start s \<longleftrightarrow> (\<forall>p. sy_pc s p = Out) \<and> (\<forall>i. sy_flock s i = None) \<and>
     (\<forall>i. sy_dir s = Some i \<longrightarrow> i < sy_next s \<and> (\<forall>p. sy_cont s i = PidText p \<longrightarrow> \<not> sy_alive s p))"

inductive safe_reachable :: "sys \<Rightarrow> bool" where
  start: "lock_start s \<Longrightarrow> safe_reachable s"
| step: "safe_reachable s \<Longrightarrow> safe_step s t \<Longrightarrow> safe_reachable t"

definition sys_inv :: "sys \<Rightarrow> bool" where
  "sys_inv s \<longleftrightarrow>
     (\<forall>p. sy_pc s p = Inside \<longrightarrow> (\<exists>i. sy_dir s = Some i \<and> sy_cont s i = PidText p)) \<and>
     (\<forall>i p. sy_flock s i = Some p \<longrightarrow> sy_pc s p = Flocked i) \<and>
     (\<forall>p. sy_pc s p \<noteq> Out \<longrightarrow> sy_alive s p) \<and>
     (\<forall>i. sy_dir s = Some i \<longrightarrow> i < sy_next s) \<and>
     (\<forall>q i. uses s q i \<longrightarrow> i < sy_next s) \<and>
     (\<forall>q i. uses s q i \<longrightarrow> sy_dir s \<noteq> Some i \<longrightarrow> (\<exists>r. sy_cont s i = PidText r \<and> sy_alive s r \<and> r \<noteq> q)) \<and>
     (\<forall>p i. sy_alive s p \<longrightarrow> sy_pc s p \<noteq> Inside \<longrightarrow> sy_cont s i = PidText p \<longrightarrow> sy_dir s \<noteq> Some i)"

lemma sys_invI:
  assumes "\<And>p. sy_pc s p = Inside \<Longrightarrow> \<exists>i. sy_dir s = Some i \<and> sy_cont s i = PidText p"
    and "\<And>i p. sy_flock s i = Some p \<Longrightarrow> sy_pc s p = Flocked i"
    and "\<And>p. sy_pc s p \<noteq> Out \<Longrightarrow> sy_alive s p"
    and "\<And>i. sy_dir s = Some i \<Longrightarrow> i < sy_next s"
    and "\<And>q i. uses s q i \<Longrightarrow> i < sy_next s"
    and "\<And>q i. uses s q i \<Longrightarrow> sy_dir s \<noteq> Some i \<Longrightarrow> \<exists>r. sy_cont s i = PidText r \<and> sy_alive s r \<and> r \<noteq> q"
    and "\<And>p i. sy_alive s p \<Longrightarrow> sy_pc s p \<noteq> Inside \<Longrightarrow> sy_cont s i = PidText p \<Longrightarrow> sy_dir s \<noteq> Some i"
  shows "sys_inv s"
  using assms unfolding sys_inv_def by blast

lemma sys_invD:
  assumes "sys_inv s"
  shows "sy_pc s p = Inside \<Longrightarrow> \<exists>i. sy_dir s = Some i \<and> sy_cont s i = PidText p"
    and "sy_flock s i = Some p \<Longrightarrow> sy_pc s p = Flocked i"
    and "sy_pc s p \<noteq> Out \<Longrightarrow> sy_alive s p"
    and "sy_dir s = Some i \<Longrightarrow> i < sy_next s"
    and "uses s p i \<Longrightarrow> i < sy_next s"
    and "uses s p i \<Longrightarrow> sy_dir s \<noteq> Some i \<Longrightarrow> \<exists>r. sy_cont s i = PidText r \<and> sy_alive s r \<and> r \<noteq> p"
    and "sy_alive s p \<Longrightarrow> sy_pc s p \<noteq> Inside \<Longrightarrow> sy_cont s i = PidText p \<Longrightarrow> sy_dir s \<noteq> Some i"
  using assms unfolding sys_inv_def by blast+

lemma goto_pc_simps [simp]:
  "sy_dir (goto_pc p c s) = sy_dir s" "sy_cont (goto_pc p c s) = sy_cont s"
  "sy_flock (goto_pc p c s) = sy_flock s" "sy_alive (goto_pc p c s) = sy_alive s"
  "sy_next (goto_pc p c s) = sy_next s" "sy_pc (goto_pc p c s) = (sy_pc s)(p := c)"
  by (simp_all add: goto_pc_def)

lemma lock_start_inv: "lock_start s \<Longrightarrow> sys_inv s"
  by (rule sys_invI) (auto simp: lock_start_def uses_def)

lemma sys_inv_facts:
  assumes "sys_inv s"
  shows "sy_pc s p = Opened i \<Longrightarrow> i < sy_next s" "sy_pc s p = Flocked i \<Longrightarrow> i < sy_next s"
    and "sy_pc s p = Opened i \<Longrightarrow> sy_alive s p" "sy_pc s p = Flocked i \<Longrightarrow> sy_alive s p"
    and "sy_pc s p = Inside \<Longrightarrow> sy_alive s p"
    and "sy_flock s i = Some p \<Longrightarrow> sy_pc s p = Flocked i"
    and "sy_dir s = Some i \<Longrightarrow> i < sy_next s"
  using sys_invD(5) [OF assms, of p i] sys_invD(3) [OF assms, of p] sys_invD(2) [OF assms, of i p]
    sys_invD(4) [OF assms, of i] by (auto simp: uses_def)

lemma stale:
  assumes "sys_inv s" and "sy_dir s \<noteq> Some i" and "sy_pc s p = Flocked i"
  shows "\<exists>r. sy_cont s i = PidText r \<and> sy_alive s r \<and> r \<noteq> p"
  using sys_invD(6) [OF assms(1) _ assms(2), of p] assms(3) by (simp add: uses_def)

text \<open>
  The seven clauses are kept one by one: a step that leaves a clause's ingredients alone, or only
  makes a process leave, keeps it at once.
\<close>

lemma inv_shrink:
  assumes inv: "sys_inv s"
    and pc: "\<And>q. sy_pc t q = sy_pc s q \<or> q = p"
    and mine: "sy_pc t p = Out \<or> (\<exists>i. sy_pc s p = Opened i \<and> sy_pc t p = Flocked i)"
    and same: "sy_dir t = sy_dir s" "sy_cont t = sy_cont s" "sy_next t = sy_next s"
    and alive: "\<And>q. q \<noteq> p \<Longrightarrow> sy_alive t q = sy_alive s q"
    and alive_p: "sy_alive t p = sy_alive s p \<or> \<not> sy_alive t p \<and> sy_pc t p = Out \<and> \<not> leaves_trap s p"
    and flock: "\<And>i q. sy_flock t i = Some q \<Longrightarrow> sy_pc t q = Flocked i"
    and was: "sy_pc s p \<noteq> Inside \<or> \<not> sy_alive t p"
  shows "sys_inv t"
proof (rule sys_invI)
  fix q assume "sy_pc t q = Inside"
  with pc mine have "sy_pc s q = Inside" by (metis pc.distinct(5) pc.distinct(11))
  with sys_invD(1) [OF inv] same show "\<exists>i. sy_dir t = Some i \<and> sy_cont t i = PidText q" by simp
next
  fix i q assume "sy_flock t i = Some q"
  then show "sy_pc t q = Flocked i" by (rule flock)
next
  fix q assume out: "sy_pc t q \<noteq> Out"
  show "sy_alive t q"
  proof (cases "q = p")
    case True
    with out mine obtain i where "sy_pc s p = Opened i" by blast
    with sys_inv_facts(3) [OF inv] True alive_p out show ?thesis by metis
  next
    case False
    with out pc sys_invD(3) [OF inv] alive show ?thesis by metis
  qed
next
  fix i assume "sy_dir t = Some i"
  with same sys_invD(4) [OF inv] show "i < sy_next t" by simp
next
  fix q i assume "uses t q i"
  then have "uses s q i" using pc [of q] mine by (auto simp: uses_def)
  with sys_invD(5) [OF inv] same show "i < sy_next t" by simp
next
  fix q i assume u: "uses t q i" and d: "sy_dir t \<noteq> Some i"
  from u have us: "uses s q i" using pc [of q] mine by (auto simp: uses_def)
  with d same sys_invD(6) [OF inv] obtain r where r: "sy_cont s i = PidText r" "sy_alive s r" "r \<noteq> q"
    by metis
  have "sy_alive t r"
  proof (cases "r = p")
    case True
    with us r d same have "leaves_trap s p" by (auto simp: leaves_trap_def)
    with alive_p True r(2) show ?thesis by simp
  next
    case False
    with alive r(2) show ?thesis by simp
  qed
  with r same show "\<exists>r. sy_cont t i = PidText r \<and> sy_alive t r \<and> r \<noteq> q" by auto
next
  fix q i assume q: "sy_alive t q" "sy_pc t q \<noteq> Inside" "sy_cont t i = PidText q"
  have "sy_alive s q \<and> sy_pc s q \<noteq> Inside"
    using q(1,2) pc [of q] alive [of q] alive_p was by metis
  with q(3) same sys_invD(7) [OF inv, of q i] show "sy_dir t \<noteq> Some i" by simp
qed

lemma inv_goto_out:
  assumes inv: "sys_inv s" and pc: "sy_pc s p = Opened i"
  shows "sys_inv (goto_pc p Out s)"
  by (rule inv_shrink [OF inv, of _ p]) (use pc sys_inv_facts(6) [OF inv] in \<open>force split: if_splits\<close>)+

lemma inv_flock:
  assumes inv: "sys_inv s" and pc: "sy_pc s p = Opened i" and "sy_flock s i = None"
  shows "sys_inv (goto_pc p (Flocked i) (s\<lparr>sy_flock := (sy_flock s)(i := Some p)\<rparr>))"
  by (rule inv_shrink [OF inv, of _ p]) (use pc sys_inv_facts(6) [OF inv] in \<open>force split: if_splits\<close>)+

lemma inv_die:
  assumes inv: "sys_inv s" and safe: "\<not> leaves_trap s p"
  shows "sys_inv (do_die p s)"
  by (rule inv_shrink [OF inv, of _ p])
    (use safe sys_inv_facts(6) [OF inv] in \<open>force simp: do_die_def split: if_splits\<close>)+

lemma inv_open:
  assumes inv: "sys_inv s" and pc: "sy_pc s p = Out" and alive: "sy_alive s p"
  shows "sys_inv (do_open p s)"
proof (cases "sy_dir s")
  case None
  have nobody: "sy_pc s q \<noteq> Inside" for q using None sys_invD(1) [OF inv] by force
  have st: "uses s q j \<Longrightarrow> \<exists>r. sy_cont s j = PidText r \<and> sy_alive s r \<and> r \<noteq> q" for q j
    using sys_invD(6) [OF inv] None by simp
  have lt: "uses s q j \<Longrightarrow> j < sy_next s" for q j using sys_invD(5) [OF inv] by blast
  show ?thesis
  proof (rule sys_invI)
    fix q i assume "uses (do_open p s) q i" and d: "sy_dir (do_open p s) \<noteq> Some i"
    then have u: "uses s q i" by (auto simp: do_open_def None uses_def split: if_splits)
    with st [OF u] lt [OF u] show "\<exists>r. sy_cont (do_open p s) i = PidText r \<and> sy_alive (do_open p s) r \<and> r \<noteq> q"
      by (auto simp: do_open_def None)
  next
    fix q i assume "uses (do_open p s) q i"
    then have "i = sy_next s \<or> uses s q i" by (auto simp: do_open_def None uses_def split: if_splits)
    with lt show "i < sy_next (do_open p s)" by (auto simp: do_open_def None intro: less_SucI)
  qed (use pc alive nobody sys_invD(3) [OF inv] sys_inv_facts(6) [OF inv] in
    \<open>force simp: do_open_def None split: if_splits\<close>)+
next
  case (Some i)
  have open_eq: "do_open p s = goto_pc p (Opened i) s" by (simp add: do_open_def Some)
  have u: "uses (do_open p s) q j \<longleftrightarrow> (if q = p then j = i else uses s q j)" for q j
    using pc by (auto simp: open_eq uses_def)
  show ?thesis
  proof (rule sys_invI)
    fix q j assume "uses (do_open p s) q j" and "sy_dir (do_open p s) \<noteq> Some j"
    with u Some have "uses s q j" and "sy_dir s \<noteq> Some j" by (auto simp: open_eq split: if_splits)
    from sys_invD(6) [OF inv this] show "\<exists>r. sy_cont (do_open p s) j = PidText r \<and> sy_alive (do_open p s) r \<and> r \<noteq> q"
      by (simp add: open_eq)
  next
    fix q j assume "uses (do_open p s) q j"
    with u sys_invD(4,5) [OF inv] Some show "j < sy_next (do_open p s)" by (auto simp: open_eq split: if_splits)
  next
    fix q j assume "sy_alive (do_open p s) q" "sy_pc (do_open p s) q \<noteq> Inside" "sy_cont (do_open p s) j = PidText q"
    with pc sys_invD(7) [OF inv] show "sy_dir (do_open p s) \<noteq> Some j" by (auto simp: open_eq split: if_splits)
  qed (use pc alive sys_invD(1-4) [OF inv] in \<open>force simp: open_eq split: if_splits\<close>)+
qed

lemma inv_unlink:
  assumes inv: "sys_inv s" and pc: "sy_pc s p = Inside"
  shows "sys_inv (goto_pc p Out (s\<lparr>sy_dir := None\<rparr>))" (is "sys_inv ?t")
proof -
  from sys_invD(1) [OF inv pc] obtain i where i: "sy_dir s = Some i" "sy_cont s i = PidText p" by blast
  have only: "sy_pc s q = Inside \<Longrightarrow> q = p" for q using sys_invD(1) [OF inv, of q] i by auto
  have alive: "sy_alive s p" using sys_inv_facts(5) [OF inv pc] .
  have st: "\<exists>r. sy_cont s j = PidText r \<and> sy_alive s r \<and> r \<noteq> q" if "uses s q j" for q j
  proof (cases "j = i")
    case True
    with that pc i alive show ?thesis by (auto simp: uses_def)
  next
    case False
    with that i sys_invD(6) [OF inv] show ?thesis by simp
  qed
  have u: "uses ?t q j \<Longrightarrow> uses s q j" for q j by (auto simp: uses_def split: if_splits)
  show ?thesis
  proof (rule sys_invI)
    fix q j assume "uses ?t q j"
    from st [OF u [OF this]] show "\<exists>r. sy_cont ?t j = PidText r \<and> sy_alive ?t r \<and> r \<noteq> q" by simp
  next
    fix q j assume "uses ?t q j"
    from u [OF this] sys_invD(5) [OF inv, of q j] show "j < sy_next ?t" by simp
  next
    fix q assume "sy_pc ?t q = Inside"
    with only show "\<exists>i. sy_dir ?t = Some i \<and> sy_cont ?t i = PidText q" by (auto split: if_splits)
  next
    fix q assume "sy_pc ?t q \<noteq> Out"
    with sys_invD(3) [OF inv] show "sy_alive ?t q" by (auto split: if_splits)
  next
    fix j q assume "sy_flock ?t j = Some q"
    with sys_inv_facts(6) [OF inv] pc show "sy_pc ?t q = Flocked j" by force
  qed simp_all
qed

lemma inv_decide:
  assumes inv: "sys_inv s" and pc: "sy_pc s p = Flocked i"
  shows "sys_inv (do_decide p i s)" (is "sys_inv ?t")
proof -
  obtain r c where rc: "lock_decide (sy_target s) (sy_alive s) p (sy_cont s i) = (r, c)" by fastforce
  have alive: "sy_alive s p" using sys_inv_facts(4) [OF inv pc] .
  have flock: "sy_flock ?t j = Some q \<Longrightarrow> sy_pc ?t q = Flocked j" for j q
    using sys_inv_facts(6) [OF inv, of j q] pc by (auto simp: do_decide_def rc split: if_splits)
  have u: "uses ?t q j \<Longrightarrow> q \<noteq> p \<and> uses s q j" for q j
    by (auto simp: do_decide_def rc uses_def split: if_splits)
  show ?thesis
  proof (cases "r = Inr p")
    case False
    with rc have c: "c = sy_cont s i" using lock_decide_refuses by blast
    then have same: "sy_cont ?t = sy_cont s" by (simp add: do_decide_def rc)
    show ?thesis
      by (rule inv_shrink [OF inv, of _ p])
        (use False pc same flock in \<open>force simp: do_decide_def rc\<close>)+
  next
    case True
    with rc have c: "c = PidText p" using lock_decide_content by blast
    from rc True have how: "sy_cont s i = Empty \<or> sy_cont s i = PidText p \<or> (\<exists>q. sy_cont s i = PidText q \<and> \<not> sy_alive s q)"
      using lock_decide_acquires_iff by metis
    have linked: "sy_dir s = Some i"
    proof (rule ccontr)
      assume "sy_dir s \<noteq> Some i"
      from stale [OF inv this pc] how show False by auto
    qed
    have t: "sy_dir ?t = Some i" "sy_cont ?t = (sy_cont s)(i := PidText p)" "sy_alive ?t = sy_alive s"
        "sy_next ?t = sy_next s" "sy_pc ?t = (sy_pc s)(p := Inside)"
      using True c linked by (simp_all add: do_decide_def rc)
    have nobody: "sy_pc s q \<noteq> Inside" for q
    proof
      assume q: "sy_pc s q = Inside"
      with sys_invD(1) [OF inv q] linked have "sy_cont s i = PidText q" by auto
      with how q pc sys_inv_facts(5) [OF inv q] show False by auto
    qed
    show ?thesis
    proof (rule sys_invI)
      fix q j assume "uses ?t q j" and "sy_dir ?t \<noteq> Some j"
      with u t linked have "uses s q j" "sy_dir s \<noteq> Some j" "j \<noteq> i" by auto
      with sys_invD(6) [OF inv] t show "\<exists>r. sy_cont ?t j = PidText r \<and> sy_alive ?t r \<and> r \<noteq> q" by simp
    next
      fix q j assume "uses ?t q j"
      from u [OF this] sys_invD(5) [OF inv, of q j] t show "j < sy_next ?t" by simp
    next
      fix q assume "sy_pc ?t q \<noteq> Out"
      with t alive sys_invD(3) [OF inv] show "sy_alive ?t q" by (auto split: if_splits)
    next
      fix q j assume "sy_alive ?t q" "sy_pc ?t q \<noteq> Inside" "sy_cont ?t j = PidText q"
      with t linked sys_invD(7) [OF inv, of q j] show "sy_dir ?t \<noteq> Some j" by (auto split: if_splits)
    next
      fix q assume "sy_pc ?t q = Inside"
      with t nobody show "\<exists>i. sy_dir ?t = Some i \<and> sy_cont ?t i = PidText q" by (auto split: if_splits)
    next
      fix j assume "sy_dir ?t = Some j"
      with t linked sys_invD(4) [OF inv] show "j < sy_next ?t" by simp
    qed (rule flock)
  qed
qed

lemma safe_step_inv: "safe_step s t \<Longrightarrow> sys_inv s \<Longrightarrow> sys_inv t"
proof -
  assume step: "safe_step s t" and inv: "sys_inv s"
  from step have "lock_step s t" by (simp add: safe_step_def)
  then show "sys_inv t"
  proof cases
    case (die p)
    with step have "\<not> leaves_trap s p" by (auto simp: safe_step_def do_die_def)
    with inv die show ?thesis by (simp add: inv_die)
  qed (use inv in \<open>auto intro: inv_open inv_goto_out inv_flock inv_decide inv_unlink\<close>)
qed

lemma safe_reachable_inv: "safe_reachable s \<Longrightarrow> sys_inv s"
  by (induction rule: safe_reachable.induct) (auto intro: lock_start_inv safe_step_inv)


subsection \<open>Mutual exclusion\<close>

lemma inv_exclusive: "sys_inv s \<Longrightarrow> sy_pc s p = Inside \<Longrightarrow> sy_pc s q = Inside \<Longrightarrow> p = q"
  using sys_invD(1) [of s p] sys_invD(1) [of s q] by auto

text \<open>A first run of one process, as a concrete reachable state.\<close>

definition sys0 :: sys where
  "sys0 = \<lparr>sy_target = ''/var/run/dnf.pid'', sy_dir = None, sy_cont = (\<lambda>_. Empty), sy_flock = (\<lambda>_. None),
     sy_alive = (\<lambda>_. True), sy_next = 0, sy_pc = (\<lambda>_. Out)\<rparr>"

definition take_flock :: "int \<Rightarrow> nat \<Rightarrow> sys \<Rightarrow> sys" where
  "take_flock p i s = goto_pc p (Flocked i) (s\<lparr>sy_flock := (sy_flock s)(i := Some p)\<rparr>)"

definition enter_run :: "int \<Rightarrow> nat \<Rightarrow> sys \<Rightarrow> sys" where
  "enter_run p i s = do_decide p i (take_flock p i (do_open p s))"

definition unlink_run :: "int \<Rightarrow> sys \<Rightarrow> sys" where
  "unlink_run p s = goto_pc p Out (s\<lparr>sy_dir := None\<rparr>)"

lemmas run_defs = sys0_def enter_run_def take_flock_def unlink_run_def do_open_def do_decide_def do_die_def
  goto_pc_def lock_decide_def

lemma safe_stepI: "lock_step s t \<Longrightarrow> sy_alive t = sy_alive s \<Longrightarrow> safe_step s t"
  by (simp add: safe_step_def)

lemma lock_step_flock:
  "sy_alive s p \<Longrightarrow> sy_pc s p = Opened i \<Longrightarrow> sy_flock s i = None \<Longrightarrow> lock_step s (take_flock p i s)"
  unfolding take_flock_def by (rule lock_step.flock_ok)

lemma lock_step_unlink: "sy_alive s p \<Longrightarrow> sy_pc s p = Inside \<Longrightarrow> lock_step s (unlink_run p s)"
  unfolding unlink_run_def by (rule lock_step.unlink)

lemma do_open_alive [simp]: "sy_alive (do_open p s) = sy_alive s"
  by (simp add: do_open_def split: option.splits)

lemma take_flock_alive [simp]: "sy_alive (take_flock p i s) = sy_alive s"
  by (simp add: take_flock_def)

lemma do_decide_alive [simp]: "sy_alive (do_decide p i s) = sy_alive s"
  by (simp add: do_decide_def split: prod.splits)

lemma lock_start_sys0: "lock_start sys0"
  by (simp add: lock_start_def sys0_def)

lemma enter_run_steps:
  assumes "sy_alive s p" "sy_pc s p = Out" "sy_pc (do_open p s) p = Opened i" "sy_flock (do_open p s) i = None"
  shows "safe_step s (do_open p s)" "safe_step (do_open p s) (take_flock p i (do_open p s))"
    "safe_step (take_flock p i (do_open p s)) (enter_run p i s)"
proof -
  show "safe_step s (do_open p s)" by (intro safe_stepI lock_step.open_file) (simp_all add: assms)
  show "safe_step (do_open p s) (take_flock p i (do_open p s))"
    by (intro safe_stepI lock_step_flock) (simp_all add: assms)
  show "safe_step (take_flock p i (do_open p s)) (enter_run p i s)"
    unfolding enter_run_def by (intro safe_stepI lock_step.decide) (simp_all add: assms take_flock_def)
qed

lemma first_run_reachable: "safe_reachable (enter_run 1 0 sys0)"
proof -
  have "sy_alive sys0 1" "sy_pc sys0 1 = Out" "sy_pc (do_open 1 sys0) 1 = Opened 0" "sy_flock (do_open 1 sys0) 0 = None"
    by (simp_all add: run_defs)
  note steps = enter_run_steps [OF this]
  show ?thesis
    by (rule safe_reachable.step [OF safe_reachable.step [OF safe_reachable.step [OF
      safe_reachable.start [OF lock_start_sys0] steps(1)] steps(2)] steps(3)])
qed

text \<open>
  C32. Mutual exclusion: in every reachable state of any number of processes that open, lock, read,
  write and unlink the lock file in any order, at most one is inside the lock, provided that no
  process dies while another one still holds a descriptor of the file it has unlinked.
\<close>

theorem lock_exclusive:
  assumes "safe_reachable s" and "sy_pc s p = Inside" and "sy_pc s q = Inside"
  shows "p = q"
  using safe_reachable_inv [OF assms(1)] assms(2,3) by (rule inv_exclusive)

lemma lock_exclusive_witness: "sy_pc (enter_run 1 0 sys0) 1 = Inside \<and> (1::int) = 1"
proof
  show inside: "sy_pc (enter_run 1 0 sys0) 1 = Inside" by (simp add: run_defs)
  show "(1::int) = 1" by (rule lock_exclusive [OF first_run_reachable inside inside])
qed

text \<open>
  The proviso is needed.  Process 1 is inside; process 2 opens its file; process 1 unlinks the file,
  leaves and ends; process 2 finds in its inode, which no path leads to, the number of a dead
  process, and takes the lock; process 3 creates a new file and takes the lock as well.
\<close>

definition race1 :: sys where "race1 = do_open 2 (enter_run 1 0 sys0)"
definition race2 :: sys where "race2 = do_die 1 (unlink_run 1 race1)"
definition race3 :: sys where "race3 = do_decide 2 0 (take_flock 2 0 race2)"
definition race4 :: sys where "race4 = enter_run 3 1 race3"

lemmas race_defs = race1_def race2_def race3_def race4_def run_defs

lemma race_steps:
  "lock_step (enter_run 1 0 sys0) race1" "lock_step race1 (unlink_run 1 race1)" "lock_step (unlink_run 1 race1) race2"
  "lock_step race2 (take_flock 2 0 race2)" "lock_step (take_flock 2 0 race2) race3"
  unfolding race1_def race2_def race3_def
  by (rule lock_step.open_file lock_step_unlink lock_step.die lock_step_flock lock_step.decide; simp add: race_defs)+

lemma steps_snoc: "lock_step\<^sup>*\<^sup>* s t \<Longrightarrow> lock_step t u \<Longrightarrow> lock_step\<^sup>*\<^sup>* s u"
  by (rule rtranclp.rtrancl_into_rtrancl)

text \<open>
  The race of the lock file: there is an interleaving of the system calls of \<open>_try_lock\<close> and
  \<open>__exit__\<close> of three processes after which two of them are inside the lock at once, because the
  decision is taken on the contents of an inode that was unlinked after it was opened.
\<close>

theorem lock_race: "\<exists>s. lock_start s \<and> lock_step\<^sup>*\<^sup>* s race4 \<and> sy_pc race4 2 = Inside \<and> sy_pc race4 3 = Inside"
proof (intro exI conjI)
  show "lock_start sys0" by (rule lock_start_sys0)
  have safe: "safe_step s t \<Longrightarrow> lock_step s t" for s t by (simp add: safe_step_def)
  have "sy_alive sys0 1" "sy_pc sys0 1 = Out" "sy_pc (do_open 1 sys0) 1 = Opened 0" "sy_flock (do_open 1 sys0) 0 = None"
    by (simp_all add: run_defs)
  note a = enter_run_steps [OF this, THEN safe]
  have "sy_alive race3 3" "sy_pc race3 3 = Out" "sy_pc (do_open 3 race3) 3 = Opened 1" "sy_flock (do_open 3 race3) 1 = None"
    by (simp_all add: race_defs)
  note c = enter_run_steps [OF this, THEN safe]
  show "lock_step\<^sup>*\<^sup>* sys0 race4"
    unfolding race4_def
    by (intro steps_snoc [OF _ c(3)] steps_snoc [OF _ c(2)] steps_snoc [OF _ c(1)] steps_snoc [OF _ race_steps(5)]
      steps_snoc [OF _ race_steps(4)] steps_snoc [OF _ race_steps(3)] steps_snoc [OF _ race_steps(2)]
      steps_snoc [OF _ race_steps(1)] steps_snoc [OF _ a(3)] steps_snoc [OF _ a(2)] steps_snoc [OF _ a(1)]
      rtranclp.rtrancl_refl)
  show "sy_pc race4 2 = Inside" "sy_pc race4 3 = Inside" by (simp_all add: race_defs)
qed

end
