(* ===== verification/Match_Counter.thy ===== *)
theory Match_Counter
  imports Prelude "HOL-Library.Product_Lexorder"
begin

text \<open>
  dnf/match_counter.py: the packages a search found, each with the attributes that matched and the
  words they matched.  The counter is a dictionary from packages to lists of pairs; \<open>attr\<close> stands for
  the attributes of the package objects (\<open>getattr(pkg, key)\<close>), which are not defined in dnf.
\<close>

type_synonym 'p counter = "('p, (string \<times> string) list) dict"

definition WEIGHTS :: "(string, int) dict" where
  "WEIGHTS = [(''name'', 7), (''summary'', 4), (''description'', 2), (''url'', 1)]"

definition canonize_string_set :: "string list \<Rightarrow> nat \<Rightarrow> string list" where
  "canonize_string_set sset n = replicate (n - length sset) [] @ sort sset"

definition match_weight :: "(string \<Rightarrow> string) \<Rightarrow> string \<times> string \<Rightarrow> int res" where
  "match_weight attr m =
     (let (key, needle) = m; haystack = attr key
      in if key = ''name'' \<and> haystack = needle then bind_r (dict_get WEIGHTS key) (\<lambda>w. Inr (2 * w))
         else dict_get WEIGHTS key)"

definition eval_weights :: "('p \<Rightarrow> string \<Rightarrow> string) \<Rightarrow> 'p \<Rightarrow> (string \<times> string) list \<Rightarrow> int res" where
  "eval_weights attr pkg ms = bind_r (map_r (match_weight (attr pkg)) ms) (\<lambda>ws. Inr (sum_list ws))"

text \<open>\<open>self[pkg]\<close>; the text of the missing key is the package's.\<close>

definition matches_of :: "('p \<Rightarrow> string) \<Rightarrow> 'p counter \<Rightarrow> 'p \<Rightarrow> (string \<times> string) list res" where
  "matches_of txt mc pkg = (case map_of mc pkg of None \<Rightarrow> Inl (KeyError (txt pkg)) | Some ms \<Rightarrow> Inr ms)"

definition get_key :: "('p \<Rightarrow> string) \<Rightarrow> ('p \<Rightarrow> string \<Rightarrow> string) \<Rightarrow> 'p counter \<Rightarrow> 'p \<Rightarrow> (int \<times> string) res" where
  "get_key txt attr mc pkg =
     bind_r (matches_of txt mc pkg) (\<lambda>ms. bind_r (eval_weights attr pkg ms) (\<lambda>w. Inr (- w, attr pkg ''name'')))"

definition counter_add :: "'p \<Rightarrow> string \<Rightarrow> string \<Rightarrow> 'p counter \<Rightarrow> 'p counter" where
  "counter_add pkg key needle mc =
     (case map_of mc pkg of
        None \<Rightarrow> dict_set pkg [(key, needle)] mc
      | Some ms \<Rightarrow> dict_set pkg (ms @ [(key, needle)]) mc)"

definition matched_haystacks :: "('p \<Rightarrow> string) \<Rightarrow> ('p \<Rightarrow> string \<Rightarrow> string) \<Rightarrow> 'p counter \<Rightarrow> 'p \<Rightarrow> string set res" where
  "matched_haystacks txt attr mc pkg = bind_r (matches_of txt mc pkg) (\<lambda>ms. Inr (set (map (\<lambda>m. attr pkg (fst m)) ms)))"

fun keys_loop :: "string list \<Rightarrow> (string \<times> string) list \<Rightarrow> string list" where
  "keys_loop result [] = result"
| "keys_loop result (i # is) = keys_loop (if fst i \<in> set result then result else result @ [fst i]) is"

definition matched_keys :: "('p \<Rightarrow> string) \<Rightarrow> 'p counter \<Rightarrow> 'p \<Rightarrow> string list res" where
  "matched_keys txt mc pkg = bind_r (matches_of txt mc pkg) (\<lambda>ms. Inr (keys_loop [] ms))"

definition matched_needles :: "('p \<Rightarrow> string) \<Rightarrow> 'p counter \<Rightarrow> 'p \<Rightarrow> string set res" where
  "matched_needles txt mc pkg = bind_r (matches_of txt mc pkg) (\<lambda>ms. Inr (set (map snd ms)))"

definition max_needles :: "'p counter \<Rightarrow> nat" where
  "max_needles mc = (if mc = [] then 0 else Max (set (map (\<lambda>(p, ms). card (set (map snd ms))) mc)))"

text \<open>
  \<open>sorted(keys, key=get_key)\<close>: the keys are computed first, then the packages are sorted by them,
  stably.  The parameter \<open>reverse\<close> is not read.
\<close>

definition sorted_matches ::
  "('p \<Rightarrow> string) \<Rightarrow> ('p \<Rightarrow> string \<Rightarrow> string) \<Rightarrow> 'p counter \<Rightarrow> 'p list option \<Rightarrow> 'p list res" where
  "sorted_matches txt attr mc limit_to =
     (let keys = (case limit_to of None \<Rightarrow> dict_keys mc | Some [] \<Rightarrow> dict_keys mc | Some ps \<Rightarrow> ps)
      in bind_r (map_r (\<lambda>p. bind_r (get_key txt attr mc p) (\<lambda>k. Inr (k, p))) keys)
           (\<lambda>kps. Inr (map snd (sort_key fst kps))))"

definition counter_total :: "'p counter \<Rightarrow> nat" where
  "counter_total mc = fold (\<lambda>(p, ms) total. total + length ms) mc 0"

text \<open>What the commands build: only known attributes, by \<open>add\<close>.\<close>

definition counter_wf :: "'p counter \<Rightarrow> bool" where
  "counter_wf mc \<longleftrightarrow> dict_wf mc \<and>
     list_all (\<lambda>(p, ms). ms \<noteq> [] \<and> list_all (\<lambda>m. dict_in (fst m) WEIGHTS) ms) mc"

lemma counter_wfD: "counter_wf mc \<Longrightarrow> map_of mc p = Some ms \<Longrightarrow> ms \<noteq> [] \<and> list_all (\<lambda>m. dict_in (fst m) WEIGHTS) ms"
  by (auto simp: counter_wf_def list_all_iff dest!: map_of_SomeD)

lemma counter_wf_set:
  "counter_wf mc \<Longrightarrow> ms \<noteq> [] \<Longrightarrow> list_all (\<lambda>m. dict_in (fst m) WEIGHTS) ms \<Longrightarrow> counter_wf (dict_set p ms mc)"
proof -
  assume a: "counter_wf mc" "ms \<noteq> []" "list_all (\<lambda>m. dict_in (fst m) WEIGHTS) ms"
  have "set (dict_set p ms mc) \<subseteq> insert (p, ms) (set mc)" unfolding dict_set_def by (induction mc) auto
  with a show ?thesis by (fastforce simp: counter_wf_def list_all_iff)
qed

lemma counter_wf_add: "counter_wf mc \<Longrightarrow> dict_in key WEIGHTS \<Longrightarrow> counter_wf (counter_add p key needle mc)"
  unfolding counter_add_def
  by (cases "map_of mc p") (auto intro!: counter_wf_set dest: counter_wfD)

lemma map_of_counter_add:
  "map_of (counter_add p key needle mc) p = Some ((case map_of mc p of None \<Rightarrow> [] | Some ms \<Rightarrow> ms) @ [(key, needle)])"
  "q \<noteq> p \<Longrightarrow> map_of (counter_add p key needle mc) q = map_of mc q"
  by (auto simp: counter_add_def split: option.splits)

definition weight_of :: "(string \<Rightarrow> string) \<Rightarrow> (string \<times> string) list \<Rightarrow> int" where
  "weight_of attr ms = (\<Sum>m\<leftarrow>ms. (if fst m = ''name'' \<and> attr ''name'' = snd m then 2 else 1) * the (map_of WEIGHTS (fst m)))"

lemma eval_weights_known:
  assumes "list_all (\<lambda>m. dict_in (fst m) WEIGHTS) ms"
  shows "eval_weights attr p ms = Inr (weight_of (attr p) ms)"
proof -
  have "map_r (match_weight (attr p)) ms
      = Inr (map (\<lambda>m. (if fst m = ''name'' \<and> attr p ''name'' = snd m then 2 else 1) * the (map_of WEIGHTS (fst m))) ms)"
  proof (rule map_r_total)
    fix m assume "m \<in> set ms"
    with assms obtain w where "map_of WEIGHTS (fst m) = Some w" by (auto simp: list_all_iff dict_in_def)
    then show "match_weight (attr p) m
        = Inr ((if fst m = ''name'' \<and> attr p ''name'' = snd m then 2 else 1) * the (map_of WEIGHTS (fst m)))"
      by (cases m) (auto simp: match_weight_def dict_get_def Let_def)
  qed
  then show ?thesis by (simp add: eval_weights_def weight_of_def)
qed

definition rank :: "('p \<Rightarrow> string \<Rightarrow> string) \<Rightarrow> 'p counter \<Rightarrow> 'p \<Rightarrow> int \<times> string" where
  "rank attr mc p = (- weight_of (attr p) (the (map_of mc p)), attr p ''name'')"

lemma get_key_known: "counter_wf mc \<Longrightarrow> dict_in p mc \<Longrightarrow> get_key txt attr mc p = Inr (rank attr mc p)"
  by (auto simp: get_key_def matches_of_def rank_def dict_in_def eval_weights_known dest: counter_wfD)

text \<open>Decorating, sorting and undecorating is sorting by the key.\<close>

lemma sort_key_map: "map snd (sort_key fst (map (\<lambda>x. (f x, x)) xs)) = sort_key f xs"
proof -
  have dec: "insort_key fst (f x, x) (map (\<lambda>x. (f x, x)) ys) = map (\<lambda>x. (f x, x)) (insort_key f x ys)" for x ys
    by (induction ys) auto
  have "sort_key fst (map (\<lambda>x. (f x, x)) xs) = map (\<lambda>x. (f x, x)) (sort_key f xs)"
    by (induction xs) (auto simp: dec)
  then show ?thesis by (simp add: comp_def)
qed

lemma sorted_matches_eq:
  assumes wf: "counter_wf mc" and "limit_to = None \<or> limit_to = Some []"
  shows "sorted_matches txt attr mc limit_to = Inr (sort_key (rank attr mc) (dict_keys mc))"
proof -
  have "map_r (\<lambda>p. bind_r (get_key txt attr mc p) (\<lambda>k. Inr (k, p))) (dict_keys mc)
      = Inr (map (\<lambda>p. (rank attr mc p, p)) (dict_keys mc))"
  proof (rule map_r_total)
    fix p assume "p \<in> set (dict_keys mc)"
    then have "dict_in p mc" by (auto simp: dict_in_def set_dict_keys)
    with wf show "bind_r (get_key txt attr mc p) (\<lambda>k. Inr (k, p)) = Inr (rank attr mc p, p)" by (simp add: get_key_known)
  qed
  with assms(2) show ?thesis by (auto simp: sorted_matches_def sort_key_map)
qed

text \<open>
  The order in which a search shows its results: \<open>sorted\<close> never fails on a counter built by
  \<open>add\<close> with the known attributes, it lists every package exactly once, a package comes before
  another one if the sum of its weights (an exact match of the name counting double) is larger or if
  the sums agree and its name is smaller, and packages of the same weight and name stay in the order
  in which they were found.
\<close>

theorem search_order:
  assumes "counter_wf mc"
  shows "\<exists>ps. sorted_matches txt attr mc None = Inr ps \<and> distinct ps \<and> set ps = dom (map_of mc) \<and>
    sorted_wrt (\<lambda>p q. let v = weight_of (attr p) (the (map_of mc p)); w = weight_of (attr q) (the (map_of mc q))
       in w < v \<or> w = v \<and> attr p ''name'' \<le> attr q ''name'') ps \<and>
    (\<forall>k. filter (\<lambda>p. rank attr mc p = k) ps = filter (\<lambda>p. rank attr mc p = k) (dict_keys mc))"
proof (intro exI conjI allI)
  let ?ps = "sort_key (rank attr mc) (dict_keys mc)"
  show "sorted_matches txt attr mc None = Inr ?ps" by (rule sorted_matches_eq [OF assms]) simp
  show "distinct ?ps" using assms by (simp add: counter_wf_def dict_wf_def dict_keys_def)
  show "set ?ps = dom (map_of mc)" by (simp add: set_dict_keys)
  have "sorted (map (rank attr mc) ?ps)" by simp
  then have "sorted_wrt (\<lambda>p q. rank attr mc p \<le> rank attr mc q) ?ps" by (simp only: sorted_map)
  then show "sorted_wrt (\<lambda>p q. let v = weight_of (attr p) (the (map_of mc p)); w = weight_of (attr q) (the (map_of mc q))
       in w < v \<or> w = v \<and> attr p ''name'' \<le> attr q ''name'') ?ps"
    by (rule sorted_wrt_mono_rel [rotated]) (auto simp: rank_def less_eq_prod_def Let_def)
  fix k
  show "filter (\<lambda>p. rank attr mc p = k) ?ps = filter (\<lambda>p. rank attr mc p = k) (dict_keys mc)"
    by (rule sort_key_stable)
qed

lemma search_order_witness:
  "\<exists>ps. sorted_matches (\<lambda>p. p) (\<lambda>p k. p) (counter_add ''tour'' ''url'' ''tour'' (counter_add ''tour'' ''name'' ''tour'' [])) None = Inr ps \<and> set ps = {''tour''}"
proof -
  let ?mc = "counter_add ''tour'' ''url'' ''tour'' (counter_add ''tour'' ''name'' ''tour'' [])"
  have wf: "counter_wf ?mc"
    by (intro counter_wf_add) (simp_all add: counter_wf_def dict_in_def WEIGHTS_def)
  have "dom (map_of ?mc) = {''tour''}" by (auto simp: counter_add_def split: if_splits)
  with search_order [OF wf, of "\<lambda>p. p" "\<lambda>p k. p"] show ?thesis by auto
qed

lemma counter_total_eq: "counter_total mc = (\<Sum>(p, ms)\<leftarrow>mc. length ms)"
proof -
  have "fold (\<lambda>(p, ms) total. total + length ms) mc n = n + (\<Sum>(p, ms)\<leftarrow>mc. length ms)" for n
    by (induction mc arbitrary: n) auto
  then show ?thesis by (simp add: counter_total_def)
qed

lemma keys_loop_spec: "distinct result \<Longrightarrow> distinct (keys_loop result ms) \<and> set (keys_loop result ms) = set result \<union> set (map fst ms)"
  by (induction ms arbitrary: result) auto

end
