(* ===== verification/Util_Trans.thy ===== *)
theory Util_Trans
  imports Util "HOL-Library.Multiset"
begin

text \<open>
  dnf/util.py, continued: classification of command line specs, the lists of the transaction
  summary, the reconciliation of RPM's transaction elements with the history database, and the
  writable overlay of image based systems.
\<close>

subsection \<open>Specs\<close>

record namespace =
  filenames :: "string list"
  grp_specs :: "string list"
  pkg_specs :: "string list"

definition is_alpha :: "char \<Rightarrow> bool" where
  "is_alpha c = (let n = of_char c :: nat in 65 \<le> n \<and> n \<le> 90 \<or> 97 \<le> n \<and> n \<le> 122)"

definition ascii_digit :: "char \<Rightarrow> bool" where
  "ascii_digit c = (let n = of_char c :: nat in 48 \<le> n \<and> n \<le> 57)"

definition ascii_lower :: "char \<Rightarrow> char" where
  "ascii_lower c = (let n = of_char c :: nat in if 65 \<le> n \<and> n \<le> 90 then char_of (n + 32) else c)"

text \<open>
  \<open>urllib.parse.urlparse(url)[0]\<close>: leading control characters and spaces go, tabs and line ends
  are removed, and what precedes the first colon is the scheme if it is made of scheme characters.
  A network location with unbalanced brackets raises; \<open>bracketed_ok\<close> stands for the check of a
  bracketed host, which differs between versions of the library.
\<close>

definition scheme_char :: "char \<Rightarrow> bool" where
  "scheme_char c \<longleftrightarrow> is_alpha c \<or> ascii_digit c \<or> c \<in> set ''+-.''"

definition clean_url :: "string \<Rightarrow> string" where
  "clean_url url = filter (\<lambda>c. of_char c \<notin> {9::nat, 10, 13}) (dropWhile (\<lambda>c. (of_char c :: nat) \<le> 32) url)"

definition split_scheme :: "string \<Rightarrow> string \<times> string" where
  "split_scheme url =
     (let pre = takeWhile (\<lambda>c. c \<noteq> CHR '':'') url
      in if length pre < length url \<and> pre \<noteq> [] \<and> is_alpha (hd pre) \<and> list_all scheme_char pre
         then (map ascii_lower pre, drop (Suc (length pre)) url) else ([], url))"

definition url_scheme :: "(string \<Rightarrow> bool) \<Rightarrow> string \<Rightarrow> string res" where
  "url_scheme bracketed_ok url0 =
     (let (scheme, url) = split_scheme (clean_url url0);
          netloc = takeWhile (\<lambda>c. c \<notin> set ''/?#'') (drop 2 url)
      in if startswith url ''//'' \<and> (CHR ''['' \<in> set netloc) \<noteq> (CHR '']'' \<in> set netloc)
         then Inl (ValueError ''Invalid IPv6 URL'')
         else if startswith url ''//'' \<and> CHR ''['' \<in> set netloc \<and> \<not> bracketed_ok netloc
         then Inl (ValueError ''Invalid IPv6 URL'')
         else Inr scheme)"

text \<open>
  The loop of \<open>_parse_specs\<close>; \<open>tmp_set\<close> holds the values seen.  The namespace is the state: what
  was appended before an exception stays.
\<close>

fun parse_specs_loop :: "(string \<Rightarrow> string res) \<Rightarrow> string set \<Rightarrow> string list \<Rightarrow> (namespace, unit) prog" where
  "parse_specs_loop scheme seen [] ns = (Inr (), ns)"
| "parse_specs_loop scheme seen (v # vs) ns =
     (if v \<in> seen then parse_specs_loop scheme seen vs ns
      else (case scheme v of
          Inl e \<Rightarrow> (Inl e, ns)
        | Inr sch \<Rightarrow>
            parse_specs_loop scheme (insert v seen) vs
              (if endswith v ''.rpm'' then ns\<lparr>filenames := filenames ns @ [v]\<rparr>
               else if sch \<noteq> [] \<and> sch \<in> {''http'', ''ftp'', ''file'', ''https''}
                 then ns\<lparr>filenames := filenames ns @ [v]\<rparr>
               else if startswith v ''@'' then ns\<lparr>grp_specs := grp_specs ns @ [drop 1 v]\<rparr>
               else ns\<lparr>pkg_specs := pkg_specs ns @ [v]\<rparr>)))"

definition parse_specs :: "(string \<Rightarrow> string res) \<Rightarrow> string list \<Rightarrow> unit res \<times> namespace" where
  "parse_specs scheme values =
     parse_specs_loop scheme {} values \<lparr>filenames = [], grp_specs = [], pkg_specs = []\<rparr>"

text \<open>What each value is, and the order-preserving removal of repeated values.\<close>

datatype spec_kind = FileSpec | GroupSpec | PackageSpec

definition spec_class :: "(string \<Rightarrow> string res) \<Rightarrow> string \<Rightarrow> spec_kind" where
  "spec_class scheme v =
     (if endswith v ''.rpm'' \<or> (\<exists>s \<in> {''http'', ''ftp'', ''file'', ''https''}. scheme v = Inr s) then FileSpec
      else if startswith v ''@'' then GroupSpec else PackageSpec)"

fun dedup :: "'a set \<Rightarrow> 'a list \<Rightarrow> 'a list" where
  "dedup seen [] = []"
| "dedup seen (x # xs) = (if x \<in> seen then dedup seen xs else x # dedup (insert x seen) xs)"

lemma set_dedup: "set (dedup seen xs) = set xs - seen"
  by (induction seen xs rule: dedup.induct) auto

lemma distinct_dedup: "distinct (dedup seen xs)"
  by (induction seen xs rule: dedup.induct) (auto simp: set_dedup)

lemma parse_specs_loop_classes:
  "(\<And>v. v \<in> set vs \<Longrightarrow> \<exists>s. scheme v = Inr s) \<Longrightarrow>
   parse_specs_loop scheme seen vs ns = (Inr (), ns\<lparr>
     filenames := filenames ns @ filter (\<lambda>v. spec_class scheme v = FileSpec) (dedup seen vs),
     grp_specs := grp_specs ns @ map (drop 1) (filter (\<lambda>v. spec_class scheme v = GroupSpec) (dedup seen vs)),
     pkg_specs := pkg_specs ns @ filter (\<lambda>v. spec_class scheme v = PackageSpec) (dedup seen vs)\<rparr>)"
proof (induction vs arbitrary: seen ns)
  case Nil
  show ?case by simp
next
  case (Cons v vs)
  have rest: "\<And>w. w \<in> set vs \<Longrightarrow> \<exists>s. scheme w = Inr s" using Cons.prems by simp
  from Cons.prems obtain sch where sch: "scheme v = Inr sch" by auto
  show ?case
  proof (cases "v \<in> seen")
    case True
    with Cons.IH [OF rest] show ?thesis by simp
  next
    case False
    then show ?thesis by (simp add: sch Cons.IH [OF rest] spec_class_def)
  qed
qed

subsection \<open>Patterns and values\<close>

text \<open>A pattern argument: a string, a list of strings or any other object.\<close>

datatype pattern_arg = PStr string | PList "string list" | POther

definition is_glob_pattern :: "pattern_arg \<Rightarrow> bool" where
  "is_glob_pattern pattern =
     (case pattern of
        PStr p \<Rightarrow> set p \<inter> set ''*[?'' \<noteq> {}
      | PList ps \<Rightarrow> (\<exists>p \<in> set ps. set p \<inter> set ''*[?'' \<noteq> {})
      | POther \<Rightarrow> False)"

definition name_unset_wrapper :: "string option \<Rightarrow> string" where
  "name_unset_wrapper input_name =
     (case input_name of None \<Rightarrow> ''<name-unset>'' | Some n \<Rightarrow> if n = [] then ''<name-unset>'' else n)"

text \<open>
  \<open>lazyattr\<close>: the attributes of the object are a dictionary; \<open>fn\<close> may raise and may itself change
  the object.
\<close>

definition cached_getter :: "string \<Rightarrow> ((string, 'v) dict, 'v) prog \<Rightarrow> ((string, 'v) dict, 'v) prog" where
  "cached_getter attrname fn obj =
     (case map_of obj attrname of
        Some v \<Rightarrow> (Inr v, obj)
      | None \<Rightarrow> bind_p fn (\<lambda>val. then_p (modify_p (dict_set attrname val)) (return_p val)) obj)"

lemma cached_getter_cached:
  "cached_getter a fn obj = (Inr v, obj') \<Longrightarrow> cached_getter a fn' obj' = (Inr v, obj')"
  by (auto simp: cached_getter_def prog_simps split: option.splits prod.splits sum.splits)

text \<open>\<open>MultiCallList\<close>: a method call or an attribute assignment on every member, in order.\<close>

definition multi_call :: "('a \<Rightarrow> 'b res) \<Rightarrow> 'a list \<Rightarrow> 'b list res" where
  "multi_call meth xs = map_r meth xs"

definition multi_set :: "('a \<Rightarrow> 'a) \<Rightarrow> 'a list \<Rightarrow> 'a list" where
  "multi_set setter xs = map setter xs"

text \<open>\<open>on_metered_connection\<close>: NetworkManager's answer, or the reason there is none.\<close>

datatype dbus_answer = NoDbusModule | DBusException | Metered int

definition on_metered_connection :: "dbus_answer \<Rightarrow> bool option res" where
  "on_metered_connection answer =
     (case answer of
        NoDbusModule \<Rightarrow> Inr None
      | DBusException \<Rightarrow> Inr None
      | Metered m \<Rightarrow>
          if m = 0 then Inr None
          else if m \<in> {1, 3} then Inr (Some True)
          else if m \<in> {2, 4} then Inr (Some False)
          else Inl (ValueError ''Unknown value for metered property''))"

text \<open>
  \<open>_terminal_messenger\<close>: the operations on the stream; \<open>ok\<close> says which succeed, a failing one raises
  \<open>IOError\<close>, which is logged.  The result is the operations performed and whether it was logged.
\<close>

datatype term_op = Write string | Flush | Print string

fun run_ops :: "(term_op \<Rightarrow> bool) \<Rightarrow> term_op list \<Rightarrow> term_op list \<times> bool" where
  "run_ops ok [] = ([], False)"
| "run_ops ok (x # xs) = (if ok x then (let (ys, b) = run_ops ok xs in (x # ys, b)) else ([], True))"

definition terminal_messenger :: "(term_op \<Rightarrow> bool) \<Rightarrow> string \<Rightarrow> string \<Rightarrow> (term_op list \<times> bool) res" where
  "terminal_messenger ok tp msg =
     (if tp = ''write'' then Inr (run_ops ok [Write msg])
      else if tp = ''flush'' then Inr (run_ops ok [Flush])
      else if tp = ''write_flush'' then Inr (run_ops ok [Write msg, Flush])
      else if tp = ''print'' then Inr (run_ops ok [Print msg])
      else Inl (ValueError (''Unsupported type: '' @ tp)))"

text \<open>\<open>_format_resolve_problems\<close>: numbered only when there are several.\<close>

fun format_problems :: "bool \<Rightarrow> nat \<Rightarrow> string list list \<Rightarrow> string" where
  "format_problems numbered i [] = []"
| "format_problems numbered i (rs # rss) =
     (if numbered then nl @ '' Problem '' @ nat_str i @ '': '' else nl @ '' Problem: '')
       @ join_str (nl @ ''  - '') rs @ format_problems numbered (Suc i) rss"

definition format_resolve_problems :: "string list list \<Rightarrow> string" where
  "format_resolve_problems problems = format_problems (length problems > 1) 1 problems"

subsection \<open>Lists of the transaction summary\<close>

record trans_lists =
  downgraded :: "tsi list"
  erased :: "tsi list"
  erased_clean :: "tsi list"
  erased_dep :: "tsi list"
  installed :: "tsi list"
  installed_group :: "tsi list"
  installed_dep :: "tsi list"
  installed_weak :: "tsi list"
  reinstalled :: "tsi list"
  upgraded :: "tsi list"
  failed :: "tsi list"

definition empty_lists :: trans_lists where
  "empty_lists = \<lparr>downgraded = [], erased = [], erased_clean = [], erased_dep = [], installed = [],
     installed_group = [], installed_dep = [], installed_weak = [], reinstalled = [], upgraded = [],
     failed = []\<rparr>"

definition make_lists_step :: "tsi \<Rightarrow> trans_lists \<Rightarrow> trans_lists" where
  "make_lists_step t b =
     (if t_state t = ST_ERROR then b\<lparr>failed := failed b @ [t]\<rparr>
      else if t_action t = DOWNGRADE then b\<lparr>downgraded := downgraded b @ [t]\<rparr>
      else if t_action t = INSTALL then
        (if t_reason t = GROUP then b\<lparr>installed_group := installed_group b @ [t]\<rparr>
         else if t_reason t = DEPENDENCY then b\<lparr>installed_dep := installed_dep b @ [t]\<rparr>
         else if t_reason t = WEAK_DEPENDENCY then b\<lparr>installed_weak := installed_weak b @ [t]\<rparr>
         else b\<lparr>installed := installed b @ [t]\<rparr>)
      else if t_action t = REINSTALL then b\<lparr>reinstalled := reinstalled b @ [t]\<rparr>
      else if t_action t = REMOVE then
        (if t_reason t = CLEAN then b\<lparr>erased_clean := erased_clean b @ [t]\<rparr>
         else if t_reason t = DEPENDENCY then b\<lparr>erased_dep := erased_dep b @ [t]\<rparr>
         else b\<lparr>erased := erased b @ [t]\<rparr>)
      else if t_action t = UPGRADE then b\<lparr>upgraded := upgraded b @ [t]\<rparr>
      else b)"

fun make_lists_loop :: "tsi list \<Rightarrow> trans_lists \<Rightarrow> trans_lists" where
  "make_lists_loop [] b = b"
| "make_lists_loop (t # ts) b = make_lists_loop ts (make_lists_step t b)"

definition make_lists :: "tsi list \<Rightarrow> trans_lists" where
  "make_lists transaction = make_lists_loop transaction empty_lists"

definition lists_mset :: "trans_lists \<Rightarrow> tsi multiset" where
  "lists_mset b = mset (downgraded b) + mset (erased b) + mset (erased_clean b) + mset (erased_dep b)
     + mset (installed b) + mset (installed_group b) + mset (installed_dep b) + mset (installed_weak b)
     + mset (reinstalled b) + mset (upgraded b) + mset (failed b)"

text \<open>The items that appear in the summary: the failed ones and the forward or removing actions.\<close>

definition summarised :: "tsi \<Rightarrow> bool" where
  "summarised t \<longleftrightarrow> t_state t = ST_ERROR \<or> t_action t \<in> {DOWNGRADE, INSTALL, REINSTALL, REMOVE, UPGRADE}"

lemma make_lists_step_mset:
  "lists_mset (make_lists_step t b) = lists_mset b + (if summarised t then {#t#} else {#})"
  by (cases "t_action t") (simp_all add: make_lists_step_def lists_mset_def summarised_def)

lemma make_lists_loop_mset:
  "lists_mset (make_lists_loop ts b) = lists_mset b + mset (filter summarised ts)"
  by (induction ts arbitrary: b) (simp_all add: make_lists_step_mset)

lemma lists_mset_empty: "lists_mset empty_lists = {#}"
  by (simp add: lists_mset_def empty_lists_def)

subsection \<open>Order of the summary\<close>

text \<open>
  \<open>sorted(\<dots>, key=cmp_to_key(cmp))\<close> is stable and asks only whether \<open>cmp\<close> is negative.
\<close>

fun insort_cmp :: "('a \<Rightarrow> 'a \<Rightarrow> int) \<Rightarrow> 'a \<Rightarrow> 'a list \<Rightarrow> 'a list" where
  "insort_cmp cmp x [] = [x]"
| "insort_cmp cmp x (y # ys) = (if cmp y x < 0 then y # insort_cmp cmp x ys else x # y # ys)"

definition sort_cmp :: "('a \<Rightarrow> 'a \<Rightarrow> int) \<Rightarrow> 'a list \<Rightarrow> 'a list" where
  "sort_cmp cmp xs = foldr (insort_cmp cmp) xs []"

lemma mset_insort_cmp: "mset (insort_cmp cmp x xs) = add_mset x (mset xs)"
  by (induction xs) auto

lemma mset_sort_cmp: "mset (sort_cmp cmp xs) = mset xs"
  by (induction xs) (simp_all add: sort_cmp_def mset_insort_cmp)

text \<open>A comparison function: antisymmetric in sign and transitive.\<close>

definition cmp_ok :: "('a \<Rightarrow> 'a \<Rightarrow> int) \<Rightarrow> bool" where
  "cmp_ok cmp \<longleftrightarrow> (\<forall>x y. cmp x y < 0 \<longrightarrow> \<not> cmp y x < 0) \<and>
     (\<forall>x y z. \<not> cmp y x < 0 \<longrightarrow> \<not> cmp z y < 0 \<longrightarrow> \<not> cmp z x < 0)"

lemma set_insort_cmp: "set (insort_cmp cmp x xs) = insert x (set xs)"
  by (induction xs) auto

lemma sorted_insort_cmp:
  assumes "cmp_ok cmp" and "sorted_wrt (\<lambda>x y. \<not> cmp y x < 0) xs"
  shows "sorted_wrt (\<lambda>x y. \<not> cmp y x < 0) (insort_cmp cmp x xs)"
  using assms(2)
proof (induction xs)
  case (Cons y ys)
  have anti: "cmp y x < 0 \<Longrightarrow> \<not> cmp x y < 0"
    and trans: "\<And>z. \<not> cmp y x < 0 \<Longrightarrow> \<not> cmp z y < 0 \<Longrightarrow> \<not> cmp z x < 0"
    using assms(1) unfolding cmp_ok_def by blast+
  from Cons.prems have y: "\<forall>z \<in> set ys. \<not> cmp z y < 0"
    and ys: "sorted_wrt (\<lambda>x y. \<not> cmp y x < 0) ys" by simp_all
  show ?case
  proof (cases "cmp y x < 0")
    case True
    with Cons.IH [OF ys] y anti show ?thesis by (simp add: set_insort_cmp)
  next
    case False
    with y ys trans show ?thesis by simp
  qed
qed simp

lemma sorted_sort_cmp: "cmp_ok cmp \<Longrightarrow> sorted_wrt (\<lambda>x y. \<not> cmp y x < 0) (sort_cmp cmp xs)"
  by (induction xs) (simp_all add: sort_cmp_def sorted_insort_cmp)

text \<open>
  The items sorted are transaction items or skipped packages: both have the five NEVRA attributes.
  \<open>evr_cmp\<close> is hawkey's comparison of epoch, version and release under the sack.
\<close>

datatype entry = Item tsi | Skipped pkg

fun e_name :: "entry \<Rightarrow> string" where
  "e_name (Item t) = t_name t" | "e_name (Skipped p) = p_name p"

fun e_arch :: "entry \<Rightarrow> string" where
  "e_arch (Item t) = t_arch t" | "e_arch (Skipped p) = p_arch p"

fun e_evr :: "entry \<Rightarrow> nat \<times> string \<times> string" where
  "e_evr (Item t) = (t_epoch t, t_version t, t_release t)"
| "e_evr (Skipped p) = (p_epoch p, p_version p, p_release p)"

definition cmp_str :: "string \<Rightarrow> string \<Rightarrow> int" where
  "cmp_str a b = (if a > b then 1 else 0) - (if a < b then 1 else 0)"

definition nevra_cmp :: "(nat \<times> string \<times> string \<Rightarrow> nat \<times> string \<times> string \<Rightarrow> int) \<Rightarrow> entry \<Rightarrow> entry \<Rightarrow> int" where
  "nevra_cmp evr_cmp item1 item2 =
     (let ret = cmp_str (e_name item1) (e_name item2)
      in if ret \<noteq> 0 then ret
         else let ret = evr_cmp (e_evr item1) (e_evr item2)
              in if ret \<noteq> 0 then ret else cmp_str (e_arch item1) (e_arch item2))"

definition summary_actions :: "tsi list \<Rightarrow> pkg list \<Rightarrow> (string \<times> entry list) list" where
  "summary_actions transaction skipped =
     (let b = make_lists transaction
      in [(''Upgraded'', map Item (upgraded b)),
          (''Downgraded'', map Item (downgraded b)),
          (''Installed'', map Item (installed b @ installed_group b @ installed_weak b @ installed_dep b)),
          (''Reinstalled'', map Item (reinstalled b)),
          (''Skipped'', map Skipped skipped),
          (''Removed'', map Item (erased b @ erased_dep b @ erased_clean b)),
          (''Failed'', map Item (failed b))])"

definition post_transaction_output ::
  "(nat \<times> string \<times> string \<Rightarrow> nat \<times> string \<times> string \<Rightarrow> int) \<Rightarrow> pkg list \<Rightarrow>
   (string \<Rightarrow> entry list \<Rightarrow> 'line list) \<Rightarrow> tsi list \<Rightarrow> 'line list" where
  "post_transaction_output evr_cmp skipped action_callback transaction =
     concat (map (\<lambda>(action, tsis). action_callback action (sort_cmp (nevra_cmp evr_cmp) tsis))
       (summary_actions transaction skipped))"

lemma cmp_str_neg: "cmp_str a b < 0 \<longleftrightarrow> a < b"
  by (auto simp: cmp_str_def)

lemma cmp_str_zero: "cmp_str a b = 0 \<longleftrightarrow> a = b"
  by (auto simp: cmp_str_def)

text \<open>hawkey's comparison is documented to order versions: a sign antisymmetric total preorder.\<close>

definition evr_order :: "('v \<Rightarrow> 'v \<Rightarrow> int) \<Rightarrow> bool" where
  "evr_order c \<longleftrightarrow> (\<forall>x y. (c x y < 0 \<longleftrightarrow> 0 < c y x)) \<and> (\<forall>x y z. c x y \<le> 0 \<longrightarrow> c y z \<le> 0 \<longrightarrow> c x z \<le> 0)"

lemma nevra_cmp_neg:
  "nevra_cmp c x y < 0 \<longleftrightarrow> e_name x < e_name y \<or> e_name x = e_name y \<and>
     (c (e_evr x) (e_evr y) < 0 \<or> c (e_evr x) (e_evr y) = 0 \<and> e_arch x < e_arch y)"
  by (auto simp: nevra_cmp_def Let_def cmp_str_def)

lemma nevra_cmp_ok:
  assumes "evr_order c"
  shows "cmp_ok (nevra_cmp c)"
proof -
  have anti: "c x y < 0 \<longleftrightarrow> 0 < c y x" for x y
    using assms unfolding evr_order_def by blast
  have trans: "c x y \<le> 0 \<Longrightarrow> c y z \<le> 0 \<Longrightarrow> c x z \<le> 0" for x y z
    using assms unfolding evr_order_def by blast
  have geq: "\<not> nevra_cmp c y x < 0 \<longleftrightarrow> e_name x < e_name y \<or> e_name x = e_name y \<and>
      (c (e_evr x) (e_evr y) < 0 \<or> c (e_evr x) (e_evr y) = 0 \<and> e_arch x \<le> e_arch y)" for x y
    using anti [of "e_evr x" "e_evr y"] anti [of "e_evr y" "e_evr x"]
    by (auto simp: nevra_cmp_neg not_less)
  have strict: "c x z < 0" if "c x y \<le> 0" and "c y z \<le> 0" and "c x y < 0 \<or> c y z < 0" for x y z
    using trans [of x y z] trans [of z x y] trans [of y z x] that
      anti [of x z] anti [of z x] anti [of x y] anti [of y x] anti [of y z] anti [of z y]
    by smt
  show ?thesis
    unfolding cmp_ok_def
  proof (intro conjI allI impI)
    fix x y assume "nevra_cmp c x y < 0"
    then show "\<not> nevra_cmp c y x < 0" unfolding geq unfolding nevra_cmp_neg by auto
  next
    fix x y z assume xy: "\<not> nevra_cmp c y x < 0" and yz: "\<not> nevra_cmp c z y < 0"
    show "\<not> nevra_cmp c z x < 0"
      using xy yz strict [of "e_evr x" "e_evr y" "e_evr z"] trans [of "e_evr x" "e_evr y" "e_evr z"]
      unfolding geq by (smt (verit) order.strict_trans order_trans)
  qed
qed

end
