(* ===== verification/Marking.thy ===== *)
theory Marking
  imports Util_Trans Transaction_Items
begin

text \<open>
  Marking packages: the methods of \<open>Base\<close> in dnf/base.py that turn what the user asked for into
  requests to the solver (lines 842 to 867, 1948 to 1964, 2081 to 2442, 2463 to 2546, 2777 to 2818),
  and the grouping functions of dnf/query.py.

  A query is the list of its packages in the order of the sack, of which \<open>sk_all\<close> is the whole.  What
  hawkey computes (the best reading of a spec, obsoletes, upgrades, advisories, the order of packages)
  is in \<open>sack_lib\<close>; the requests are \<open>goal_op\<close>s in the order in which they are made.
\<close>

subsection \<open>The sack and the goal\<close>

datatype selector = SelPkgs "pkg list" "string option" | SelProvides string

datatype goal_op =
    GoalInstall selector bool
  | GoalInstallPkg pkg
  | GoalUpgrade selector
  | GoalDistupgrade selector
  | GoalDistupgradeAll
  | GoalErase pkg bool

text \<open>
  The NEVRA a spec was read as: its name and architecture, and whether it is a name alone.  \<open>sol_query\<close>
  is what the spec matches; the first argument of \<open>sk_solution\<close> is \<open>forms\<close> (with which only NEVRAs
  are tried), the second \<open>with_src\<close>, the third the packages considered.
\<close>

record spec_nevra =
  sn_name :: "string option"
  sn_arch :: "string option"
  sn_just_name :: bool

record solution =
  sol_query :: "pkg list"
  sol_nevra :: "spec_nevra option"

type_synonym forms = "int list option"

record sack_lib =
  sk_all :: "pkg list"
  sk_solution :: "forms \<Rightarrow> bool \<Rightarrow> pkg list \<Rightarrow> string \<Rightarrow> solution"
  sk_arch_specified :: "solution \<Rightarrow> bool"
  sk_selectors :: "forms \<Rightarrow> bool \<Rightarrow> string option \<Rightarrow> solution \<Rightarrow> selector list"
  sk_obsoleting :: "pkg list \<Rightarrow> pkg list \<Rightarrow> pkg list"
  sk_latest :: "pkg list \<Rightarrow> pkg list"
  sk_latest_by_priority :: "pkg list \<Rightarrow> pkg list"
  sk_upgrades :: "pkg list \<Rightarrow> pkg list"
  sk_downgrades :: "pkg list \<Rightarrow> pkg list"
  sk_advisory :: "string \<Rightarrow> string set \<Rightarrow> pkg list \<Rightarrow> pkg list"
  sk_regular :: "pkg \<Rightarrow> bool"
  sk_lt :: "pkg \<Rightarrow> pkg \<Rightarrow> bool"
  sk_str :: "pkg \<Rightarrow> string"
  sk_location :: "pkg \<Rightarrow> string"
  sk_repo :: "pkg \<Rightarrow> string"
  sk_unneeded :: "pkg list \<Rightarrow> pkg list"
  sk_unneeded_extra :: "pkg list \<Rightarrow> pkg list \<Rightarrow> pkg list"

record mark_conf =
  mc_multilib :: string
  mc_obsoletes :: bool
  mc_clean :: bool
  mc_strict :: bool
  mc_protected :: "string list"

record mark_state =
  mk_goal :: "goal_op list"
  mk_log :: "string list"
  mk_excludes :: "pkg list"
  mk_sec_filters :: "pkg list list"
  mk_sec_options :: "(string, string set) dict"

definition request :: "goal_op \<Rightarrow> ('a mark_state_scheme, unit) prog" where
  "request g = modify_p (\<lambda>s. s\<lparr>mk_goal := mk_goal s @ [g]\<rparr>)"

definition warn :: "string \<Rightarrow> ('a mark_state_scheme, unit) prog" where
  "warn m = modify_p (\<lambda>s. s\<lparr>mk_log := mk_log s @ [m]\<rparr>)"

subsection \<open>Queries\<close>

definition SYSTEM_REPO_NAME :: string where
  "SYSTEM_REPO_NAME = ''@System''"

definition from_system :: "pkg \<Rightarrow> bool" where
  "from_system p \<longleftrightarrow> p_reponame p = SYSTEM_REPO_NAME"

definition q_installed :: "pkg list \<Rightarrow> pkg list" where
  "q_installed q = filter from_system q"

definition q_available :: "pkg list \<Rightarrow> pkg list" where
  "q_available q = filter (\<lambda>p. \<not> from_system p) q"

definition q_union :: "sack_lib \<Rightarrow> pkg list \<Rightarrow> pkg list \<Rightarrow> pkg list" where
  "q_union k a b = filter (\<lambda>p. p \<in> set a \<or> p \<in> set b) (sk_all k)"

definition q_intersection :: "pkg list \<Rightarrow> pkg list \<Rightarrow> pkg list" where
  "q_intersection a b = filter (\<lambda>p. p \<in> set b) a"

definition q_names :: "string list \<Rightarrow> pkg list \<Rightarrow> pkg list" where
  "q_names ns q = filter (\<lambda>p. p_name p \<in> set ns) q"

definition q_archs :: "string list \<Rightarrow> pkg list \<Rightarrow> pkg list" where
  "q_archs as q = filter (\<lambda>p. p_arch p \<in> set as) q"

definition q_repo :: "string option \<Rightarrow> pkg list \<Rightarrow> pkg list" where
  "q_repo r q = (case r of None \<Rightarrow> q | Some n \<Rightarrow> filter (\<lambda>p. p_reponame p = n) q)"

definition same_evr :: "pkg \<Rightarrow> pkg \<Rightarrow> bool" where
  "same_evr p q \<longleftrightarrow> p_epoch p = p_epoch q \<and> p_version p = p_version q \<and> p_release p = p_release q"

text \<open>\<open>self.sack.query()\<close>: what the excludes leave.\<close>

definition sack_query :: "sack_lib \<Rightarrow> 'a mark_state_scheme \<Rightarrow> pkg list" where
  "sack_query k s = filter (\<lambda>p. p \<notin> set (mk_excludes s)) (sk_all k)"

text \<open>A dictionary of lists, by a key: \<open>_na_dict\<close>, \<open>_name_dict\<close>, and \<open>_per_nevra_dict\<close> of dnf/query.py.\<close>

definition group_pkgs_by :: "(pkg \<Rightarrow> 'k) \<Rightarrow> pkg list \<Rightarrow> ('k, pkg list) dict" where
  "group_pkgs_by key ps =
     foldl (\<lambda>d p. dict_set (key p) ((case map_of d (key p) of None \<Rightarrow> [] | Some xs \<Rightarrow> xs) @ [p]) d) [] ps"

definition na :: "pkg \<Rightarrow> string \<times> string" where
  "na p = (p_name p, p_arch p)"

definition per_nevra_dict :: "sack_lib \<Rightarrow> pkg list \<Rightarrow> (string, pkg list) dict" where
  "per_nevra_dict k ps = group_pkgs_by (sk_str k) ps"

definition query_matches_installed :: "pkg list \<Rightarrow> pkg list \<times> pkg list list" where
  "query_matches_installed q =
     (let inst = group_pkgs_by na (q_installed q); avail = group_pkgs_by na (q_available q)
      in (concat (map (\<lambda>(k, ps). case map_of inst k of None \<Rightarrow> [] | Some xs \<Rightarrow> take 1 xs) avail),
          concat (map (\<lambda>(k, ps). case map_of inst k of None \<Rightarrow> [ps] | Some xs \<Rightarrow> []) avail)))"

definition msg_installed :: "sack_lib \<Rightarrow> pkg \<Rightarrow> ('a mark_state_scheme, unit) prog" where
  "msg_installed k p = warn (''Package '' @ sk_str k p @ '' is already installed.'')"

definition report_already_installed :: "sack_lib \<Rightarrow> pkg list \<Rightarrow> ('a mark_state_scheme, unit) prog" where
  "report_already_installed k ps = for_p (msg_installed k) ps"

text \<open>Python's stable sort by \<open><\<close>.\<close>

fun insert_sorted :: "('a \<Rightarrow> 'a \<Rightarrow> bool) \<Rightarrow> 'a \<Rightarrow> 'a list \<Rightarrow> 'a list" where
  "insert_sorted lt x [] = [x]"
| "insert_sorted lt x (y # ys) = (if lt y x then y # insert_sorted lt x ys else x # y # ys)"

definition py_sorted :: "('a \<Rightarrow> 'a \<Rightarrow> bool) \<Rightarrow> 'a list \<Rightarrow> 'a list" where
  "py_sorted lt xs = foldr (insert_sorted lt) xs []"

subsection \<open>What is not found\<close>

definition raise_not_found :: "sack_lib \<Rightarrow> string \<Rightarrow> forms \<Rightarrow> string option \<Rightarrow> ('a mark_state_scheme, 'b) prog" where
  "raise_not_found k spec forms reponame =
     (let q = q_repo reponame (sol_query (sk_solution k forms False (sk_all k) spec)) in
      if q = [] then raise_p (PackageNotFoundError ''No match for argument'' spec)
      else if filter (sk_regular k) q \<noteq> []
      then raise_p (PackageNotFoundError ''All matches were filtered out by exclude filtering for argument'' spec)
      else raise_p (PackageNotFoundError ''All matches were filtered out by modular filtering for argument'' spec))"

definition raise_not_installed :: "sack_lib \<Rightarrow> string \<Rightarrow> forms \<Rightarrow> string option \<Rightarrow> ('a mark_state_scheme, 'b) prog" where
  "raise_not_installed k spec forms reponame =
     (let q = sol_query (sk_solution k forms False (q_installed (sk_all k)) spec) in
      if q = [] then raise_p (PackagesNotInstalledError ''No match for argument'' spec)
      else if (case reponame of None \<Rightarrow> q | Some r \<Rightarrow> filter (\<lambda>p. sk_repo k p = r) q) = []
      then raise_p (PackagesNotInstalledError ''All matches were installed from a different repository for argument'' spec)
      else raise_p (PackagesNotInstalledError ''All matches were filtered out by exclude filtering for argument'' spec))"

subsection \<open>Installation\<close>

definition with_obsoleters :: "sack_lib \<Rightarrow> mark_conf \<Rightarrow> pkg list \<Rightarrow> pkg list \<Rightarrow> pkg list" where
  "with_obsoleters k c all q =
     (if mc_obsoletes c then q_union k q (sk_obsoleting k all (sk_latest_by_priority k q)) else q)"

definition install_multiarch ::
  "sack_lib \<Rightarrow> mark_conf \<Rightarrow> pkg list \<Rightarrow> string option \<Rightarrow> bool \<Rightarrow> ('a mark_state_scheme, nat) prog" where
  "install_multiarch k c q reponame strict =
     (case query_matches_installed q of (already_inst, available) \<Rightarrow>
        then_p (report_already_installed k already_inst)
        (bind_p (gets_p (sack_query k)) (\<lambda>all.
         then_p (for_p (\<lambda>ps. request (GoalInstall (SelPkgs (with_obsoleters k c all (q_intersection all ps)) reponame) (\<not> strict))) available)
           (return_p (length available)))))"

definition install ::
  "sack_lib \<Rightarrow> mark_conf \<Rightarrow> string \<Rightarrow> string option \<Rightarrow> bool \<Rightarrow> forms \<Rightarrow> ('a mark_state_scheme, nat) prog" where
  "install k c spec reponame strict forms =
     bind_p (gets_p (\<lambda>s. sk_solution k forms False (sack_query k s) spec)) (\<lambda>sol.
       if mc_multilib c = ''all'' \<or> sk_arch_specified k sol
       then let q = q_repo reponame (sol_query sol) in
            if q = [] then raise_not_found k spec forms reponame
            else install_multiarch k c q reponame strict
       else if mc_multilib c = ''best''
       then let sltrs = sk_selectors k forms (mc_obsoletes c) reponame sol in
            if sltrs = [] then raise_not_found k spec forms reponame
            else then_p (for_p (\<lambda>sltr. request (GoalInstall sltr (\<not> strict))) sltrs) (return_p 1)
       else return_p 0)"

definition package_install :: "sack_lib \<Rightarrow> pkg \<Rightarrow> bool \<Rightarrow> ('a mark_state_scheme, nat) prog" where
  "package_install k p strict =
     bind_p (gets_p (\<lambda>s. filter (\<lambda>q. na q = na p \<and> same_evr q p) (sack_query k s))) (\<lambda>q.
       case query_matches_installed q of (already_inst, available) \<Rightarrow>
         then_p
           (if p \<in> set already_inst then report_already_installed k [p]
            else if p \<notin> set (concat available) then raise_p (PackageNotFoundError (''No match for argument: '' @ sk_location k p) [])
            else request (GoalInstall (SelPkgs [p] None) (\<not> strict)))
           (return_p 1))"

definition package_reinstall :: "sack_lib \<Rightarrow> pkg \<Rightarrow> ('a mark_state_scheme, nat) prog" where
  "package_reinstall k p =
     bind_p (gets_p (\<lambda>s. filter (\<lambda>q. na q = na p \<and> same_evr q p) (q_installed (sack_query k s)))) (\<lambda>q.
       if q \<noteq> [] then then_p (request (GoalInstallPkg p)) (return_p 1)
       else then_p (warn (''Package '' @ sk_str k p @ '' not installed, cannot reinstall it.''))
         (raise_p (MarkingError (''No match for argument: '' @ sk_location k p) (p_name p))))"

definition package_remove :: "pkg \<Rightarrow> ('a mark_state_scheme, nat) prog" where
  "package_remove p = then_p (request (GoalErase p False)) (return_p 1)"

definition package_downgrade :: "sack_lib \<Rightarrow> pkg \<Rightarrow> bool \<Rightarrow> ('a mark_state_scheme, nat) prog" where
  "package_downgrade k p strict =
     (if from_system p then raise_p NotImplementedError
      else bind_p (gets_p (\<lambda>s. q_archs [p_arch p, ''noarch''] (q_names [p_name p] (q_installed (sack_query k s))))) (\<lambda>q.
        case py_sorted (sk_lt k) q of
          [] \<Rightarrow> then_p (warn (''Package '' @ p_name p @ '' not installed, cannot downgrade it.''))
                  (raise_p (MarkingError (''No match for argument: '' @ sk_location k p) (p_name p)))
        | lowest # _ \<Rightarrow>
            if sk_lt k p lowest
            then then_p (request (GoalInstall (SelPkgs [p] None) (\<not> strict))) (return_p 1)
            else then_p (warn (''Package '' @ p_name p @ '' of lower version already installed, cannot downgrade it.'')) (return_p 0)))"

definition package_upgrade :: "sack_lib \<Rightarrow> mark_conf \<Rightarrow> pkg \<Rightarrow> ('a mark_state_scheme, nat) prog" where
  "package_upgrade k c p =
     (if from_system p then raise_p NotImplementedError
      else if p_arch p = ''src''
      then then_p (warn (''File '' @ sk_location k p @ '' is a source package and cannot be updated, ignoring.'')) (return_p 0)
      else bind_p (gets_p (sack_query k)) (\<lambda>all.
        let installed = q_installed all in
        if mc_obsoletes c \<and> sk_obsoleting k (q_intersection all [p]) installed \<noteq> []
        then then_p (request (GoalUpgrade (SelPkgs [p] None))) (return_p 1)
        else let q = (if p_arch p = ''noarch'' then q_names [p_name p] installed
                      else q_archs [p_arch p, ''noarch''] (q_names [p_name p] installed))
          in if q = []
             then then_p (warn (''Package '' @ p_name p @ '' not installed, cannot update it.''))
               (raise_p (MarkingError (''No match for argument: '' @ sk_location k p) (p_name p)))
             else if sk_lt k (last (py_sorted (sk_lt k) q)) p
             then then_p (request (GoalUpgrade (SelPkgs [p] None))) (return_p 1)
             else then_p (warn (''The same or higher version of '' @ p_name p @ '' is already installed, cannot update it.'')) (return_p 0)))"

subsection \<open>Security filters\<close>

definition sec_cmp :: "string \<Rightarrow> string res" where
  "sec_cmp cmp_type =
     (if cmp_type = ''eq'' then Inr ''__eqg'' else if cmp_type = ''gte'' then Inr ''__eqg__gt''
      else Inl (ValueError ''Unsupported value for `cmp_type`''))"

definition add_sec_option :: "string \<Rightarrow> string list \<Rightarrow> ('a mark_state_scheme, unit) prog" where
  "add_sec_option key vs =
     (if vs = [] then return_p ()
      else modify_p (\<lambda>s. s\<lparr>mk_sec_options :=
        dict_set key ((case map_of (mk_sec_options s) key of None \<Rightarrow> {} | Some old \<Rightarrow> old) \<union> set vs) (mk_sec_options s)\<rparr>))"

definition add_security_filters ::
  "string \<Rightarrow> string list \<Rightarrow> string list \<Rightarrow> string list \<Rightarrow> string list \<Rightarrow> string list \<Rightarrow> ('a mark_state_scheme, unit) prog" where
  "add_security_filters cmp_type types advisory bugzilla cves severity =
     bind_p (lift_p (sec_cmp cmp_type)) (\<lambda>cmp.
       then_p (add_sec_option (''advisory_type'' @ cmp) types)
       (then_p (add_sec_option (''advisory'' @ cmp) advisory)
       (then_p (add_sec_option (''advisory_bug'' @ cmp) bugzilla)
       (then_p (add_sec_option (''advisory_cve'' @ cmp) cves)
         (add_sec_option (''advisory_severity'' @ cmp) severity)))))"

definition reset_security_filters :: "('a mark_state_scheme, unit) prog" where
  "reset_security_filters = modify_p (\<lambda>s. s\<lparr>mk_sec_options := []\<rparr>)"

text \<open>The union of the filters, and of what each option lets through of \<open>q\<close>.\<close>

definition merged_filters :: "sack_lib \<Rightarrow> 'a mark_state_scheme \<Rightarrow> pkg list" where
  "merged_filters k s = foldl (q_union k) [] (mk_sec_filters s)"

definition merged_options :: "sack_lib \<Rightarrow> 'a mark_state_scheme \<Rightarrow> pkg list \<Rightarrow> bool \<Rightarrow> pkg list \<Rightarrow> pkg list" where
  "merged_options k s q upgr start =
     foldl (\<lambda>m (name, values). q_union k m (sk_advisory k (if upgr then name @ ''__upgrade'' else name) values q))
       start (mk_sec_options s)"

definition updates_warning :: "string option \<Rightarrow> nat \<Rightarrow> string" where
  "updates_warning spec n =
     ''No security updates needed'' @ (case spec of None \<Rightarrow> [] | Some sp \<Rightarrow> '' for '' @ dq @ sp @ dq) @ '', but '' @ nat_str n @
     (if n = 1 then '' update available'' else '' updates available'')"

definition merge_update_filters ::
  "sack_lib \<Rightarrow> pkg list \<Rightarrow> string option \<Rightarrow> bool \<Rightarrow> bool \<Rightarrow> ('a mark_state_scheme, pkg list) prog" where
  "merge_update_filters k q spec warning upgr =
     bind_p (gets_p (\<lambda>s. (mk_sec_options s = [] \<and> mk_sec_filters s = []) \<or> q = [])) (\<lambda>skip.
       if skip then return_p q
       else bind_p (gets_p (merged_filters k)) (\<lambda>filters.
         then_p (modify_p (\<lambda>s. if mk_sec_filters s = [] then s else s\<lparr>mk_sec_filters := [filters]\<rparr>))
         (bind_p (gets_p (\<lambda>s. q_intersection q (merged_options k s q upgr filters))) (\<lambda>merged.
          then_p
            (if merged = [] \<and> warning
             then let count = length (group_pkgs_by p_name (sk_upgrades k q))
                  in if count > 0 then warn (updates_warning spec count) else return_p ()
             else return_p ())
            (return_p merged)))))"

subsection \<open>Upgrades\<close>

definition upgrade_internal ::
  "sack_lib \<Rightarrow> pkg list \<Rightarrow> bool \<Rightarrow> string option \<Rightarrow> string option \<Rightarrow> ('a mark_state_scheme, nat) prog" where
  "upgrade_internal k query obsoletes reponame spec =
     bind_p (gets_p (sack_query k)) (\<lambda>all.
       let installed_all = q_installed all;
           q = q_intersection query (q_names (map p_name installed_all) all);
           query = (if obsoletes
                    then q_union k query (sk_obsoleting k (q_available all) (q_union k (q_installed q) (sk_upgrades k q)))
                    else query);
           query = q_repo reponame query
       in bind_p (merge_update_filters k query spec True True) (\<lambda>query.
            then_p
              (if query \<noteq> []
               then request (GoalUpgrade (SelPkgs (q_union k query (q_names (map p_name query) (sk_latest k installed_all))) None))
               else return_p ())
              (return_p 1)))"

definition not_glob :: "string \<Rightarrow> bool" where
  "not_glob s \<longleftrightarrow> \<not> is_glob_pattern (PStr s)"

text \<open>The report for a spec that names a package: not installed, or only for another architecture.\<close>

definition check_installed_name ::
  "sack_lib \<Rightarrow> mark_conf \<Rightarrow> string \<Rightarrow> solution \<Rightarrow> ('a mark_state_scheme, unit) prog" where
  "check_installed_name k c spec sol =
     (case sol_nevra sol of
        None \<Rightarrow> return_p ()
      | Some nv \<Rightarrow> (case sn_name nv of
          None \<Rightarrow> return_p ()
        | Some pkg_name \<Rightarrow>
            if \<not> not_glob spec \<or> pkg_name = [] then return_p ()
            else bind_p (gets_p (\<lambda>s. q_installed (sack_query k s))) (\<lambda>installed.
              if (if mc_obsoletes c then sk_obsoleting k (sol_query sol) installed else []) \<noteq> [] then return_p ()
              else let installed_name = q_names [pkg_name] installed in
                if installed_name = []
                then then_p (warn (''Package '' @ pkg_name @ '' available, but not installed.''))
                       (raise_p (PackagesNotInstalledError (''No match for argument: '' @ spec) spec))
                else (case sn_arch nv of
                    None \<Rightarrow> return_p ()
                  | Some arch \<Rightarrow>
                      if arch \<noteq> [] \<and> not_glob arch \<and> q_archs [arch] installed_name = []
                      then warn (''Package '' @ pkg_name @ ''.'' @ arch @ '' available, but installed for different architecture.'')
                      else return_p ()))))"

definition upgrade :: "sack_lib \<Rightarrow> mark_conf \<Rightarrow> string \<Rightarrow> string option \<Rightarrow> ('a mark_state_scheme, nat) prog" where
  "upgrade k c spec reponame =
     bind_p (gets_p (\<lambda>s. sk_solution k None True (sack_query k s) spec)) (\<lambda>sol.
       if sol_query sol \<noteq> []
       then then_p (check_installed_name k c spec sol)
         (upgrade_internal k (sol_query sol)
           (mc_obsoletes c \<and> (case sol_nevra sol of None \<Rightarrow> False | Some nv \<Rightarrow> sn_just_name nv)) reponame (Some spec))
       else raise_p (MarkingError (''No match for argument: '' @ spec) spec))"

definition upgrade_all :: "sack_lib \<Rightarrow> mark_conf \<Rightarrow> string option \<Rightarrow> ('a mark_state_scheme, nat) prog" where
  "upgrade_all k c reponame = bind_p (gets_p (sack_query k)) (\<lambda>q. upgrade_internal k q (mc_obsoletes c) reponame None)"

definition distro_sync :: "sack_lib \<Rightarrow> mark_conf \<Rightarrow> string option \<Rightarrow> ('a mark_state_scheme, nat) prog" where
  "distro_sync k c spec =
     (case spec of
        None \<Rightarrow> then_p (request GoalDistupgradeAll) (return_p 1)
      | Some sp \<Rightarrow>
          bind_p (gets_p (\<lambda>s. sk_solution k None False (sack_query k s) sp)) (\<lambda>sol.
            let sltrs = sk_selectors k None (mc_obsoletes c) None (sol\<lparr>sol_query := q_available (sol_query sol)\<rparr>)
            in if sltrs = [] then then_p (warn (''No match for argument: '' @ sp)) (return_p 0)
               else then_p (for_p (\<lambda>sltr. request (GoalDistupgrade sltr)) sltrs) (return_p 1)))"

subsection \<open>Removal, reinstallation, downgrade\<close>

definition remove :: "sack_lib \<Rightarrow> mark_conf \<Rightarrow> string \<Rightarrow> string option \<Rightarrow> forms \<Rightarrow> ('a mark_state_scheme, nat) prog" where
  "remove k c spec reponame forms =
     bind_p (gets_p (\<lambda>s. sol_query (sk_solution k forms True (sack_query k s) spec))) (\<lambda>matches.
       let installed = filter (\<lambda>p. case reponame of None \<Rightarrow> True | Some r \<Rightarrow> sk_repo k p = r) (q_installed matches)
       in if installed = [] then raise_not_installed k spec forms reponame
          else then_p (for_p (\<lambda>p. request (GoalErase p (mc_clean c))) installed) (return_p (length installed)))"

fun reinstall_loop ::
  "sack_lib \<Rightarrow> mark_conf \<Rightarrow> bool \<Rightarrow> (string, pkg list) dict \<Rightarrow> pkg list \<Rightarrow> nat \<Rightarrow> ('a mark_state_scheme, nat) prog" where
  "reinstall_loop k c remove_na avail [] cnt = return_p cnt"
| "reinstall_loop k c remove_na avail (p # ps) cnt =
     (case map_of avail (sk_str k p) of
        None \<Rightarrow> if \<not> remove_na then reinstall_loop k c remove_na avail ps cnt
                else then_p (request (GoalErase p (mc_clean c))) (reinstall_loop k c remove_na avail ps (Suc cnt))
      | Some available_pkgs \<Rightarrow>
          then_p (request (GoalInstall (SelPkgs available_pkgs None) (\<not> mc_strict c)))
            (reinstall_loop k c remove_na avail ps (Suc cnt)))"

definition reinstall ::
  "sack_lib \<Rightarrow> mark_conf \<Rightarrow> string \<Rightarrow> string option \<Rightarrow> string option \<Rightarrow> string option \<Rightarrow> bool \<Rightarrow> ('a mark_state_scheme, nat) prog" where
  "reinstall k c spec old_reponame new_reponame new_reponame_neq remove_na =
     bind_p (gets_p (\<lambda>s. sol_query (sk_solution k None True (sack_query k s) spec))) (\<lambda>q.
       let installed_pkgs = filter (\<lambda>p. case old_reponame of None \<Rightarrow> True | Some r \<Rightarrow> sk_repo k p = r) (q_installed q);
           available_q = q_repo new_reponame (q_available q);
           available_q = (case new_reponame_neq of None \<Rightarrow> available_q | Some r \<Rightarrow> filter (\<lambda>p. p_reponame p \<noteq> r) available_q)
       in if installed_pkgs = [] then raise_p (PackagesNotInstalledError ''no package matched'' spec)
          else bind_p (reinstall_loop k c remove_na (per_nevra_dict k available_q) installed_pkgs 0) (\<lambda>cnt.
            if cnt = 0 then raise_p (PackagesNotAvailableError ''no package matched'' spec) else return_p cnt))"

fun downgrade_loop :: "sack_lib \<Rightarrow> pkg list \<Rightarrow> bool \<Rightarrow> string list \<Rightarrow> nat \<Rightarrow> ('a mark_state_scheme, nat) prog" where
  "downgrade_loop k available_pkgs strict [] hit = return_p hit"
| "downgrade_loop k available_pkgs strict (n # ns) hit =
     (let downgrade_pkgs = q_names [n] (sk_downgrades k available_pkgs)
      in if downgrade_pkgs = []
         then then_p (warn (''Package '' @ n @ '' of lowest version already installed, cannot downgrade it.''))
                (downgrade_loop k available_pkgs strict ns hit)
         else then_p (request (GoalInstall (SelPkgs downgrade_pkgs None) (\<not> strict))) (downgrade_loop k available_pkgs strict ns 1))"

definition downgrade_to :: "sack_lib \<Rightarrow> string \<Rightarrow> bool \<Rightarrow> ('a mark_state_scheme, nat) prog" where
  "downgrade_to k spec strict =
     bind_p (gets_p (\<lambda>s. (sol_query (sk_solution k None True (sack_query k s) spec), sack_query k s))) (\<lambda>(q, all).
       if q = [] then raise_p (PackageNotFoundError (''No match for argument: '' @ spec) spec)
       else let available_pkgs = q_available q;
                q_inst = q_names (map fst (group_pkgs_by p_name available_pkgs)) (q_installed all)
            in if q_inst = []
               then raise_p (PackagesNotInstalledError (''Packages for argument '' @ spec @ '' available, but not installed.'') spec)
               else downgrade_loop k available_pkgs strict (map fst (group_pkgs_by p_name q_inst)) 0)"

subsection \<open>What an upgrade may mark\<close>

lemma set_q_union: "set (q_union k a b) \<subseteq> set a \<union> set b"
  by (auto simp: q_union_def)

lemma merged_filters_sound: "p \<in> set (foldl (q_union k) start fs) \<Longrightarrow> p \<in> set start \<or> (\<exists>f \<in> set fs. p \<in> set f)"
  by (induction fs arbitrary: start) (use set_q_union in \<open>fastforce+\<close>)

lemma merged_options_sound:
  "p \<in> set (foldl (\<lambda>m (name, values). q_union k m (adv name values)) start os) \<Longrightarrow>
     p \<in> set start \<or> (\<exists>(name, values) \<in> set os. p \<in> set (adv name values))"
proof (induction os arbitrary: start)
  case (Cons o' os)
  obtain n vs where o': "o' = (n, vs)" by (cases o')
  from Cons.prems have "p \<in> set (foldl (\<lambda>m (name, values). q_union k m (adv name values)) (q_union k start (adv n vs)) os)"
    by (simp add: o')
  from Cons.IH [OF this] show ?case using set_q_union [of k start "adv n vs"] by (auto simp: o')
qed simp

definition security_active :: "'a mark_state_scheme \<Rightarrow> bool" where
  "security_active s \<longleftrightarrow> mk_sec_options s \<noteq> [] \<or> mk_sec_filters s \<noteq> []"

definition security_allows :: "sack_lib \<Rightarrow> 'a mark_state_scheme \<Rightarrow> pkg list \<Rightarrow> pkg \<Rightarrow> bool" where
  "security_allows k s q p \<longleftrightarrow>
     (\<exists>f \<in> set (mk_sec_filters s). p \<in> set f) \<or>
     (\<exists>(name, values) \<in> set (mk_sec_options s). p \<in> set (sk_advisory k (name @ ''__upgrade'') values q))"

lemma merge_update_filters_run:
  assumes "merge_update_filters k q spec warning True s = (r, s')"
  shows "\<exists>m. r = Inr m \<and> set m \<subseteq> set q \<and> mk_goal s' = mk_goal s \<and> mk_excludes s' = mk_excludes s \<and>
    (security_active s \<longrightarrow> (\<forall>p \<in> set m. security_allows k s q p))"
proof (cases "(mk_sec_options s = [] \<and> mk_sec_filters s = []) \<or> q = []")
  case True
  with assms show ?thesis by (auto simp: merge_update_filters_def bind_p_apply security_active_def)
next
  case False
  let ?m = "q_intersection q (merged_options k s q True (merged_filters k s))"
  have opt: "merged_options k (s\<lparr>mk_sec_filters := fs\<rparr>) q True f = merged_options k s q True f" for fs f
    by (simp add: merged_options_def)
  have "security_allows k s q p" if "p \<in> set ?m" for p
  proof -
    from that have "p \<in> set (merged_options k s q True (merged_filters k s))" by (simp add: q_intersection_def)
    from merged_options_sound [OF this [unfolded merged_options_def if_True]]
    show ?thesis using merged_filters_sound [of p k "[]" "mk_sec_filters s"]
      by (auto simp: security_allows_def merged_filters_def)
  qed
  moreover have "r = Inr ?m \<and> mk_goal s' = mk_goal s \<and> mk_excludes s' = mk_excludes s"
    using assms False by (auto simp: merge_update_filters_def bind_p_apply then_p_apply opt warn_def Let_def split: if_splits)
  ultimately show ?thesis by (auto simp: q_intersection_def)
qed

text \<open>The packages one call may mark: those it was given, obsoleters when they are wanted, of one repository.\<close>

definition upgrade_candidates :: "sack_lib \<Rightarrow> 'a mark_state_scheme \<Rightarrow> pkg list \<Rightarrow> bool \<Rightarrow> string option \<Rightarrow> pkg list" where
  "upgrade_candidates k s query obsoletes reponame =
     (let all = sack_query k s; q = q_intersection query (q_names (map p_name (q_installed all)) all)
      in q_repo reponame
        (if obsoletes then q_union k query (sk_obsoleting k (q_available all) (q_union k (q_installed q) (sk_upgrades k q))) else query))"

lemma upgrade_internal_marks:
  assumes run: "upgrade_internal k query obsoletes reponame spec s = (r, s')"
    and latest: "\<And>q. set (sk_latest k q) \<subseteq> set q"
  shows "r = Inr 1 \<and> (mk_goal s' = mk_goal s \<or> (\<exists>ps. mk_goal s' = mk_goal s @ [GoalUpgrade (SelPkgs ps None)] \<and>
    (\<forall>p \<in> set ps. from_system p \<or> p \<in> set (upgrade_candidates k s query obsoletes reponame) \<and>
       (security_active s \<longrightarrow> security_allows k s (upgrade_candidates k s query obsoletes reponame) p))))"
proof -
  let ?c = "upgrade_candidates k s query obsoletes reponame"
  obtain m u where m: "merge_update_filters k ?c spec True True s = (Inr m, u)" "set m \<subseteq> set ?c" "mk_goal u = mk_goal s"
    "security_active s \<longrightarrow> (\<forall>p \<in> set m. security_allows k s ?c p)"
    using merge_update_filters_run by (metis surj_pair)
  let ?ps = "q_union k m (q_names (map p_name m) (sk_latest k (q_installed (sack_query k s))))"
  have "from_system p \<or> p \<in> set m" if "p \<in> set ?ps" for p
    using that latest [of "q_installed (sack_query k s)"] by (auto simp: q_union_def q_names_def q_installed_def)
  with m have "\<forall>p \<in> set ?ps. from_system p \<or> p \<in> set ?c \<and> (security_active s \<longrightarrow> security_allows k s ?c p)" by blast
  moreover have "r = Inr 1 \<and> s' = (if m \<noteq> [] then snd (request (GoalUpgrade (SelPkgs ?ps None)) u) else u)"
    using run m(1) by (auto simp: upgrade_internal_def upgrade_candidates_def bind_p_apply then_p_apply Let_def request_def split: if_splits)
  ultimately show ?thesis using m(3) by (auto simp: request_def)
qed

lemma check_installed_name_keeps:
  "check_installed_name k c spec sol s = (r, s') \<Longrightarrow>
    \<exists>l. s' = s\<lparr>mk_log := l\<rparr> \<and> (\<forall>e. r = Inl e \<longrightarrow> e = PackagesNotInstalledError (''No match for argument: '' @ spec) spec)"
  by (auto simp: check_installed_name_def bind_p_apply then_p_apply warn_def Let_def split: option.splits if_splits intro: exI [of _ "mk_log s"])

text \<open>
  C7. What an upgrade may mark.  A call of \<open>upgrade\<close> makes at most one request, and none if it
  fails; a package in it is an installed one, or one that the spec matches or that obsoletes such a
  package, from the repository asked for.  With a security filter set, every package that is not
  installed was let through by one of the filters or by one of the advisory options.
\<close>

theorem security_upgrade:
  assumes run: "upgrade k c spec reponame s = (r, s')"
    and latest: "\<And>q. set (sk_latest k q) \<subseteq> set q"
  shows "mk_goal s' = mk_goal s \<or> r = Inr 1 \<and> (\<exists>ps obs cands. mk_goal s' = mk_goal s @ [GoalUpgrade (SelPkgs ps None)] \<and>
    cands = upgrade_candidates k s (sol_query (sk_solution k None True (sack_query k s) spec)) obs reponame \<and> (obs \<longrightarrow> mc_obsoletes c) \<and>
    (\<forall>p \<in> set ps. from_system p \<or> p \<in> set cands \<and> (security_active s \<longrightarrow> security_allows k s cands p)))"
proof -
  let ?sol = "sk_solution k None True (sack_query k s) spec"
  let ?obs = "mc_obsoletes c \<and> (case sol_nevra ?sol of None \<Rightarrow> False | Some nv \<Rightarrow> sn_just_name nv)"
  obtain t u where chk: "check_installed_name k c spec ?sol s = (t, u)" by (metis surj_pair)
  from check_installed_name_keeps [OF this] obtain l where u: "u = s\<lparr>mk_log := l\<rparr>" by blast
  have same: "sack_query k u = sack_query k s" "mk_goal u = mk_goal s" "security_active u = security_active s"
    "security_allows k u q p = security_allows k s q p" "upgrade_candidates k u q ob rn = upgrade_candidates k s q ob rn" for q p ob rn
    by (simp_all add: u sack_query_def security_active_def security_allows_def upgrade_candidates_def Let_def)
  show ?thesis
  proof (cases "sol_query ?sol = [] \<or> (\<exists>e. t = Inl e)")
    case True
    with run chk same(2) show ?thesis by (auto simp: upgrade_def bind_p_apply then_p_apply split: if_splits)
  next
    case False
    then have "upgrade_internal k (sol_query ?sol) ?obs reponame (Some spec) u = (r, s')"
      using run chk by (cases t) (auto simp: upgrade_def bind_p_apply then_p_apply)
    note marks = upgrade_internal_marks [OF this latest, unfolded same]
    show ?thesis
    proof (cases "mk_goal s' = mk_goal s")
      case False
      with marks obtain ps where ps: "r = Inr 1" "mk_goal s' = mk_goal s @ [GoalUpgrade (SelPkgs ps None)]"
        "\<forall>p \<in> set ps. from_system p \<or> p \<in> set (upgrade_candidates k s (sol_query ?sol) ?obs reponame) \<and>
           (security_active s \<longrightarrow> security_allows k s (upgrade_candidates k s (sol_query ?sol) ?obs reponame) p)" by blast
      show ?thesis
        by (rule disjI2, rule conjI [OF ps(1)], rule exI [of _ ps], rule exI [of _ ?obs], rule exI, rule conjI [OF ps(2)],
            rule conjI [OF refl], rule conjI [OF _ ps(3)]) simp
    qed simp
  qed
qed

definition example_mark_pkg :: "string \<Rightarrow> string \<Rightarrow> string \<Rightarrow> nat \<Rightarrow> pkg" where
  "example_mark_pkg n v repo i = \<lparr>p_name = n, p_epoch = 0, p_version = v, p_release = ''1'', p_arch = ''noarch'',
     p_reponame = repo, p_force_repoid = None, p_from_cmdline = False, p_module_hotfixes = False,
     p_modularitylabel = None, p_active_module = False, p_idx = i\<rparr>"

definition example_sack :: sack_lib where
  "example_sack = \<lparr>
     sk_all = [example_mark_pkg ''tour'' ''1'' ''@System'' 1, example_mark_pkg ''tour'' ''2'' ''main'' 2, example_mark_pkg ''tour'' ''3'' ''main'' 3],
     sk_solution = (\<lambda>f src q spec. \<lparr>sol_query = q_names [spec] q, sol_nevra = Some \<lparr>sn_name = Some spec, sn_arch = None, sn_just_name = True\<rparr>\<rparr>),
     sk_arch_specified = (\<lambda>sol. False), sk_selectors = (\<lambda>f o' r sol. [SelPkgs (sol_query sol) r]),
     sk_obsoleting = (\<lambda>q r. []), sk_latest = (\<lambda>q. take 1 q), sk_latest_by_priority = (\<lambda>q. q),
     sk_upgrades = q_available, sk_downgrades = (\<lambda>q. []),
     sk_advisory = (\<lambda>name values q. filter (\<lambda>p. p_version p = ''2'') q), sk_regular = (\<lambda>_. True),
     sk_lt = (\<lambda>p q. p_idx p < p_idx q), sk_str = p_name, sk_location = p_name, sk_repo = p_reponame,
     sk_unneeded = (\<lambda>q. []), sk_unneeded_extra = (\<lambda>q r. [])\<rparr>"

definition example_mark_conf :: mark_conf where
  "example_mark_conf = \<lparr>mc_multilib = ''best'', mc_obsoletes = False, mc_clean = True, mc_strict = True, mc_protected = []\<rparr>"

definition example_mark_state :: mark_state where
  "example_mark_state = \<lparr>mk_goal = [], mk_log = [], mk_excludes = [], mk_sec_filters = [],
     mk_sec_options = [(''advisory_type__eqg'', {''security''})]\<rparr>"

lemma example_upgrade:
  "upgrade example_sack example_mark_conf ''tour'' None example_mark_state = (Inr 1, example_mark_state\<lparr>mk_goal :=
     [GoalUpgrade (SelPkgs [example_mark_pkg ''tour'' ''1'' ''@System'' 1, example_mark_pkg ''tour'' ''2'' ''main'' 2] None)]\<rparr>)"
  by code_simp

lemma security_upgrade_witness:
  "example_mark_pkg ''tour'' ''2'' ''main'' 2 \<in> set (sk_advisory example_sack ''advisory_type__eqg__upgrade'' {''security''} (sk_all example_sack))"
proof -
  have "set (sk_latest example_sack q) \<subseteq> set q" for q by (simp add: example_sack_def set_take_subset)
  from security_upgrade [OF example_upgrade this] obtain cands where
      "security_allows example_sack example_mark_state cands (example_mark_pkg ''tour'' ''2'' ''main'' 2)"
    by (auto simp: example_mark_state_def from_system_def example_mark_pkg_def SYSTEM_REPO_NAME_def security_active_def)
  then show ?thesis by (simp add: security_allows_def example_mark_state_def example_sack_def)
qed

subsection \<open>Versions\<close>

text \<open>The order of packages: a strict weak order.\<close>

definition weak_order :: "('a \<Rightarrow> 'a \<Rightarrow> bool) \<Rightarrow> bool" where
  "weak_order lt \<longleftrightarrow> (\<forall>x. \<not> lt x x) \<and> (\<forall>x y z. lt x y \<longrightarrow> lt y z \<longrightarrow> lt x z) \<and> (\<forall>x y z. lt x z \<longrightarrow> lt x y \<or> lt y z)"

fun ascending :: "('a \<Rightarrow> 'a \<Rightarrow> bool) \<Rightarrow> 'a list \<Rightarrow> bool" where
  "ascending lt [] = True"
| "ascending lt (x # xs) = ((\<forall>y \<in> set xs. \<not> lt y x) \<and> ascending lt xs)"

lemma set_insert_sorted [simp]: "set (insert_sorted lt x ys) = insert x (set ys)"
  by (induction ys) auto

lemma ascending_insert: "weak_order lt \<Longrightarrow> ascending lt ys \<Longrightarrow> ascending lt (insert_sorted lt x ys)"
proof (induction ys)
  case (Cons y ys)
  note order = Cons.prems(1) [unfolded weak_order_def]
  show ?case
  proof (cases "lt y x")
    case True
    with order have "\<not> lt x y" by blast
    with True Cons show ?thesis by simp
  next
    case False
    have "\<not> lt z x" if "z \<in> set ys" for z
    proof
      assume "lt z x"
      with order have "lt z y \<or> lt y x" by blast
      with False Cons.prems(2) that show False by simp
    qed
    with False Cons.prems show ?thesis by simp
  qed
qed simp

lemma set_py_sorted [simp]: "set (py_sorted lt xs) = set xs"
  by (induction xs) (simp_all add: py_sorted_def)

lemma ascending_py_sorted: "weak_order lt \<Longrightarrow> ascending lt (py_sorted lt xs)"
  by (induction xs) (simp_all add: py_sorted_def ascending_insert)

lemma ascending_last: "ascending lt xs \<Longrightarrow> weak_order lt \<Longrightarrow> x \<in> set xs \<Longrightarrow> \<not> lt (last xs) x"
  by (induction xs) (auto simp: weak_order_def)

lemma py_sorted_last:
  assumes "weak_order lt" and "xs \<noteq> []"
  shows "lt (last (py_sorted lt xs)) p \<longleftrightarrow> (\<forall>x \<in> set xs. lt x p)"
proof -
  have "py_sorted lt xs \<noteq> []" using assms(2) set_py_sorted [of lt xs] by fastforce
  then have mem: "last (py_sorted lt xs) \<in> set xs" using last_in_set [of "py_sorted lt xs"] by simp
  have top: "\<not> lt (last (py_sorted lt xs)) x" if "x \<in> set xs" for x
    using ascending_last [OF ascending_py_sorted [OF assms(1)] assms(1)] that by simp
  have split: "lt x z \<Longrightarrow> lt x y \<or> lt y z" for x y z using assms(1) unfolding weak_order_def by metis
  show ?thesis
  proof
    assume "lt (last (py_sorted lt xs)) p"
    then have "lt (last (py_sorted lt xs)) x \<or> lt x p" for x by (rule split)
    then have "lt x p" if "x \<in> set xs" for x using top [OF that] by blast
    then show "\<forall>x \<in> set xs. lt x p" by blast
  qed (use mem in blast)
qed

lemma py_sorted_first:
  assumes "weak_order lt" and "py_sorted lt xs = y # ys"
  shows "lt p y \<longleftrightarrow> (\<forall>x \<in> set xs. lt p x)"
proof -
  have elems: "set xs = insert y (set ys)" using set_py_sorted [of lt xs] assms(2) by simp
  have least: "\<not> lt x y" if "x \<in> set ys" for x using ascending_py_sorted [OF assms(1), of xs] assms(2) that by simp
  have split: "lt x z \<Longrightarrow> lt x y \<or> lt y z" for x y z using assms(1) unfolding weak_order_def by metis
  show ?thesis
  proof
    assume "lt p y"
    then have "lt p x \<or> lt x y" for x by (rule split)
    then have "lt p x" if "x \<in> set ys" for x using least [OF that] by blast
    with \<open>lt p y\<close> show "\<forall>x \<in> set xs. lt p x" by (simp add: elems)
  qed (use elems in blast)
qed

text \<open>The installed packages a package is compared with; a noarch one is upgraded over any architecture.\<close>

definition counterparts :: "sack_lib \<Rightarrow> 'a mark_state_scheme \<Rightarrow> bool \<Rightarrow> pkg \<Rightarrow> pkg list" where
  "counterparts k s any_arch p =
     (let q = q_names [p_name p] (q_installed (sack_query k s))
      in if any_arch \<and> p_arch p = ''noarch'' then q else q_archs [p_arch p, ''noarch''] q)"



subsection \<open>Reinstallation, removal, downgrade\<close>

definition reinstall_request :: "sack_lib \<Rightarrow> mark_conf \<Rightarrow> bool \<Rightarrow> (string, pkg list) dict \<Rightarrow> pkg \<Rightarrow> goal_op list" where
  "reinstall_request k c remove_na avail p =
     (case map_of avail (sk_str k p) of
        Some ps \<Rightarrow> [GoalInstall (SelPkgs ps None) (\<not> mc_strict c)]
      | None \<Rightarrow> if remove_na then [GoalErase p (mc_clean c)] else [])"

lemma reinstall_loop_run:
  "reinstall_loop k c rn avail ps cnt s =
     (Inr (cnt + length (concat (map (reinstall_request k c rn avail) ps))),
      s\<lparr>mk_goal := mk_goal s @ concat (map (reinstall_request k c rn avail) ps)\<rparr>)"
  by (induction ps arbitrary: cnt s)
    (auto simp: reinstall_request_def request_def then_p_apply bind_p_apply split: option.split)

lemma for_request_run: "for_p (\<lambda>x. request (f x)) xs s = (Inr (), s\<lparr>mk_goal := mk_goal s @ map f xs\<rparr>)"
  by (induction xs arbitrary: s) (simp_all add: request_def then_p_apply)

lemma group_pkgs_by_snoc:
  "group_pkgs_by key (ps @ [p]) = dict_set (key p) ((case map_of (group_pkgs_by key ps) (key p) of None \<Rightarrow> [] | Some xs \<Rightarrow> xs) @ [p]) (group_pkgs_by key ps)"
  by (simp add: group_pkgs_by_def)

lemma group_pkgs_by_lookup:
  "map_of (group_pkgs_by key ps) x = (let xs = filter (\<lambda>p. key p = x) ps in if xs = [] then None else Some xs)"
proof (induction ps rule: rev_induct)
  case (snoc p ps)
  then show ?case by (auto simp: group_pkgs_by_snoc Let_def)
qed (simp add: group_pkgs_by_def)

text \<open>
  C10. What a reinstallation does: with the installed packages that match (and came from the given
  repository), in their order, each that is available in the same NEVRA from the wanted
  repositories is requested from exactly these; each other one is erased if \<open>remove_na\<close> asks
  for it, and else left; the result is the number of requests, and if there is none it is an error that
  tells whether nothing was installed or nothing available.
\<close>

theorem reinstall_requests:
  assumes "q = sol_query (sk_solution k None True (sack_query k s) spec)"
    and "inst = filter (\<lambda>p. case old_reponame of None \<Rightarrow> True | Some r \<Rightarrow> sk_repo k p = r) (q_installed q)"
    and "avail = filter (\<lambda>p. (case new_reponame of None \<Rightarrow> True | Some r \<Rightarrow> p_reponame p = r) \<and>
        (case new_reponame_neq of None \<Rightarrow> True | Some r \<Rightarrow> p_reponame p \<noteq> r)) (q_available q)"
    and "todo = concat (map (\<lambda>p. let same = filter (\<lambda>a. sk_str k a = sk_str k p) avail in
        if same \<noteq> [] then [GoalInstall (SelPkgs same None) (\<not> mc_strict c)]
        else if remove_na then [GoalErase p (mc_clean c)] else []) inst)"
  shows "reinstall k c spec old_reponame new_reponame new_reponame_neq remove_na s =
    (if inst = [] then (Inl (PackagesNotInstalledError ''no package matched'' spec), s)
     else (if todo = [] then Inl (PackagesNotAvailableError ''no package matched'' spec) else Inr (length todo),
           s\<lparr>mk_goal := mk_goal s @ todo\<rparr>))"
proof -
  let ?a = "q_repo new_reponame (q_available q)"
  have av: "(case new_reponame_neq of None \<Rightarrow> ?a | Some r \<Rightarrow> filter (\<lambda>p. p_reponame p \<noteq> r) ?a) = avail"
    unfolding assms(3) q_repo_def by (cases new_reponame; cases new_reponame_neq) (simp_all add: conj_commute)
  have "concat (map (reinstall_request k c remove_na (per_nevra_dict k avail)) inst) = todo"
    unfolding assms(4) by (intro arg_cong [where f = concat] map_cong refl)
      (simp add: reinstall_request_def per_nevra_dict_def group_pkgs_by_lookup Let_def)
  then show ?thesis
    by (simp add: reinstall_def bind_p_apply Let_def av reinstall_loop_run flip: assms(1,2))
qed

lemma reinstall_requests_witness:
  "reinstall example_sack example_mark_conf ''tour'' None None None False example_mark_state =
    (Inr 1, example_mark_state\<lparr>mk_goal := [GoalInstall (SelPkgs [example_mark_pkg ''tour'' ''2'' ''main'' 2, example_mark_pkg ''tour'' ''3'' ''main'' 3] None) False]\<rparr>)"
  by (subst reinstall_requests [OF refl refl refl refl])
    (simp add: example_sack_def example_mark_pkg_def example_mark_state_def example_mark_conf_def q_names_def q_installed_def q_available_def
      sack_query_def from_system_def SYSTEM_REPO_NAME_def Let_def)

lemma remove_run:
  "remove k c spec reponame forms s =
    (let inst = filter (\<lambda>p. case reponame of None \<Rightarrow> True | Some r \<Rightarrow> sk_repo k p = r)
                  (q_installed (sol_query (sk_solution k forms True (sack_query k s) spec)))
     in if inst = [] then raise_not_installed k spec forms reponame s
        else (Inr (length inst), s\<lparr>mk_goal := mk_goal s @ map (\<lambda>p. GoalErase p (mc_clean c)) inst\<rparr>))"
  by (simp add: remove_def bind_p_apply then_p_apply Let_def for_request_run)

lemma raise_not_installed_fails:
  "\<exists>m. raise_not_installed k spec forms reponame s = (Inl (PackagesNotInstalledError m spec), s)"
  by (simp add: raise_not_installed_def Let_def)

lemma raise_not_found_fails: "\<exists>m. raise_not_found k spec forms reponame s = (Inl (PackageNotFoundError m spec), s)"
  by (simp add: raise_not_found_def Let_def)

end
