(* ===== verification/Marking_Groups.thy ===== *)
theory Marking_Groups
  imports Marking Comps_Solver
begin

text \<open>
  Marking groups and mixed specs: \<open>install_specs\<close> and what it calls, the group and environment
  operations of \<open>Base\<close>, \<open>autoremove\<close>, and the translation of the collected comps transaction into
  requests (dnf/base.py lines 1651 to 1749, 1763 to 1916, 1966 to 2079, 2293 to 2340).

  The state of \<^theory_text>\<open>Marking\<close> is extended by the history, the comps transaction collected so far, the names
  of group members told to the goal and the reasons written to the history.  The installation of
  modules (\<open>ModuleBase.install\<close>) is the parameter \<open>ge_modules\<close>, absent in a build without modules.
\<close>

record base_state = mark_state +
  bs_hist :: hist
  bs_trans :: bunch
  bs_members :: "string set"
  bs_reasons :: "(pkg \<times> reason) list"

record base_env =
  be_sack :: sack_lib
  be_conf :: mark_conf
  be_nums :: type_nums
  be_swdb :: swdb
  be_comps :: comps
  be_strings :: "string set \<Rightarrow> string list"
  be_members :: "member set \<Rightarrow> member list"
  be_types :: "string list \<Rightarrow> ptype set res"
  be_group_types :: "string list"
  be_basearch :: string
  be_safe :: "pkg list \<Rightarrow> pkg list"
  be_scheme :: "string \<Rightarrow> string res"
  be_glob :: "string \<Rightarrow> pkg list \<Rightarrow> pkg list"
  be_modules :: "(string list \<Rightarrow> bool \<Rightarrow> (base_state, unit) prog) option"

definition on_hist :: "(hist, 'a) prog \<Rightarrow> (base_state, 'a) prog" where
  "on_hist m = (\<lambda>s. case m (bs_hist s) of (r, h) \<Rightarrow> (r, s\<lparr>bs_hist := h\<rparr>))"

subsection \<open>Groups and environments\<close>

definition add_comps_trans :: "bunch \<Rightarrow> (base_state, nat) prog" where
  "add_comps_trans tr = then_p (modify_p (\<lambda>s. s\<lparr>bs_trans := bunch_iadd (bs_trans s) tr\<rparr>)) (return_p (bunch_len tr))"

text \<open>
  The argument \<open>exclude\<close> of \<open>group_install\<close> is expanded and passed on to a solver that ignores it, so
  it has no effect and no counterpart here.
\<close>

definition base_environment_install :: "base_env \<Rightarrow> string \<Rightarrow> string list \<Rightarrow> bool \<Rightarrow> string list \<Rightarrow> (base_state, nat) prog" where
  "base_environment_install b env_id types strict exclude_groups =
     bind_p (lift_p (be_types b types)) (\<lambda>ty.
     bind_p (on_hist (environment_install (be_nums b) (be_swdb b) (be_comps b) env_id ty strict exclude_groups)) (\<lambda>tr.
       if bunch_len tr = 0 then return_p 0 else add_comps_trans tr))"

definition base_environment_remove :: "base_env \<Rightarrow> string \<Rightarrow> (base_state, nat) prog" where
  "base_environment_remove b env_id =
     bind_p (on_hist (environment_remove (be_strings b) (be_nums b) (be_swdb b) env_id)) add_comps_trans"

definition base_group_install :: "base_env \<Rightarrow> string \<Rightarrow> string list \<Rightarrow> bool \<Rightarrow> (base_state, nat) prog" where
  "base_group_install b grp_id types strict =
     bind_p (lift_p (be_types b types)) (\<lambda>ty.
     bind_p (on_hist (group_install (be_nums b) (be_swdb b) (be_comps b) grp_id ty strict)) (\<lambda>tr.
       if bunch_len tr = 0 then return_p 0 else add_comps_trans tr))"

definition base_group_remove :: "base_env \<Rightarrow> string \<Rightarrow> (base_state, nat) prog" where
  "base_group_remove b grp_id = bind_p (on_hist (group_remove (be_nums b) (be_swdb b) grp_id)) add_comps_trans"

definition base_environment_upgrade :: "base_env \<Rightarrow> string \<Rightarrow> (base_state, nat) prog" where
  "base_environment_upgrade b env_id =
     bind_p (on_hist (environment_upgrade (be_nums b) (be_swdb b) (be_comps b) env_id)) add_comps_trans"

definition base_group_upgrade :: "base_env \<Rightarrow> string \<Rightarrow> (base_state, nat) prog" where
  "base_group_upgrade b grp_id = bind_p (on_hist (group_upgrade (be_nums b) (be_swdb b) (be_comps b) grp_id)) add_comps_trans"

definition find_ids :: "base_env \<Rightarrow> bool \<Rightarrow> bool \<Rightarrow> string list \<Rightarrow> (string list \<times> string list) res" where
  "find_ids b av inst patterns =
     query_get (be_strings b) (be_swdb b) (be_comps b)
       \<lparr>cq_environments = True, cq_groups = True, cq_available = av, cq_installed = inst\<rparr> patterns"

text \<open>A loop that adds up the results of its body.\<close>

fun sum_p :: "('a \<Rightarrow> ('s, nat) prog) \<Rightarrow> 'a list \<Rightarrow> ('s, nat) prog" where
  "sum_p f [] = return_p 0"
| "sum_p f (x # xs) = bind_p (f x) (\<lambda>n. bind_p (sum_p f xs) (\<lambda>m. return_p (n + m)))"

text \<open>One pattern: \<^const>\<open>None\<close> when nothing is found, which is only logged.\<close>

definition env_group_install_one :: "base_env \<Rightarrow> string list \<Rightarrow> bool \<Rightarrow> string list \<Rightarrow> string \<Rightarrow> (base_state, nat option) prog" where
  "env_group_install_one b types strict exclude_groups pattern =
     (case find_ids b True False [pattern] of
        Inl e \<Rightarrow> then_p (warn (exn_text e)) (return_p None)
      | Inr (envs, groups) \<Rightarrow>
          bind_p (sum_p (\<lambda>g. base_group_install b g types strict) (filter (\<lambda>g. g \<notin> set exclude_groups) groups)) (\<lambda>n.
          bind_p (sum_p (\<lambda>e. base_environment_install b e types strict exclude_groups) envs) (\<lambda>m.
          return_p (Some (n + m)))))"

fun env_group_install_loop ::
  "base_env \<Rightarrow> string list \<Rightarrow> bool \<Rightarrow> string list \<Rightarrow> string list \<Rightarrow> nat \<times> bool \<Rightarrow> (base_state, nat \<times> bool) prog" where
  "env_group_install_loop b types strict exclude_groups [] acc = return_p acc"
| "env_group_install_loop b types strict exclude_groups (p # ps) (cnt, found_all) =
     bind_p (env_group_install_one b types strict exclude_groups p) (\<lambda>r.
       case r of
         None \<Rightarrow> env_group_install_loop b types strict exclude_groups ps (cnt, False)
       | Some n \<Rightarrow> env_group_install_loop b types strict exclude_groups ps (cnt + n, found_all))"

definition env_group_install :: "base_env \<Rightarrow> string list \<Rightarrow> string list \<Rightarrow> bool \<Rightarrow> string list \<Rightarrow> (base_state, nat) prog" where
  "env_group_install b patterns types strict exclude_groups =
     bind_p (env_group_install_loop b types strict exclude_groups patterns (0, True)) (\<lambda>(cnt, found_all).
       if \<not> found_all \<and> strict then raise_p (DnfError ''Nothing to do.'') else return_p cnt)"

definition env_group_remove :: "base_env \<Rightarrow> string list \<Rightarrow> (base_state, nat) prog" where
  "env_group_remove b patterns =
     (case find_ids b False True patterns of
        Inl e \<Rightarrow> then_p (warn (''Warning: '' @ exn_text e)) (raise_p (DnfError ''No groups marked for removal.''))
      | Inr (envs, groups) \<Rightarrow>
          bind_p (sum_p (base_environment_remove b) envs) (\<lambda>n.
          bind_p (sum_p (base_group_remove b) groups) (\<lambda>m. return_p (n + m))))"

fun is_comps_error :: "exn \<Rightarrow> bool" where
  "is_comps_error (CompsError m) = True"
| "is_comps_error _ = False"

text \<open>The upgrades of the ids found; each failure is logged, and the result says whether any succeeded.\<close>

fun try_upgrades :: "(string \<Rightarrow> (base_state, nat) prog) \<Rightarrow> string list \<Rightarrow> bool \<Rightarrow> (base_state, bool) prog" where
  "try_upgrades f [] acc = return_p acc"
| "try_upgrades f (i # is) acc =
     bind_p (catch_p (bind_p (f i) (\<lambda>_. return_p True))
       (\<lambda>e. if is_comps_error e then Some (then_p (warn (exn_text e)) (return_p acc)) else None)) (try_upgrades f is)"

fun env_group_upgrade_loop :: "base_env \<Rightarrow> string list \<Rightarrow> bool \<Rightarrow> (base_state, bool) prog" where
  "env_group_upgrade_loop b [] acc = return_p acc"
| "env_group_upgrade_loop b (p # ps) acc =
     (case find_ids b False True [p] of
        Inl e \<Rightarrow> then_p (warn (exn_text e)) (env_group_upgrade_loop b ps acc)
      | Inr (envs, groups) \<Rightarrow>
          bind_p (try_upgrades (base_environment_upgrade b) envs acc) (\<lambda>acc.
          bind_p (try_upgrades (base_group_upgrade b) groups acc) (\<lambda>acc.
          env_group_upgrade_loop b ps acc)))"

definition env_group_upgrade :: "base_env \<Rightarrow> string list \<Rightarrow> (base_state, unit) prog" where
  "env_group_upgrade b patterns =
     bind_p (env_group_upgrade_loop b patterns False) (\<lambda>group_upgraded.
       if \<not> group_upgraded then raise_p (CliError ''No group marked for upgrade.'') else return_p ())"

subsection \<open>Specs\<close>

definition categorize_specs :: "base_env \<Rightarrow> string list \<Rightarrow> string list \<Rightarrow> (namespace \<times> namespace) res" where
  "categorize_specs b inst exclude =
     (case parse_specs (be_scheme b) inst of
        (Inl e, _) \<Rightarrow> Inl e
      | (Inr _, i) \<Rightarrow> (case parse_specs (be_scheme b) exclude of (Inl e, _) \<Rightarrow> Inl e | (Inr _, x) \<Rightarrow> Inr (i, x)))"

definition exclude_package_specs :: "base_env \<Rightarrow> string list \<Rightarrow> (base_state, unit) prog" where
  "exclude_package_specs b specs =
     bind_p (gets_p (sack_query (be_sack b))) (\<lambda>all.
       let glob_excludes = filter (\<lambda>x. is_glob_pattern (PStr x)) specs;
           excludes = filter (\<lambda>x. x \<notin> set glob_excludes) specs
       in modify_p (\<lambda>s. s\<lparr>mk_excludes := mk_excludes s @ q_names excludes all @ concat (map (\<lambda>g. be_glob b g all) glob_excludes)\<rparr>))"

text \<open>\<open>_expand_groups\<close>: an environment that is installed but no longer available has no groups to visit.\<close>

fun expand_envs :: "base_env \<Rightarrow> string list \<Rightarrow> string set res" where
  "expand_envs b [] = Inr {}"
| "expand_envs b (e # es) =
     (case environment_by_id (be_comps b) e of
        None \<Rightarrow> Inl (AttributeError ''groups_iter'')
      | Some env \<Rightarrow> bind_r (expand_envs b es) (\<lambda>S. Inr (set (map co_id (env_groups_iter (be_comps b) env)) \<union> S)))"

fun expand_loop :: "base_env \<Rightarrow> string list \<Rightarrow> string set \<Rightarrow> (base_state, string set) prog" where
  "expand_loop b [] groups = return_p groups"
| "expand_loop b (p # ps) groups =
     (case find_ids b True True [p] of
        Inl e \<Rightarrow> then_p (warn (''Warning: Module or '' @ exn_text e)) (expand_loop b ps groups)
      | Inr (envs, grps) \<Rightarrow>
          bind_p (lift_p (expand_envs b envs)) (\<lambda>S. expand_loop b ps (groups \<union> set grps \<union> set envs \<union> S)))"

definition expand_groups :: "base_env \<Rightarrow> string list \<Rightarrow> (base_state, string list) prog" where
  "expand_groups b group_specs = bind_p (expand_loop b group_specs {}) (\<lambda>groups. return_p (be_strings b groups))"

definition group_spec_parts :: "base_env \<Rightarrow> string \<Rightarrow> string \<times> string list" where
  "group_spec_parts b spec =
     (case split_on (CHR ''/'') spec of
        g # t # _ \<Rightarrow> (g, split_on (CHR '','') t)
      | _ \<Rightarrow> (spec, be_group_types b))"

fun install_groups :: "base_env \<Rightarrow> string list \<Rightarrow> string list \<Rightarrow> bool \<Rightarrow> string list \<Rightarrow> (base_state, string list) prog" where
  "install_groups b [] exclude_groups strict skipped = return_p skipped"
| "install_groups b (spec # specs) exclude_groups strict skipped =
     (case group_spec_parts b spec of (g, types) \<Rightarrow>
        bind_p (catch_p (bind_p (env_group_install b [g] types strict exclude_groups) (\<lambda>_. return_p skipped))
          (\<lambda>e. if dnf_error e then Some (return_p (skipped @ [''@'' @ g])) else None))
          (install_groups b specs exclude_groups strict))"

text \<open>\<open>MarkingErrors.__init__\<close>; the plural is chosen by the length of a pair.\<close>

definition marking_errors ::
  "string list \<Rightarrow> string list \<Rightarrow> string list \<Rightarrow> string list \<Rightarrow> (string list list \<times> bool) option \<Rightarrow> exn" where
  "marking_errors no_match_group error_group no_match_pkg error_pkg module_errors =
     (let part = (\<lambda>text specs. if specs = [] then [] else nl @ text @ join_str '', '' specs) in
      MarkingErrors
        (''Problems in request:'' @ part ''missing packages: '' no_match_pkg @ part ''broken packages: '' error_pkg @
         part ''missing groups or modules: '' no_match_group @ part ''broken groups or modules: '' error_group @
         (case module_errors of
            None \<Rightarrow> []
          | Some (problems, in_defaults) \<Rightarrow>
              nl @ (if in_defaults then ''Modular dependency problems with Defaults:'' else ''Modular dependency problems:'') @
              nl @ format_resolve_problems problems))
        no_match_group error_group no_match_pkg error_pkg module_errors)"

fun is_marking_error :: "exn \<Rightarrow> bool" where
  "is_marking_error (MarkingError m p) = True"
| "is_marking_error (PackageNotFoundError m p) = True"
| "is_marking_error (PackagesNotInstalledError m p) = True"
| "is_marking_error (PackagesNotAvailableError m p) = True"
| "is_marking_error _ = False"

fun install_pkg_specs :: "base_env \<Rightarrow> string option \<Rightarrow> bool \<Rightarrow> forms \<Rightarrow> string list \<Rightarrow> string list \<Rightarrow> (base_state, string list) prog" where
  "install_pkg_specs b reponame strict forms [] missing = return_p missing"
| "install_pkg_specs b reponame strict forms (spec # specs) missing =
     bind_p (catch_p (bind_p (install (be_sack b) (be_conf b) spec reponame strict forms) (\<lambda>_. return_p missing))
       (\<lambda>e. if is_marking_error e then Some (then_p (warn (exn_text e)) (return_p (missing @ [spec]))) else None))
       (install_pkg_specs b reponame strict forms specs)"

text \<open>What the installation of modules leaves over: the specs that are no module, and its errors.\<close>

definition install_modules ::
  "base_env \<Rightarrow> bool \<Rightarrow> string list \<Rightarrow> (base_state, string list \<times> string list \<times> (string list list \<times> bool) option) prog" where
  "install_modules b strict specs =
     (case be_modules b of
        Some inst \<Rightarrow>
          if specs = [] then return_p ([], [], None)
          else (\<lambda>s. case inst specs strict s of
             (Inr _, s') \<Rightarrow> (Inr ([], [], None), s')
           | (Inl (MarkingErrors m no_match error np ep md), s') \<Rightarrow> (Inr (no_match, map (\<lambda>x. ''@'' @ x) error, md), s')
           | (Inl e, s') \<Rightarrow> (Inl e, s'))
      | None \<Rightarrow> return_p (specs, [], None))"

definition install_specs :: "base_env \<Rightarrow> string list \<Rightarrow> string list \<Rightarrow> string option \<Rightarrow> bool \<Rightarrow> forms \<Rightarrow> (base_state, unit) prog" where
  "install_specs b inst exclude reponame strict forms =
     bind_p (lift_p (categorize_specs b inst exclude)) (\<lambda>(i, x).
     then_p (exclude_package_specs b (pkg_specs x))
     (bind_p (install_pkg_specs b reponame strict forms (pkg_specs i) []) (\<lambda>no_match_pkg.
      bind_p (install_modules b strict (grp_specs i)) (\<lambda>(no_modules, error_group, module_errors).
      bind_p (if no_modules = [] then return_p []
              else bind_p (expand_groups b (grp_specs x)) (\<lambda>exclude_groups. install_groups b no_modules exclude_groups strict [])) (\<lambda>no_match_group.
        if no_match_group \<noteq> [] \<or> error_group \<noteq> [] \<or> no_match_pkg \<noteq> [] \<or> module_errors \<noteq> None
        then raise_p (marking_errors no_match_group error_group no_match_pkg [] module_errors)
        else return_p ())))))"

subsection \<open>The comps transaction becomes requests\<close>

fun member_requires :: "member \<Rightarrow> string option" where
  "member_requires (RawPkg p) = ck_requires p"
| "member_requires (TransPkg p) = tp_requires p"

fun member_basearchonly :: "member \<Rightarrow> bool" where
  "member_basearchonly (RawPkg p) = ck_basearchonly p"
| "member_basearchonly (TransPkg p) = tp_basearchonly p"

text \<open>The packages a member of a group stands for.\<close>

definition member_query :: "base_env \<Rightarrow> pkg list \<Rightarrow> member \<Rightarrow> pkg list" where
  "member_query b all m =
     filter (\<lambda>p. p_name p = member_name m \<and> (member_basearchonly m \<longrightarrow> p_arch p = be_basearch b) \<and>
       p_arch p \<notin> {''src'', ''nosrc''}) all"

definition requires_selector :: "member \<Rightarrow> string \<Rightarrow> selector" where
  "requires_selector m r = SelProvides (''('' @ member_name m @ '' if '' @ r @ '')'')"

definition trans_install :: "base_env \<Rightarrow> bool \<Rightarrow> pkg list \<Rightarrow> member \<Rightarrow> (base_state, unit) prog" where
  "trans_install b strict q m =
     (let k = be_sack b; c = be_conf b; req = (case member_requires m of None \<Rightarrow> [] | Some r \<Rightarrow> r) in
      if mc_multilib c = ''all''
      then if req = [] then bind_p (install_multiarch k c q None strict) (\<lambda>_. return_p ())
           else then_p (report_already_installed k (q_installed q)) (request (GoalInstall (requires_selector m req) (\<not> strict)))
      else if req \<noteq> [] then request (GoalInstall (requires_selector m req) (\<not> strict))
      else bind_p (gets_p (sack_query k)) (\<lambda>all.
        let q' = (if mc_obsoletes c
                  then if q_installed q \<noteq> [] then q_union k q (sk_obsoleting k all q)
                       else q_union k q (sk_obsoleting k all (sk_latest_by_priority k q))
                  else q)
        in request (GoalInstall (SelPkgs q' None) (\<not> strict))))"

datatype member_kind = InstallStrict | InstallOptional | UpgradeMember | RemoveMember

definition trans_member :: "base_env \<Rightarrow> member_kind \<Rightarrow> pkg list \<Rightarrow> pkg list \<Rightarrow> member \<Rightarrow> (base_state, pkg list) prog" where
  "trans_member b kind q remove_query m =
     (case kind of
        InstallStrict \<Rightarrow> then_p (trans_install b True q m) (return_p remove_query)
      | InstallOptional \<Rightarrow> then_p (trans_install b False q m) (return_p remove_query)
      | UpgradeMember \<Rightarrow> then_p (request (GoalUpgrade (SelPkgs q None))) (return_p remove_query)
      | RemoveMember \<Rightarrow> return_p (q_union (be_sack b) remove_query q))"

fun finalize_loop :: "base_env \<Rightarrow> (member_kind \<times> member) list \<Rightarrow> pkg list \<Rightarrow> (base_state, pkg list) prog" where
  "finalize_loop b [] remove_query = return_p remove_query"
| "finalize_loop b ((kind, m) # ms) remove_query =
     bind_p (gets_p (\<lambda>s. member_query b (sack_query (be_sack b) s) m)) (\<lambda>q.
       if q = []
       then then_p (warn (''No match for group package '' @ dq @ member_name m @
                (if member_basearchonly m then ''.'' @ be_basearch b else []) @ dq))
              (finalize_loop b ms remove_query)
       else bind_p (trans_member b kind q remove_query m) (\<lambda>remove_query.
            then_p (modify_p (\<lambda>s. s\<lparr>bs_members := insert (member_name m) (bs_members s)\<rparr>))
              (finalize_loop b ms remove_query)))"

text \<open>\<open>_remove_if_unneeded\<close>.\<close>

fun removable_pkgs :: "base_env \<Rightarrow> hist \<Rightarrow> pkg list \<Rightarrow> pkg list res" where
  "removable_pkgs b h [] = Inr []"
| "removable_pkgs b h (p # ps) =
     bind_r (is_removable_pkg (be_swdb b) h (p_name p)) (\<lambda>yes.
     bind_r (removable_pkgs b h ps) (\<lambda>r. Inr (if yes then p # r else r)))"

definition set_dependency :: "pkg \<Rightarrow> (base_state, unit) prog" where
  "set_dependency p = modify_p (\<lambda>s. s\<lparr>bs_reasons := bs_reasons s @ [(p, DEPENDENCY)]\<rparr>)"

definition remove_if_unneeded :: "base_env \<Rightarrow> pkg list \<Rightarrow> (base_state, unit) prog" where
  "remove_if_unneeded b query =
     (let query = q_installed query in
      if query = [] then return_p ()
      else bind_p (gets_p (\<lambda>s. removable_pkgs b (bs_hist s) query)) (\<lambda>r.
        bind_p (lift_p r) (\<lambda>history.
        let unneeded = be_safe b query in
        then_p (for_p set_dependency (filter (\<lambda>p. p \<notin> set unneeded) history))
          (for_p (\<lambda>p. request (GoalErase p (mc_clean (be_conf b)))) (filter (\<lambda>p. p \<in> set unneeded \<and> p \<in> set history) query)))))"

definition todo_members :: "base_env \<Rightarrow> bunch \<Rightarrow> (member_kind \<times> member) list" where
  "todo_members b tr =
     map (Pair InstallStrict) (be_members b (b_install tr)) @ map (Pair InstallOptional) (be_members b (b_install_opt tr)) @
     map (Pair UpgradeMember) (be_members b (b_upgrade tr)) @ map (Pair RemoveMember) (be_members b (b_remove tr))"

definition finalize_comps_trans :: "base_env \<Rightarrow> (base_state, unit) prog" where
  "finalize_comps_trans b =
     bind_p (gets_p bs_trans) (\<lambda>tr. bind_p (finalize_loop b (todo_members b tr) []) (remove_if_unneeded b))"

subsection \<open>Autoremove\<close>

fun autoremove_specs :: "base_env \<Rightarrow> forms \<Rightarrow> string list \<Rightarrow> bool \<Rightarrow> (base_state, bool) prog" where
  "autoremove_specs b forms [] acc = return_p acc"
| "autoremove_specs b forms (spec # specs) acc =
     bind_p (catch_p (bind_p (remove (be_sack b) (be_conf b) spec None forms) (\<lambda>_. return_p True))
       (\<lambda>e. if is_marking_error e then Some (then_p (warn (exn_text e)) (return_p acc)) else None))
       (autoremove_specs b forms specs)"

definition autoremove :: "base_env \<Rightarrow> forms \<Rightarrow> string list \<Rightarrow> string list \<Rightarrow> string list \<Rightarrow> (base_state, unit) prog" where
  "autoremove b forms pkgs grps files =
     (if grps \<noteq> [] \<or> pkgs \<noteq> [] \<or> files \<noteq> []
      then bind_p
        (if grps \<noteq> [] \<and> forms \<noteq> None \<and> forms \<noteq> Some []
         then then_p (for_p (\<lambda>g. warn (''Not a valid form: '' @ g)) grps) (return_p False)
         else if grps \<noteq> [] then bind_p (env_group_remove b grps) (\<lambda>n. return_p (n \<noteq> 0))
         else return_p False) (\<lambda>hit.
        bind_p (autoremove_specs b forms (pkgs @ files) hit) (\<lambda>hit.
        if \<not> hit then warn ''No packages marked for removal.'' else return_p ()))
      else bind_p (gets_p (sack_query (be_sack b))) (\<lambda>all.
        let unneeded = sk_unneeded (be_sack b) all;
            protected = q_names (mc_protected (be_conf b)) (q_installed all);
            found = filter (\<lambda>p. p \<in> set unneeded) protected
        in then_p (for_p (\<lambda>p. warn (''Unneeded protected package: '' @ sk_str (be_sack b) p @
               '' (and its dependencies) cannot be removed, either mark it as user-installed or change protected_packages configuration option.'')) found)
             (for_p (\<lambda>p. bind_p (package_remove p) (\<lambda>_. return_p ()))
               (if found \<noteq> [] then sk_unneeded_extra (be_sack b) all protected else unneeded))))"

end
