(* ===== verification/Marking_Properties.thy ===== *)
theory Marking_Properties
  imports Marking_Groups
begin

text \<open>
  What the marking of groups and mixed specs comes to: which packages a comps transaction erases, and
  which specs a request reports as missing.
\<close>

subsection \<open>Requests and reports only\<close>

text \<open>A computation that always returns and does no more than to request, none of it an erasure, and to log.\<close>

fun erases :: "goal_op \<Rightarrow> bool" where
  "erases (GoalErase p c) = True"
| "erases _ = False"

definition adds_only :: "('a mark_state_scheme, 'b) prog \<Rightarrow> bool" where
  "adds_only m \<longleftrightarrow> (\<forall>s. \<exists>a gs l. m s = (Inr a, s\<lparr>mk_goal := mk_goal s @ gs, mk_log := l\<rparr>) \<and> (\<forall>g \<in> set gs. \<not> erases g))"

named_theorems adds

lemma adds_onlyI:
  "(\<And>s. m s = (Inr (a s), s\<lparr>mk_goal := mk_goal s @ gs s, mk_log := l s\<rparr>)) \<Longrightarrow> (\<And>s g. g \<in> set (gs s) \<Longrightarrow> \<not> erases g) \<Longrightarrow> adds_only m"
  unfolding adds_only_def by blast

lemma adds_request [adds]: "\<not> erases g \<Longrightarrow> adds_only (request g)"
  by (rule adds_onlyI [where a = "\<lambda>_. ()" and gs = "\<lambda>_. [g]" and l = mk_log]) (simp_all add: request_def)

lemma adds_warn [adds]: "adds_only (warn m)"
  by (rule adds_onlyI [where a = "\<lambda>_. ()" and gs = "\<lambda>_. []" and l = "\<lambda>s. mk_log s @ [m]"]) (simp_all add: warn_def)

lemma adds_return [adds]: "adds_only (return_p a)"
  by (rule adds_onlyI [where a = "\<lambda>_. a" and gs = "\<lambda>_. []" and l = mk_log]) simp_all

lemma adds_bind [adds]: "adds_only m \<Longrightarrow> (\<And>a. adds_only (f a)) \<Longrightarrow> adds_only (bind_p m f)"
  unfolding adds_only_def
proof (intro allI)
  fix s
  assume m: "\<forall>s. \<exists>a gs l. m s = (Inr a, s\<lparr>mk_goal := mk_goal s @ gs, mk_log := l\<rparr>) \<and> (\<forall>g \<in> set gs. \<not> erases g)"
    and f: "\<And>a. \<forall>s. \<exists>b gs l. f a s = (Inr b, s\<lparr>mk_goal := mk_goal s @ gs, mk_log := l\<rparr>) \<and> (\<forall>g \<in> set gs. \<not> erases g)"
  from m obtain a gs l where 1: "m s = (Inr a, s\<lparr>mk_goal := mk_goal s @ gs, mk_log := l\<rparr>)" "\<forall>g \<in> set gs. \<not> erases g" by blast
  from spec [OF f [of a], of "s\<lparr>mk_goal := mk_goal s @ gs, mk_log := l\<rparr>"] obtain b hs l' where "f a (s\<lparr>mk_goal := mk_goal s @ gs, mk_log := l\<rparr>) = (Inr b, s\<lparr>mk_goal := (mk_goal s @ gs) @ hs, mk_log := l'\<rparr>)"
    "\<forall>g \<in> set hs. \<not> erases g" by auto
  with 1 show "\<exists>b gs l. bind_p m f s = (Inr b, s\<lparr>mk_goal := mk_goal s @ gs, mk_log := l\<rparr>) \<and> (\<forall>g \<in> set gs. \<not> erases g)"
    by (intro exI [of _ b] exI [of _ "gs @ hs"] exI [of _ l']) (auto simp: bind_p_def)
qed

lemma adds_then [adds]: "adds_only m \<Longrightarrow> adds_only n \<Longrightarrow> adds_only (then_p m n)"
  unfolding then_p_def by (rule adds_bind)

lemma adds_gets [adds]: "(\<And>a. adds_only (f a)) \<Longrightarrow> adds_only (bind_p (gets_p g) f)"
  unfolding adds_only_def by (simp add: bind_p_def gets_p_def)

lemma adds_for [adds]: "(\<And>x. adds_only (f x)) \<Longrightarrow> adds_only (for_p f xs)"
  by (induction xs) (simp_all only: for_p.simps adds_return adds_then)

lemma adds_if [adds]: "(b \<Longrightarrow> adds_only m) \<Longrightarrow> (\<not> b \<Longrightarrow> adds_only n) \<Longrightarrow> adds_only (if b then m else n)"
  by simp

lemma adds_report [adds]: "adds_only (report_already_installed k ps)"
  unfolding report_already_installed_def msg_installed_def by (intro adds)

lemma adds_multiarch [adds]: "adds_only (install_multiarch k c q r strict)"
  unfolding install_multiarch_def split_def by (intro adds) simp

lemma adds_trans_install [adds]: "adds_only (trans_install b strict q m)"
  unfolding trans_install_def Let_def by (intro adds) simp_all

lemma adds_onlyD:
  "adds_only m \<Longrightarrow> \<exists>a gs l. m s = (Inr a, s\<lparr>mk_goal := mk_goal s @ gs, mk_log := l\<rparr>) \<and> (\<forall>g \<in> set gs. \<not> erases g)"
  unfolding adds_only_def by blast

subsection \<open>The comps transaction\<close>

definition to_remove :: "member_kind \<Rightarrow> bool" where
  "to_remove kind \<longleftrightarrow> kind = RemoveMember"

lemma trans_member_run:
  "\<exists>gs l. trans_member b kind q rq m s =
     (Inr (if kind = RemoveMember then q_union (be_sack b) rq q else rq), s\<lparr>mk_goal := mk_goal s @ gs, mk_log := l\<rparr>) \<and>
     (\<forall>g \<in> set gs. \<not> erases g)"
proof (cases kind)
  case RemoveMember
  then show ?thesis by (intro exI [of _ "[]"] exI [of _ "mk_log s"]) (simp add: trans_member_def)
next
  case InstallStrict
  obtain gs l where "trans_install b True q m s = (Inr (), s\<lparr>mk_goal := mk_goal s @ gs, mk_log := l\<rparr>)" "\<forall>g \<in> set gs. \<not> erases g"
    using adds_onlyD [OF adds_trans_install, of b True q m s] by auto
  with InstallStrict show ?thesis by (auto simp: trans_member_def)
next
  case InstallOptional
  obtain gs l where "trans_install b False q m s = (Inr (), s\<lparr>mk_goal := mk_goal s @ gs, mk_log := l\<rparr>)" "\<forall>g \<in> set gs. \<not> erases g"
    using adds_onlyD [OF adds_trans_install, of b False q m s] by auto
  with InstallOptional show ?thesis by (auto simp: trans_member_def)
next
  case UpgradeMember
  then show ?thesis by (intro exI [of _ "[GoalUpgrade (SelPkgs q None)]"] exI [of _ "mk_log s"]) (simp add: trans_member_def request_def)
qed

text \<open>The packages of the members to remove, and the members that match anything.\<close>

definition loop_query :: "base_env \<Rightarrow> base_state \<Rightarrow> (member_kind \<times> member) list \<Rightarrow> pkg list \<Rightarrow> pkg list" where
  "loop_query b s ms rq =
     foldl (\<lambda>rq (kind, m). if kind = RemoveMember \<and> member_query b (sack_query (be_sack b) s) m \<noteq> []
       then q_union (be_sack b) rq (member_query b (sack_query (be_sack b) s) m) else rq) rq ms"

definition matched_names :: "base_env \<Rightarrow> base_state \<Rightarrow> (member_kind \<times> member) list \<Rightarrow> string set" where
  "matched_names b s ms = {member_name m | kind m. (kind, m) \<in> set ms \<and> member_query b (sack_query (be_sack b) s) m \<noteq> []}"

lemma loop_query_simps:
  "loop_query b s [] rq = rq"
  "loop_query b s ((kind, m) # ms) rq =
     loop_query b s ms (if kind = RemoveMember \<and> member_query b (sack_query (be_sack b) s) m \<noteq> []
       then q_union (be_sack b) rq (member_query b (sack_query (be_sack b) s) m) else rq)"
  by (simp_all add: loop_query_def)

lemma matched_names_simps:
  "matched_names b s [] = {}"
  "matched_names b s ((kind, m) # ms) =
     (if member_query b (sack_query (be_sack b) s) m \<noteq> [] then {member_name m} else {}) \<union> matched_names b s ms"
  by (auto simp: matched_names_def)

lemma finalize_loop_run:
  "\<exists>gs l. finalize_loop b ms rq s = (Inr (loop_query b s ms rq),
     s\<lparr>mk_goal := mk_goal s @ gs, mk_log := l, bs_members := bs_members s \<union> matched_names b s ms\<rparr>) \<and> (\<forall>g \<in> set gs. \<not> erases g)"
proof (induction ms arbitrary: rq s)
  case Nil
  show ?case by (intro exI [of _ "[]"] exI [of _ "mk_log s"]) (simp add: loop_query_simps matched_names_simps)
next
  case (Cons km ms)
  obtain kind m where km: "km = (kind, m)" by (cases km)
  let ?q = "member_query b (sack_query (be_sack b) s) m"
  have q: "sack_query k (s\<lparr>mk_log := l\<rparr>) = sack_query k s"
    "sack_query k (s\<lparr>mk_goal := g, mk_log := l, bs_members := ns\<rparr>) = sack_query k s" for k g l ns
    by (simp_all add: sack_query_def)
  have same: "loop_query b (s\<lparr>mk_goal := g, mk_log := l, bs_members := ns\<rparr>) = loop_query b s"
    "loop_query b (s\<lparr>mk_log := l\<rparr>) = loop_query b s" "matched_names b (s\<lparr>mk_log := l\<rparr>) = matched_names b s"
    "matched_names b (s\<lparr>mk_goal := g, mk_log := l, bs_members := ns\<rparr>) = matched_names b s" for g l ns
    unfolding loop_query_def matched_names_def q by (rule refl)+
  show ?case
  proof (cases "?q = []")
    case True
    let ?u = "s\<lparr>mk_log := mk_log s @ [''No match for group package '' @ dq @ member_name m @
                (if member_basearchonly m then ''.'' @ be_basearch b else []) @ dq]\<rparr>"
    from Cons.IH [of rq ?u] obtain gs l where
      "finalize_loop b ms rq ?u = (Inr (loop_query b s ms rq), ?u\<lparr>mk_goal := mk_goal s @ gs, mk_log := l, bs_members := bs_members s \<union> matched_names b s ms\<rparr>)"
      "\<forall>g \<in> set gs. \<not> erases g" unfolding same by auto
    with True show ?thesis
      by (intro exI [of _ gs] exI [of _ l])
        (simp_all add: km bind_p_apply then_p_apply warn_def loop_query_simps matched_names_simps)
  next
    case False
    obtain gs l where tm: "trans_member b kind ?q rq m s =
        (Inr (if kind = RemoveMember then q_union (be_sack b) rq ?q else rq), s\<lparr>mk_goal := mk_goal s @ gs, mk_log := l\<rparr>)"
      "\<forall>g \<in> set gs. \<not> erases g" using trans_member_run by meson
    let ?rq = "if kind = RemoveMember then q_union (be_sack b) rq ?q else rq"
    let ?u = "s\<lparr>mk_goal := mk_goal s @ gs, mk_log := l, bs_members := insert (member_name m) (bs_members s)\<rparr>"
    from Cons.IH [of ?rq ?u] obtain hs l' where
      "finalize_loop b ms ?rq ?u = (Inr (loop_query b s ms ?rq),
         ?u\<lparr>mk_goal := (mk_goal s @ gs) @ hs, mk_log := l', bs_members := insert (member_name m) (bs_members s) \<union> matched_names b s ms\<rparr>)"
      "\<forall>g \<in> set hs. \<not> erases g" unfolding same by auto
    then show ?thesis using False tm
      by (intro exI [of _ "gs @ hs"] exI [of _ l']) (auto simp: km bind_p_apply then_p_apply loop_query_simps matched_names_simps)
  qed
qed

lemma loop_query_no_removal: "\<forall>(kind, m) \<in> set ms. kind \<noteq> RemoveMember \<Longrightarrow> loop_query b s ms rq = rq"
  unfolding loop_query_def by (induction ms arbitrary: rq) auto

lemma loop_query_append: "loop_query b s (ms @ ns) rq = loop_query b s ns (loop_query b s ms rq)"
  by (simp add: loop_query_def)

definition stands_for :: "base_env \<Rightarrow> base_state \<Rightarrow> member set \<Rightarrow> pkg \<Rightarrow> bool" where
  "stands_for b s M p \<longleftrightarrow> (\<exists>m \<in> M. p \<in> set (member_query b (sack_query (be_sack b) s) m))"

lemma loop_query_removals:
  "loop_query b s (map (Pair RemoveMember) ms) (filter Q (sk_all (be_sack b))) =
     filter (\<lambda>p. Q p \<or> stands_for b s (set ms) p) (sk_all (be_sack b))"
proof (induction ms arbitrary: Q)
  case Nil
  show ?case by (simp add: loop_query_def stands_for_def)
next
  case (Cons m ms)
  let ?q = "member_query b (sack_query (be_sack b) s) m"
  let ?Q = "\<lambda>p. Q p \<or> p \<in> set ?q"
  have sub: "set ?q \<subseteq> set (sk_all (be_sack b))" by (auto simp: member_query_def sack_query_def)
  have "(if ?q \<noteq> [] then q_union (be_sack b) (filter Q (sk_all (be_sack b))) ?q else filter Q (sk_all (be_sack b)))
      = filter ?Q (sk_all (be_sack b))"
    by (auto simp: q_union_def intro!: filter_cong)
  then have "loop_query b s (map (Pair RemoveMember) (m # ms)) (filter Q (sk_all (be_sack b)))
      = loop_query b s (map (Pair RemoveMember) ms) (filter ?Q (sk_all (be_sack b)))"
    by (simp add: loop_query_def del: filter.simps)
  also have "\<dots> = filter (\<lambda>p. ?Q p \<or> stands_for b s (set ms) p) (sk_all (be_sack b))" by (rule Cons.IH)
  also have "\<dots> = filter (\<lambda>p. Q p \<or> stands_for b s (set (m # ms)) p) (sk_all (be_sack b))"
    by (intro filter_cong refl) (auto simp: stands_for_def)
  finally show ?case .
qed

lemma todo_query:
  assumes "set (be_members b (b_remove tr)) = b_remove tr"
  shows "loop_query b s (todo_members b tr) [] = filter (stands_for b s (b_remove tr)) (sk_all (be_sack b))"
proof -
  have "loop_query b s (todo_members b tr) [] = loop_query b s (map (Pair RemoveMember) (be_members b (b_remove tr))) []"
    unfolding todo_members_def append_assoc [symmetric] loop_query_append
    by (subst loop_query_no_removal) (auto simp: loop_query_no_removal)
  with loop_query_removals [of b s "be_members b (b_remove tr)" "\<lambda>_. False"] assms show ?thesis by simp
qed

lemma matched_names_append: "matched_names b s (ms @ ns) = matched_names b s ms \<union> matched_names b s ns"
  by (auto simp: matched_names_def)

lemma matched_names_kind:
  "matched_names b s (map (Pair kind) ms) = {member_name m | m. m \<in> set ms \<and> member_query b (sack_query (be_sack b) s) m \<noteq> []}"
  by (auto simp: matched_names_def)

lemma for_set_dependency: "for_p set_dependency ps s = (Inr (), s\<lparr>bs_reasons := bs_reasons s @ map (\<lambda>p. (p, DEPENDENCY)) ps\<rparr>)"
  by (induction ps arbitrary: s) (simp_all add: set_dependency_def then_p_apply)

text \<open>\<open>is_removable_pkg\<close> as a test, for when it does not fail.\<close>

definition removable :: "base_env \<Rightarrow> hist \<Rightarrow> pkg \<Rightarrow> bool" where
  "removable b h p \<longleftrightarrow> is_removable_pkg (be_swdb b) h (p_name p) = Inr True"

lemma removable_pkgs_Inr: "removable_pkgs b h ps = Inr r \<Longrightarrow> r = filter (removable b h) ps"
proof (induction ps arbitrary: r)
  case (Cons p ps)
  then obtain yes r' where "is_removable_pkg (be_swdb b) h (p_name p) = Inr yes" "removable_pkgs b h ps = Inr r'"
    "r = (if yes then p # r' else r')" by (auto simp: bind_r_Inr_iff)
  with Cons.IH show ?case by (simp add: removable_def)
qed simp

text \<open>The installed packages that stand for the members a comps transaction removes.\<close>

definition removal_query :: "base_env \<Rightarrow> base_state \<Rightarrow> pkg list" where
  "removal_query b s = filter (\<lambda>p. stands_for b s (b_remove (bs_trans s)) p \<and> from_system p) (sk_all (be_sack b))"

text \<open>
  C6. What a comps transaction does to the goal, when its translation returns: first requests none of
  which is an erasure; then an erasure, with the configured cleaning of dependencies, of exactly the installed
  packages that stand for a removed member, that the history says belong to no other group and were
  not asked for by the user, and that nothing needs any more; those that something still needs are
  recorded as dependencies instead.  A name becomes a group member for the goal if and
  only if some package matches it.
\<close>

theorem comps_removal:
  assumes run: "finalize_comps_trans b s = (Inr (), s')"
    and elems: "\<And>M. M \<in> {b_install (bs_trans s), b_install_opt (bs_trans s), b_upgrade (bs_trans s), b_remove (bs_trans s)} \<Longrightarrow>
      set (be_members b M) = M"
  shows "\<exists>gs. (\<forall>g \<in> set gs. \<not> erases g) \<and>
    mk_goal s' = mk_goal s @ gs @ map (\<lambda>p. GoalErase p (mc_clean (be_conf b)))
      (filter (\<lambda>p. removable b (bs_hist s) p \<and> p \<in> set (be_safe b (removal_query b s))) (removal_query b s)) \<and>
    bs_reasons s' = bs_reasons s @ map (\<lambda>p. (p, DEPENDENCY))
      (filter (\<lambda>p. removable b (bs_hist s) p \<and> p \<notin> set (be_safe b (removal_query b s))) (removal_query b s)) \<and>
    bs_members s' = bs_members s \<union> {member_name m | m. member_query b (sack_query (be_sack b) s) m \<noteq> [] \<and>
      m \<in> b_install (bs_trans s) \<union> b_install_opt (bs_trans s) \<union> b_upgrade (bs_trans s) \<union> b_remove (bs_trans s)}"
proof -
  let ?tr = "bs_trans s" and ?R = "removal_query b s"
  let ?safe = "set (be_safe b ?R)" and ?rem = "removable b (bs_hist s)"
  let ?all = "b_install ?tr \<union> b_install_opt ?tr \<union> b_upgrade ?tr \<union> b_remove ?tr"
  have e: "set (be_members b (b_install ?tr)) = b_install ?tr" "set (be_members b (b_install_opt ?tr)) = b_install_opt ?tr"
    "set (be_members b (b_upgrade ?tr)) = b_upgrade ?tr" "set (be_members b (b_remove ?tr)) = b_remove ?tr"
    by (rule elems, simp)+
  obtain gs l where loop: "finalize_loop b (todo_members b ?tr) [] s = (Inr (loop_query b s (todo_members b ?tr) []),
     s\<lparr>mk_goal := mk_goal s @ gs, mk_log := l, bs_members := bs_members s \<union> matched_names b s (todo_members b ?tr)\<rparr>)"
    and gs: "\<forall>g \<in> set gs. \<not> erases g" using finalize_loop_run by meson
  have "matched_names b s (todo_members b ?tr) = {member_name m | m. member_query b (sack_query (be_sack b) s) m \<noteq> [] \<and> m \<in> ?all}"
    by (auto simp: e todo_members_def matched_names_append matched_names_kind)
  moreover have inst: "q_installed (loop_query b s (todo_members b ?tr) []) = ?R"
    using todo_query [of b ?tr s] e by (simp add: removal_query_def q_installed_def conj_commute)
  let ?u = "s\<lparr>mk_goal := mk_goal s @ gs, mk_log := l, bs_members := bs_members s \<union> matched_names b s (todo_members b ?tr)\<rparr>"
  have rest: "remove_if_unneeded b (loop_query b s (todo_members b ?tr) []) ?u = (Inr (), s')"
    using run loop by (simp add: finalize_comps_trans_def bind_p_apply)
  have "mk_goal s' = mk_goal s @ gs @ map (\<lambda>p. GoalErase p (mc_clean (be_conf b))) (filter (\<lambda>p. ?rem p \<and> p \<in> ?safe) ?R) \<and>
      bs_reasons s' = bs_reasons s @ map (\<lambda>p. (p, DEPENDENCY)) (filter (\<lambda>p. ?rem p \<and> p \<notin> ?safe) ?R) \<and>
      bs_members s' = bs_members s \<union> matched_names b s (todo_members b ?tr)"
  proof (cases "?R = []")
    case True
    with rest show ?thesis by (auto simp: remove_if_unneeded_def inst)
  next
    case False
    obtain r where r: "removable_pkgs b (bs_hist s) ?R = Inr r"
      using rest False by (cases "removable_pkgs b (bs_hist s) ?R") (auto simp: remove_if_unneeded_def inst bind_p_apply Let_def)
    have "filter (\<lambda>p. p \<in> ?safe \<and> p \<in> set r) ?R = filter (\<lambda>p. ?rem p \<and> p \<in> ?safe) ?R"
      "filter (\<lambda>p. p \<notin> ?safe) r = filter (\<lambda>p. ?rem p \<and> p \<notin> ?safe) ?R"
      unfolding removable_pkgs_Inr [OF r] by (auto intro!: filter_cong simp: conj_commute)
    with rest False r show ?thesis
      by (auto simp: remove_if_unneeded_def inst bind_p_apply then_p_apply Let_def for_set_dependency for_request_run)
  qed
  ultimately show ?thesis using gs by (intro exI [of _ gs]) simp
qed

subsection \<open>Errors that end a request\<close>

text \<open>A computation that fails only with exceptions that are not errors of dnf.\<close>

definition sound :: "('s, 'a) prog \<Rightarrow> bool" where
  "sound m \<longleftrightarrow> (\<forall>s e. fst (m s) = Inl e \<longrightarrow> \<not> dnf_error e)"

named_theorems sounds

lemma soundD: "sound m \<Longrightarrow> m s = (Inl e, s') \<Longrightarrow> \<not> dnf_error e"
  unfolding sound_def by (metis fst_conv)

lemma sound_basic [sounds]: "sound (return_p a)" "sound (gets_p g)" "sound (modify_p h)"
  by (simp_all add: sound_def)

lemma sound_bind [sounds]: "sound m \<Longrightarrow> (\<And>a. sound (f a)) \<Longrightarrow> sound (bind_p m f)"
  unfolding sound_def bind_p_def by (auto split: prod.splits sum.splits) (metis fst_conv)+

lemma sound_then [sounds]: "sound m \<Longrightarrow> sound n \<Longrightarrow> sound (then_p m n)"
  unfolding then_p_def by (rule sound_bind)

lemma sound_lift: "(\<And>e. r = Inl e \<Longrightarrow> \<not> dnf_error e) \<Longrightarrow> sound (lift_p r)"
  by (simp add: sound_def)

lemma sound_for [sounds]: "(\<And>x. x \<in> set xs \<Longrightarrow> sound (f x)) \<Longrightarrow> sound (for_p f xs)"
  by (induction xs) (simp_all only: for_p.simps sounds list.set_intros list.set_intros(2))

lemma sound_sum [sounds]: "(\<And>x. x \<in> set xs \<Longrightarrow> sound (f x)) \<Longrightarrow> sound (sum_p f xs)"
  by (induction xs) (simp_all only: sum_p.simps sounds list.set_intros list.set_intros(2))

lemma sound_if [sounds]: "(b \<Longrightarrow> sound m) \<Longrightarrow> (\<not> b \<Longrightarrow> sound n) \<Longrightarrow> sound (if b then m else n)"
  by simp

lemma sound_on_hist [sounds]: "sound m \<Longrightarrow> sound (on_hist m)"
  unfolding sound_def on_hist_def by (auto split: prod.splits) (metis fst_conv)

lemma sound_copy_package [sounds]: "sound (copy_package k q a p)"
  unfolding copy_package_def addPackage_def
  by (intro sounds sound_lift) (auto simp: opt_map_def split: ltype.splits)

lemma sound_persistors [sounds]: "sound (gp_install a)" "sound (ep_install a)" "sound (addGroup a g i ty)"
  unfolding gp_install_def ep_install_def pers_install_def add_to_history_def addGroup_def by (intro sounds)+

lemma sound_new [sounds]: "sound (group_new i n t ty)" "sound (env_new i n t ty)"
  unfolding group_new_def env_new_def alloc_group_def alloc_env_def by (intro sounds)+

lemma sound_group_install:
  assumes "group_by_id c i \<noteq> None"
  shows "sound (group_install k q c i ty strict)"
proof -
  from assms obtain g where g: "group_by_id c i = Some g" by blast
  show ?thesis unfolding group_install_def g option.case by (intro sounds)
qed

lemma sound_env_install_groups:
  "\<forall>g \<in> set gs. group_by_id c (co_id g) \<noteq> None \<Longrightarrow> sound (env_install_groups k q c ty strict excluded a gs tr)"
proof (induction gs arbitrary: tr)
  case (Cons g gs)
  then have "group_by_id c (co_id g) \<noteq> None" "\<forall>g \<in> set gs. group_by_id c (co_id g) \<noteq> None" by simp_all
  with Cons.IH show ?case by (auto intro!: sounds sound_group_install)
qed (simp add: sounds)

lemma build_groups_known: "g \<in> set (fst (build_groups c env ids)) \<Longrightarrow> group_by_id c (co_id g) \<noteq> None"
proof (induction ids)
  case (Cons i ids)
  then show ?case
    by (cases "group_by_id c i") (auto simp: build_group_def Let_def split: prod.splits dest: group_by_idD)
qed simp

lemma sound_environment_install:
  assumes "environment_by_id c i \<noteq> None"
  shows "sound (environment_install k q c i ty strict excluded)"
proof -
  from assms obtain env where env: "environment_by_id c i = Some env" by blast
  have "\<forall>g \<in> set (mandatory_groups c env). group_by_id c (co_id g) \<noteq> None"
    by (simp add: mandatory_groups_def build_groups_known)
  note groups = sound_env_install_groups [OF this]
  show ?thesis unfolding environment_install_def env option.case note_optional_def by (intro sounds groups)
qed

lemma sound_add_comps_trans [sounds]: "sound (add_comps_trans tr)"
  unfolding add_comps_trans_def by (intro sounds)

subsection \<open>Group specs\<close>

text \<open>What is relied on: the order of a set enumerates it; a type name that is not one is no error of dnf.\<close>

definition env_sane :: "base_env \<Rightarrow> bool" where
  "env_sane b \<longleftrightarrow> (\<forall>A. finite A \<longrightarrow> set (be_strings b A) = A) \<and> (\<forall>ts e. be_types b ts = Inl e \<longrightarrow> \<not> dnf_error e)"

definition unknown_group :: "base_env \<Rightarrow> string \<Rightarrow> bool" where
  "unknown_group b g \<longleftrightarrow> isl (find_ids b True False [g])"

lemma find_ids_available:
  assumes "env_sane b" and "find_ids b True False [g] = Inr (envs, groups)"
  shows "\<forall>i \<in> set groups. group_by_id (be_comps b) i \<noteq> None" and "\<forall>i \<in> set envs. environment_by_id (be_comps b) i \<noteq> None"
proof -
  let ?cq = "\<lparr>cq_environments = True, cq_groups = True, cq_available = True, cq_installed = False\<rparr>"
  have e: "set (be_strings b A) = A" if "finite A" for A using assms(1) that by (simp add: env_sane_def)
  from assms(2) have "envs = be_strings b (query_envs (be_swdb b) (be_comps b) ?cq g)"
    "groups = be_strings b (query_groups (be_swdb b) (be_comps b) ?cq g)"
    by (auto simp: find_ids_def query_get_def Let_def split: if_splits)
  then have sets: "set envs = query_envs (be_swdb b) (be_comps b) ?cq g" "set groups = query_groups (be_swdb b) (be_comps b) ?cq g"
    by (simp_all add: e)
  have found: "set (by_pattern ls pat cs xs) \<subseteq> set xs" for ls pat cs and xs :: "'z comps_obj_scheme list"
    by (auto simp: by_pattern_def Let_def)
  have "set groups \<subseteq> co_id ` set (cs_groups (be_comps b))" "set envs \<subseteq> co_id ` set (cs_envs (be_comps b))"
    using found unfolding sets by (fastforce simp: query_groups_def query_envs_def get_groups_def get_envs_def groups_by_pattern_def environments_by_pattern_def)+
  then show "\<forall>i \<in> set groups. group_by_id (be_comps b) i \<noteq> None" "\<forall>i \<in> set envs. environment_by_id (be_comps b) i \<noteq> None"
    by (auto simp: group_by_id_def environment_by_id_def find_None_iff)
qed

lemma sound_types: "env_sane b \<Longrightarrow> sound (lift_p (be_types b ts))"
  by (rule sound_lift) (simp add: env_sane_def)

lemma env_group_install_one_known:
  assumes sane: "env_sane b" and known: "\<not> unknown_group b g"
  shows "(\<exists>n s'. env_group_install_one b types strict xg g s = (Inr (Some n), s')) \<or>
    (\<exists>e s'. env_group_install_one b types strict xg g s = (Inl e, s') \<and> \<not> dnf_error e)"
proof -
  obtain envs groups where ids: "find_ids b True False [g] = Inr (envs, groups)"
    using known unfolding unknown_group_def by (cases "find_ids b True False [g]") auto
  note av = find_ids_available [OF sane ids]
  let ?m = "bind_p (sum_p (\<lambda>g. base_group_install b g types strict) (filter (\<lambda>g. g \<notin> set xg) groups)) (\<lambda>n.
      bind_p (sum_p (\<lambda>e. base_environment_install b e types strict xg) envs) (\<lambda>m. return_p (Some (n + m))))"
  have "sound (base_group_install b i types strict)" if "i \<in> set (filter (\<lambda>g. g \<notin> set xg) groups)" for i
    using av(1) that unfolding base_group_install_def by (intro sounds sound_types [OF sane] sound_group_install) simp
  moreover have "sound (base_environment_install b i types strict xg)" if "i \<in> set envs" for i
    using av(2) that unfolding base_environment_install_def by (intro sounds sound_types [OF sane] sound_environment_install) simp
  ultimately have "sound ?m" by (intro sounds)
  moreover have "env_group_install_one b types strict xg g s = ?m s" by (simp add: env_group_install_one_def ids)
  moreover have "\<exists>n. x = Some n" if "?m s = (Inr x, s')" for x s'
    using that by (auto simp: bind_p_apply split: prod.splits sum.splits)
  moreover obtain r s' where "?m s = (r, s')" by (cases "?m s")
  ultimately show ?thesis by (cases r) (auto dest: soundD)
qed

text \<open>One group spec: skipped if and only if it is unknown and the request strict.\<close>

lemma env_group_install_single:
  assumes "env_sane b"
  shows "(\<exists>n s'. env_group_install b [g] types strict xg s = (Inr n, s') \<and> \<not> (unknown_group b g \<and> strict)) \<or>
    (\<exists>s'. env_group_install b [g] types strict xg s = (Inl (DnfError ''Nothing to do.''), s') \<and> unknown_group b g \<and> strict) \<or>
    (\<exists>e s'. env_group_install b [g] types strict xg s = (Inl e, s') \<and> \<not> dnf_error e)"
proof (cases "unknown_group b g")
  case True
  then obtain e where "find_ids b True False [g] = Inl e" by (auto simp: unknown_group_def isl_def)
  with True show ?thesis
    by (cases strict) (simp_all add: env_group_install_def env_group_install_one_def bind_p_apply then_p_apply warn_def)
next
  case False
  from env_group_install_one_known [OF assms False, of types strict xg s] False show ?thesis
    by (auto simp: env_group_install_def bind_p_apply)
qed

definition missing_groups :: "base_env \<Rightarrow> bool \<Rightarrow> string list \<Rightarrow> string list" where
  "missing_groups b strict specs =
     (if strict then map (\<lambda>g. ''@'' @ g) (filter (unknown_group b) (map (fst \<circ> group_spec_parts b) specs)) else [])"

lemma install_groups_run:
  assumes "env_sane b"
  shows "(\<exists>s'. install_groups b specs xg strict skipped s = (Inr (skipped @ missing_groups b strict specs), s')) \<or>
    (\<exists>e s'. install_groups b specs xg strict skipped s = (Inl e, s') \<and> \<not> dnf_error e)"
proof (induction specs arbitrary: skipped s)
  case (Cons spec specs)
  obtain g types where parts: "group_spec_parts b spec = (g, types)" by (cases "group_spec_parts b spec")
  have mg: "missing_groups b strict (spec # specs) = (if unknown_group b g \<and> strict then [''@'' @ g] else []) @ missing_groups b strict specs"
    by (simp add: missing_groups_def parts)
  consider (ok) n u where "env_group_install b [g] types strict xg s = (Inr n, u)" "\<not> (unknown_group b g \<and> strict)"
    | (skip) u where "env_group_install b [g] types strict xg s = (Inl (DnfError ''Nothing to do.''), u)" "unknown_group b g \<and> strict"
    | (bad) e u where "env_group_install b [g] types strict xg s = (Inl e, u)" "\<not> dnf_error e"
    using env_group_install_single [OF assms, of g types strict xg s] by blast
  then show ?case
  proof cases
    case ok
    then have "install_groups b (spec # specs) xg strict skipped s = install_groups b specs xg strict skipped u"
      by (simp add: parts bind_p_apply catch_p_apply)
    moreover have "missing_groups b strict (spec # specs) = missing_groups b strict specs" using ok(2) unfolding mg by simp
    ultimately show ?thesis using Cons.IH [of skipped u] by simp
  next
    case skip
    then have "install_groups b (spec # specs) xg strict skipped s = install_groups b specs xg strict (skipped @ [''@'' @ g]) u"
      by (simp add: parts bind_p_apply catch_p_apply)
    moreover have "missing_groups b strict (spec # specs) = (''@'' @ g) # missing_groups b strict specs" using skip(2) unfolding mg by simp
    ultimately show ?thesis using Cons.IH [of "skipped @ [''@'' @ g]" u] by simp
  next
    case bad
    then have "install_groups b (spec # specs) xg strict skipped s = (Inl e, u)"
      by (simp add: parts bind_p_apply catch_p_apply)
    with bad(2) show ?thesis by simp
  qed
qed (simp add: missing_groups_def)

subsection \<open>Package specs\<close>

text \<open>A spec is missing if nothing can be requested for it; this depends on the excludes only.\<close>

definition missing_spec :: "base_env \<Rightarrow> string option \<Rightarrow> forms \<Rightarrow> base_state \<Rightarrow> string \<Rightarrow> bool" where
  "missing_spec b reponame forms s spec \<longleftrightarrow>
     (let k = be_sack b; c = be_conf b; sol = sk_solution k forms False (sack_query k s) spec in
      if mc_multilib c = ''all'' \<or> sk_arch_specified k sol then q_repo reponame (sol_query sol) = []
      else mc_multilib c = ''best'' \<and> sk_selectors k forms (mc_obsoletes c) reponame sol = [])"

lemma install_run:
  "if missing_spec b reponame forms s spec
   then \<exists>m. install (be_sack b) (be_conf b) spec reponame strict forms s = (Inl (PackageNotFoundError m spec), s)
   else \<exists>n gs l. install (be_sack b) (be_conf b) spec reponame strict forms s = (Inr n, s\<lparr>mk_goal := mk_goal s @ gs, mk_log := l\<rparr>) \<and>
     (\<forall>g \<in> set gs. \<not> erases g)"
proof -
  let ?k = "be_sack b" and ?c = "be_conf b"
  let ?sol = "sk_solution ?k forms False (sack_query ?k s) spec"
  let ?q = "q_repo reponame (sol_query ?sol)" and ?sel = "sk_selectors ?k forms (mc_obsoletes ?c) reponame ?sol"
  have none: "\<exists>m. raise_not_found ?k spec forms reponame s = (Inl (PackageNotFoundError m spec) :: nat res, s)" by (rule raise_not_found_fails)
  have sels: "adds_only (then_p (for_p (\<lambda>sltr. request (GoalInstall sltr (\<not> strict))) ?sel) (return_p (1 :: nat)))" by (intro adds) simp
  have zero: "adds_only (return_p (0 :: nat))" by (rule adds_return)
  consider (multi) "mc_multilib ?c = ''all'' \<or> sk_arch_specified ?k ?sol"
    | (best) "\<not> (mc_multilib ?c = ''all'' \<or> sk_arch_specified ?k ?sol)" "mc_multilib ?c = ''best''"
    | (other) "\<not> (mc_multilib ?c = ''all'' \<or> sk_arch_specified ?k ?sol)" "mc_multilib ?c \<noteq> ''best''" by blast
  then show ?thesis
  proof cases
    case multi
    have "install ?k ?c spec reponame strict forms s =
        (if ?q = [] then raise_not_found ?k spec forms reponame s else install_multiarch ?k ?c ?q reponame strict s)"
      by (simp add: install_def bind_p_apply Let_def if_P [OF multi])
    moreover have "missing_spec b reponame forms s spec \<longleftrightarrow> ?q = []" by (simp add: missing_spec_def Let_def if_P [OF multi])
    ultimately show ?thesis using none adds_onlyD [OF adds_multiarch, of ?k ?c ?q reponame strict s] by simp
  next
    case best
    have "install ?k ?c spec reponame strict forms s =
        (if ?sel = [] then raise_not_found ?k spec forms reponame s
         else then_p (for_p (\<lambda>sltr. request (GoalInstall sltr (\<not> strict))) ?sel) (return_p 1) s)"
      using best by (simp add: install_def bind_p_apply Let_def)
    moreover have "missing_spec b reponame forms s spec \<longleftrightarrow> ?sel = []" using best by (simp add: missing_spec_def Let_def)
    ultimately show ?thesis using none adds_onlyD [OF sels, of s] by simp
  next
    case other
    then have "install ?k ?c spec reponame strict forms s = return_p 0 s" "\<not> missing_spec b reponame forms s spec"
      by (simp_all add: install_def missing_spec_def bind_p_apply Let_def)
    then show ?thesis using adds_onlyD [OF zero, of s] by simp
  qed
qed

lemma install_pkg_specs_run:
  "\<exists>gs l. install_pkg_specs b reponame strict forms specs missing s =
     (Inr (missing @ filter (missing_spec b reponame forms s) specs), s\<lparr>mk_goal := mk_goal s @ gs, mk_log := l\<rparr>) \<and> (\<forall>g \<in> set gs. \<not> erases g)"
proof (induction specs arbitrary: missing s)
  case Nil
  show ?case by (intro exI [of _ "[]"] exI [of _ "mk_log s"]) simp
next
  case (Cons spec specs)
  have same: "missing_spec b reponame forms (s\<lparr>mk_goal := g, mk_log := l\<rparr>) = missing_spec b reponame forms s"
    "missing_spec b reponame forms (s\<lparr>mk_log := l\<rparr>) = missing_spec b reponame forms s" for g l
    by (simp_all add: missing_spec_def sack_query_def fun_eq_iff)
  show ?case
  proof (cases "missing_spec b reponame forms s spec")
    case True
    with install_run [of b reponame forms s spec strict] obtain m where
      m: "install (be_sack b) (be_conf b) spec reponame strict forms s = (Inl (PackageNotFoundError m spec), s)" by auto
    let ?u = "s\<lparr>mk_log := mk_log s @ [exn_text (PackageNotFoundError m spec)]\<rparr>"
    have step: "install_pkg_specs b reponame strict forms (spec # specs) missing s = install_pkg_specs b reponame strict forms specs (missing @ [spec]) ?u"
      by (simp add: m bind_p_apply then_p_apply catch_p_apply warn_def)
    from Cons.IH [of "missing @ [spec]" ?u] True show ?thesis unfolding step same by auto
  next
    case False
    with install_run [of b reponame forms s spec strict] obtain n gs l where
      ok: "install (be_sack b) (be_conf b) spec reponame strict forms s = (Inr n, s\<lparr>mk_goal := mk_goal s @ gs, mk_log := l\<rparr>)"
      "\<forall>g \<in> set gs. \<not> erases g" by auto
    let ?u = "s\<lparr>mk_goal := mk_goal s @ gs, mk_log := l\<rparr>"
    have step: "install_pkg_specs b reponame strict forms (spec # specs) missing s = install_pkg_specs b reponame strict forms specs missing ?u"
      by (simp add: ok bind_p_apply catch_p_apply)
    from Cons.IH [of missing ?u] obtain hs l' where "install_pkg_specs b reponame strict forms specs missing ?u =
      (Inr (missing @ filter (missing_spec b reponame forms s) specs), ?u\<lparr>mk_goal := (mk_goal s @ gs) @ hs, mk_log := l'\<rparr>)"
      "\<forall>g \<in> set hs. \<not> erases g" unfolding same by auto
    with ok(2) False show ?thesis unfolding step by (intro exI [of _ "gs @ hs"] exI [of _ l']) auto
  qed
qed

lemma sound_expand_groups: "sound (expand_groups b specs)"
proof -
  have envs: "\<not> dnf_error e" if "expand_envs b es = Inl e" for es e
    using that by (induction es) (auto split: option.splits simp: bind_r_Inl_iff)
  have "sound (expand_loop b specs G)" for G
  proof (induction specs arbitrary: G)
    case (Cons p ps)
    have "sound (expand_loop b (p # ps) G)" if "find_ids b True True [p] = Inl e" for e
      using Cons.IH by (simp add: that warn_def sounds)
    moreover have "sound (expand_loop b (p # ps) G)" if "find_ids b True True [p] = Inr (es, gs)" for es gs
      using Cons.IH by (simp add: that) (intro sounds sound_lift envs)
    ultimately show ?case by (cases "find_ids b True True [p]") (auto simp del: expand_loop.simps)
  qed (simp add: sound_def)
  then show ?thesis unfolding expand_groups_def by (intro sounds)
qed


subsection \<open>Examples\<close>

definition example_base :: base_env where
  "example_base = \<lparr>be_sack = example_sack\<lparr>sk_selectors := \<lambda>f o' r sol. if sol_query sol = [] then [] else [SelPkgs (sol_query sol) r]\<rparr>,
     be_conf = example_mark_conf, be_nums = example_nums, be_swdb = example_swdb,
     be_comps = example_comps, be_strings = sorted_list_of_set, be_members = (\<lambda>M. if M = {} then [] else [the_elem M]),
     be_types = (\<lambda>_. Inr {MANDATORY}), be_group_types = [''mandatory''], be_basearch = ''x86_64'', be_safe = (\<lambda>q. q),
     be_scheme = (\<lambda>_. Inr []), be_glob = (\<lambda>_ _. []), be_modules = None\<rparr>"

definition example_base_state :: "bunch \<Rightarrow> base_state" where
  "example_base_state tr = \<lparr>mk_goal = [], mk_log = [], mk_excludes = [], mk_sec_filters = [], mk_sec_options = [],
     bs_hist = hist0, bs_trans = tr, bs_members = {}, bs_reasons = []\<rparr>"

lemma example_specs:
  "fst (install_specs example_base [''tour'', ''gone'', ''@nothing''] [] None True None (example_base_state no_bunch)) =
     Inl (marking_errors [''@nothing''] [] [''gone''] [] None)"
  by code_simp


definition example_removal :: base_state where
  "example_removal = example_base_state (no_bunch\<lparr>b_remove := {TransPkg (trans_pkg_of_name ''tour'')}\<rparr>)"

lemma example_finalize: "fst (finalize_comps_trans example_base example_removal) = Inr ()"
  by code_simp

lemma comps_removal_witness:
  "bs_members (snd (finalize_comps_trans example_base example_removal)) = {''tour''}"
proof -
  let ?m = "TransPkg (trans_pkg_of_name ''tour'')"
  obtain s' where run: "finalize_comps_trans example_base example_removal = (Inr (), s')"
    using example_finalize by (cases "finalize_comps_trans example_base example_removal") simp
  have "set (be_members example_base M) = M" if "M \<in> {b_install (bs_trans example_removal), b_install_opt (bs_trans example_removal),
      b_upgrade (bs_trans example_removal), b_remove (bs_trans example_removal)}" for M
    using that by (auto simp: example_base_def example_removal_def example_base_state_def)
  from comps_removal [OF run this] have "bs_members s' = bs_members example_removal \<union>
      {member_name m | m. member_query example_base (sack_query (be_sack example_base) example_removal) m \<noteq> [] \<and>
        m \<in> b_install (bs_trans example_removal) \<union> b_install_opt (bs_trans example_removal) \<union> b_upgrade (bs_trans example_removal) \<union>
          b_remove (bs_trans example_removal)}" by blast
  moreover have "member_query example_base (sack_query (be_sack example_base) example_removal) ?m \<noteq> []" by code_simp
  moreover have "bs_members example_removal = {}" "b_install (bs_trans example_removal) = {}" "b_install_opt (bs_trans example_removal) = {}"
    "b_upgrade (bs_trans example_removal) = {}" "b_remove (bs_trans example_removal) = {?m}" "member_name ?m = ''tour''"
    by (simp_all add: example_removal_def example_base_state_def trans_pkg_of_name_def)
  ultimately have "bs_members s' = {''tour''}" by auto
  with run show ?thesis by simp
qed

end
