(* ===== verification/Module_Streams.thy ===== *)
theory Module_Streams
  imports Marking_Groups
begin

text \<open>
  dnf/module/module_base.py: enabling, disabling, installing, switching, upgrading and removing modules.

  The container of modules, the parser of specs and the sack are libdnf's and the environment here.
  What they answer depends on what was asked of them before, so they see the log, which is the
  state; of the container only \<open>enable\<close> and the enabling of dependencies are taken to raise.  A Python set is the
  list of its elements as they were added, and \<open>mx_order\<close> is the order in which Python iterates over it.
\<close>

subsection \<open>Modules and the log\<close>

record profile =
  pf_name :: string
  pf_content :: "string list"

record modpkg =
  mo_id :: string
  mo_name :: string
  mo_stream :: string
  mo_version_num :: nat
  mo_repo :: string
  mo_artifacts :: "string list"
  mo_profiles :: "profile list"
  mo_summary :: string

text \<open>A spec as name, stream, version, context, architecture and profile.\<close>

record nsvcap =
  ns_name :: "string option"
  ns_stream :: "string option"
  ns_version :: "int option"
  ns_context :: "string option"
  ns_arch :: "string option"
  ns_profile :: "string option"

datatype module_state = MS_DEFAULT | MS_ENABLED | MS_DISABLED | MS_UNKNOWN

datatype mod_event =
    EnableStream string string
  | DisableModule string
  | ResetModule string
  | InstallProfile string string
  | UninstallProfile string string
  | EnableDependencies "string list"
  | FilterModules
  | GroupMember string
  | Goal goal_op
  | RemoveIfUnneeded "pkg list"
  | LogError string
  | LogWarning string
  | LogInfo string
  | LogCritical string

type_synonym mod_log = "mod_event list"

type_synonym streams = "(string, modpkg list) dict"

type_synonym module_dict = "(string, streams) dict"

type_synonym solver_errors = "(string list list \<times> bool) option"

record mod_env =
  mx_possible :: "string \<Rightarrow> nsvcap list"
  mx_query :: "mod_log \<Rightarrow> string \<Rightarrow> string \<Rightarrow> string \<Rightarrow> string \<Rightarrow> string \<Rightarrow> modpkg list"
  mx_active :: "mod_log \<Rightarrow> string \<Rightarrow> bool"
  mx_state :: "mod_log \<Rightarrow> string \<Rightarrow> module_state"
  mx_enabled_stream :: "mod_log \<Rightarrow> string \<Rightarrow> string"
  mx_default_stream :: "mod_log \<Rightarrow> string \<Rightarrow> string"
  mx_enable :: "mod_log \<Rightarrow> string \<Rightarrow> string \<Rightarrow> exn option"
  mx_dependencies :: "mod_log \<Rightarrow> modpkg list \<Rightarrow> exn option"
  mx_filter :: "mod_log \<Rightarrow> string + solver_errors"
  mx_profiles :: "modpkg \<Rightarrow> string \<Rightarrow> profile list"
  mx_default_profiles :: "mod_log \<Rightarrow> string \<Rightarrow> string \<Rightarrow> string list"
  mx_installed_profiles :: "mod_log \<Rightarrow> string \<Rightarrow> string list"
  mx_removed_profiles :: "mod_log \<Rightarrow> (string, string list) dict"
  mx_installed_names :: "mod_log \<Rightarrow> string list"
  mx_sack :: "mod_log \<Rightarrow> pkg list"
  mx_nevra_strict :: "pkg \<Rightarrow> string \<Rightarrow> bool"
  mx_nevra_names :: "string \<Rightarrow> string list"
  mx_hotfix_repos :: "string list"
  mx_order :: "string list \<Rightarrow> string list"
  mx_evr_lt :: "string \<Rightarrow> string \<Rightarrow> bool"

definition mod_event :: "mod_event \<Rightarrow> (mod_log, unit) prog" where
  "mod_event ev = modify_p (\<lambda>log. log @ [ev])"

definition FAIL_SAFE_REPO :: string where
  "FAIL_SAFE_REPO = ''@modulefailsafe''"

text \<open>\<open>s.add(x)\<close> and \<open>s.update(xs)\<close>.\<close>

definition set_add :: "'a \<Rightarrow> 'a list \<Rightarrow> 'a list" where
  "set_add x xs = (if x \<in> set xs then xs else xs @ [x])"

definition set_update :: "'a list \<Rightarrow> 'a list \<Rightarrow> 'a list" where
  "set_update xs s = fold set_add xs s"

lemma set_set_add [simp]: "set (set_add x xs) = insert x (set xs)"
  by (auto simp: set_add_def)

lemma set_set_update [simp]: "set (set_update xs s) = set xs \<union> set s"
  unfolding set_update_def by (induction xs arbitrary: s) auto

subsection \<open>Specs and streams\<close>

definition or_empty :: "string option \<Rightarrow> string" where
  "or_empty s = (case s of None \<Rightarrow> [] | Some t \<Rightarrow> t)"

fun first_match :: "mod_env \<Rightarrow> mod_log \<Rightarrow> nsvcap list \<Rightarrow> modpkg list \<times> nsvcap option" where
  "first_match e log [] = ([], None)"
| "first_match e log (ns # nss) =
     (let version = (case ns_version ns of None \<Rightarrow> [] | Some v \<Rightarrow> if v = 0 \<or> v = -1 then [] else int_str v);
          modules = mx_query e log (or_empty (ns_name ns)) (or_empty (ns_stream ns)) version (or_empty (ns_context ns)) (or_empty (ns_arch ns))
      in if modules \<noteq> [] then (modules, Some ns) else first_match e log nss)"

definition get_modules :: "mod_env \<Rightarrow> string \<Rightarrow> (mod_log, modpkg list \<times> nsvcap option) prog" where
  "get_modules e spec = gets_p (\<lambda>log. first_match e log (mx_possible e spec))"

definition has_profile :: "nsvcap option \<Rightarrow> string option" where
  "has_profile ns = (case ns of None \<Rightarrow> None | Some n \<Rightarrow> (case ns_profile n of None \<Rightarrow> None | Some p \<Rightarrow> if p = [] then None else Some p))"

text \<open>The first module of the highest version.\<close>

fun latest_of :: "modpkg \<Rightarrow> modpkg list \<Rightarrow> modpkg" where
  "latest_of l [] = l"
| "latest_of l (m # ms) = latest_of (if mo_version_num m > mo_version_num l then m else l) ms"

definition get_latest :: "modpkg list \<Rightarrow> modpkg option" where
  "get_latest ms = (case ms of [] \<Rightarrow> None | m # rest \<Rightarrow> Some (latest_of m rest))"

definition dict_or_empty :: "('k, 'v list) dict \<Rightarrow> 'k \<Rightarrow> 'v list" where
  "dict_or_empty d k = (case map_of d k of None \<Rightarrow> [] | Some v \<Rightarrow> v)"

definition add_module :: "modpkg \<Rightarrow> module_dict \<Rightarrow> module_dict" where
  "add_module m d =
     (let streams = dict_or_empty d (mo_name m)
      in dict_set (mo_name m) (dict_set (mo_stream m) (dict_or_empty streams (mo_stream m) @ [m]) streams) d)"

definition enable_stream :: "mod_env \<Rightarrow> string \<Rightarrow> string \<Rightarrow> (mod_log, unit) prog" where
  "enable_stream e name stream =
     bind_p (gets_p (\<lambda>log. mx_enable e log name stream)) (\<lambda>r. case r of
         Some x \<Rightarrow> raise_p x
       | None \<Rightarrow> mod_event (EnableStream name stream))"

definition streams_message :: "mod_env \<Rightarrow> string \<Rightarrow> string \<Rightarrow> string list \<Rightarrow> string" where
  "streams_message e spec name keys =
     ''Argument '' @ sq @ spec @ sq @ '' matches '' @ nat_str (length keys) @ '' streams ('' @ sq @
     join_str (sq @ '', '' @ sq) (py_sorted (mx_evr_lt e) keys) @ sq @ '') of module '' @ sq @ name @ sq @
     '', but none of the streams are enabled or default''"

definition multiple_message :: "string \<Rightarrow> string" where
  "multiple_message name = ''Cannot enable more streams from module '' @ sq @ name @ sq @ '' at the same time''"

text \<open>Of the streams of a module one is kept: the enabled one, or the default.\<close>

definition choose_stream :: "mod_env \<Rightarrow> string \<Rightarrow> bool \<Rightarrow> string \<Rightarrow> streams \<Rightarrow> (mod_log, streams) prog" where
  "choose_stream e spec enable name streams =
     bind_p (if 1 < length streams
       then bind_p (gets_p (\<lambda>log. mx_state e log name)) (\<lambda>st.
         if st = MS_UNKNOWN then raise_p (EnableMultipleStreamsException (streams_message e spec name (dict_keys streams)))
         else bind_p (gets_p (\<lambda>log. if st = MS_ENABLED then mx_enabled_stream e log name else mx_default_stream e log name)) (\<lambda>stream.
           if stream = [] \<or> \<not> dict_in stream streams then raise_p (EnableMultipleStreamsException (multiple_message name))
           else then_p (if enable then enable_stream e name stream else return_p ())
             (return_p (filter (\<lambda>(k, ms). k = stream) streams))))
       else then_p (if enable then for_p (enable_stream e name) (dict_keys streams) else return_p ()) (return_p streams))
     (\<lambda>streams. if length streams = 1 then return_p streams else raise_p AssertionError)"

fun choose_streams :: "mod_env \<Rightarrow> string \<Rightarrow> bool \<Rightarrow> module_dict \<Rightarrow> (mod_log, module_dict) prog" where
  "choose_streams e spec enable [] = return_p []"
| "choose_streams e spec enable ((name, streams) # d) =
     bind_p (choose_stream e spec enable name streams) (\<lambda>chosen.
     bind_p (choose_streams e spec enable d) (\<lambda>rest. return_p ((name, chosen) # rest)))"

definition create_module_dict :: "mod_env \<Rightarrow> modpkg list \<Rightarrow> string \<Rightarrow> bool \<Rightarrow> (mod_log, module_dict) prog" where
  "create_module_dict e ms spec enable = choose_streams e spec enable (fold add_module ms [])"

subsection \<open>Resolution of specs\<close>

record resolved =
  rs_no_match :: "string list"
  rs_errors :: "string list"
  rs_dicts :: "(string, nsvcap option \<times> module_dict) dict"

definition unable_to_resolve :: "string \<Rightarrow> string" where
  "unable_to_resolve spec = ''Unable to resolve argument '' @ spec"

definition stream_error :: "exn \<Rightarrow> bool" where
  "stream_error x = (case x of RuntimeError m \<Rightarrow> True | EnableMultipleStreamsException m \<Rightarrow> True | _ \<Rightarrow> False)"

definition resolve_spec :: "mod_env \<Rightarrow> string \<Rightarrow> resolved \<Rightarrow> (mod_log, resolved) prog" where
  "resolve_spec e spec a =
     bind_p (get_modules e spec) (\<lambda>(modules, ns).
       if modules = [] then return_p (a\<lparr>rs_no_match := rs_no_match a @ [spec]\<rparr>)
       else catch_p
         (bind_p (create_module_dict e modules spec True) (\<lambda>d. return_p (a\<lparr>rs_dicts := dict_set spec (ns, d) (rs_dicts a)\<rparr>)))
         (\<lambda>x. if stream_error x
           then Some (then_p (mod_event (LogError (exn_text x))) (then_p (mod_event (LogError (unable_to_resolve spec)))
             (return_p (a\<lparr>rs_errors := rs_errors a @ [spec]\<rparr>))))
           else None))"

definition resolve_specs_enable :: "mod_env \<Rightarrow> string list \<Rightarrow> (mod_log, resolved) prog" where
  "resolve_specs_enable e specs = fold_p (resolve_spec e) specs \<lparr>rs_no_match = [], rs_errors = [], rs_dicts = []\<rparr>"

definition update_sack :: "mod_env \<Rightarrow> (mod_log, solver_errors) prog" where
  "update_sack e =
     bind_p (gets_p (mx_filter e)) (\<lambda>r. then_p (mod_event FilterModules)
       (case r of Inl m \<Rightarrow> raise_p (DnfError m) | Inr errs \<Rightarrow> return_p errs))"

definition enable_dependencies_of :: "mod_env \<Rightarrow> string \<times> modpkg list \<Rightarrow> string list \<Rightarrow> (mod_log, string list) prog" where
  "enable_dependencies_of e = (\<lambda>(spec, modules) errs.
     bind_p (gets_p (\<lambda>log. mx_dependencies e log modules)) (\<lambda>r. case r of
         None \<Rightarrow> then_p (mod_event (EnableDependencies (map mo_id modules))) (return_p errs)
       | Some x \<Rightarrow>
           (case x of
              RuntimeError m \<Rightarrow> then_p (mod_event (LogError m)) (then_p (mod_event (LogError (unable_to_resolve spec))) (return_p (errs @ [spec])))
            | _ \<Rightarrow> raise_p x)))"

text \<open>All streams of all modules of all specs, in order.\<close>

definition stream_list :: "module_dict \<Rightarrow> (string \<times> string \<times> modpkg list) list" where
  "stream_list d = concat (map (\<lambda>(name, streams). map (\<lambda>(stream, ms). (name, stream, ms)) streams) d)"

definition enable_dependencies :: "mod_env \<Rightarrow> (string, nsvcap option \<times> module_dict) dict \<Rightarrow> (mod_log, string list) prog" where
  "enable_dependencies e dicts =
     fold_p (enable_dependencies_of e)
       (concat (map (\<lambda>(spec, ns, d). map (\<lambda>(name, stream, ms). (spec, ms)) (stream_list d)) dicts)) []"

definition resolve_update_sack :: "mod_env \<Rightarrow> string list \<Rightarrow> (mod_log, resolved \<times> solver_errors) prog" where
  "resolve_update_sack e specs =
     bind_p (resolve_specs_enable e specs) (\<lambda>a.
     bind_p (update_sack e) (\<lambda>solver_errors.
     bind_p (enable_dependencies e (rs_dicts a)) (\<lambda>errs.
       return_p (a\<lparr>rs_errors := rs_errors a @ errs\<rparr>, solver_errors))))"

text \<open>The error at the end, if anything went wrong.\<close>

definition raise_marking :: "string list \<Rightarrow> string list \<Rightarrow> solver_errors \<Rightarrow> (mod_log, unit) prog" where
  "raise_marking no_match errs solver_errors =
     (if no_match \<noteq> [] \<or> errs \<noteq> [] \<or> solver_errors \<noteq> None
      then raise_p (marking_errors no_match errs [] [] solver_errors) else return_p ())"

definition module_enable :: "mod_env \<Rightarrow> string list \<Rightarrow> (mod_log, unit) prog" where
  "module_enable e specs =
     bind_p (resolve_update_sack e specs) (\<lambda>(a, solver_errors).
     then_p (for_p (\<lambda>(spec, ns, d). case has_profile ns of
           None \<Rightarrow> return_p ()
         | Some p \<Rightarrow> mod_event (LogInfo (''Ignoring unnecessary profile: '' @ sq @ or_empty (Option.bind ns ns_name) @ ''/'' @ p @ sq)))
       (rs_dicts a))
     (raise_marking (rs_no_match a) (rs_errors a) solver_errors))"

definition reset_or_disable_spec :: "mod_env \<Rightarrow> module_state \<Rightarrow> string \<Rightarrow> string list \<Rightarrow> (mod_log, string list) prog" where
  "reset_or_disable_spec e to_state spec no_match =
     bind_p (get_modules e spec) (\<lambda>(modules, ns).
       if modules = [] then then_p (mod_event (LogError (unable_to_resolve spec))) (return_p (no_match @ [spec]))
       else then_p
         (case ns of
            None \<Rightarrow> return_p ()
          | Some n \<Rightarrow>
              if or_empty (ns_stream n) \<noteq> [] \<or> (\<exists>v. ns_version n = Some v \<and> v \<noteq> 0) \<or> or_empty (ns_context n) \<noteq> [] \<or>
                or_empty (ns_arch n) \<noteq> [] \<or> or_empty (ns_profile n) \<noteq> []
              then mod_event (LogInfo (''Only module name is required. Ignoring unneeded information in argument: '' @ sq @ spec @ sq))
              else return_p ())
         (then_p (for_p (\<lambda>name.
             if to_state = MS_UNKNOWN then mod_event (ResetModule name)
             else if to_state = MS_DISABLED then mod_event (DisableModule name) else return_p ())
           (mx_order e (set_update (map mo_name modules) [])))
         (return_p no_match)))"

definition reset_or_disable :: "mod_env \<Rightarrow> string list \<Rightarrow> module_state \<Rightarrow> (mod_log, string list \<times> solver_errors) prog" where
  "reset_or_disable e specs to_state =
     bind_p (fold_p (reset_or_disable_spec e to_state) specs []) (\<lambda>no_match.
     bind_p (update_sack e) (\<lambda>solver_errors. return_p (no_match, solver_errors)))"

definition module_disable :: "mod_env \<Rightarrow> string list \<Rightarrow> (mod_log, unit) prog" where
  "module_disable e specs =
     bind_p (reset_or_disable e specs MS_DISABLED) (\<lambda>(no_match, solver_errors). raise_marking no_match [] solver_errors)"

text \<open>A reset passes the errors of the solver on only if a spec has no match.\<close>

definition module_reset :: "mod_env \<Rightarrow> string list \<Rightarrow> (mod_log, unit) prog" where
  "module_reset e specs =
     bind_p (reset_or_disable e specs MS_UNKNOWN) (\<lambda>(no_match, solver_errors).
       if no_match \<noteq> [] then raise_p (marking_errors no_match [] [] [] solver_errors) else return_p ())"

end
