(* ===== verification/Modules_Run.thy ===== *)
theory Modules_Run
  imports Module_Streams
begin

text \<open>
  dnf/module/module_base.py, the operations that ask for packages: \<open>install\<close>, \<open>switch_to\<close>, \<open>upgrade\<close>,
  \<open>remove\<close>, and the marks of the listing of modules.
\<close>

subsection \<open>Artifacts\<close>

text \<open>\<open>artifact.rsplit('.', 1)[1]\<close> and \<open>artifact.rsplit('-', 2)[0]\<close>.\<close>

definition artifact_arch :: "string \<Rightarrow> string res" where
  "artifact_arch a = (let parts = split_on CHR ''.'' a in if length parts < 2 then Inl IndexError else Inr (last parts))"

definition artifact_name :: "string \<Rightarrow> string" where
  "artifact_name a =
     (let parts = split_on CHR ''-'' a in
      if length parts \<le> 2 then hd parts else join_str ''-'' (take (length parts - 2) parts))"

text \<open>The names of the artifacts that are no source packages, added to a set.\<close>

fun add_artifact_names :: "string list \<Rightarrow> string list \<Rightarrow> string list res" where
  "add_artifact_names [] names = Inr names"
| "add_artifact_names (a # as) names =
     bind_r (artifact_arch a) (\<lambda>arch.
       add_artifact_names as (if arch \<in> {''nosrc'', ''src''} then names else set_add (artifact_name a) names))"

subsection \<open>The profiles to install\<close>

text \<open>What an installation has collected: the errors, the packages with the specs they come from, the artifacts.\<close>

record collected =
  ia_no_match :: "string list"
  ia_errors :: "string list"
  ia_install :: "(string, string list) dict"
  ia_artifacts :: "string list"
  ia_names :: "string list"
  ia_fail_safe :: bool

definition profile_names :: "profile list \<Rightarrow> string" where
  "profile_names ps = join_str '', '' (sort (map pf_name ps))"

definition check_fail_safe :: "string \<Rightarrow> modpkg \<Rightarrow> bool \<Rightarrow> (mod_log, bool) prog" where
  "check_fail_safe verb latest fail_safe =
     (if mo_repo latest = FAIL_SAFE_REPO
      then then_p (mod_event (LogCritical (verb @ '' module '' @ sq @ mo_name latest @ '':'' @ mo_stream latest @ sq @
        '' from Fail-Safe repository '' @ FAIL_SAFE_REPO @ '' is not allowed''))) (return_p True)
      else return_p fail_safe)"

text \<open>The profiles a spec asks for; none is the end of the spec.\<close>

definition requested_profiles ::
  "mod_env \<Rightarrow> string \<Rightarrow> string \<Rightarrow> string \<Rightarrow> string \<Rightarrow> modpkg \<Rightarrow> collected \<Rightarrow> (mod_log, profile list option \<times> collected) prog" where
  "requested_profiles e spec profile name stream latest a =
     (let profiles = mx_profiles e latest profile in
      if profiles \<noteq> [] then return_p (Some profiles, a)
      else then_p (mod_event (LogError (''Unable to match profile for argument '' @ spec @
          (if mo_profiles latest = [] then []
           else ''. Available profiles for '' @ sq @ name @ '':'' @ stream @ sq @ '': '' @ profile_names (mo_profiles latest)))))
        (return_p (None, a\<lparr>ia_no_match := ia_no_match a @ [spec]\<rparr>)))"

definition default_profile ::
  "mod_env \<Rightarrow> string \<Rightarrow> string \<Rightarrow> string \<Rightarrow> modpkg \<Rightarrow> string \<Rightarrow> profile list \<times> collected \<Rightarrow> (mod_log, profile list \<times> collected) prog" where
  "default_profile e spec name stream latest profile = (\<lambda>(profiles, a).
     let found = mx_profiles e latest profile in
     if found = []
     then then_p (mod_event (LogError (''Default profile '' @ profile @ '' not available in module '' @ name @ '':'' @ stream)))
       (return_p (profiles, a\<lparr>ia_errors := ia_errors a @ [spec]\<rparr>))
     else return_p (profiles @ found, a))"

definition default_profiles ::
  "mod_env \<Rightarrow> string \<Rightarrow> string \<Rightarrow> string \<Rightarrow> modpkg \<Rightarrow> collected \<Rightarrow> (mod_log, profile list option \<times> collected) prog" where
  "default_profiles e spec name stream latest a =
     bind_p (gets_p (\<lambda>log. mx_default_profiles e log name stream)) (\<lambda>defaults.
     bind_p (if defaults \<noteq> [] then return_p a
       else then_p (mod_event (LogError
           (if mo_profiles latest = [] then ''No profiles for module '' @ name @ '':'' @ stream
            else ''No default profiles for module '' @ name @ '':'' @ stream @ ''. Available profiles: '' @ profile_names (mo_profiles latest))))
         (return_p (a\<lparr>ia_errors := ia_errors a @ [spec]\<rparr>))) (\<lambda>a.
     bind_p (fold_p (default_profile e spec name stream latest) (mx_order e (set_update defaults [])) ([], a)) (\<lambda>(profiles, a).
       return_p (Some profiles, a))))"

text \<open>When switching: the profiles that were installed.\<close>

definition removed_profile ::
  "mod_env \<Rightarrow> string \<Rightarrow> string \<Rightarrow> modpkg \<Rightarrow> string \<Rightarrow> profile list \<Rightarrow> (mod_log, profile list) prog" where
  "removed_profile e name stream latest profile profiles =
     (let found = mx_profiles e latest profile in
      if found = []
      then then_p (mod_event (LogWarning (''Installed profile '' @ sq @ profile @ sq @ '' is not available in module '' @ sq @ name @ sq @
        '' stream '' @ sq @ stream @ sq))) (return_p profiles)
      else return_p (profiles @ found))"

definition removed_profiles ::
  "mod_env \<Rightarrow> (string, string list) dict \<Rightarrow> string \<Rightarrow> string \<Rightarrow> modpkg \<Rightarrow> collected \<Rightarrow> (mod_log, profile list option \<times> collected) prog" where
  "removed_profiles e removed name stream latest a =
     bind_p (fold_p (removed_profile e name stream latest) (dict_or_empty removed name) []) (\<lambda>profiles. return_p (Some profiles, a))"

fun add_spec :: "string \<Rightarrow> string list \<Rightarrow> (string, string list) dict \<Rightarrow> (string, string list) dict" where
  "add_spec spec [] d = d"
| "add_spec spec (n # ns) d = add_spec spec ns (dict_set n (set_add spec (dict_or_empty d n)) d)"

definition install_profile :: "string \<Rightarrow> modpkg \<Rightarrow> profile \<Rightarrow> collected \<Rightarrow> (mod_log, collected) prog" where
  "install_profile spec latest profile a =
     then_p (mod_event (InstallProfile (mo_id latest) (pf_name profile)))
       (return_p (a\<lparr>ia_install := add_spec spec (pf_content profile) (ia_install a)\<rparr>))"

text \<open>
  One stream of one spec.  \<open>pick\<close> gives the profiles when the spec has none; \<open>names\<close> says whether the
  names of the artifacts are collected too, as a switch does.
\<close>

definition install_stream ::
  "mod_env \<Rightarrow> (string \<Rightarrow> string \<Rightarrow> string \<Rightarrow> modpkg \<Rightarrow> collected \<Rightarrow> (mod_log, profile list option \<times> collected) prog) \<Rightarrow> bool \<Rightarrow>
    string \<times> nsvcap option \<times> string \<times> string \<times> modpkg list \<Rightarrow> collected \<Rightarrow> (mod_log, collected) prog" where
  "install_stream e pick names = (\<lambda>(spec, ns, name, stream, ms) a.
     bind_p (gets_p (\<lambda>log. filter (\<lambda>m. mx_active e log (mo_id m)) ms)) (\<lambda>active. case active of
         [] \<Rightarrow> then_p (mod_event (LogError
             (if names then ''No active matches for argument '' @ sq @ spec @ sq @ '' in module '' @ sq @ name @ '':'' @ stream @ sq
              else ''All matches for argument '' @ sq @ spec @ sq @ '' in module '' @ sq @ name @ '':'' @ stream @ sq @ '' are not active'')))
           (return_p (a\<lparr>ia_errors := ia_errors a @ [spec]\<rparr>))
       | m # rest \<Rightarrow>
           let latest = latest_of m rest in
           bind_p (check_fail_safe ''Installing'' latest (ia_fail_safe a)) (\<lambda>fail_safe.
           bind_p (case has_profile ns of
               Some p \<Rightarrow> requested_profiles e spec p name stream latest (a\<lparr>ia_fail_safe := fail_safe\<rparr>)
             | None \<Rightarrow> pick spec name stream latest (a\<lparr>ia_fail_safe := fail_safe\<rparr>)) (\<lambda>(picked, a). case picked of
               None \<Rightarrow> return_p a
             | Some profiles \<Rightarrow>
                 bind_p (fold_p (install_profile spec latest) profiles a) (\<lambda>a.
                 let artifacts = concat (map mo_artifacts active) in
                 bind_p (lift_p (if names then add_artifact_names artifacts (ia_names a) else Inr (ia_names a))) (\<lambda>ns.
                   return_p (a\<lparr>ia_artifacts := set_update artifacts (ia_artifacts a), ia_names := ns\<rparr>)))))))"

text \<open>All streams of all specs.\<close>

definition spec_streams ::
  "(string, nsvcap option \<times> module_dict) dict \<Rightarrow> (string \<times> nsvcap option \<times> string \<times> string \<times> modpkg list) list" where
  "spec_streams dicts = concat (map (\<lambda>(spec, ns, d). map (\<lambda>(name, stream, ms). (spec, ns, name, stream, ms)) (stream_list d)) dicts)"

definition no_source :: "pkg list \<Rightarrow> pkg list" where
  "no_source ps = filter (\<lambda>p. p_arch p \<notin> {''src'', ''nosrc''}) ps"

text \<open>One package of the profiles, found among the packages of the modules or else among all.\<close>

definition install_package ::
  "mod_env \<Rightarrow> bool \<Rightarrow> pkg list \<Rightarrow> pkg list \<Rightarrow> string \<times> string list \<Rightarrow> string list \<Rightarrow> (mod_log, string list) prog" where
  "install_package e strict base install_base = (\<lambda>(name, specs) errs.
     let modular = filter (\<lambda>p. p_name p = name) install_base;
         query = (if modular \<noteq> [] then modular else filter (\<lambda>p. p_name p = name) base) in
     if query = []
     then then_p (for_p (\<lambda>spec. mod_event (LogError (unable_to_resolve spec))) (mx_order e specs))
       (then_p (mod_event (LogError (''No match for package '' @ name))) (return_p (errs @ mx_order e specs)))
     else then_p (mod_event (GroupMember name))
       (then_p (mod_event (Goal (GoalInstall (SelPkgs query None) (\<not> strict)))) (return_p errs)))"

definition install_profiles_internal ::
  "mod_env \<Rightarrow> string list \<Rightarrow> (string, string list) dict \<Rightarrow> bool \<Rightarrow> (mod_log, pkg list \<times> string list) prog" where
  "install_profiles_internal e artifacts install_dict strict =
     bind_p (gets_p (\<lambda>log. no_source (mx_sack e log))) (\<lambda>base.
     let install_base = filter (\<lambda>p. (\<exists>a \<in> set artifacts. mx_nevra_strict e p a) \<or>
         p_reponame p \<in> set (mx_hotfix_repos e) \<and> p_name p \<in> set (dict_keys install_dict)) base in
     bind_p (fold_p (install_package e strict base install_base) install_dict []) (\<lambda>errs. return_p (install_base, errs)))"

definition collect_nothing :: "resolved \<Rightarrow> collected" where
  "collect_nothing a = \<lparr>ia_no_match = rs_no_match a, ia_errors = rs_errors a, ia_install = [], ia_artifacts = [], ia_names = [], ia_fail_safe = False\<rparr>"

definition module_install :: "mod_env \<Rightarrow> string list \<Rightarrow> bool \<Rightarrow> (mod_log, unit) prog" where
  "module_install e specs strict =
     bind_p (resolve_update_sack e specs) (\<lambda>(a, solver_errors).
     bind_p (fold_p (install_stream e (default_profiles e) False) (spec_streams (rs_dicts a)) (collect_nothing a)) (\<lambda>c.
       if ia_fail_safe c then raise_p (DnfError ''Installing module from Fail-Safe repository is not allowed'')
       else bind_p (install_profiles_internal e (ia_artifacts c) (ia_install c) strict) (\<lambda>(install_base, errs).
         raise_marking (ia_no_match c) (ia_errors c @ errs) solver_errors)))"

subsection \<open>Switching\<close>

text \<open>The names of the artifacts of the modules that are active before the sack is updated.\<close>

definition active_names_of :: "mod_env \<Rightarrow> string \<Rightarrow> string list \<Rightarrow> (mod_log, string list) prog" where
  "active_names_of e name names =
     bind_p (gets_p (\<lambda>log. filter (\<lambda>m. mx_active e log (mo_id m)) (mx_query e log name [] [] [] []))) (\<lambda>ms.
       lift_p (add_artifact_names (concat (map mo_artifacts ms)) names))"

definition sync_name ::
  "pkg list \<Rightarrow> pkg list \<Rightarrow> string list \<Rightarrow> string \<Rightarrow> pkg list \<Rightarrow> (mod_log, pkg list) prog" where
  "sync_name base install_base new_names name leaving =
     (let query = filter (\<lambda>p. p_name p = name) base in
      if filter (\<lambda>p. p_reponame p = SYSTEM_REPO_NAME) query = [] then return_p leaving
      else if filter (\<lambda>p. p_reponame p \<noteq> SYSTEM_REPO_NAME) query = []
      then then_p (mod_event (LogWarning (''No packages available to distrosync for package name '' @ sq @ name @ sq)))
        (return_p (if name \<notin> set new_names then set_update query leaving else leaving))
      else let new = filter (\<lambda>p. p \<in> set install_base) query in
        then_p (mod_event (Goal (GoalDistupgrade (SelPkgs (if new \<noteq> [] then new else query) None)))) (return_p leaving))"

definition module_switch_to :: "mod_env \<Rightarrow> string list \<Rightarrow> bool \<Rightarrow> (mod_log, unit) prog" where
  "module_switch_to e specs strict =
     bind_p (resolve_specs_enable e specs) (\<lambda>a.
     bind_p (fold_p (active_names_of e) (concat (map (\<lambda>(spec, ns, d). dict_keys d) (rs_dicts a))) []) (\<lambda>active_names.
     bind_p (update_sack e) (\<lambda>solver_errors.
     bind_p (enable_dependencies e (rs_dicts a)) (\<lambda>dep_errs.
     bind_p (gets_p (mx_removed_profiles e)) (\<lambda>removed.
     bind_p (fold_p (install_stream e (\<lambda>spec. removed_profiles e removed) True) (spec_streams (rs_dicts a))
         (collect_nothing (a\<lparr>rs_errors := rs_errors a @ dep_errs\<rparr>))) (\<lambda>c.
       if ia_fail_safe c then raise_p (DnfError ''Installing module from Fail-Safe repository is not allowed'')
       else bind_p (install_profiles_internal e (ia_artifacts c) (ia_install c) strict) (\<lambda>(install_base, errs).
         bind_p (gets_p (\<lambda>log. no_source (mx_sack e log))) (\<lambda>base.
         bind_p (fold_p (sync_name base install_base (ia_names c)) (mx_order e (set_update active_names (ia_names c))) []) (\<lambda>leaving.
         then_p (mod_event (RemoveIfUnneeded leaving))
           (raise_marking (ia_no_match c) (ia_errors c @ errs) solver_errors))))))))))"

subsection \<open>Upgrading and removing\<close>

text \<open>The packages of the installed profiles that a spec is about; they are uninstalled on the way if so asked.\<close>

definition uninstall_profile :: "bool \<Rightarrow> modpkg \<Rightarrow> string \<Rightarrow> (mod_log, unit) prog" where
  "uninstall_profile leaving latest profile = (if leaving then mod_event (UninstallProfile (mo_id latest) profile) else return_p ())"

definition profile_packages :: "mod_env \<Rightarrow> modpkg list \<Rightarrow> nsvcap option \<Rightarrow> bool \<Rightarrow> (mod_log, string list) prog" where
  "profile_packages e ms ns leaving =
     (case get_latest ms of
        None \<Rightarrow> raise_p (AttributeError ''getName'')
      | Some latest \<Rightarrow>
          bind_p (gets_p (\<lambda>log. mx_installed_profiles e log (mo_name latest))) (\<lambda>installed.
            if installed = [] then return_p []
            else case has_profile ns of
              Some p \<Rightarrow> fold_p (\<lambda>profile names.
                  if pf_name profile \<in> set installed
                  then then_p (uninstall_profile leaving latest (pf_name profile)) (return_p (set_update (pf_content profile) names))
                  else return_p names) (mx_profiles e latest p) []
            | None \<Rightarrow> fold_p (\<lambda>profile names.
                  then_p (uninstall_profile leaving latest profile)
                    (return_p (set_update (concat (map pf_content (mx_profiles e latest profile))) names)))
                (mx_order e (set_update installed [])) []))"

definition upgrade_stream ::
  "mod_env \<Rightarrow> nsvcap option \<Rightarrow> string \<times> string \<times> modpkg list \<Rightarrow> string list \<times> bool \<Rightarrow> (mod_log, string list \<times> bool) prog" where
  "upgrade_stream e ns = (\<lambda>(name, stream, ms) (names, fail_safe).
     bind_p (profile_packages e ms ns False) (\<lambda>more.
     case get_latest ms of
       None \<Rightarrow> raise_p (AttributeError ''getRepoID'')
     | Some latest \<Rightarrow>
         bind_p (check_fail_safe ''Upgrading'' latest fail_safe) (\<lambda>fail_safe.
           return_p (case has_profile ns of
             Some p \<Rightarrow> (set_update (concat (map pf_content (mx_profiles e latest p))) (set_update more names), fail_safe)
           | None \<Rightarrow> (set_update (concat (map (mx_nevra_names e) (mo_artifacts latest)))
               (set_update (concat (map pf_content (mo_profiles latest))) (set_update more names)), fail_safe)))))"

definition upgrade_spec :: "mod_env \<Rightarrow> pkg list \<Rightarrow> string \<Rightarrow> string list \<times> bool \<Rightarrow> (mod_log, string list \<times> bool) prog" where
  "upgrade_spec e base spec = (\<lambda>(no_match, fail_safe).
     bind_p (get_modules e spec) (\<lambda>(ms, ns).
       if ms = [] then return_p (no_match @ [spec], fail_safe)
       else bind_p (gets_p (\<lambda>log. filter (\<lambda>m. mx_active e log (mo_id m)) ms)) (\<lambda>active.
         if active = [] then then_p (mod_event (LogError (unable_to_resolve spec))) (return_p (no_match, fail_safe))
         else bind_p (create_module_dict e active spec False) (\<lambda>d.
           bind_p (fold_p (upgrade_stream e ns) (stream_list d) ([], fail_safe)) (\<lambda>(names, fail_safe).
           then_p (if names = [] then mod_event (LogError (''Unable to match profile in argument '' @ spec)) else return_p ())
           (let query = filter (\<lambda>p. p_name p \<in> set names) base in
            then_p (if query \<noteq> [] then mod_event (Goal (GoalUpgrade (SelPkgs query None))) else return_p ())
              (return_p (no_match, fail_safe))))))))"

definition module_upgrade :: "mod_env \<Rightarrow> string list \<Rightarrow> (mod_log, string list) prog" where
  "module_upgrade e specs =
     bind_p (gets_p (\<lambda>log. no_source (mx_sack e log))) (\<lambda>base.
     bind_p (fold_p (upgrade_spec e base) specs ([], False)) (\<lambda>(no_match, fail_safe).
       if fail_safe then raise_p (DnfError ''Upgrading module from Fail-Safe repository is not allowed'')
       else return_p no_match))"

definition remove_spec :: "mod_env \<Rightarrow> string \<Rightarrow> string list \<times> string list \<Rightarrow> (mod_log, string list \<times> string list) prog" where
  "remove_spec e spec = (\<lambda>(no_match, leaving).
     bind_p (get_modules e spec) (\<lambda>(ms, ns).
       if ms = [] then return_p (no_match @ [spec], leaving)
       else bind_p (create_module_dict e ms spec False) (\<lambda>d.
         bind_p (fold_p (\<lambda>(name, stream, ms) names. bind_p (profile_packages e ms ns True) (\<lambda>more. return_p (names @ more))) (stream_list d) [])
         (\<lambda>names.
           then_p (if names = [] then mod_event (LogError (''Unable to match profile in argument '' @ spec)) else return_p ())
             (return_p (no_match, set_update names leaving))))))"

definition module_remove :: "mod_env \<Rightarrow> string list \<Rightarrow> (mod_log, string list) prog" where
  "module_remove e specs =
     bind_p (fold_p (remove_spec e) specs ([], [])) (\<lambda>(no_match, names).
     then_p (if names = [] then return_p ()
       else bind_p (gets_p (mx_installed_names e)) (\<lambda>keep.
         let names = filter (\<lambda>n. n \<notin> set keep) names in
         if names = [] then return_p ()
         else bind_p (gets_p (\<lambda>log. filter (\<lambda>p. p_reponame p = SYSTEM_REPO_NAME \<and> p_name p \<in> set names) (mx_sack e log))) (\<lambda>query.
           if query \<noteq> [] then mod_event (RemoveIfUnneeded query) else return_p ())))
     (return_p no_match))"

subsection \<open>Marks of the listing\<close>

text \<open>The marks of a stream: default, enabled, disabled and active.\<close>

definition module_strs ::
  "mod_env \<Rightarrow> mod_log \<Rightarrow> (modpkg \<Rightarrow> bool) \<Rightarrow> (modpkg \<Rightarrow> bool) \<Rightarrow> modpkg \<Rightarrow> bool \<Rightarrow> string \<times> string \<times> string" where
  "module_strs e log enabled disabled m mark_active =
     (let d = (if mo_stream m = mx_default_stream e log (mo_name m) then '' [d]'' else []);
          space = (if d = [] then '' '' else []);
          en = (if enabled m then space @ ''[e]'' else []);
          dis = (if \<not> enabled m \<and> disabled m then space @ ''[x]'' else []);
          act = (if mark_active \<and> mx_active e log (mo_id m) then (if d = [] then '' '' else dis) @ ''[a]'' else dis)
      in (d, en, act))"

definition profile_report :: "mod_env \<Rightarrow> mod_log \<Rightarrow> modpkg \<Rightarrow> string list \<Rightarrow> string \<Rightarrow> string" where
  "profile_report e log m defaults enabled_str =
     (let installed = mx_installed_profiles e log (mo_name m);
          s = concat (map (\<lambda>p. pf_name p @ (if pf_name p \<in> set defaults then '' [d]'' else []) @
            (if pf_name p \<in> set installed \<and> enabled_str \<noteq> [] then '' [i], '' else '', '')) (sort_key pf_name (mo_profiles m)))
      in take (length s - 2) s)"

end
