(* ===== verification/Modules_Properties.thy ===== *)
theory Modules_Properties
  imports Modules_Run
begin

text \<open>
  What the operations on modules guarantee: the dictionary of the modules of a spec has one stream of
  each, an installation that returns has complained of nothing, nothing is requested when a module of
  the fail-safe repository was asked for, and a removal leaves what other profiles need.
\<close>

subsection \<open>The dictionary of modules\<close>

lemma dict_or_empty_set: "dict_or_empty (dict_set k v d) j = (if j = k then v else dict_or_empty d j)"
  by (simp add: dict_or_empty_def)

text \<open>All modules are filed under their name and stream, and nothing else is.\<close>

definition filed :: "modpkg list \<Rightarrow> module_dict \<Rightarrow> bool" where
  "filed ms d \<longleftrightarrow> dict_wf d \<and>
     (\<forall>name stream. dict_or_empty (dict_or_empty d name) stream = filter (\<lambda>m. mo_name m = name \<and> mo_stream m = stream) ms) \<and>
     (\<forall>name streams. map_of d name = Some streams \<longrightarrow> dict_wf streams \<and> streams \<noteq> [] \<and> (\<forall>stream l. map_of streams stream = Some l \<longrightarrow> l \<noteq> []))"

lemma filed_add:
  assumes "filed ms d"
  shows "filed (ms @ [m]) (add_module m d)"
proof -
  let ?old = "dict_or_empty d (mo_name m)"
  have old: "dict_wf ?old" using assms by (simp add: filed_def dict_or_empty_def split: option.split)
  have "dict_or_empty (dict_or_empty (add_module m d) name) stream = filter (\<lambda>m. mo_name m = name \<and> mo_stream m = stream) (ms @ [m])"
    for name stream
    using assms by (auto simp: add_module_def dict_or_empty_set filed_def Let_def)
  moreover have "dict_wf (add_module m d)" using assms by (simp add: add_module_def filed_def Let_def)
  moreover have "dict_wf streams \<and> streams \<noteq> [] \<and> (\<forall>stream l. map_of streams stream = Some l \<longrightarrow> l \<noteq> [])"
    if "map_of (add_module m d) name = Some streams" for name streams
  proof (cases "name = mo_name m")
    case True
    with that have s: "streams = dict_set (mo_stream m) (dict_or_empty ?old (mo_stream m) @ [m]) ?old"
      by (simp add: add_module_def Let_def)
    have "l \<noteq> []" if "map_of ?old stream = Some l" for stream l
      using assms that by (auto simp: filed_def dict_or_empty_def split: option.splits)
    with old show ?thesis by (auto simp: s split: if_splits)
  next
    case False
    with that have "map_of d name = Some streams" by (simp add: add_module_def Let_def)
    with assms show ?thesis by (simp add: filed_def)
  qed
  ultimately show ?thesis by (simp add: filed_def)
qed

lemma filed_fold: "filed ms (fold add_module ms [])"
proof (induction ms rule: rev_induct)
  case Nil
  show ?case by (simp add: filed_def dict_or_empty_def)
next
  case (snoc m ms)
  from filed_add [OF this, of m] show ?case by simp
qed

lemma filed_streams:
  assumes "filed ms d" and "(name, streams) \<in> set d" and "(stream, l) \<in> set streams"
  shows "l \<noteq> [] \<and> l = filter (\<lambda>m. mo_name m = name \<and> mo_stream m = stream) ms"
proof -
  have d: "map_of d name = Some streams" using assms(1,2) by (simp add: filed_def dict_wf_def)
  with assms(1) have "dict_wf streams" by (simp add: filed_def)
  with assms(3) have s: "map_of streams stream = Some l" by (simp add: dict_wf_def)
  from assms(1) have "dict_or_empty (dict_or_empty d name) stream = filter (\<lambda>m. mo_name m = name \<and> mo_stream m = stream) ms"
    by (simp add: filed_def)
  with d s assms(1) show ?thesis by (auto simp: filed_def dict_or_empty_def)
qed

lemma filed_names:
  assumes "filed ms d"
  shows "set (dict_keys d) = mo_name ` set ms"
proof -
  have "dict_in name d \<longleftrightarrow> name \<in> mo_name ` set ms" for name
  proof
    assume "dict_in name d"
    then obtain streams where d: "map_of d name = Some streams" by (auto simp: dict_in_def)
    with assms obtain stream l ss where "streams = (stream, l) # ss" by (cases streams) (auto simp: filed_def)
    with filed_streams [OF assms map_of_SomeD [OF d], of stream l] show "name \<in> mo_name ` set ms"
      by (auto simp: filter_empty_conv)
  next
    assume "name \<in> mo_name ` set ms"
    then obtain m where m: "m \<in> set ms" "mo_name m = name" by auto
    then have "filter (\<lambda>n. mo_name n = name \<and> mo_stream n = mo_stream m) ms \<noteq> []" by (auto simp: filter_empty_conv)
    with assms have "dict_or_empty (dict_or_empty d name) (mo_stream m) \<noteq> []" by (simp add: filed_def)
    then show "dict_in name d" by (auto simp: dict_in_def dict_or_empty_def split: option.splits)
  qed
  then show ?thesis by (auto simp: set_dict_keys dict_in_def)
qed

text \<open>The stream that is chosen when there are several.\<close>

definition preferred_stream :: "mod_env \<Rightarrow> mod_log \<Rightarrow> string \<Rightarrow> string" where
  "preferred_stream e log name = (if mx_state e log name = MS_ENABLED then mx_enabled_stream e log name else mx_default_stream e log name)"

lemma filter_key_single: "dict_wf d \<Longrightarrow> map_of d k = Some v \<Longrightarrow> filter (\<lambda>(j, w). j = k) d = [(k, v)]"
proof (induction d)
  case (Cons kv d)
  show ?case
  proof (cases "fst kv = k")
    case True
    with Cons.prems have "k \<notin> fst ` set d" by (auto simp: dict_wf_def)
    then have "filter (\<lambda>(j, w). j = k) d = []" by (auto simp: filter_empty_conv image_iff)
    with True Cons.prems show ?thesis by (cases kv) auto
  next
    case False
    with Cons show ?thesis by (cases kv) (auto simp: dict_wf_def)
  qed
qed simp

lemma enable_stream_run: "enable_stream e name stream log = (Inr u, log') \<Longrightarrow> log' = log @ [EnableStream name stream]"
  by (auto simp: enable_stream_def mod_event_def bind_p_apply split: option.splits)

lemma choose_stream_run:
  assumes "choose_stream e spec enable name streams log = (Inr chosen, log')" and wf: "dict_wf streams" and "streams \<noteq> []"
  shows "\<exists>stream l. chosen = [(stream, l)] \<and> (stream, l) \<in> set streams \<and> log' = log @ (if enable then [EnableStream name stream] else []) \<and>
    (1 < length streams \<longrightarrow> stream = preferred_stream e log name)"
proof (cases "1 < length streams")
  case True
  let ?stream = "preferred_stream e log name"
  from assms(1) True have "mx_state e log name \<noteq> MS_UNKNOWN" "dict_in ?stream streams"
    and run: "then_p (if enable then enable_stream e name ?stream else return_p ()) (return_p (filter (\<lambda>(k, ms). k = ?stream) streams)) log = (Inr chosen, log')"
    by (auto simp: choose_stream_def preferred_stream_def bind_p_apply Let_def split: if_splits prod.splits sum.splits)
  then obtain l where l: "map_of streams ?stream = Some l" by (auto simp: dict_in_def)
  from run filter_key_single [OF wf l] have "chosen = [(?stream, l)]" "log' = log @ (if enable then [EnableStream name ?stream] else [])"
    by (auto simp: then_p_apply dest: enable_stream_run split: if_splits prod.splits sum.splits)
  with l show ?thesis by (auto dest: map_of_SomeD)
next
  case False
  with assms(3) obtain stream l where s: "streams = [(stream, l)]" by (cases streams) auto
  with assms(1) have "chosen = streams" "log' = log @ (if enable then [EnableStream name stream] else [])"
    by (auto simp: choose_stream_def bind_p_apply then_p_apply dict_keys_def dest: enable_stream_run split: if_splits prod.splits sum.splits)
  with s show ?thesis by simp
qed

lemma choose_streams_run:
  assumes "choose_streams e spec enable d log = (Inr d', log')" and "\<forall>(name, streams) \<in> set d. dict_wf streams \<and> streams \<noteq> []"
  shows "dict_keys d' = dict_keys d \<and> log' = log @ (if enable then map (\<lambda>(name, streams). EnableStream name (fst (hd streams))) d' else []) \<and>
    (\<forall>(name, chosen) \<in> set d'. \<exists>streams stream l. (name, streams) \<in> set d \<and> chosen = [(stream, l)] \<and> (stream, l) \<in> set streams \<and>
      (\<not> enable \<longrightarrow> 1 < length streams \<longrightarrow> stream = preferred_stream e log name))"
  using assms
proof (induction d arbitrary: d' log)
  case (Cons kv d)
  obtain name streams where kv: "kv = (name, streams)" by (cases kv)
  from Cons.prems(1) kv obtain chosen log1 rest where 1: "choose_stream e spec enable name streams log = (Inr chosen, log1)"
    and 2: "choose_streams e spec enable d log1 = (Inr rest, log')" and d': "d' = (name, chosen) # rest"
    by (auto simp: bind_p_apply split: prod.splits sum.splits)
  from Cons.prems(2) kv have wf: "dict_wf streams" "streams \<noteq> []" by auto
  from choose_stream_run [OF 1 wf] obtain stream l where c: "chosen = [(stream, l)]" "(stream, l) \<in> set streams"
    "log1 = log @ (if enable then [EnableStream name stream] else [])" "1 < length streams \<longrightarrow> stream = preferred_stream e log name" by blast
  from Cons.IH [OF 2] Cons.prems(2) have IH: "dict_keys rest = dict_keys d"
    "log' = log1 @ (if enable then map (\<lambda>(name, streams). EnableStream name (fst (hd streams))) rest else [])"
    "\<forall>(name, chosen) \<in> set rest. \<exists>streams stream l. (name, streams) \<in> set d \<and> chosen = [(stream, l)] \<and> (stream, l) \<in> set streams \<and>
      (\<not> enable \<longrightarrow> 1 < length streams \<longrightarrow> stream = preferred_stream e log1 name)" by auto
  show ?case
  proof (intro conjI)
    show "dict_keys d' = dict_keys (kv # d)" using IH(1) by (simp add: d' kv dict_keys_def)
    show "log' = log @ (if enable then map (\<lambda>(name, streams). EnableStream name (fst (hd streams))) d' else [])"
      using IH(2) c by (simp add: d')
    show "\<forall>(name, chosen) \<in> set d'. \<exists>streams stream l. (name, streams) \<in> set (kv # d) \<and> chosen = [(stream, l)] \<and> (stream, l) \<in> set streams \<and>
      (\<not> enable \<longrightarrow> 1 < length streams \<longrightarrow> stream = preferred_stream e log name)"
      using IH(3) c unfolding d' kv by (cases enable) (fastforce)+
  qed
qed (simp add: dict_keys_def)


subsection \<open>Complaints and requests\<close>

fun complaint :: "mod_event \<Rightarrow> bool" where
  "complaint (LogError m) = True"
| "complaint (LogCritical m) = True"
| "complaint ev = False"

fun critical :: "mod_event \<Rightarrow> bool" where
  "critical (LogCritical m) = True"
| "critical ev = False"

fun asks :: "mod_event \<Rightarrow> bool" where
  "asks (Goal g) = True"
| "asks (GroupMember n) = True"
| "asks (RemoveIfUnneeded ps) = True"
| "asks ev = False"

definition order_ok :: "mod_env \<Rightarrow> bool" where
  "order_ok e \<longleftrightarrow> (\<forall>xs. set (mx_order e xs) = set xs)"

text \<open>The events of a kind are those of the list \<open>evs\<close>.\<close>

definition logged :: "(mod_event \<Rightarrow> bool) \<Rightarrow> mod_event list \<Rightarrow> mod_log \<Rightarrow> bool" where
  "logged P evs log \<longleftrightarrow> filter P log = evs"

lemma mod_event_run [simp]: "mod_event ev log = (Inr (), log @ [ev])"
  by (simp add: mod_event_def)

lemma logged_snoc [simp]: "\<not> P ev \<Longrightarrow> logged P evs (log @ [ev]) = logged P evs log"
  by (simp add: logged_def)

lemma pres_mod_event: "\<not> P ev \<Longrightarrow> pres (logged P evs) (mod_event ev)"
  unfolding mod_event_def by (rule pres_modify) simp

lemma fold_p_inv:
  assumes "fold_p f xs a s = (Inr b, t)" and "P a s"
    and "\<And>x a s b t. x \<in> set xs \<Longrightarrow> P a s \<Longrightarrow> f x a s = (Inr b, t) \<Longrightarrow> P b t"
  shows "P b t"
  using assms
proof (induction xs arbitrary: a s)
  case (Cons x xs)
  from Cons.prems(1) obtain c u where 1: "f x a s = (Inr c, u)" "fold_p f xs c u = (Inr b, t)"
    by (auto simp: bind_p_apply split: prod.splits sum.splits)
  from Cons.prems(3) [OF _ Cons.prems(2) 1(1)] have "P c u" by simp
  show ?case by (rule Cons.IH [OF 1(2) \<open>P c u\<close>]) (rule Cons.prems(3) [OF list.set_intros(2)])
qed simp

lemma bind_InrE:
  assumes "bind_p m f s = (Inr b, t)"
  obtains a u where "m s = (Inr a, u)" "f a u = (Inr b, t)"
  using assms by (auto simp: bind_p_apply split: prod.splits sum.splits)

text \<open>What only asks the container or enables streams.\<close>

lemma pres_enable_stream:
  assumes "\<And>n s. \<not> P (EnableStream n s)"
  shows "pres (logged P evs) (enable_stream e name stream)"
  unfolding enable_stream_def by (intro pres_intro pres_mod_event assms)

lemma pres_create_dict:
  assumes "\<And>n s. \<not> P (EnableStream n s)"
  shows "pres (logged P evs) (create_module_dict e ms spec enable)"
proof -
  have 1: "pres (logged P evs) (choose_stream e spec enable name streams)" for name streams
    unfolding choose_stream_def by (intro pres_intro pres_enable_stream assms)
  have "pres (logged P evs) (choose_streams e spec enable d)" for d
  proof (induction d)
    case Nil
    show ?case unfolding choose_streams.simps by (rule pres_basic)
  next
    case (Cons kv d)
    obtain name streams where "kv = (name, streams)" by (cases kv)
    with Cons show ?case by (simp only: choose_streams.simps) (intro pres_intro 1; simp)
  qed
  then show ?thesis by (simp add: create_module_dict_def)
qed

lemma resolve_spec_complains:
  assumes "resolve_spec e spec a log = (Inr b, log')"
    and "rs_no_match a = [] \<and> rs_errors a = [] \<longrightarrow> logged complaint evs log"
  shows "rs_no_match b = [] \<and> rs_errors b = [] \<longrightarrow> logged complaint evs log'"
proof -
  obtain modules ns where g: "get_modules e spec log = (Inr (modules, ns), log)"
    by (cases "first_match e log (mx_possible e spec)") (auto simp: get_modules_def)
  obtain r log1 where c: "create_module_dict e modules spec True log = (r, log1)" by (cases "create_module_dict e modules spec True log")
  have "logged complaint evs log1" if "logged complaint evs log"
    by (rule presD [OF pres_create_dict that c]) simp
  with assms g c show ?thesis
    by (auto simp: resolve_spec_def bind_p_apply then_p_apply catch_p_apply split: if_splits sum.splits prod.splits)
qed

lemma enable_dependencies_complains:
  assumes "enable_dependencies e dicts log = (Inr errs, log')" and "logged complaint evs log" and "errs = []"
  shows "logged complaint evs log'"
proof -
  have "errs = [] \<longrightarrow> logged complaint evs log'"
    by (rule fold_p_inv [OF assms(1) [unfolded enable_dependencies_def], where P = "\<lambda>errs log. errs = [] \<longrightarrow> logged complaint evs log"])
      (use assms(2) in \<open>auto simp: enable_dependencies_of_def bind_p_apply then_p_apply split: option.splits exn.splits\<close>)
  with assms(3) show ?thesis by simp
qed

lemma resolve_update_complains:
  assumes run: "resolve_update_sack e specs log = (Inr (a, solver_errors), log')" and "rs_no_match a = []" and "rs_errors a = []"
  shows "logged complaint (filter complaint log) log'"
proof -
  let ?L = "logged complaint (filter complaint log)"
  from run obtain a0 log1 where 1: "resolve_specs_enable e specs log = (Inr a0, log1)"
    and 2: "bind_p (update_sack e) (\<lambda>se. bind_p (enable_dependencies e (rs_dicts a0)) (\<lambda>errs.
      return_p (a0\<lparr>rs_errors := rs_errors a0 @ errs\<rparr>, se))) log1 = (Inr (a, solver_errors), log')"
    unfolding resolve_update_sack_def by (rule bind_InrE)
  from 2 obtain se log2 where 3: "update_sack e log1 = (Inr se, log2)"
    and 4: "bind_p (enable_dependencies e (rs_dicts a0)) (\<lambda>errs. return_p (a0\<lparr>rs_errors := rs_errors a0 @ errs\<rparr>, se)) log2 = (Inr (a, solver_errors), log')"
    by (rule bind_InrE)
  from 4 obtain errs log3 where 5: "enable_dependencies e (rs_dicts a0) log2 = (Inr errs, log3)"
    and 6: "return_p (a0\<lparr>rs_errors := rs_errors a0 @ errs\<rparr>, se) log3 = (Inr (a, solver_errors), log')" by (rule bind_InrE)
  from 6 have a: "a = a0\<lparr>rs_errors := rs_errors a0 @ errs\<rparr>" "log3 = log'" by simp_all
  with assms(2,3) have none: "rs_no_match a0 = []" "rs_errors a0 = []" "errs = []" by auto
  have "rs_no_match a0 = [] \<and> rs_errors a0 = [] \<longrightarrow> ?L log1"
    by (rule fold_p_inv [OF 1 [unfolded resolve_specs_enable_def], where P = "\<lambda>a log. rs_no_match a = [] \<and> rs_errors a = [] \<longrightarrow> ?L log"])
      (auto simp: logged_def intro: resolve_spec_complains [unfolded logged_def, THEN mp])
  with none have "?L log1" by simp
  moreover have "pres ?L (update_sack e)" unfolding update_sack_def by (intro pres_intro pres_mod_event) simp_all
  ultimately have "?L log2" using 3 by (auto dest: presD)
  from enable_dependencies_complains [OF 5 this none(3)] a(2) show ?thesis by simp
qed

text \<open>Events that no part of the resolution logs.\<close>

definition never_resolving :: "(mod_event \<Rightarrow> bool) \<Rightarrow> bool" where
  "never_resolving P \<longleftrightarrow> (\<forall>n s. \<not> P (EnableStream n s)) \<and> (\<forall>m. \<not> P (LogError m)) \<and> (\<forall>m. \<not> P (LogWarning m)) \<and> \<not> P FilterModules \<and>
    (\<forall>ids. \<not> P (EnableDependencies ids)) \<and> (\<forall>i p. \<not> P (InstallProfile i p))"

lemma never_resolving_simps: "never_resolving critical" "never_resolving asks"
  by (simp_all add: never_resolving_def)

lemma pres_resolve_spec:
  assumes "never_resolving P"
  shows "pres (logged P evs) (resolve_spec e spec a)"
proof -
  have h: "pres (logged P evs) n" if "(if stream_error x
      then Some (then_p (mod_event (LogError (exn_text x))) (then_p (mod_event (LogError (unable_to_resolve spec)))
        (return_p (a\<lparr>rs_errors := rs_errors a @ [spec]\<rparr>)))) else None) = Some n" for x n
    using that assms by (auto simp: never_resolving_def simp del: return_p_def split: if_splits intro!: pres_then pres_mod_event pres_basic)
  show ?thesis unfolding resolve_spec_def get_modules_def
    by (intro pres_intro pres_create_dict h) (use assms in \<open>simp_all add: never_resolving_def\<close>)
qed

lemma pres_update_sack:
  assumes "never_resolving P"
  shows "pres (logged P evs) (update_sack e)"
  unfolding update_sack_def by (intro pres_intro pres_mod_event) (use assms in \<open>simp add: never_resolving_def\<close>)

lemma pres_dependencies_of:
  assumes "never_resolving P"
  shows "pres (logged P evs) (enable_dependencies_of e x errs)"
proof -
  obtain spec modules where x: "x = (spec, modules)" by (cases x)
  have "pres (logged P evs) (case y of
      RuntimeError m \<Rightarrow> then_p (mod_event (LogError m)) (then_p (mod_event (LogError (unable_to_resolve spec))) (return_p (errs @ [spec])))
    | _ \<Rightarrow> raise_p y)" for y
    using assms by (cases y) (simp_all add: never_resolving_def pres_basic pres_then pres_mod_event del: return_p_def raise_p_def)
  with assms show ?thesis unfolding enable_dependencies_of_def x prod.case
    by (intro pres_intro pres_mod_event) (simp_all add: never_resolving_def)
qed

lemma pres_resolve_specs: "never_resolving P \<Longrightarrow> pres (logged P evs) (resolve_specs_enable e specs)"
  unfolding resolve_specs_enable_def by (intro pres_intro pres_resolve_spec)

lemma pres_dependencies: "never_resolving P \<Longrightarrow> pres (logged P evs) (enable_dependencies e dicts)"
  unfolding enable_dependencies_def by (intro pres_intro pres_dependencies_of)

lemma pres_resolve_update: "never_resolving P \<Longrightarrow> pres (logged P evs) (resolve_update_sack e specs)"
  unfolding resolve_update_sack_def by (intro pres_intro pres_resolve_specs pres_update_sack pres_dependencies)

subsection \<open>The streams of an installation\<close>

text \<open>Nothing was complained of so far, or it is remembered; and each package has a spec.\<close>

definition clean :: "collected \<Rightarrow> bool" where
  "clean c \<longleftrightarrow> ia_no_match c = [] \<and> ia_errors c = [] \<and> \<not> ia_fail_safe c"

definition with_specs :: "(string, string list) dict \<Rightarrow> bool" where
  "with_specs d \<longleftrightarrow> (\<forall>(n, specs) \<in> set d. specs \<noteq> [])"

definition remembered :: "mod_event list \<Rightarrow> collected \<Rightarrow> mod_log \<Rightarrow> bool" where
  "remembered evs c log \<longleftrightarrow> (clean c \<longrightarrow> logged complaint evs log) \<and> with_specs (ia_install c)"

definition picks ::
  "(string \<Rightarrow> string \<Rightarrow> string \<Rightarrow> modpkg \<Rightarrow> collected \<Rightarrow> (mod_log, profile list option \<times> collected) prog) \<Rightarrow> bool" where
  "picks pick \<longleftrightarrow> (\<forall>spec name stream latest evs a log p b log'. pick spec name stream latest a log = (Inr (p, b), log') \<longrightarrow>
    remembered evs a log \<longrightarrow> remembered evs b log')"

lemma in_dict_set: "(n, s) \<in> set (dict_set k v d) \<Longrightarrow> s = v \<or> (n, s) \<in> set d"
  unfolding dict_set_def by (induction d) (auto split: if_splits)

lemma add_spec_nonempty: "with_specs d \<Longrightarrow> with_specs (add_spec spec names d)"
proof (induction names arbitrary: d)
  case (Cons n names)
  have "set_add spec l \<noteq> []" "[] \<noteq> set_add spec l" for l by (auto simp: set_add_def)
  with Cons.prems have "with_specs (dict_set n (set_add spec (dict_or_empty d n)) d)"
    by (auto simp: with_specs_def dest!: in_dict_set)
  from Cons.IH [OF this] show ?case by simp
qed simp

lemma requested_remembered:
  assumes "requested_profiles e spec p name stream latest a log = (Inr (q, b), log')" and "remembered evs a log"
  shows "remembered evs b log'"
  using assms by (auto simp: requested_profiles_def Let_def then_p_apply remembered_def clean_def split: if_splits)

lemma default_profiles_picks: "picks (default_profiles e)"
  unfolding picks_def
proof (intro allI impI)
  fix spec name stream latest evs a log p b log'
  assume run: "default_profiles e spec name stream latest a log = (Inr (p, b), log')" and rem: "remembered evs a log"
  let ?defaults = "mx_default_profiles e log name stream"
  from run have "bind_p (if ?defaults \<noteq> [] then return_p a
       else then_p (mod_event (LogError
           (if mo_profiles latest = [] then ''No profiles for module '' @ name @ '':'' @ stream
            else ''No default profiles for module '' @ name @ '':'' @ stream @ ''. Available profiles: '' @ profile_names (mo_profiles latest))))
         (return_p (a\<lparr>ia_errors := ia_errors a @ [spec]\<rparr>))) (\<lambda>a.
     bind_p (fold_p (default_profile e spec name stream latest) (mx_order e (set_update ?defaults [])) ([], a)) (\<lambda>(profiles, a).
       return_p (Some profiles, a))) log = (Inr (p, b), log')"
    by (simp only: default_profiles_def bind_p_apply [of "gets_p _"] prog_apply prod.case sum.case)
  then obtain a1 log1 where A: "(if ?defaults \<noteq> [] then return_p a
       else then_p (mod_event (LogError
           (if mo_profiles latest = [] then ''No profiles for module '' @ name @ '':'' @ stream
            else ''No default profiles for module '' @ name @ '':'' @ stream @ ''. Available profiles: '' @ profile_names (mo_profiles latest))))
         (return_p (a\<lparr>ia_errors := ia_errors a @ [spec]\<rparr>))) log = (Inr a1, log1)"
    and B: "bind_p (fold_p (default_profile e spec name stream latest) (mx_order e (set_update ?defaults [])) ([], a1)) (\<lambda>(profiles, a).
       return_p (Some profiles, a)) log1 = (Inr (p, b), log')" by (rule bind_InrE)
  from B obtain pc log2 where C: "fold_p (default_profile e spec name stream latest) (mx_order e (set_update ?defaults [])) ([], a1) log1 = (Inr pc, log2)"
    "(case pc of (profiles, a) \<Rightarrow> return_p (Some profiles, a)) log2 = (Inr (p, b), log')" by (rule bind_InrE)
  obtain ps where fold: "fold_p (default_profile e spec name stream latest) (mx_order e (set_update ?defaults [])) ([], a1) log1 = (Inr (ps, b), log')"
    using C by (cases pc) simp
  have 1: "remembered evs a1 log1"
    using A rem by (auto simp: then_p_apply remembered_def clean_def split: if_splits)
  have "remembered evs (snd (ps, b)) log'"
    by (rule fold_p_inv [OF fold, where P = "\<lambda>pa log. remembered evs (snd pa) log"])
      (use 1 in \<open>auto simp: default_profile_def Let_def then_p_apply remembered_def clean_def split: if_splits\<close>)
  then show "remembered evs b log'" by simp
qed

lemma removed_profiles_picks: "picks (\<lambda>spec. removed_profiles e removed)"
  unfolding picks_def
proof (intro allI impI)
  fix spec :: string and name stream latest evs a log p b log'
  assume run: "removed_profiles e removed name stream latest a log = (Inr (p, b), log')" and rem: "remembered evs a log"
  from run obtain ps where fold: "fold_p (removed_profile e name stream latest) (dict_or_empty removed name) [] log = (Inr ps, log')" and b: "b = a"
    by (auto simp: removed_profiles_def bind_p_apply split: prod.splits sum.splits)
  have "remembered evs a log'"
    by (rule fold_p_inv [OF fold, where P = "\<lambda>_. remembered evs a"])
      (use rem in \<open>auto simp: removed_profile_def Let_def then_p_apply remembered_def split: if_splits\<close>)
  then show "remembered evs b log'" by (simp add: b)
qed

lemma install_stream_remembered:
  assumes "picks pick" and rem: "remembered evs a log" and run: "install_stream e pick names x a log = (Inr b, log')"
  shows "remembered evs b log'"
proof -
  obtain spec ns name stream ms where x: "x = (spec, ns, name, stream, ms)" by (cases x)
  define active where "active = filter (\<lambda>m. mx_active e log (mo_id m)) ms"
  show ?thesis
  proof (cases active)
    case Nil
    with run rem show ?thesis
      by (auto simp: install_stream_def x active_def [symmetric] bind_p_apply then_p_apply remembered_def clean_def)
  next
    case (Cons m rest)
    define latest where "latest = latest_of m rest"
    let ?pick = "\<lambda>a. case has_profile ns of Some p \<Rightarrow> requested_profiles e spec p name stream latest a | None \<Rightarrow> pick spec name stream latest a"
    obtain fs log1 where 1: "check_fail_safe ''Installing'' latest (ia_fail_safe a) log = (Inr fs, log1)"
      by (cases "mo_repo latest = FAIL_SAFE_REPO") (auto simp: check_fail_safe_def then_p_apply)
    have rem1: "remembered evs (a\<lparr>ia_fail_safe := fs\<rparr>) log1"
      using rem 1 by (auto simp: check_fail_safe_def then_p_apply remembered_def clean_def split: if_splits)
    from run have "(bind_p (?pick (a\<lparr>ia_fail_safe := fs\<rparr>)) (\<lambda>(picked, a). case picked of
               None \<Rightarrow> return_p a
             | Some profiles \<Rightarrow>
                 bind_p (fold_p (install_profile spec latest) profiles a) (\<lambda>a.
                 let artifacts = concat (map mo_artifacts (m # rest)) in
                 bind_p (lift_p (if names then add_artifact_names artifacts (ia_names a) else Inr (ia_names a))) (\<lambda>ns.
                   return_p (a\<lparr>ia_artifacts := set_update artifacts (ia_artifacts a), ia_names := ns\<rparr>))))) log1 = (Inr b, log')"
      using Cons 1 by (simp add: install_stream_def x active_def [symmetric] latest_def [symmetric] bind_p_apply [of "gets_p _"] bind_p_apply [of "check_fail_safe _ _ _"])
    then obtain picked a2 log2 where 2: "?pick (a\<lparr>ia_fail_safe := fs\<rparr>) log1 = (Inr (picked, a2), log2)"
      and rest: "(case picked of
               None \<Rightarrow> return_p a2
             | Some profiles \<Rightarrow>
                 bind_p (fold_p (install_profile spec latest) profiles a2) (\<lambda>a.
                 let artifacts = concat (map mo_artifacts (m # rest)) in
                 bind_p (lift_p (if names then add_artifact_names artifacts (ia_names a) else Inr (ia_names a))) (\<lambda>ns.
                   return_p (a\<lparr>ia_artifacts := set_update artifacts (ia_artifacts a), ia_names := ns\<rparr>)))) log2 = (Inr b, log')"
      by (rule bind_InrE) auto
    have rem2: "remembered evs a2 log2"
    proof (cases "has_profile ns")
      case None
      with assms(1) 2 rem1 show ?thesis unfolding picks_def by auto
    next
      case (Some p)
      with 2 rem1 show ?thesis using requested_remembered by auto
    qed
    show ?thesis
    proof (cases picked)
      case None
      with rest rem2 show ?thesis by simp
    next
      case (Some profiles)
      with rest obtain a3 log3 ns where 3: "fold_p (install_profile spec latest) profiles a2 log2 = (Inr a3, log3)"
        and b: "b = a3\<lparr>ia_artifacts := set_update (concat (map mo_artifacts (m # rest))) (ia_artifacts a3), ia_names := ns\<rparr>" "log' = log3"
        by (auto simp: bind_p_apply Let_def split: prod.splits sum.splits)
      have "remembered evs a3 log3"
        by (rule fold_p_inv [OF 3, where P = "remembered evs"])
          (use rem2 in \<open>auto simp: install_profile_def then_p_apply remembered_def clean_def add_spec_nonempty\<close>)
      then show ?thesis by (simp add: b remembered_def clean_def)
    qed
  qed
qed

text \<open>Critical messages come with the mark of the fail-safe repository only, and nothing is requested before the end.\<close>

definition unmarked :: "mod_event list \<Rightarrow> collected \<Rightarrow> mod_log \<Rightarrow> bool" where
  "unmarked evs c log \<longleftrightarrow> (\<not> ia_fail_safe c \<longrightarrow> logged critical evs log)"

definition plain_pick ::
  "(string \<Rightarrow> string \<Rightarrow> string \<Rightarrow> modpkg \<Rightarrow> collected \<Rightarrow> (mod_log, profile list option \<times> collected) prog) \<Rightarrow> bool" where
  "plain_pick pick \<longleftrightarrow> (\<forall>spec name stream latest a P evs. never_resolving P \<longrightarrow> pres (logged P evs) (pick spec name stream latest a)) \<and>
     (\<forall>spec name stream latest a log p b log'. pick spec name stream latest a log = (Inr (p, b), log') \<longrightarrow> ia_fail_safe b = ia_fail_safe a)"

lemma plain_requested: "plain_pick (\<lambda>spec name stream latest a. requested_profiles e spec p name stream latest a)"
  unfolding plain_pick_def
proof (intro conjI allI impI)
  fix spec name stream latest a P evs
  assume "never_resolving P"
  then show "pres (logged P evs) (requested_profiles e spec p name stream latest a)"
    unfolding requested_profiles_def Let_def by (intro pres_intro pres_mod_event) (simp add: never_resolving_def)
qed (auto simp: requested_profiles_def Let_def then_p_apply split: if_splits)

lemma plain_default: "plain_pick (default_profiles e)"
  unfolding plain_pick_def
proof (intro conjI allI impI)
  fix spec name stream latest a P evs
  assume P: "never_resolving P"
  have "pres (logged P evs) (default_profile e spec name stream latest profile pa)" for profile pa
    using P by (cases pa) (auto simp: default_profile_def Let_def never_resolving_def simp del: return_p_def intro!: pres_if pres_basic pres_then pres_mod_event)
  with P show "pres (logged P evs) (default_profiles e spec name stream latest a)"
    unfolding default_profiles_def by (intro pres_intro pres_mod_event) (simp_all add: never_resolving_def)
next
  fix spec name stream latest a log p b log'
  assume run: "default_profiles e spec name stream latest a log = (Inr (p, b), log')"
  have keep: "ia_fail_safe (snd pb) = v" if "fold_p (default_profile e spec name stream latest) xs pa l = (Inr pb, l')" "ia_fail_safe (snd pa) = v"
    for xs pa pb l l' v
    by (rule fold_p_inv [OF that(1), where P = "\<lambda>pa log. ia_fail_safe (snd pa) = v"])
      (use that(2) in \<open>auto simp: default_profile_def Let_def then_p_apply split: if_splits\<close>)
  show "ia_fail_safe b = ia_fail_safe a"
  proof (cases "mx_default_profiles e log name stream = []")
    case True
    with run show ?thesis by (auto simp: default_profiles_def bind_p_apply then_p_apply dest!: keep [OF _ refl] split: prod.splits sum.splits)
  next
    case False
    with run show ?thesis by (auto simp: default_profiles_def bind_p_apply dest!: keep [OF _ refl] split: prod.splits sum.splits)
  qed
qed

lemma plain_removed: "plain_pick (\<lambda>spec. removed_profiles e removed)"
  unfolding plain_pick_def
proof (intro conjI allI impI)
  fix spec :: string and name stream latest a P evs
  assume "never_resolving P"
  then have "pres (logged P evs) (removed_profile e name stream latest profile ps)" for profile ps
    unfolding removed_profile_def Let_def by (intro pres_intro pres_mod_event) (simp add: never_resolving_def)
  then show "pres (logged P evs) (removed_profiles e removed name stream latest a)"
    unfolding removed_profiles_def by (intro pres_intro)
qed (auto simp: removed_profiles_def bind_p_apply split: prod.splits sum.splits)

lemma asks_install_stream:
  assumes "plain_pick pick"
  shows "pres (logged asks evs) (install_stream e pick names x a)"
proof -
  obtain spec ns name stream ms where x: "x = (spec, ns, name, stream, ms)" by (cases x)
  have fs: "pres (logged asks evs) (check_fail_safe verb latest f)" for verb latest f
    unfolding check_fail_safe_def by (intro pres_intro pres_mod_event) simp
  have prof: "pres (logged asks evs) (install_profile spec latest profile a)" for latest profile a
    unfolding install_profile_def by (intro pres_intro pres_mod_event) simp
  have pick: "pres (logged asks evs) (pick spec name stream latest a)" for latest a
    using assms by (simp add: plain_pick_def never_resolving_simps)
  have req: "pres (logged asks evs) (requested_profiles e spec p name stream latest a)" for p latest a
    using plain_requested by (simp add: plain_pick_def never_resolving_simps)
  have body: "pres (logged asks evs) (case active of [] \<Rightarrow> then_p (mod_event (LogError m)) (return_p b) | n # rest \<Rightarrow> k n rest)"
    if "\<And>n rest. pres (logged asks evs) (k n rest)" for active m b k
    using that by (cases active) (auto simp del: return_p_def intro!: pres_then pres_mod_event pres_basic)
  show ?thesis unfolding install_stream_def x prod.case
    by (rule pres_bind, rule pres_basic, rule body, unfold Let_def) (intro pres_intro fs prof pick req)
qed

lemma unmarked_install_stream:
  assumes "plain_pick pick" and un: "unmarked evs a log" and run: "install_stream e pick names x a log = (Inr b, log')"
  shows "unmarked evs b log'"
proof -
  obtain spec ns name stream ms where x: "x = (spec, ns, name, stream, ms)" by (cases x)
  define active where "active = filter (\<lambda>m. mx_active e log (mo_id m)) ms"
  show ?thesis
  proof (cases active)
    case Nil
    with run un show ?thesis by (auto simp: install_stream_def x active_def [symmetric] bind_p_apply then_p_apply unmarked_def)
  next
    case (Cons m rest)
    define latest where "latest = latest_of m rest"
    let ?pick = "\<lambda>a. case has_profile ns of Some p \<Rightarrow> requested_profiles e spec p name stream latest a | None \<Rightarrow> pick spec name stream latest a"
    obtain fs log1 where 1: "check_fail_safe ''Installing'' latest (ia_fail_safe a) log = (Inr fs, log1)"
      by (cases "mo_repo latest = FAIL_SAFE_REPO") (auto simp: check_fail_safe_def then_p_apply)
    have un1: "unmarked evs (a\<lparr>ia_fail_safe := fs\<rparr>) log1"
      using un 1 by (auto simp: check_fail_safe_def then_p_apply unmarked_def split: if_splits)
    from run obtain picked a2 log2 where 2: "?pick (a\<lparr>ia_fail_safe := fs\<rparr>) log1 = (Inr (picked, a2), log2)"
      and rest: "(case picked of
               None \<Rightarrow> return_p a2
             | Some profiles \<Rightarrow>
                 bind_p (fold_p (install_profile spec latest) profiles a2) (\<lambda>a.
                 let artifacts = concat (map mo_artifacts (m # rest)) in
                 bind_p (lift_p (if names then add_artifact_names artifacts (ia_names a) else Inr (ia_names a))) (\<lambda>ns.
                   return_p (a\<lparr>ia_artifacts := set_update artifacts (ia_artifacts a), ia_names := ns\<rparr>)))) log2 = (Inr b, log')"
      using Cons 1 by (auto simp: install_stream_def x active_def [symmetric] latest_def [symmetric] bind_p_apply [of "gets_p _"] bind_p_apply [of "check_fail_safe _ _ _"] elim!: bind_InrE)
    have plain: "plain_pick (\<lambda>spec name stream latest a. case has_profile ns of Some p \<Rightarrow> requested_profiles e spec p name stream latest a | None \<Rightarrow> pick spec name stream latest a)"
      using assms(1) plain_requested by (cases "has_profile ns") simp_all
    from plain 2 have fs2: "ia_fail_safe a2 = fs" unfolding plain_pick_def by fastforce
    from plain have "pres (logged critical evs) (?pick (a\<lparr>ia_fail_safe := fs\<rparr>))"
      unfolding plain_pick_def using never_resolving_simps(1) by blast
    with 2 un1 fs2 have un2: "unmarked evs a2 log2" by (auto simp: unmarked_def dest: presD)
    show ?thesis
    proof (cases picked)
      case None
      with rest un2 show ?thesis by simp
    next
      case (Some profiles)
      with rest obtain a3 log3 ns where 3: "fold_p (install_profile spec latest) profiles a2 log2 = (Inr a3, log3)"
        and b: "b = a3\<lparr>ia_artifacts := set_update (concat (map mo_artifacts (m # rest))) (ia_artifacts a3), ia_names := ns\<rparr>" "log' = log3"
        by (auto simp: bind_p_apply Let_def split: prod.splits sum.splits)
      have "unmarked evs a3 log3"
        by (rule fold_p_inv [OF 3, where P = "unmarked evs"]) (use un2 in \<open>auto simp: install_profile_def then_p_apply unmarked_def\<close>)
      then show ?thesis by (simp add: b unmarked_def)
    qed
  qed
qed

lemma install_packages_complain:
  assumes "order_ok e" and "with_specs d" and "install_profiles_internal e artifacts d strict log = (Inr (ib, []), log')" and "logged complaint evs log"
  shows "logged complaint evs log'"
proof -
  from assms(3) obtain base ib' where fold: "fold_p (install_package e strict base ib') d [] log = (Inr [], log')"
    by (auto simp: install_profiles_internal_def bind_p_apply Let_def split: prod.splits sum.splits)
  have order: "mx_order e specs \<noteq> []" if "specs \<noteq> []" for specs
    using assms(1) that by (metis order_ok_def set_empty)
  have "([] :: string list) = [] \<longrightarrow> logged complaint evs log'"
    by (rule fold_p_inv [OF fold, where P = "\<lambda>errs log. errs = [] \<longrightarrow> logged complaint evs log"])
      (use assms(2,4) in \<open>auto simp: install_package_def Let_def then_p_apply with_specs_def order logged_def split: if_splits prod.splits sum.splits\<close>)
  then show ?thesis by simp
qed

lemma critical_install_packages: "pres (logged critical evs) (install_profiles_internal e artifacts d strict)"
proof -
  have "pres (logged critical evs) (install_package e strict base ib x errs)" for base ib x errs
  proof -
    obtain name specs where x: "x = (name, specs)" by (cases x)
    show ?thesis unfolding install_package_def x prod.case Let_def by (intro pres_intro pres_mod_event) simp_all
  qed
  then show ?thesis unfolding install_profiles_internal_def Let_def by (intro pres_intro)
qed

text \<open>The end of an installation and of a switch: the check of the mark, the packages, \<open>extra\<close>, and the errors.\<close>

definition installed_end ::
  "mod_env \<Rightarrow> bool \<Rightarrow> solver_errors \<Rightarrow> (collected \<Rightarrow> pkg list \<Rightarrow> (mod_log, unit) prog) \<Rightarrow> collected \<Rightarrow> (mod_log, unit) prog" where
  "installed_end e strict solver_errors extra c =
     (if ia_fail_safe c then raise_p (DnfError ''Installing module from Fail-Safe repository is not allowed'')
      else bind_p (install_profiles_internal e (ia_artifacts c) (ia_install c) strict) (\<lambda>(install_base, errs).
        then_p (extra c install_base) (raise_marking (ia_no_match c) (ia_errors c @ errs) solver_errors)))"

lemma installed_end_honest:
  assumes "order_ok e" and "remembered C c log" and "unmarked D c log" and "logged asks A log"
    and extra: "\<And>c ib evs. pres (logged complaint evs) (extra c ib)" "\<And>c ib evs. pres (logged critical evs) (extra c ib)"
    and run: "installed_end e strict solver_errors extra c log = (r, log')"
  shows "(r = Inr () \<longrightarrow> logged complaint C log') \<and> (logged critical D log' \<or> r \<noteq> Inr () \<and> logged asks A log')"
proof (cases "ia_fail_safe c")
  case True
  with run assms(4) show ?thesis by (auto simp: installed_end_def)
next
  case False
  let ?rest = "bind_p (install_profiles_internal e (ia_artifacts c) (ia_install c) strict) (\<lambda>(install_base, errs).
        then_p (extra c install_base) (raise_marking (ia_no_match c) (ia_errors c @ errs) solver_errors))"
  from False run have rest: "?rest log = (r, log')" by (simp add: installed_end_def)
  have "pres (logged critical D) ?rest"
    by (intro pres_intro critical_install_packages extra) (simp add: raise_marking_def pres_if pres_basic)
  with rest False assms(3) have crit: "logged critical D log'" by (auto simp: unmarked_def dest: presD)
  have "logged complaint C log'" if "r = Inr ()"
  proof -
    from rest that obtain ib errs log1 where 1: "install_profiles_internal e (ia_artifacts c) (ia_install c) strict log = (Inr (ib, errs), log1)"
      and 2: "then_p (extra c ib) (raise_marking (ia_no_match c) (ia_errors c @ errs) solver_errors) log1 = (Inr (), log')"
      by (auto elim!: bind_InrE)
    from 2 obtain u where 3: "extra c ib log1 = (Inr u, log')" and none: "ia_no_match c = []" "ia_errors c = []" "errs = []"
      by (auto simp: then_p_apply raise_marking_def split: prod.splits sum.splits if_splits)
    with False assms(2) have "logged complaint C log" "with_specs (ia_install c)" by (simp_all add: remembered_def clean_def)
    from install_packages_complain [OF assms(1) this(2) 1 [unfolded none] this(1)] have "logged complaint C log1" .
    from presD [OF extra(1) this 3] show ?thesis .
  qed
  with crit show ?thesis by blast
qed

lemma streams_then_end:
  assumes "order_ok e" and "picks pick" and "plain_pick pick"
    and rem: "remembered C c0 log" and un: "unmarked D c0 log" and asks: "logged asks A log"
    and extra: "\<And>c ib evs. pres (logged complaint evs) (extra c ib)" "\<And>c ib evs. pres (logged critical evs) (extra c ib)"
    and run: "bind_p (fold_p (install_stream e pick names) xs c0) (installed_end e strict solver_errors extra) log = (r, log')"
  shows "(r = Inr () \<longrightarrow> logged complaint C log') \<and> (logged critical D log' \<or> r \<noteq> Inr () \<and> logged asks A log')"
proof -
  obtain rc log1 where 1: "fold_p (install_stream e pick names) xs c0 log = (rc, log1)" by (cases "fold_p (install_stream e pick names) xs c0 log")
  have "pres (logged asks A) (fold_p (install_stream e pick names) xs c0)" by (intro pres_intro asks_install_stream assms(3))
  from presD [OF this asks 1] have asks1: "logged asks A log1" .
  show ?thesis
  proof (cases rc)
    case (Inl x)
    with 1 run asks1 show ?thesis by (auto simp: bind_p_apply)
  next
    case (Inr c)
    have "remembered C c log1"
      by (rule fold_p_inv [OF 1 [unfolded Inr], where P = "remembered C"]) (use rem install_stream_remembered [OF assms(2)] in blast)+
    moreover have "unmarked D c log1"
      by (rule fold_p_inv [OF 1 [unfolded Inr], where P = "unmarked D"]) (use un unmarked_install_stream [OF assms(3)] in blast)+
    ultimately show ?thesis
      using installed_end_honest [OF assms(1) _ _ asks1 extra] 1 Inr run by (simp add: bind_p_apply)
  qed
qed

lemma install_as_end:
  "module_install e specs strict = bind_p (resolve_update_sack e specs) (\<lambda>(a, solver_errors).
     bind_p (fold_p (install_stream e (default_profiles e) False) (spec_streams (rs_dicts a)) (collect_nothing a))
       (installed_end e strict solver_errors (\<lambda>c ib. return_p ())))"
proof -
  have "then_p (return_p ()) m = m" for m :: "(mod_log, unit) prog" by (simp add: then_p_def bind_p_def fun_eq_iff)
  then show ?thesis unfolding module_install_def installed_end_def [abs_def] by (simp cong: if_cong)
qed

lemma collect_nothing_start:
  assumes "rs_no_match a = [] \<and> rs_errors a = [] \<longrightarrow> logged complaint C log" and "logged critical D log"
  shows "remembered C (collect_nothing a) log" and "unmarked D (collect_nothing a) log"
  using assms by (auto simp: remembered_def unmarked_def clean_def with_specs_def collect_nothing_def)

text \<open>
  C23. An installation of modules is honest.  When it returns it has logged no error and nothing
  critical; and when something critical was logged, a module of the fail-safe repository was to be
  installed, it raises and has requested nothing at all.
\<close>

theorem module_install_honest:
  assumes "order_ok e" and "module_install e specs strict log = (r, log')"
  shows "(r = Inr () \<longrightarrow> filter complaint log' = filter complaint log) \<and>
    (filter critical log' \<noteq> filter critical log \<longrightarrow> r \<noteq> Inr () \<and> filter asks log' = filter asks log)"
proof -
  let ?C = "filter complaint log" and ?D = "filter critical log" and ?A = "filter asks log"
  have start: "logged critical ?D log" "logged asks ?A log" by (simp_all add: logged_def)
  obtain ra log1 where 1: "resolve_update_sack e specs log = (ra, log1)" by (cases "resolve_update_sack e specs log")
  have asks1: "logged asks ?A log1" and crit1: "logged critical ?D log1"
    using presD [OF pres_resolve_update [OF never_resolving_simps(2)] start(2) 1] presD [OF pres_resolve_update [OF never_resolving_simps(1)] start(1) 1] by auto
  show ?thesis
  proof (cases ra)
    case (Inl x)
    with 1 assms(2) asks1 show ?thesis by (auto simp: module_install_def bind_p_apply logged_def)
  next
    case (Inr ase)
    obtain a se where ase: "ase = (a, se)" by (cases ase)
    from resolve_update_complains [of e specs log a se log1] 1 Inr ase
    have "rs_no_match a = [] \<and> rs_errors a = [] \<longrightarrow> logged complaint ?C log1" by simp
    note begun = collect_nothing_start [OF this crit1]
    from assms(2) 1 Inr ase have "bind_p (fold_p (install_stream e (default_profiles e) False) (spec_streams (rs_dicts a)) (collect_nothing a))
       (installed_end e strict se (\<lambda>c ib. return_p ())) log1 = (r, log')" by (simp add: install_as_end bind_p_apply [of "resolve_update_sack _ _"])
    from streams_then_end [OF assms(1) default_profiles_picks plain_default begun asks1 pres_basic(1) pres_basic(1) this]
    show ?thesis by (auto simp: logged_def)
  qed
qed

subsection \<open>Removal\<close>

lemma asks_profile_packages: "pres (logged asks evs) (profile_packages e ms ns uninstall)"
proof -
  have un: "pres (logged asks evs) (uninstall_profile uninstall latest profile)" for latest profile
    unfolding uninstall_profile_def by (intro pres_intro pres_mod_event) simp
  show ?thesis unfolding profile_packages_def by (intro pres_intro un)
qed

lemma asks_remove_spec: "pres (logged asks evs) (remove_spec e spec acc)"
proof -
  obtain no_match names where acc: "acc = (no_match, names)" by (cases acc)
  have stream: "pres (logged asks evs) ((case x of (name, stream, ms) \<Rightarrow> \<lambda>names. bind_p (profile_packages e ms ns True) (\<lambda>m. return_p (names @ m))) ns')"
    for x ns ns'
    by (cases x) (simp only: prod.case, intro pres_intro asks_profile_packages)
  show ?thesis unfolding remove_spec_def acc prod.case get_modules_def
    by (intro pres_intro pres_create_dict pres_mod_event stream) simp_all
qed

text \<open>
  C24. A removal leaves what is needed.  The removal of modules requests nothing, or last of all and once the
  removal of installed packages, none of which has the name of a package that a profile still
  installed contains.
\<close>

theorem module_remove_safe:
  assumes "module_remove e specs log = (r, log')"
  shows "filter asks log' = filter asks log \<or>
    (\<exists>before ps. log' = before @ [RemoveIfUnneeded ps] \<and> filter asks before = filter asks log \<and> ps \<noteq> [] \<and>
      (\<forall>p \<in> set ps. p \<in> set (mx_sack e before) \<and> p_reponame p = SYSTEM_REPO_NAME \<and> p_name p \<notin> set (mx_installed_names e before)))"
proof -
  obtain r1 log1 where 1: "fold_p (remove_spec e) specs ([], []) log = (r1, log1)" by (cases "fold_p (remove_spec e) specs ([], []) log")
  have "pres (logged asks (filter asks log)) (fold_p (remove_spec e) specs ([], []))" by (intro pres_intro asks_remove_spec)
  from presD [OF this _ 1] have log1: "filter asks log1 = filter asks log" by (simp add: logged_def)
  show ?thesis
  proof (cases r1)
    case (Inl x)
    with 1 assms log1 show ?thesis by (simp add: module_remove_def)
  next
    case (Inr nn)
    obtain no_match names where nn: "nn = (no_match, names)" by (cases nn)
    define keep where "keep = filter (\<lambda>n. n \<notin> set (mx_installed_names e log1)) names"
    define ps where "ps = filter (\<lambda>p. p_reponame p = SYSTEM_REPO_NAME \<and> p_name p \<in> set keep) (mx_sack e log1)"
    from assms 1 Inr nn have "log' = log1 \<or> log' = log1 @ [RemoveIfUnneeded ps] \<and> ps \<noteq> []"
      by (auto simp: module_remove_def bind_p_apply then_p_apply Let_def keep_def ps_def split: if_splits)
    moreover have "\<forall>p \<in> set ps. p \<in> set (mx_sack e log1) \<and> p_reponame p = SYSTEM_REPO_NAME \<and> p_name p \<notin> set (mx_installed_names e log1)"
      by (simp add: ps_def keep_def)
    ultimately show ?thesis using log1 by blast
  qed
qed

subsection \<open>An example: a module with two streams\<close>

definition sample_mod :: "string \<Rightarrow> modpkg" where
  "sample_mod stream = \<lparr>mo_id = ''perl:'' @ stream, mo_name = ''perl'', mo_stream = stream, mo_version_num = 1, mo_repo = ''r'',
     mo_artifacts = [], mo_profiles = [\<lparr>pf_name = ''common'', pf_content = [''a'', ''b'']\<rparr>], mo_summary = []\<rparr>"

definition sample_spec :: nsvcap where
  "sample_spec = \<lparr>ns_name = Some ''perl'', ns_stream = None, ns_version = None, ns_context = None, ns_arch = None, ns_profile = None\<rparr>"

definition sample_module_env :: mod_env where
  "sample_module_env = \<lparr>mx_possible = \<lambda>_. [sample_spec], mx_query = \<lambda>_ _ _ _ _ _. [sample_mod ''5.24'', sample_mod ''5.26''],
     mx_active = \<lambda>_ i. i = ''perl:5.26'', mx_state = \<lambda>_ _. MS_ENABLED, mx_enabled_stream = \<lambda>_ _. ''5.26'', mx_default_stream = \<lambda>_ _. ''5.24'',
     mx_enable = \<lambda>_ _ _. None, mx_dependencies = \<lambda>_ _. None, mx_filter = \<lambda>_. Inr None,
     mx_profiles = \<lambda>m n. filter (\<lambda>p. pf_name p = n) (mo_profiles m), mx_default_profiles = \<lambda>_ _ _. [''common''],
     mx_installed_profiles = \<lambda>_ _. [''common''], mx_removed_profiles = \<lambda>_. [], mx_installed_names = \<lambda>_. [''b''],
     mx_sack = \<lambda>_. [example_mark_pkg ''a'' ''1'' ''@System'' 1, example_mark_pkg ''b'' ''1'' ''@System'' 2],
     mx_nevra_strict = \<lambda>_ _. False, mx_nevra_names = \<lambda>_. [], mx_hotfix_repos = [], mx_order = \<lambda>xs. xs, mx_evr_lt = \<lambda>_ _. False\<rparr>"


lemma module_install_honest_witness:
  "\<exists>log'. module_install sample_module_env [''perl''] True [] = (Inr (), log') \<and> filter complaint log' = []"
proof -
  let ?run = "module_install sample_module_env [''perl''] True []"
  have "fst ?run = Inr ()" by code_simp
  then have run: "?run = (Inr (), snd ?run)" by (metis prod.collapse)
  have "order_ok sample_module_env" by (simp add: order_ok_def sample_module_env_def)
  from module_install_honest [OF this run] run show ?thesis by auto
qed

lemma module_remove_safe_witness:
  "\<exists>before p. snd (module_remove sample_module_env [''perl''] []) = before @ [RemoveIfUnneeded [p]] \<and> filter asks before = [] \<and>
    p_name p \<notin> set (mx_installed_names sample_module_env before)"
proof -
  let ?run = "module_remove sample_module_env [''perl''] []"
  have "filter asks (snd ?run) = [RemoveIfUnneeded [example_mark_pkg ''a'' ''1'' ''@System'' 1]]" by code_simp
  with module_remove_safe [of sample_module_env "[''perl'']" "[]" "fst ?run" "snd ?run"] show ?thesis by auto
qed

end
