(* ===== verification/Columns_Properties.thy ===== *)
theory Columns_Properties
  imports Columns
begin

text \<open>
  What the layout of tables guarantees: the width that is available is used up, to within one column;
  where everything fits nothing is cut; and the columns of a row stay aligned.
\<close>

subsection \<open>Sums over columns\<close>

lemma sum_list_update_int: "k < length xs \<Longrightarrow> sum_list (xs[k := x]) = sum_list xs + x - (xs ! k :: int)"
  by (induction xs arbitrary: k) (auto split: nat.splits)

lemma sum_map2_add:
  "length cs = length ws \<Longrightarrow> sum_list (map2 (\<lambda>c w. if P c then w else w + norm) cs ws)
     = sum_list ws + int (length (filter (\<lambda>c. \<not> P c) cs)) * (norm :: int)"
  by (induction cs ws rule: list_induct2) (simp_all add: algebra_simps)

lemma sum_enumerate_add:
  "sum_list (map (\<lambda>(d, w). if d < k then w + norm else w) (enumerate i ws))
     = sum_list ws + int (min (k - i) (length ws)) * (norm :: int)"
proof (induction ws arbitrary: i)
  case (Cons w ws)
  have "int (min (k - i) (Suc (length ws))) = (if i < k then 1 else 0) + int (min (k - Suc i) (length ws))" by auto
  with Cons show ?case by (simp add: algebra_simps)
qed simp

lemma nth_enumerate_add:
  "d < length ws \<Longrightarrow> map (\<lambda>(d, w). if d < k then w + norm else w) (enumerate 0 ws) ! d = (if d < k then ws ! d + norm else ws ! d)"
  by (simp add: nth_enumerate_eq)

lemma div_mult_rest: "0 < k \<Longrightarrow> 0 \<le> (x::int) - k * (x div k)"
  by (simp add: minus_mult_div_eq_mod)

subsection \<open>The last step\<close>

lemma share_overflowed_run:
  assumes len: "length columns = length data" and left: "0 < left" and sh: "share_overflowed data columns left = (ws, left')"
  shows "length ws = length columns" and "sum_list ws + left' = sum_list columns + left" and "0 \<le> left'"
    and "d < length data \<Longrightarrow> columns ! d \<le> ws ! d"
proof -
  let ?n = "length (filter (\<lambda>c. c \<noteq> []) data)"
  show "length ws = length columns" "sum_list ws + left' = sum_list columns + left"
    using sh len sum_map2_add [where P = "\<lambda>c. c = []" and cs = data and ws = columns]
    by (auto simp: share_overflowed_def Let_def split: if_splits)
  show "0 \<le> left'" using sh left div_mult_rest [of "int ?n" left] by (auto simp: share_overflowed_def Let_def split: if_splits)
  show "columns ! d \<le> ws ! d" if "d < length data"
    using sh len left that by (auto simp: share_overflowed_def Let_def pos_imp_zdiv_nonneg_iff split: if_splits)
qed

lemma share_rest_run:
  assumes "length columns = n" and "2 \<le> n" and "r < n" and "0 \<le> left"
  shows "\<exists>ws. share_rest n r (columns, left) = Inr ws \<and> length ws = n \<and> sum_list ws = sum_list columns + left \<and>
    (\<forall>d < n. columns ! d \<le> ws ! d)"
proof -
  let ?k = "int n - 1"
  let ?norm = "left div ?k"
  let ?ws = "map (\<lambda>(d, w). if d < n - 1 then w + ?norm else w) (enumerate 0 columns)"
  let ?x = "?ws ! r + (left - ?k * ?norm)"
  have k: "0 < ?k" "int (min (n - 1) (length columns)) = ?k" using assms by auto
  have norm: "0 \<le> ?norm" using k assms by (simp add: pos_imp_zdiv_nonneg_iff)
  have rest: "0 \<le> left - ?k * ?norm" using div_mult_rest k by blast
  have "share_rest n r (columns, left) = Inr (?ws[r := ?x])" using assms by (simp add: share_rest_def Let_def)
  moreover have "sum_list (?ws[r := ?x]) = sum_list columns + left"
    using assms k by (simp add: sum_list_update_int sum_enumerate_add)
  moreover have "columns ! d \<le> ?ws[r := ?x] ! d" if "d < n" for d
    using that assms norm rest by (cases "d = r") (auto simp: nth_enumerate_eq nth_list_update)
  ultimately show ?thesis using assms by (intro exI [of _ "?ws[r := ?x]"]) simp
qed

lemma shares_run:
  assumes "length columns = length data" and "2 \<le> length data" and "r < length data" and "0 < left"
  shows "\<exists>ws. share_rest (length data) r (share_overflowed data columns left) = Inr ws \<and> length ws = length data \<and>
    sum_list ws = sum_list columns + left \<and> (\<forall>d < length data. columns ! d \<le> ws ! d)"
proof -
  obtain vs left' where sh: "share_overflowed data columns left = (vs, left')" by (cases "share_overflowed data columns left")
  note o = share_overflowed_run [OF assms(1,4) sh]
  from share_rest_run [of vs "length data" r left'] o(1,3) assms obtain ws where
    w: "share_rest (length data) r (vs, left') = Inr ws" "length ws = length data" "sum_list ws = sum_list vs + left'"
    "\<forall>d < length data. vs ! d \<le> ws ! d" by auto
  moreover have "columns ! d \<le> ws ! d" if "d < length data" for d
    using o(4) [OF that] w(4) that by (meson order_trans)
  ultimately show ?thesis using sh o(2) by auto
qed

subsection \<open>The width used\<close>

definition last_empty :: "int list \<Rightarrow> int" where
  "last_empty ws = (if last ws = 0 then 1 else 0)"

definition ascending_stat :: "col_stat \<Rightarrow> bool" where
  "ascending_stat c \<longleftrightarrow> sorted_wrt (<) (map fst c)"

definition has_zero :: "col_stat \<Rightarrow> int" where
  "has_zero c = (if 0 \<in> fst ` set c then 1 else 0)"

lemma has_zero_pop: "ascending_stat ((l, n) # rest) \<Longrightarrow> l = 0 \<Longrightarrow> has_zero ((l, n) # rest) = 1 \<and> has_zero rest = 0"
  by (auto simp: has_zero_def ascending_stat_def)

lemma has_zero_mono: "has_zero rest \<le> has_zero ((l, n) # rest)"
  by (auto simp: has_zero_def)

lemma last_update:
  "v < length xs \<Longrightarrow> last (xs[v := x]) = (if v = length xs - 1 then x else last xs)"
  by (cases "xs = []") (auto simp: last_conv_nth nth_list_update)

text \<open>What is left when the last column, empty until now, is given a width: the space before it is taken.\<close>

definition after_pop :: "col_stat list \<Rightarrow> int list \<Rightarrow> int \<Rightarrow> nat \<Rightarrow> nat \<Rightarrow> int" where
  "after_pop data columns left val l =
     left - (if columns ! val = 0 \<and> val = length data - 1 then 1 else 0) - (int l - columns ! val)"

lemma calc_step:
  assumes "0 < left" and "data \<noteq> []" and len: "length columns = length data"
    and best: "best_column data columns left = (helps, val)" and "helps \<noteq> 0"
  obtains l n rest where "data ! val = (l, n) # rest" and "val < length data" and "int l - columns ! val \<le> left"
    and "calc_loop r data columns left = calc_loop r (data[val := rest]) (columns[val := int l]) (after_pop data columns left val l)"
    and "sum_list (map length (data[val := rest])) < sum_list (map length data)"
proof -
  have v: "val < length data" using best_column_less [OF assms(2), of columns left] best by simp
  have "spaces_helps (columns ! val) (data ! val) left = helps"
    using best_column_helps [of data columns left] best assms(5) by simp
  with assms(5) obtain l n rest where d: "data ! val = (l, n) # rest" "int l - columns ! val \<le> left"
    using spaces_helps_Cons by metis
  have "calc_loop r data columns left = calc_loop r (data[val := rest]) (columns[val := int l]) (after_pop data columns left val l)"
    using assms d by (subst calc_loop.simps) (auto simp: after_pop_def Let_def)
  with v d pop_smaller [OF best [symmetric] assms(5) d(1)] show ?thesis by (intro that)
qed

lemma calc_loop_budget:
  assumes "length columns = length data" "2 \<le> length data" "r < length data"
    "\<forall>c \<in> set data. ascending_stat c" "\<forall>w \<in> set columns. 0 \<le> w" "-1 \<le> left" "left = -1 \<Longrightarrow> last columns \<noteq> 0"
  shows "\<exists>ws. calc_loop r data columns left = Inr ws \<and> length ws = length data \<and>
    sum_list columns - last_empty columns + left - has_zero (last data) \<le> sum_list ws - last_empty ws \<and>
    sum_list ws - last_empty ws \<le> sum_list columns - last_empty columns + left + 1"
  using assms
proof (induction "sum_list (map length data)" arbitrary: data columns left rule: less_induct)
  case less
  have ne: "data \<noteq> []" "columns \<noteq> []" using less.prems(1,2) by auto
  have hz: "0 \<le> has_zero (last data)" by (simp add: has_zero_def)
  obtain helps val where best: "best_column data columns left = (helps, val)" by (cases "best_column data columns left")
  consider "left \<le> 0" | "0 < left" "helps = 0" | "0 < left" "helps \<noteq> 0" by linarith
  then show ?case
  proof cases
    case 1
    with less.prems hz show ?thesis by (subst calc_loop.simps) (auto simp: last_empty_def)
  next
    case 2
    from shares_run [OF less.prems(1,2,3) 2(1)] obtain ws where
      ws: "share_rest (length data) r (share_overflowed data columns left) = Inr ws" "length ws = length data"
      "sum_list ws = sum_list columns + left" "\<forall>d < length data. columns ! d \<le> ws ! d" by blast
    have "last columns \<le> last ws" using ws(2,4) ne less.prems(1) by (metis diff_less last_conv_nth length_greater_0_conv less_numeral_extra(1))
    moreover have "0 \<le> last columns" using less.prems(5) ne(2) by simp
    ultimately have "last_empty ws \<le> last_empty columns" "last_empty columns \<le> 1" "0 \<le> last_empty ws" by (auto simp: last_empty_def)
    with ws 2 best hz show ?thesis by (subst calc_loop.simps) auto
  next
    case 3
    obtain l n rest where d: "data ! val = (l, n) # rest" and v: "val < length data" and diff: "int l - columns ! val \<le> left"
      and run: "calc_loop r data columns left = calc_loop r (data[val := rest]) (columns[val := int l]) (after_pop data columns left val l)"
      and small: "sum_list (map length (data[val := rest])) < sum_list (map length data)"
      by (rule calc_step [OF 3(1) ne(1) less.prems(1) best 3(2)])
    let ?data = "data[val := rest]" and ?columns = "columns[val := int l]" and ?left = "after_pop data columns left val l"
    have asc: "ascending_stat ((l, n) # rest)" using less.prems(4) v d by (metis nth_mem)
    have cval: "0 \<le> columns ! val" using less.prems(1,5) v by simp
    have vc: "val < length columns" using v less.prems(1) by simp
    have sum: "sum_list ?columns = sum_list columns + int l - columns ! val" using vc by (rule sum_list_update_int)
    have "ascending_stat rest" using asc by (simp add: ascending_stat_def)
    then have asc': "\<forall>c \<in> set ?data. ascending_stat c" using less.prems(4) by (auto dest!: set_update_subset_insert [THEN subsetD])
    have pos': "\<forall>w \<in> set ?columns. 0 \<le> w" using less.prems(5) by (auto dest!: set_update_subset_insert [THEN subsetD])
    have lasts: "last ?columns = (if val = length data - 1 then int l else last columns)"
      "last ?data = (if val = length data - 1 then rest else last data)" "last columns = columns ! (length data - 1)"
      "val = length data - 1 \<Longrightarrow> last data = (l, n) # rest"
      using vc v d less.prems(1) ne by (auto simp: last_update last_conv_nth)
    have budget: "sum_list columns - last_empty columns + left - has_zero (last data)
        \<le> sum_list ?columns - last_empty ?columns + ?left - has_zero (last ?data)"
      "sum_list ?columns - last_empty ?columns + ?left \<le> sum_list columns - last_empty columns + left"
      using sum lasts has_zero_pop [OF asc] has_zero_mono [of rest l n] by (auto simp: after_pop_def last_empty_def)
    have "-1 \<le> ?left" using diff by (auto simp: after_pop_def)
    moreover have "last ?columns \<noteq> 0" if "?left = -1" using that diff 3 lasts cval by (auto simp: after_pop_def split: if_splits)
    ultimately have "\<exists>ws. calc_loop r ?data ?columns ?left = Inr ws \<and> length ws = length ?data \<and>
      sum_list ?columns - last_empty ?columns + ?left - has_zero (last ?data) \<le> sum_list ws - last_empty ws \<and>
      sum_list ws - last_empty ws \<le> sum_list ?columns - last_empty ?columns + ?left + 1"
      using less.prems(1-3) asc' pos' by (intro less.hyps small) simp_all
    with run budget show ?thesis by auto
  qed
qed

subsection \<open>Everything fits\<close>

text \<open>What a column still wants: room for its longest item, and at least one character.\<close>

definition longest :: "col_stat \<Rightarrow> int" where
  "longest c = max 1 (int (fst (last c)))"

definition wants :: "col_stat \<Rightarrow> int \<Rightarrow> int" where
  "wants c w = (if c = [] then 0 else longest c - w)"

definition all_want :: "col_stat list \<Rightarrow> int list \<Rightarrow> int" where
  "all_want data columns = sum_list (map2 wants data columns) +
     (if last columns = 0 \<and> last data \<noteq> [] then 1 else 0) + has_zero (last data)"

lemma map2_update:
  "length xs = length ys \<Longrightarrow> map2 f (xs[k := x]) (ys[k := y]) = (map2 f xs ys)[k := f x y]"
  by (simp add: zip_update map_update)

lemma sum_list_member: "\<forall>x \<in> set xs. 0 \<le> x \<Longrightarrow> k < length xs \<Longrightarrow> xs ! k \<le> (sum_list xs :: int)"
proof (induction xs arbitrary: k)
  case (Cons x xs)
  then have "0 \<le> sum_list xs" "0 \<le> x" by (simp_all add: sum_list_nonneg)
  with Cons show ?case by (cases k) (auto simp: add_increasing)
qed simp

lemma wants_map2:
  "length columns = length data \<Longrightarrow> \<forall>d < length data. 0 \<le> wants (data ! d) (columns ! d) \<Longrightarrow>
    \<forall>x \<in> set (map2 wants data columns). 0 \<le> x"
  by (auto simp: set_zip)

lemma wants_le:
  assumes "length columns = length data" "\<forall>d < length data. 0 \<le> wants (data ! d) (columns ! d)"
    "all_want data columns \<le> left" "d < length data"
  shows "wants (data ! d) (columns ! d) \<le> left"
proof -
  have "map2 wants data columns ! d \<le> sum_list (map2 wants data columns)"
    by (rule sum_list_member [OF wants_map2 [OF assms(1,2)]]) (use assms in simp)
  with assms show ?thesis by (auto simp: all_want_def has_zero_def split: if_splits)
qed

lemma best_column_some:
  assumes "d < length data" "spaces_helps (columns ! d) (data ! d) left \<noteq> 0"
  shows "fst (best_column data columns left) \<noteq> 0"
proof -
  let ?f = "better_column data columns left"
  have keep: "fst best \<noteq> 0 \<Longrightarrow> fst (foldl ?f best ds) \<noteq> 0" for best ds
    by (induction ds arbitrary: best) (simp_all add: better_column_def Let_def)
  have "d \<in> set ds \<Longrightarrow> fst (foldl ?f best ds) \<noteq> 0" for best ds
  proof (induction ds arbitrary: best)
    case (Cons e ds)
    show ?case
    proof (cases "d = e")
      case True
      have "fst (?f best e) \<noteq> 0" using assms(2) True by (simp add: better_column_def Let_def)
      with keep show ?thesis by simp
    next
      case False
      with Cons show ?thesis by simp
    qed
  qed simp
  with assms(1) show ?thesis by (simp add: best_column_def)
qed

lemma first_le_longest: "ascending_stat ((l, n) # rest) \<Longrightarrow> int l \<le> longest ((l, n) # rest)"
  by (cases "rest = []") (auto simp: longest_def ascending_stat_def less_imp_le le_max_iff_disj)

lemma calc_loop_fits:
  assumes "length columns = length data" "2 \<le> length data" "r < length data"
    "\<forall>c \<in> set data. ascending_stat c" "\<forall>c \<in> set data. \<forall>(l, n) \<in> set c. 0 < n"
    "\<forall>d < length data. 0 \<le> wants (data ! d) (columns ! d)" "all_want data columns \<le> left"
  shows "\<exists>ws. calc_loop r data columns left = Inr ws \<and> length ws = length data \<and>
    (\<forall>d < length data. (data ! d = [] \<longrightarrow> columns ! d \<le> ws ! d) \<and> (\<forall>(l, n) \<in> set (data ! d). int l \<le> ws ! d))"
  using assms
proof (induction "sum_list (map length data)" arbitrary: data columns left rule: less_induct)
  case less
  have ne: "data \<noteq> []" "columns \<noteq> []" using less.prems(1,2) by auto
  have asc: "ascending_stat (data ! d)" if "d < length data" for d using less.prems(4) that by simp
  have longest: "int l \<le> longest (data ! d)" if "d < length data" "(l, n) \<in> set (data ! d)" for d l n
    using asc [OF that(1)] that(2) by (cases "data ! d" rule: rev_cases) (auto simp: longest_def ascending_stat_def sorted_wrt_append)
  obtain helps val where best: "best_column data columns left = (helps, val)" by (cases "best_column data columns left")
  consider "left \<le> 0" | "0 < left" "helps = 0" | "0 < left" "helps \<noteq> 0" by linarith
  then show ?case
  proof cases
    case 1
    have "int l \<le> columns ! d" if d: "d < length data" "(l, n) \<in> set (data ! d)" for d l n
    proof -
      have "data ! d \<noteq> []" using d(2) by auto
      then have "longest (data ! d) \<le> columns ! d"
        using wants_le [OF less.prems(1,6,7) d(1)] 1 by (simp add: wants_def)
      with longest [OF d] show ?thesis by linarith
    qed
    with 1 less.prems(1) show ?thesis by (subst calc_loop.simps) auto
  next
    case 2
    have empty: "data ! d = []" if d: "d < length data" for d
    proof (rule ccontr)
      assume "data ! d \<noteq> []"
      then obtain l n rest where c: "data ! d = (l, n) # rest" by (cases "data ! d") auto
      have "int l - columns ! d \<le> left"
        using wants_le [OF less.prems(1,6,7) d] longest [OF d, of l n] c by (simp add: wants_def)
      moreover have "0 < n" using less.prems(5) d c by (metis (no_types, lifting) list.set_intros(1) nth_mem prod.case)
      ultimately have "spaces_helps (columns ! d) (data ! d) left \<noteq> 0" by (simp add: c)
      with best_column_some [OF d, of columns left] best 2 show False by simp
    qed
    from shares_run [OF less.prems(1,2,3) 2(1)] obtain ws where
      ws: "share_rest (length data) r (share_overflowed data columns left) = Inr ws" "length ws = length data"
        "\<forall>d < length data. columns ! d \<le> ws ! d" by blast
    with 2 best empty show ?thesis by (subst calc_loop.simps) auto
  next
    case 3
    obtain l n rest where d: "data ! val = (l, n) # rest" and v: "val < length data" and diff: "int l - columns ! val \<le> left"
      and run: "calc_loop r data columns left = calc_loop r (data[val := rest]) (columns[val := int l]) (after_pop data columns left val l)"
      and small: "sum_list (map length (data[val := rest])) < sum_list (map length data)"
      by (rule calc_step [OF 3(1) ne(1) less.prems(1) best 3(2)])
    let ?data = "data[val := rest]" and ?columns = "columns[val := int l]" and ?left = "after_pop data columns left val l"
    have vasc: "ascending_stat ((l, n) # rest)" using asc [OF v] d by simp
    have vc: "val < length columns" using v less.prems(1) by simp
    have counted: "\<forall>(l, n) \<in> set rest. 0 < n" using less.prems(5) nth_mem [OF v] d by auto
    have asc': "\<forall>c \<in> set ?data. ascending_stat c" "\<forall>c \<in> set ?data. \<forall>(l, n) \<in> set c. 0 < n"
      using less.prems(4,5) vasc counted by (auto simp: ascending_stat_def dest!: set_update_subset_insert [THEN subsetD])
    have lm: "l \<le> fst (last rest)" if "rest \<noteq> []" using vasc that by (simp add: ascending_stat_def less_imp_le)
    have rest: "wants rest (int l) \<le> wants ((l, n) # rest) (columns ! val) - (int l - columns ! val)" "0 \<le> wants rest (int l)"
      using lm by (cases "rest = []"; auto simp: wants_def longest_def)+
    have nonneg: "\<forall>d < length ?data. 0 \<le> wants (?data ! d) (?columns ! d)"
    proof (intro allI impI)
      fix d
      assume "d < length ?data"
      then show "0 \<le> wants (?data ! d) (?columns ! d)"
        using less.prems(1,6) rest(2) vc v by (cases "d = val") simp_all
    qed
    have lasts: "last ?columns = (if val = length data - 1 then int l else last columns)"
      "last ?data = (if val = length data - 1 then rest else last data)" "last columns = columns ! (length data - 1)"
      "val = length data - 1 \<Longrightarrow> last data = (l, n) # rest"
      using vc v d less.prems(1) ne by (auto simp: last_update last_conv_nth)
    have "sum_list (map2 wants ?data ?columns) \<le> sum_list (map2 wants data columns) - (int l - columns ! val)"
      using less.prems(1) v vc d rest(1) by (simp add: map2_update sum_list_update_int)
    then have "all_want ?data ?columns \<le> ?left"
      using less.prems(7) lasts has_zero_pop [OF vasc] has_zero_mono [of rest l n] by (auto simp: all_want_def after_pop_def split: if_splits)
    then obtain ws where ws: "calc_loop r ?data ?columns ?left = Inr ws" "length ws = length data"
      "\<forall>d < length data. (?data ! d = [] \<longrightarrow> ?columns ! d \<le> ws ! d) \<and> (\<forall>(l, n) \<in> set (?data ! d). int l \<le> ws ! d)"
      using less.hyps [OF small, of ?columns ?left] less.prems(1-3) asc' nonneg by auto
    have "(data ! d = [] \<longrightarrow> columns ! d \<le> ws ! d) \<and> (\<forall>(l, n) \<in> set (data ! d). int l \<le> ws ! d)" if d': "d < length data" for d
    proof (cases "d = val")
      case False
      with ws(3) d' show ?thesis by auto
    next
      case True
      have r: "rest = [] \<longrightarrow> int l \<le> ws ! val" "\<forall>(l, n) \<in> set rest. int l \<le> ws ! val" using ws(3) v vc by auto
      then have "int l \<le> ws ! val" using vasc by (cases rest) (auto simp: ascending_stat_def)
      with True d r show ?thesis by simp
    qed
    with run ws(1,2) show ?thesis by auto
  qed
qed

subsection \<open>The statistics\<close>

lemma ascending_sort: "dict_wf d \<Longrightarrow> ascending_stat (sort_key fst d)"
  by (simp add: ascending_stat_def dict_wf_def strict_sorted_iff distinct_map)

text \<open>The width of a table: its columns, a space between each two, and the indent; an empty last column has no space before it.\<close>

definition table_width :: "(char \<Rightarrow> bool) \<Rightarrow> string \<Rightarrow> int list \<Rightarrow> int" where
  "table_width wide indent ws = sum_list ws - last_empty ws + (int (length ws) - 1) + int (exact_width wide indent)"

text \<open>The widths a caller of \<open>calcColumns\<close> starts from.\<close>

definition start_columns :: "(nat, nat) dict list \<Rightarrow> int list option \<Rightarrow> int list" where
  "start_columns pdata columns = (case columns of None \<Rightarrow> replicate (length pdata - 1) 1 @ [0] | Some ws \<Rightarrow> ws)"

text \<open>
  The width of a table.  If there are two columns or more, and the widths the caller starts from
  leave any of the given width, then the columns are laid out without an error and take up that
  width exactly, or miss it or exceed it by one character.
\<close>

theorem columns_budget:
  assumes "2 \<le> length pdata" and "r < length pdata" and "\<forall>d \<in> set pdata. dict_wf d" and "t_width \<noteq> 0"
    and "length (start_columns pdata columns) = length pdata" and "\<forall>w \<in> set (start_columns pdata columns). 0 \<le> w"
    and "table_width wide indent (start_columns pdata columns) < t_width"
  shows "\<exists>ws. calc_columns wide t pdata columns r (Some t_width) indent = Inr ws \<and> length ws = length pdata \<and>
    t_width - 1 \<le> table_width wide indent ws \<and> table_width wide indent ws \<le> t_width + 1"
proof -
  let ?data = "map (sort_key fst) pdata" and ?cs = "start_columns pdata columns"
  let ?left = "initial_left wide (length ?data) ?cs t_width indent"
  have asc: "\<forall>c \<in> set ?data. ascending_stat c" using assms(3) ascending_sort by auto
  have left: "?left = t_width - table_width wide indent ?cs" "0 < ?left"
    using assms(5,7) by (auto simp: initial_left_def table_width_def last_empty_def)
  have "calc_columns wide t pdata columns r (Some t_width) indent = calc_loop r ?data ?cs ?left"
    using assms(4) by (simp add: calc_columns_def start_columns_def Let_def split: option.split)
  moreover have "has_zero (last ?data) \<le> 1" by (simp add: has_zero_def)
  moreover obtain ws where "calc_loop r ?data ?cs ?left = Inr ws" "length ws = length ?data"
    "sum_list ?cs - last_empty ?cs + ?left - has_zero (last ?data) \<le> sum_list ws - last_empty ws"
    "sum_list ws - last_empty ws \<le> sum_list ?cs - last_empty ?cs + ?left + 1"
    using calc_loop_budget [of ?cs ?data r ?left] assms asc left(2) by auto
  ultimately show ?thesis using assms(5) left(1) by (intro exI [of _ ws]) (auto simp: table_width_def)
qed

definition plain_term :: terminal where
  "plain_term = \<lparr>tm_real = 80, tm_mode = [], tm_fg = [], tm_bg = []\<rparr>"

text \<open>One character too many: the last column takes what was left for it and the space before it.\<close>

lemma columns_budget_witness:
  "calc_columns (\<lambda>c. False) plain_term [[(1, 1)], [(9, 1)]] None 0 (Some 10) [] = Inr [1, 9] \<and>
   (\<exists>ws. calc_columns (\<lambda>c. False) plain_term [[(1, 1)], [(9, 1)]] None 0 (Some 10) [] = Inr ws \<and> length ws = 2 \<and>
      9 \<le> table_width (\<lambda>c. False) [] ws \<and> table_width (\<lambda>c. False) [] ws \<le> 11)"
proof
  show "calc_columns (\<lambda>c. False) plain_term [[(1, 1)], [(9, 1)]] None 0 (Some 10) [] = Inr [1, 9]" by code_simp
  show "\<exists>ws. calc_columns (\<lambda>c. False) plain_term [[(1, 1)], [(9, 1)]] None 0 (Some 10) [] = Inr ws \<and> length ws = 2 \<and>
      9 \<le> table_width (\<lambda>c. False) [] ws \<and> table_width (\<lambda>c. False) [] ws \<le> 11"
    using columns_budget [of "[[(1, 1)], [(9, 1)]]" 0 10 None "\<lambda>c. False" "[]" plain_term]
    by (auto simp: start_columns_def table_width_def last_empty_def dict_wf_def)
qed

subsection \<open>Tables that fit\<close>

definition widest :: "(nat, nat) dict \<Rightarrow> int" where
  "widest d = int (Max (insert 1 (fst ` set d)))"

lemma longest_widest: "ascending_stat (sort_key fst d) \<Longrightarrow> d \<noteq> [] \<Longrightarrow> longest (sort_key fst d) \<le> widest d"
proof -
  assume "d \<noteq> []"
  then have "last (sort_key fst d) \<in> set d" by (metis last_in_set set_sort sort_key_simps(1) length_sort length_0_conv)
  then have "fst (last (sort_key fst d)) \<in> insert 1 (fst ` set d)" by blast
  then have "fst (last (sort_key fst d)) \<le> Max (insert 1 (fst ` set d))" by (intro Max_ge) simp_all
  moreover have "1 \<le> Max (insert 1 (fst ` set d))" by (intro Max_ge) simp_all
  ultimately show ?thesis by (simp add: longest_def widest_def)
qed

lemma sum_starts: "sum_list (replicate n 1 @ [0]) = int n"
  by (simp add: sum_list_replicate)

lemma all_want_start:
  assumes "pdata \<noteq> []" and "\<forall>d \<in> set pdata. dict_wf d"
  shows "all_want (map (sort_key fst) pdata) (start_columns pdata None) \<le> (\<Sum>d\<leftarrow>pdata. widest d) - (int (length pdata) - 1) + 2"
    and "\<forall>i < length pdata. 0 \<le> wants (map (sort_key fst) pdata ! i) (start_columns pdata None ! i)"
proof -
  have one: "wants (sort_key fst d) w \<le> widest d - w" "0 \<le> wants (sort_key fst d) w" if "d \<in> set pdata" "w \<le> 1" for d w
  proof -
    have "1 \<le> Max (insert 1 (fst ` set d))" by (intro Max_ge) simp_all
    then have "1 \<le> widest d" by (simp add: widest_def)
    moreover have "1 \<le> longest c" for c by (simp add: longest_def)
    ultimately show "wants (sort_key fst d) w \<le> widest d - w" "0 \<le> wants (sort_key fst d) w"
      using that assms(2) longest_widest [of d] ascending_sort [of d] order_trans [of w 1 "longest (sort_key fst d)"]
      by (cases "d = []"; simp add: wants_def)+
  qed
  have sum: "sum_list (map2 wants (map (sort_key fst) ps) ws) \<le> (\<Sum>d\<leftarrow>ps. widest d) - sum_list ws"
    if "length ps = length ws" "set ps \<subseteq> set pdata" "\<forall>w \<in> set ws. w \<le> 1" for ps ws
    using that
  proof (induction ps ws rule: list_induct2)
    case (Cons d ps w ws)
    then show ?case using one(1) [of d w] by auto
  qed simp
  have "sum_list (map2 wants (map (sort_key fst) pdata) (start_columns pdata None)) \<le> (\<Sum>d\<leftarrow>pdata. widest d) - sum_list (start_columns pdata None)"
    by (rule sum) (use assms(1) in \<open>auto simp: start_columns_def Suc_le_eq\<close>)
  moreover have "sum_list (start_columns pdata None) = int (length pdata) - 1"
    using assms(1) by (simp add: start_columns_def sum_list_replicate of_nat_diff Suc_le_eq)
  moreover have "has_zero (last (map (sort_key fst) pdata)) \<le> 1" by (simp add: has_zero_def)
  ultimately show "all_want (map (sort_key fst) pdata) (start_columns pdata None) \<le> (\<Sum>d\<leftarrow>pdata. widest d) - (int (length pdata) - 1) + 2"
    by (simp add: all_want_def)
  show "\<forall>i < length pdata. 0 \<le> wants (map (sort_key fst) pdata ! i) (start_columns pdata None ! i)"
    using one(2) by (auto simp: start_columns_def nth_append)
qed

text \<open>The width a table is fitted to: the one asked for, or that of the terminal.\<close>

definition fitted_width :: "terminal \<Rightarrow> int option \<Rightarrow> int" where
  "fitted_width t total_width =
     (let w = (case total_width of None \<Rightarrow> int (tm_real t) | Some w \<Rightarrow> w) in if w = 0 then int (tm_columns t) else w)"

lemma full_columns_length: "full_columns data columns indent = Inr ws \<Longrightarrow> length ws = length data"
  by (cases data) (auto simp: full_columns_def)

lemma full_columns_fit:
  assumes "full_columns data columns indent = Inr ws" and "\<forall>c \<in> set data. ascending_stat c"
  shows "\<forall>i < length data. \<forall>(l, n) \<in> set (data ! i). int l \<le> ws ! i"
proof (intro allI impI)
  fix i
  assume i: "i < length data"
  let ?ws = "map (\<lambda>(d, c). if c \<noteq> [] then int (fst (last c)) else columns ! d + 1) (enumerate 0 data)"
  from i obtain v vs where "?ws = v # vs" by (cases data) auto
  with assms(1) have "ws = (v + int (length indent) * 2) # vs" by (simp add: full_columns_def)
  with \<open>?ws = v # vs\<close> have "?ws ! i \<le> ws ! i" by (cases i) auto
  moreover have "?ws ! i = (if data ! i \<noteq> [] then int (fst (last (data ! i))) else columns ! i + 1)"
    using i by (simp add: nth_enumerate_eq)
  moreover have "l \<le> fst (last (data ! i))" if "(l, n) \<in> set (data ! i)" for l n
    using assms(2) i that by (cases "data ! i" rule: rev_cases) (auto simp: ascending_stat_def sorted_wrt_append less_imp_le dest!: bspec nth_mem)
  ultimately have "int l \<le> ws ! i" if "(l, n) \<in> set (data ! i)" for l n using that by (cases "data ! i = []") force+
  then show "\<forall>(l, n) \<in> set (data ! i). int l \<le> ws ! i" by auto
qed

text \<open>
  A table that fits is not cut.  If the widest items of the columns, a space between each two
  columns and the indent take less than the width, each column is at least as wide as every item
  in it; without a terminal the same holds of the default width.
\<close>

lemma columns_fit:
  assumes "2 \<le> length pdata" and "r < length pdata" and "\<forall>d \<in> set pdata. dict_wf d"
    and "\<forall>d \<in> set pdata. \<forall>(l, n) \<in> set d. 0 < n"
    and room: "(\<Sum>d\<leftarrow>pdata. widest d) + (int (length pdata) - 1) + int (exact_width wide indent) < fitted_width t total_width"
  shows "\<exists>ws. calc_columns wide t pdata None r total_width indent = Inr ws \<and> length ws = length pdata \<and>
    (\<forall>i < length pdata. \<forall>(l, n) \<in> set (pdata ! i). int l \<le> ws ! i)"
proof -
  let ?data = "map (sort_key fst) pdata" and ?cs = "start_columns pdata None"
  let ?left = "initial_left wide (length ?data) ?cs (fitted_width t total_width) indent"
  have asc: "\<forall>c \<in> set ?data. ascending_stat c" using assms(3) ascending_sort by auto
  have ne: "pdata \<noteq> []" using assms(1) by auto
  have len: "length ?cs = length ?data" using ne by (simp add: start_columns_def Suc_le_eq)
  have "sum_list ?cs = int (length pdata) - 1" "last ?cs = 0"
    using ne by (simp_all add: start_columns_def sum_list_replicate of_nat_diff Suc_le_eq)
  then have "all_want ?data ?cs \<le> ?left" using all_want_start(1) [OF ne assms(3)] room by (simp add: initial_left_def)
  then obtain ws where ws: "calc_loop r ?data ?cs ?left = Inr ws" "length ws = length pdata" "\<forall>i < length ?data. \<forall>(l, n) \<in> set (?data ! i). int l \<le> ws ! i"
    using calc_loop_fits [of ?cs ?data r ?left] len assms asc all_want_start(2) [OF ne assms(3)] by auto
  let ?full = "full_columns ?data ?cs indent"
  have "?full \<noteq> Inl e" for e using ne by (cases pdata) (simp_all add: full_columns_def)
  then obtain fs where fs: "?full = Inr fs" by (cases ?full) auto
  have cs: "(case None of None \<Rightarrow> replicate (length ?data - 1) 1 @ [0] | Some ws \<Rightarrow> ws) = ?cs" by (simp add: start_columns_def)
  have "calc_columns wide t pdata None r total_width indent = Inr ws \<or> calc_columns wide t pdata None r total_width indent = Inr fs"
    using ws(1) fs unfolding calc_columns_def Let_def cs by (auto simp: fitted_width_def Let_def split: if_splits)
  then show ?thesis using ws(2,3) full_columns_fit [OF fs asc] full_columns_length [OF fs] by auto
qed

subsection \<open>The layout of a row\<close>

text \<open>What a template and its data have come to, whatever follows.\<close>

definition renders :: "string \<Rightarrow> string list \<Rightarrow> string \<Rightarrow> bool" where
  "renders t d out \<longleftrightarrow> (\<forall>u vs. percent_s (t @ u) (d @ vs) = bind_r (percent_s u vs) (\<lambda>r. Inr (out @ r)))"

lemma renders_append: "renders t d out \<Longrightarrow> renders u e out' \<Longrightarrow> renders (t @ u) (d @ e) (out @ out')"
  unfolding renders_def append_assoc
proof (intro allI)
  fix v vs
  assume t: "\<forall>u vs. percent_s (t @ u) (d @ vs) = bind_r (percent_s u vs) (\<lambda>r. Inr (out @ r))"
    and u: "\<forall>v vs. percent_s (u @ v) (e @ vs) = bind_r (percent_s v vs) (\<lambda>r. Inr (out' @ r))"
  show "percent_s (t @ u @ v) (d @ e @ vs) = bind_r (percent_s v vs) (\<lambda>r. Inr (out @ out' @ r))"
    unfolding spec [OF spec [OF t]] unfolding spec [OF spec [OF u]] by (cases "percent_s v vs") simp_all
qed

lemma renders_Nil: "renders [] [] []"
  unfolding renders_def by (auto simp: bind_r_def split: sum.split)

lemma renders_text: "CHR ''%'' \<notin> set t \<Longrightarrow> renders t [] t"
proof (induction t)
  case (Cons c t)
  then have "percent_s (t @ u) vs = bind_r (percent_s u vs) (\<lambda>r. Inr (t @ r))" for u vs
    by (simp add: renders_def)
  with Cons.prems show ?case unfolding renders_def
    by (auto simp: bind_r_def split: sum.split)
qed (rule renders_Nil)

lemma renders_s: "renders ''%s'' [v] v"
  by (simp add: renders_def)

lemma renders_end: "renders t d out \<Longrightarrow> percent_s t d = Inr out"
  unfolding renders_def by (drule spec [of _ "[]"], drule spec [of _ "[]"]) simp

text \<open>The layout of a row written out: a cell that fits is padded, one that does not ends its line.\<close>

definition cell_text :: "(char \<Rightarrow> bool) \<Rightarrow> nat \<Rightarrow> string \<times> string \<Rightarrow> string \<Rightarrow> int \<Rightarrow> string" where
  "cell_text wide off codes val w =
     (let pad = spaces (nat \<bar>w\<bar> - exact_width wide val) in
      if w = 0 then val
      else if exact_width wide val \<le> nat \<bar>w\<bar>
      then fst codes @ (if w < 0 then val @ pad else pad @ val) @ snd codes @ '' ''
      else fst codes @ val @ snd codes @ nl @ spaces (off + nat \<bar>w\<bar> + 1))"

definition next_off :: "nat \<Rightarrow> int \<Rightarrow> nat" where
  "next_off off w = (if w = 0 then off else off + nat \<bar>w\<bar> + 1)"

fun cells_text :: "(char \<Rightarrow> bool) \<Rightarrow> (hilite \<Rightarrow> string \<times> string) \<Rightarrow> nat \<Rightarrow> cell list \<Rightarrow> string" where
  "cells_text wide codes off [] = []"
| "cells_text wide codes off ((val, w, h) # cells) =
     cell_text wide off (codes h) val w @ cells_text wide codes (next_off off w) cells"

definition last_text :: "(char \<Rightarrow> bool) \<Rightarrow> (hilite \<Rightarrow> string \<times> string) \<Rightarrow> cell \<Rightarrow> string" where
  "last_text wide codes cell = (case cell of (val, w, h) \<Rightarrow>
     fill_exact_width wide val (nat \<bar>w\<bar>) None (w < 0) (fst (codes h)) (snd (codes h)))"

lemma spaces_no_percent: "CHR ''%'' \<notin> set (spaces n)"
  by (simp add: spaces_def)

lemma fmt_column_renders:
  assumes "highlight_codes t h = Inr (codes h)" and "renders msg data out"
  shows "\<exists>msg' data'. fmt_column wide t (msg, off, data) (val, w, h) = Inr (msg', next_off off w, data') \<and>
    renders msg' data' (out @ cell_text wide off (codes h) val w)"
proof -
  obtain b e where c: "codes h = (b, e)" by (cases "codes h")
  have 4: "renders ''%s%s%s%s '' [p, q, r, s] (p @ q @ r @ s @ '' '')" for p q r s
    by (simp add: renders_def bind_r_def split: sum.split)
  have 3: "renders (''%s%s%s'' @ nl @ spaces n) [p, q, r] (p @ q @ r @ nl @ spaces n)" for p q r n
    using renders_append [OF renders_s [of p] renders_append [OF renders_s [of q]
      renders_append [OF renders_s [of r] renders_text [of "nl @ spaces n"]]]] spaces_no_percent by (simp add: nl_def)
  show ?thesis
    using assms(1) renders_append [OF assms(2) renders_s [of val]] renders_append [OF assms(2) 4] renders_append [OF assms(2) 3]
    by (auto simp: fmt_column_def c fmt_column_align_width_def cell_text_def next_off_def Let_def)
qed

lemma fmt_loop_renders:
  assumes "\<forall>(val, w, h) \<in> set cells. highlight_codes t h = Inr (codes h)" and "renders msg data out"
  shows "\<exists>msg' off' data'. fmt_loop wide t cells (msg, off, data) = Inr (msg', off', data') \<and>
    renders msg' data' (out @ cells_text wide codes off cells)"
  using assms
proof (induction cells arbitrary: msg off data out)
  case (Cons cell cells)
  obtain val w h where cell: "cell = (val, w, h)" by (cases cell)
  with Cons.prems obtain m d where "fmt_column wide t (msg, off, data) cell = Inr (m, next_off off w, d)"
    "renders m d (out @ cell_text wide off (codes h) val w)" using fmt_column_renders [of t h codes msg data out wide off val w] by auto
  with Cons.IH [of m d "out @ cell_text wide off (codes h) val w" "next_off off w"] Cons.prems(1) cell show ?case by simp
qed simp

text \<open>
  Formatting a row through a template of directives gives the row that is laid out directly: no
  text of a cell is ever read as a directive, each cell is padded to its column, and one that is too
  wide ends its line, so that the next starts below at the same place.
\<close>

lemma fmt_columns_direct:
  assumes "cells \<noteq> []" and "\<forall>(val, w, h) \<in> set cells. highlight_codes t h = Inr (codes h)"
    and "CHR ''%'' \<notin> set msg" and "CHR ''%'' \<notin> set end_text"
  shows "fmt_columns wide t cells msg end_text
    = Inr (msg @ cells_text wide codes (length msg) (butlast cells) @ last_text wide codes (last cells) @ end_text)"
proof -
  obtain val w h where l: "last cells = (val, w, h)" by (cases "last cells")
  have h: "highlight_codes t h = Inr (codes h)" using assms(1,2) l last_in_set [of cells] by force
  obtain b e where c: "codes h = (b, e)" by (cases "codes h")
  have "\<forall>(val, w, h) \<in> set (butlast cells). highlight_codes t h = Inr (codes h)"
    using assms(2) by (auto dest: in_set_butlastD)
  from fmt_loop_renders [OF this renders_text [OF assms(3)], of wide "length msg"] obtain m off d where
    loop: "fmt_loop wide t (butlast cells) (msg, length msg, []) = Inr (m, off, d)"
    and m: "renders m d (msg @ cells_text wide codes (length msg) (butlast cells))" by auto
  let ?v = "last_text wide codes (last cells)"
  have "renders (m @ ''%s'' @ end_text) (d @ [?v]) ((msg @ cells_text wide codes (length msg) (butlast cells)) @ ?v @ end_text)"
    using renders_append [OF m renders_append [OF renders_s renders_text [OF assms(4)]]] by simp
  from renders_end [OF this] show ?thesis
    using assms(1) loop h c by (auto simp: fmt_columns_def l last_text_def fmt_column_align_width_def split: if_splits)
qed

text \<open>The line being written, after a text.\<close>

definition last_line :: "string \<Rightarrow> string" where
  "last_line s = rev (takeWhile (\<lambda>c. c \<noteq> CHR 0x0A) (rev s))"

lemma last_line_append: "CHR 0x0A \<notin> set t \<Longrightarrow> last_line (s @ t) = last_line s @ t"
  unfolding last_line_def rev_append by (subst takeWhile_append2) auto

lemma last_line_nl: "CHR 0x0A \<notin> set t \<Longrightarrow> last_line (s @ nl @ t) = t"
  using last_line_append [of t "s @ nl"] by (simp add: last_line_def nl_def)

definition plain_cell :: "cell \<Rightarrow> bool" where
  "plain_cell cell \<longleftrightarrow> (case cell of (val, w, h) \<Rightarrow> CHR 0x0A \<notin> set val \<and> w \<noteq> 0 \<and> h = NoHilite)"

definition column_start :: "cell list \<Rightarrow> nat" where
  "column_start cells = (\<Sum>(val, w, h)\<leftarrow>cells. nat \<bar>w\<bar> + 1)"

lemma spaces_no_nl: "CHR 0x0A \<notin> set (spaces n)"
  by (simp add: spaces_def)

lemma cells_text_aligned:
  assumes "\<not> wide CHR '' ''" and "\<forall>cell \<in> set cells. plain_cell cell" and "exact_width wide (last_line msg) = off"
  shows "exact_width wide (last_line (msg @ cells_text wide (\<lambda>_. ([], [])) off cells)) = off + column_start cells"
  using assms(2,3)
proof (induction cells arbitrary: msg off)
  case (Cons cell cells)
  obtain val w h where c: "cell = (val, w, h)" by (cases cell)
  with Cons.prems(1) have val: "CHR 0x0A \<notin> set val" "w \<noteq> 0" by (auto simp: plain_cell_def)
  let ?t = "cell_text wide off ([], []) val w"
  have "exact_width wide (last_line (msg @ ?t)) = off + nat \<bar>w\<bar> + 1"
  proof (cases "exact_width wide val \<le> nat \<bar>w\<bar>")
    case True
    then have "CHR 0x0A \<notin> set ?t" "exact_width wide ?t = nat \<bar>w\<bar> + 1"
      using val assms(1) by (auto simp: cell_text_def Let_def spaces_no_nl exact_width_spaces exact_width_char_def)
    with Cons.prems(2) show ?thesis by (simp add: last_line_append)
  next
    case False
    then have "?t = val @ nl @ spaces (off + nat \<bar>w\<bar> + 1)" using val by (simp add: cell_text_def)
    then show ?thesis using last_line_nl [of "spaces (off + nat \<bar>w\<bar> + 1)" "msg @ val"] assms(1)
      by (simp add: spaces_no_nl exact_width_spaces)
  qed
  with Cons.IH [of "msg @ ?t" "off + nat \<bar>w\<bar> + 1"] Cons.prems(1) show ?case
    by (simp add: c next_off_def val column_start_def)
qed (simp add: column_start_def)

lemma butlast_append_Cons: "butlast (xs @ x # ys) = xs @ butlast (x # ys)"
  by (simp add: butlast_append)

text \<open>
  C15. The columns of a row are aligned.  A row without highlighting is printed, and whatever cells
  come before, whether they fit their columns or run over them onto lines of their own, each cell
  starts at the place of its column, with nothing but padding before its text.
\<close>

theorem row_aligned:
  assumes "\<not> wide CHR '' ''" and cells: "\<forall>cell \<in> set (pre @ (val, w, NoHilite) # post). plain_cell cell"
    and "CHR ''%'' \<notin> set (msg @ end_text)" and "exact_width wide (last_line msg) = length msg"
  shows "\<exists>a pad b. fmt_columns wide t (pre @ (val, w, NoHilite) # post) msg end_text = Inr (a @ pad @ val @ b) \<and>
    exact_width wide (last_line a) = length msg + column_start pre \<and> set pad \<subseteq> {CHR '' ''}"
proof -
  let ?c = "\<lambda>_. ([], [])" and ?cell = "(val, w, NoHilite)"
  let ?a = "msg @ cells_text wide ?c (length msg) pre"
  have a: "exact_width wide (last_line ?a) = length msg + column_start pre"
    by (rule cells_text_aligned) (use assms in auto)
  have codes: "\<forall>(val, w, h) \<in> set (pre @ ?cell # post). highlight_codes t h = Inr (?c h)"
  proof clarify
    fix v w h
    assume "(v, w, h) \<in> set (pre @ ?cell # post)"
    with cells have "plain_cell (v, w, h)" by blast
    then show "highlight_codes t h = Inr ([], [])" by (simp add: plain_cell_def highlight_codes_def)
  qed
  have app: "cells_text wide ?c off (xs @ ys) = cells_text wide ?c off xs @ cells_text wide ?c (foldl (\<lambda>k (v, w, h). next_off k w) off xs) ys"
    for off xs ys by (induction xs arbitrary: off) auto
  have sp: "set (spaces n) \<subseteq> {CHR '' ''}" for n by (auto simp: spaces_def)
  have "\<exists>pad b. cells_text wide ?c (length msg) (butlast (pre @ ?cell # post)) @ last_text wide ?c (last (pre @ ?cell # post)) @ end_text
      = cells_text wide ?c (length msg) pre @ pad @ val @ b \<and> set pad \<subseteq> {CHR '' ''}"
  proof (cases "post = []")
    case True
    let ?n = "nat \<bar>w\<bar> - exact_width wide val"
    have "\<exists>pad b. last_text wide ?c ?cell = pad @ val @ b \<and> set pad \<subseteq> {CHR '' ''}"
    proof (cases "w < 0 \<or> nat \<bar>w\<bar> \<le> exact_width wide val")
      case True
      then have "\<exists>b. last_text wide ?c ?cell = [] @ val @ b" by (auto simp: last_text_def fill_exact_width_def chop_str_def)
      then show ?thesis by (metis empty_subsetI list.set(1))
    next
      case False
      then have "last_text wide ?c ?cell = spaces ?n @ val @ []" by (simp add: last_text_def fill_exact_width_def chop_str_def spaces_0)
      with sp [of ?n] show ?thesis by metis
    qed
    with True show ?thesis by (auto simp: butlast_append) (metis append_assoc)
  next
    case False
    then have b: "butlast (?cell # post) = ?cell # butlast post" by simp
    let ?off = "foldl (\<lambda>k (v, w, h). next_off k w) (length msg) pre"
    have "\<exists>pad b. cell_text wide ?off ([], []) val w = pad @ val @ b \<and> set pad \<subseteq> {CHR '' ''}"
      using sp by (auto simp: cell_text_def Let_def intro: exI [of _ "[]"])
    then show ?thesis unfolding butlast_append_Cons b app by fastforce
  qed
  then obtain pad b where pb: "cells_text wide ?c (length msg) (butlast (pre @ ?cell # post)) @ last_text wide ?c (last (pre @ ?cell # post)) @ end_text
      = cells_text wide ?c (length msg) pre @ pad @ val @ b" "set pad \<subseteq> {CHR '' ''}" by blast
  have "fmt_columns wide t (pre @ ?cell # post) msg end_text = Inr (?a @ pad @ val @ b)"
    using assms(3) pb(1) by (subst fmt_columns_direct [OF _ codes]) auto
  with a pb(2) show ?thesis by blast
qed

lemma row_aligned_witness:
  "\<exists>a pad b. fmt_columns (\<lambda>c. False) plain_term [(''a long name'', -4, NoHilite), (''50%'', 5, NoHilite), (''x'', 2, NoHilite)] '' '' []
      = Inr (a @ pad @ ''50%'' @ b) \<and> exact_width (\<lambda>c. False) (last_line a) = 6 \<and> set pad \<subseteq> {CHR '' ''}"
  using row_aligned [of "\<lambda>c. False" "[(''a long name'', -4, NoHilite)]" "''50%''" 5 "[(''x'', 2, NoHilite)]" "'' ''" "[]" plain_term]
  by (simp add: plain_cell_def column_start_def last_line_def exact_width_char_def)

subsection \<open>From the rows to the lines\<close>

lemma dict_set_elem: "x \<in> set (dict_set k v d) \<Longrightarrow> x = (k, v) \<or> x \<in> set d"
  unfolding dict_set_def by (induction d) (auto split: if_splits)

lemma count_length_props:
  "dict_wf d \<Longrightarrow> dict_wf (count_length l d)"
  "fst ` set (count_length l d) = insert l (fst ` set d)"
  "\<forall>(l, n) \<in> set d. 0 < n \<Longrightarrow> \<forall>(l, n) \<in> set (count_length l d). 0 < n"
proof -
  show "dict_wf d \<Longrightarrow> dict_wf (count_length l d)" by (simp add: count_length_def)
  show "fst ` set (count_length l d) = insert l (fst ` set d)"
    unfolding count_length_def by (simp flip: dom_map_of_conv_image_fst)
  show "\<forall>(l, n) \<in> set d. 0 < n \<Longrightarrow> \<forall>(l, n) \<in> set (count_length l d). 0 < n"
    unfolding count_length_def by (auto dest!: dict_set_elem)
qed

definition good_stats :: "(nat, nat) dict list \<Rightarrow> bool" where
  "good_stats ds \<longleftrightarrow> (\<forall>d \<in> set ds. dict_wf d \<and> (\<forall>(l, n) \<in> set d. 0 < n))"

lemma count_row_run:
  "length row = length ds \<Longrightarrow> good_stats ds \<Longrightarrow> \<exists>es. count_row row ds = Inr es \<and> length es = length ds \<and> good_stats es \<and>
    (\<forall>i < length ds. fst ` set (es ! i) = insert (length (row ! i)) (fst ` set (ds ! i)))"
proof (induction row ds rule: list_induct2)
  case (Cons v row d ds)
  then obtain es where es: "count_row row ds = Inr es" "length es = length ds" "good_stats es"
    "\<forall>i < length ds. fst ` set (es ! i) = insert (length (row ! i)) (fst ` set (ds ! i))" by (auto simp: good_stats_def)
  moreover have "good_stats (count_length (length v) d # es)"
    using Cons.prems es(3) count_length_props(1,3) [of d "length v"] unfolding good_stats_def by simp
  moreover have "fst ` set ((count_length (length v) d # es) ! i) = insert (length ((v # row) ! i)) (fst ` set ((d # ds) ! i))"
    if "i < length (d # ds)" for i
    using that es(4) count_length_props(2) by (cases i) auto
  ultimately show ?case by simp
qed simp

lemma count_rows_run:
  "\<forall>row \<in> set rows. length row = length ds \<Longrightarrow> good_stats ds \<Longrightarrow> \<exists>es. count_rows rows ds = Inr es \<and> length es = length ds \<and> good_stats es \<and>
    (\<forall>i < length ds. fst ` set (es ! i) = (\<lambda>row. length (row ! i)) ` set rows \<union> fst ` set (ds ! i))"
proof (induction rows arbitrary: ds)
  case (Cons row rows)
  then obtain es where es: "count_row row ds = Inr es" "length es = length ds" "good_stats es"
    "\<forall>i < length ds. fst ` set (es ! i) = insert (length (row ! i)) (fst ` set (ds ! i))"
    using count_row_run [of row ds] by auto
  with Cons.IH [of es] Cons.prems obtain fs where "count_rows rows es = Inr fs" "length fs = length es" "good_stats fs"
    "\<forall>i < length es. fst ` set (fs ! i) = (\<lambda>row. length (row ! i)) ` set rows \<union> fst ` set (es ! i)" by auto
  with es show ?case by auto
qed simp

definition widest_item :: "string list list \<Rightarrow> nat \<Rightarrow> int" where
  "widest_item rows i = int (Max (insert 1 ((\<lambda>row. length (row ! i)) ` set rows)))"

lemma col_widths_fit:
  assumes "rows \<noteq> []" and rect: "\<forall>row \<in> set rows. length row = n" and "2 \<le> n"
    and room: "(\<Sum>i\<leftarrow>[0..<n]. widest_item rows i) + (int n - 1) + int (exact_width wide ''  '') < fitted_width t None"
  shows "\<exists>ws. col_widths wide t rows = Inr (map uminus ws) \<and> length ws = n \<and> (\<forall>row \<in> set rows. \<forall>i < n. int (length (row ! i)) \<le> ws ! i)"
proof -
  obtain row rest where rows: "rows = row # rest" using assms(1) by (cases rows) auto
  have n: "length row = n" using rect rows by simp
  obtain es where es: "count_rows rows (replicate n []) = Inr es" "length es = n" "good_stats es"
    "\<forall>i < n. fst ` set (es ! i) = (\<lambda>row. length (row ! i)) ` set rows"
    using count_rows_run [of rows "replicate n []"] rect by (auto simp: good_stats_def)
  have "map widest es = map (widest_item rows) [0..<n]"
    using es(2,4) by (intro nth_equalityI) (simp_all add: widest_def widest_item_def)
  then have "(\<Sum>d\<leftarrow>es. widest d) = (\<Sum>i\<leftarrow>[0..<n]. widest_item rows i)" by simp
  then obtain ws where ws: "calc_columns wide t es None 0 None ''  '' = Inr ws" "length ws = n" "\<forall>i < n. \<forall>(l, k) \<in> set (es ! i). int l \<le> ws ! i"
    using columns_fit [of es 0 wide "''  ''" t None] es(2,3) assms(3) room by (auto simp: good_stats_def)
  have "int (length (row ! i)) \<le> ws ! i" if "row \<in> set rows" "i < n" for row i
  proof -
    have "length (row ! i) \<in> fst ` set (es ! i)" using es(4) that by auto
    with ws(3) that(2) show ?thesis by force
  qed
  with ws(1,2) es(1) n show ?thesis by (auto simp: col_widths_def rows)
qed

text \<open>A cell that is aligned to the left in a column that is wide enough.\<close>

definition left_cell :: "string \<Rightarrow> int \<Rightarrow> string" where
  "left_cell v w = v @ spaces (nat w - length v) @ (if w = 0 then [] else '' '')"

lemma cells_text_fit:
  assumes "length row = length ws" and "\<forall>i < length row. int (length (row ! i)) \<le> ws ! i" and "\<forall>v \<in> set row. \<forall>c \<in> set v. \<not> wide c"
  shows "cells_text wide (\<lambda>_. ([], [])) off (plain_cells row (map uminus ws)) = concat (map2 left_cell row ws)"
  using assms
proof (induction row ws arbitrary: off rule: list_induct2)
  case (Cons v row w ws)
  have "int (length v) \<le> w" using Cons.prems(1) by force
  moreover have "exact_width wide v = length v" using Cons.prems(2) by (intro exact_width_narrow) auto
  moreover have "\<forall>i < length row. int (length (row ! i)) \<le> ws ! i" using Cons.prems(1) by force
  ultimately show ?case using Cons.IH Cons.prems(2)
    by (auto simp: plain_cells_def cell_text_def left_cell_def Let_def spaces_0)
qed (simp add: plain_cells_def)



subsection \<open>Columns for a list\<close>

lemma fits_loop_run:
  assumes "fits_loop msgs lens col left = Some (lens', left')" and "0 < length lens" and "col < length lens" and "0 \<le> left"
  shows "length lens' = length lens" and "int (sum_list lens') + left' = int (sum_list lens) + left" and "0 \<le> left'"
    and "\<forall>i < length lens. lens ! i \<le> lens' ! i" and "\<forall>i < length msgs. length (msgs ! i) \<le> lens' ! ((col + i) mod length lens)"
proof -
  have "length lens' = length lens \<and> int (sum_list lens') + left' = int (sum_list lens) + left \<and> 0 \<le> left' \<and>
    (\<forall>i < length lens. lens ! i \<le> lens' ! i) \<and> (\<forall>i < length msgs. length (msgs ! i) \<le> lens' ! ((col + i) mod length lens))"
    using assms
  proof (induction msgs arbitrary: lens col left)
    case (Cons m msgs)
    let ?next = "(col + 1) mod length lens"
    let ?lens = "if length m > lens ! col then lens[col := length m] else lens"
    let ?left = "if length m > lens ! col then left - (int (length m) - int (lens ! col)) else left"
    have step: "fits_loop msgs ?lens ?next ?left = Some (lens', left')" "0 \<le> ?left" "?next < length ?lens"
      using Cons.prems by (auto simp: Let_def split: if_splits)
    have sum: "int (sum_list ?lens) + ?left = int (sum_list lens) + left"
      using Cons.prems(3) elem_le_sum_list [of col lens] by (auto simp: sum_list_update)
    have ne: "0 < length ?lens" using Cons.prems(2) by simp
    have ih: "length lens' = length ?lens" "int (sum_list lens') + left' = int (sum_list ?lens) + ?left" "0 \<le> left'"
      "\<forall>i < length ?lens. ?lens ! i \<le> lens' ! i" "\<forall>i < length msgs. length (msgs ! i) \<le> lens' ! ((?next + i) mod length ?lens)"
      using Cons.IH [OF step(1) ne step(3,2)] by blast+
    have len: "length ?lens = length lens" by simp
    have grow: "lens ! i \<le> lens' ! i" if "i < length lens" for i
    proof -
      have "lens ! i \<le> ?lens ! i" by (cases "i = col") (use that in auto)
      moreover have "?lens ! i \<le> lens' ! i" using ih(4) that len by presburger
      ultimately show ?thesis by (rule order_trans)
    qed
    have "?lens ! col \<le> lens' ! col" using ih(4) Cons.prems(3) len by presburger
    then have "length m \<le> lens' ! col" using Cons.prems(3) by (simp split: if_splits)
    moreover have "(?next + i) mod length lens = (col + Suc i) mod length lens" for i by (simp add: mod_add_left_eq)
    ultimately have "length ((m # msgs) ! i) \<le> lens' ! ((col + i) mod length lens)" if "i < length (m # msgs)" for i
      using ih(5) that Cons.prems(3) len by (cases i) auto
    with ih(1-3) sum grow len show ?case by auto
  qed simp
  then show "length lens' = length lens" and "int (sum_list lens') + left' = int (sum_list lens) + left" and "0 \<le> left'"
    and "\<forall>i < length lens. lens ! i \<le> lens' ! i" and "\<forall>i < length msgs. length (msgs ! i) \<le> lens' ! ((col + i) mod length lens)" by blast+
qed

lemma int_sum_list: "sum_list (map int ws) = int (sum_list ws)"
  by (induction ws) simp_all

lemma sum_map_shift: "sum_list (map (\<lambda>w. w + k) ws) = sum_list ws + int (length ws) * (k :: int)"
  by (induction ws) (simp_all add: algebra_simps)



end
