(* ===== verification/Progress_Properties.thy ===== *)
theory Progress_Properties
  imports Progress Columns_Properties
begin

text \<open>
  The question to the user ends with an answer; a line of progress fits the terminal; and the meter of
  downloads implements an abstract meter that only knows what is downloaded and what is finished.
\<close>

subsection \<open>The answer of the user\<close>

definition decisive :: "answers \<Rightarrow> bool \<Rightarrow> reply \<Rightarrow> bool" where
  "decisive a defaultyes r \<longleftrightarrow> accepted_choice a (user_choice a defaultyes r) \<noteq> None"

definition says_yes :: "answers \<Rightarrow> bool \<Rightarrow> reply \<Rightarrow> bool" where
  "says_yes a defaultyes r \<longleftrightarrow> (\<exists>c \<in> set (yui a). accepted_choice a (user_choice a defaultyes r) = Some c)"


definition english :: answers where
  "english = \<lparr>an_y = ''y'', an_yes = ''yes'', an_n = ''n'', an_no = ''no''\<rparr>"


subsection \<open>The lines of a transaction\<close>

definition ascii_narrow :: "(char \<Rightarrow> bool) \<Rightarrow> bool" where
  "ascii_narrow wide \<longleftrightarrow> (\<forall>c. of_char c < (128 :: nat) \<longrightarrow> \<not> wide c)"

lemma narrow_text: "ascii_narrow wide \<Longrightarrow> \<forall>c \<in> set s. of_char c < (128 :: nat) \<Longrightarrow> exact_width wide s = length s"
  by (rule exact_width_narrow) (simp add: ascii_narrow_def)

lemma narrow_space: "ascii_narrow wide \<Longrightarrow> \<not> wide CHR '' ''"
  by (simp add: ascii_narrow_def)

lemma filled_width: "\<not> wide CHR '' '' \<Longrightarrow> exact_width wide (fill_exact_width wide s n (Some n) True [] []) = n"
  using fitting_width [of wide n s] by (simp add: fill_exact_width_def chop_str_eq exact_width_spaces)

definition plain_text :: "string \<Rightarrow> bool" where
  "plain_text s \<longleftrightarrow> (\<forall>c \<in> set s. of_char c < (128 :: nat) \<and> c \<noteq> CHR ''%'')"

lemma plain_text_simps [simp]:
  "plain_text []" "plain_text (c # s) \<longleftrightarrow> of_char c < (128 :: nat) \<and> c \<noteq> CHR ''%'' \<and> plain_text s"
  "plain_text (s @ t) \<longleftrightarrow> plain_text s \<and> plain_text t" "plain_text (replicate n c) \<longleftrightarrow> n = 0 \<or> of_char c < (128 :: nat) \<and> c \<noteq> CHR ''%''"
  by (auto simp: plain_text_def)

lemma plain_text_take: "plain_text s \<Longrightarrow> plain_text (take n s)"
  by (auto simp: plain_text_def dest: in_set_takeD)

lemma plain_text_spaces [simp]: "plain_text (spaces n)"
  by (simp add: spaces_def)

lemma plain_text_nat_str [simp]: "plain_text (nat_str n)"
  unfolding plain_text_def
proof
  fix c
  assume "c \<in> set (nat_str n)"
  then obtain d where d: "d < (10 :: nat)" "c = char_of (48 + d)" using nat_str_digits by blast
  then have "of_char c = 48 + d" by simp
  with d(1) show "of_char c < (128 :: nat) \<and> c \<noteq> CHR ''%''" by auto
qed

lemma plain_width: "ascii_narrow wide \<Longrightarrow> plain_text s \<Longrightarrow> exact_width wide s = length s"
  by (rule narrow_text) (auto simp: plain_text_def)

lemma progress_bar_text: "plain_text (progress_bar m k)" "length (progress_bar m k) = m + 2"
  by (auto simp: progress_bar_def pad_cut_def pad_left_aligned_def plain_text_take spaces_def)

lemma percent_two:
  "CHR ''%'' \<notin> set pre \<Longrightarrow> plain_text post \<Longrightarrow>
    percent_s (pre @ ''  %s: %s'' @ post) [a, b] = Inr (pre @ ''  '' @ a @ '': '' @ b @ post)"
proof -
  assume "CHR ''%'' \<notin> set pre" "plain_text post"
  then have "CHR ''%'' \<notin> set (pre @ ''  '')" "CHR ''%'' \<notin> set post" by (auto simp: plain_text_def)
  with renders_append [OF renders_text renders_append [OF renders_s [of a] renders_append [OF renders_text [of "'': ''"]
      renders_append [OF renders_s [of b] renders_text [of post]]]], of "pre @ ''  ''"]
  show ?thesis by (intro renders_end) simp
qed

lemma makefmt_fits:
  assumes "ascii_narrow (pe_wide e)" and "overhead (length (nat_str ts_total)) w1 \<le> pe_width e"
  shows "\<exists>post wid2. makefmt e percent ts_done ts_total n w1 = ((if pe_tty e then [CHR 0x0D] else []) @ ''  %s: %s'' @ post, w1, wid2) \<and>
    plain_text post \<and> 2 + w1 + 2 + nat wid2 + length post < pe_width e"
proof -
  let ?l = "length (nat_str ts_total)"
  let ?cut = "\<lambda>k. pad_right_aligned ?l (take ?l (nat_str k))"
  let ?done = "?cut ts_done @ ''/'' @ ?cut ts_total"
  let ?over = "overhead ?l w1"
  define pnl where "pnl = (if exact_width (pe_wide e) n > (pe_width e - ?over) div 2 then (pe_width e - ?over) div 2 else exact_width (pe_wide e) n)"
  define marks where "marks = int (pe_width e) - int (?over + pnl)"
  let ?bar = "\<lambda>k. if marks > 5 then progress_bar (nat marks) k else []"
  have d: "plain_text ?done" "length ?done = 2 * ?l + 1"
    by (simp_all add: pad_right_aligned_def plain_text_take spaces_def min_def)
  have "pnl \<le> pe_width e - ?over" by (auto simp: pnl_def)
  with assms(2) have m: "0 \<le> marks" "int (pe_width e) = int ?over + int pnl + marks" by (auto simp: marks_def)
  have bar: "plain_text (?bar k)" "int (length (?bar k)) \<le> marks + 2" for k
    using m(1) by (simp_all add: progress_bar_text)
  have full: "2 + w1 + 2 + nat (int pnl + marks + 1) + length (''   '' @ ?done) < pe_width e"
    using m d(2) by (simp add: overhead_def)
  have part: "2 + w1 + 2 + nat (int pnl) + length ('' '' @ ?bar k @ '' '' @ ?done) < pe_width e" for k
    using m d(2) bar(2) [of k] by (simp add: overhead_def)
  have eq: "makefmt e percent ts_done ts_total n w1 =
     (if pe_tty e \<and> percent = 100 then ([CHR 0x0D] @ ''  %s: %s   '' @ ?done, w1, int pnl + marks + 1)
      else if pe_tty e then ([CHR 0x0D] @ ''  %s: %s '' @ ?bar (pe_marks e (nat marks) percent) @ '' '' @ ?done, w1, int pnl)
      else if percent = 100 then (''  %s: %s   '' @ ?done, w1, int pnl + marks + 1)
      else (''  %s: %s '' @ ?bar (nat marks) @ '' '' @ ?done, w1, int pnl))"
    unfolding makefmt_def Let_def pnl_def marks_def by (rule refl)
  consider "percent = 100" | "percent \<noteq> 100" by blast
  then show ?thesis
  proof cases
    case 1
    show ?thesis unfolding eq using full d(1)
      by (intro exI [of _ "''   '' @ ?done"] exI [of _ "int pnl + marks + 1"]) (simp add: 1)
  next
    case 2
    show ?thesis unfolding eq using part d(1) bar(1)
      by (intro exI [of _ "'' '' @ ?bar (if pe_tty e then pe_marks e (nat marks) percent else nat marks) @ '' '' @ ?done"] exI [of _ "int pnl"])
        (simp add: 2)
  qed
qed

text \<open>
  C17. Progress never wraps.  On a terminal that is wide enough for the counters and the name of the action,
  a call of \<open>progress\<close> does not fail and writes nothing, or one line that is shorter than the
  terminal is wide, whatever the package is called, and then at most the end of the line.
\<close>

theorem progress_fits:
  assumes "ascii_narrow (pe_wide e)"
    and "overhead (length (nat_str ts_total)) (max_action_width (pe_wide e)) \<le> pe_width e"
    and run: "display_progress e package action ti_done ti_total ts_done ts_total s = (r, s')"
  shows "r = Inr () \<and> (\<exists>line rest. ds_written s' = ds_written s @ rest \<and> rest \<in> {[], [line], [line, '' '' @ nl]} \<and>
    exact_width (pe_wide e) (if pe_tty e then tl line else line) < pe_width e)"
proof (cases "map_of ACTIONS action")
  case None
  with run assms(2) show ?thesis by (auto simp: display_progress_def overhead_def intro: exI [of _ "[]"])
next
  case (Some act)
  let ?w1 = "max_action_width (pe_wide e)" and ?p = "if ti_total = 0 then 0 else ti_done * 100 div ti_total"
  obtain post wid2 where fmt: "makefmt e ?p ts_done ts_total package ?w1 = ((if pe_tty e then [CHR 0x0D] else []) @ ''  %s: %s'' @ post, ?w1, wid2)"
    and post: "plain_text post" "2 + ?w1 + 2 + nat wid2 + length post < pe_width e"
    using makefmt_fits [OF assms(1,2)] by metis
  let ?a = "fill_exact_width (pe_wide e) act ?w1 (Some ?w1) True [] []"
  let ?b = "fill_exact_width (pe_wide e) package (nat wid2) (Some (nat wid2)) True [] []"
  let ?line = "''  '' @ ?a @ '': '' @ ?b @ post"
  let ?msg = "(if pe_tty e then [CHR 0x0D] else []) @ ?line"
  have formatted: "percent_s ((if pe_tty e then [CHR 0x0D] else []) @ ''  %s: %s'' @ post) [?a, ?b] = Inr ?msg"
    using post(1) by (intro percent_two) simp_all
  have sp: "\<not> pe_wide e CHR '' ''" "\<not> pe_wide e CHR '':''" using assms(1) by (simp_all add: ascii_narrow_def)
  have "exact_width (pe_wide e) ?line < pe_width e"
    using post plain_width [OF assms(1) post(1)] sp by (simp add: filled_width exact_width_char_def)
  then have "exact_width (pe_wide e) (if pe_tty e then tl ?msg else ?msg) < pe_width e" by simp
  moreover have "r = Inr () \<and> (\<exists>rest. ds_written s' = ds_written s @ rest \<and> rest \<in> {[], [?msg], [?msg, '' '' @ nl]})"
    using run formatted by (auto simp: display_progress_def Some out_progress_def fmt bind_p_apply then_p_apply split: if_splits)
  ultimately show ?thesis by blast
qed

definition plain_env :: progress_env where
  "plain_env = \<lparr>pe_wide = (\<lambda>c. False), pe_tty = True, pe_width = 80, pe_marks = (\<lambda>m p. m * p div 100)\<rparr>"

lemma progress_fits_witness:
  "\<exists>line rest s'. display_progress plain_env ''a-package-with-quite-a-long-name-1.0-1.noarch'' (Pkg INSTALL) 50 100 3 12
       \<lparr>ds_output = True, ds_lastmsg = [], ds_lastpackage = [], ds_written = []\<rparr> = (Inr (), s') \<and>
     ds_written s' = rest \<and> rest \<in> {[], [line], [line, '' '' @ nl]} \<and> exact_width (\<lambda>c. False) (tl line) < 80"
proof -
  have w: "max_action_width (\<lambda>c. False) = 17" by code_simp
  have n: "length (nat_str 12) = 2" by code_simp
  let ?s = "\<lparr>ds_output = True, ds_lastmsg = [], ds_lastpackage = [], ds_written = []\<rparr>"
  obtain r s' where run: "display_progress plain_env ''a-package-with-quite-a-long-name-1.0-1.noarch'' (Pkg INSTALL) 50 100 3 12 ?s = (r, s')"
    by (metis surj_pair)
  from progress_fits [OF _ _ run] w n show ?thesis
    by (auto simp: plain_env_def ascii_narrow_def overhead_def run [unfolded plain_env_def])
qed

subsection \<open>The meter of downloads\<close>

datatype meter_event =
    MProgress rat string int int
  | MEnd rat string int dl_status string

fun meter_handle :: "meter_env \<Rightarrow> meter_event \<Rightarrow> (meter, unit) prog" where
  "meter_handle e (MProgress now text sz dl) = meter_progress e now text sz dl"
| "meter_handle e (MEnd now text sz status err) = meter_end e now text sz status err"

text \<open>
  The abstract meter: how much of each running download is there, how much is finished and how many files.
  A failed download counts as finished, a package that came from another mirror or a rebuilt delta does not count.
\<close>

record abstract_meter =
  am_done :: "string \<rightharpoonup> int"
  am_finished :: int
  am_files :: nat

fun meter_spec :: "meter_event \<Rightarrow> abstract_meter \<Rightarrow> abstract_meter" where
  "meter_spec (MProgress now text sz dl) a = a\<lparr>am_done := (am_done a)(text \<mapsto> dl)\<rparr>"
| "meter_spec (MEnd now text sz status err) a =
     (if status \<noteq> DL_MIRROR \<and> status \<noteq> DL_DRPM \<and> (am_done a text \<noteq> None \<or> status = DL_EXISTS)
      then a\<lparr>am_done := (am_done a)(text := None), am_finished := am_finished a + sz, am_files := am_files a + 1\<rparr>
      else a)"

definition sum_done :: "(string, rat \<times> int) dict \<Rightarrow> int" where
  "sum_done d = (\<Sum>(t, s, n)\<leftarrow>d. n)"

definition meter_abs :: "meter \<Rightarrow> abstract_meter \<Rightarrow> bool" where
  "meter_abs m a \<longleftrightarrow> dict_wf (mt_state m) \<and> mt_active m = dict_keys (mt_state m) \<and>
     am_done a = map_option snd \<circ> map_of (mt_state m) \<and>
     mt_done_size m = sum_done (mt_state m) + am_finished a \<and> mt_done_files m = am_files a"

lemma sum_done_set:
  "dict_wf d \<Longrightarrow> sum_done (dict_set k (t, n) d) = sum_done d + n - (case map_of d k of None \<Rightarrow> 0 | Some (u, old) \<Rightarrow> old)"
  unfolding sum_done_def dict_set_def dict_wf_def by (induction d) (auto split: option.splits)

lemma sum_done_del: "dict_wf d \<Longrightarrow> map_of d k = Some (t, n) \<Longrightarrow> sum_done (dict_del k d) = sum_done d - n"
proof (induction d)
  case (Cons x d)
  show ?case
  proof (cases "fst x = k")
    case True
    with Cons.prems have "dict_del k d = d"
      by (auto simp: dict_del_def dict_wf_def AList.delete_eq filter_id_conv rev_image_eqI)
    with True Cons.prems show ?thesis by (auto simp: sum_done_def dict_del_def split: prod.splits)
  next
    case False
    with Cons show ?thesis by (auto simp: sum_done_def dict_del_def dict_wf_def split: prod.splits)
  qed
qed simp

lemma update_rate_fields:
  "mt_state (update_rate e now m) = mt_state m" "mt_active (update_rate e now m) = mt_active m"
  "mt_done_size (update_rate e now m) = mt_done_size m" "mt_done_files (update_rate e now m) = mt_done_files m"
  by (simp_all add: update_rate_def Let_def)

lemma meter_update_run:
  "mt_active m \<noteq> [] \<Longrightarrow> \<exists>m'. meter_update e now m = (Inr (), m') \<and> mt_state m' = mt_state m \<and> mt_active m' = mt_active m \<and>
     mt_done_size m' = mt_done_size m \<and> mt_done_files m' = mt_done_files m"
  by (auto simp: meter_update_def meter_message_def bind_p_apply then_p_apply update_rate_fields split: prod.split)

lemma meter_abs_same:
  "meter_abs m a \<Longrightarrow> mt_state m' = mt_state m \<and> mt_active m' = mt_active m \<and> mt_done_size m' = mt_done_size m \<and> mt_done_files m' = mt_done_files m \<Longrightarrow>
    meter_abs m' a"
  by (simp add: meter_abs_def)

lemma meter_progress_refines:
  assumes "meter_abs m a"
  shows "\<exists>m'. meter_progress e now text sz dl m = (Inr (), m') \<and> meter_abs m' (a\<lparr>am_done := (am_done a)(text \<mapsto> dl)\<rparr>)"
proof -
  define m1 where "m1 = (if dict_in text (mt_state m) then m
    else m\<lparr>mt_state := dict_set text (now, 0) (mt_state m), mt_active := mt_active m @ [text]\<rparr>)"
  have keys: "dict_in text d \<longleftrightarrow> text \<in> set (dict_keys d)" for d :: "(string, rat \<times> int) dict" by (auto simp: dict_in_def set_dict_keys dom_def)
  have 1: "dict_wf (mt_state m1)" "mt_active m1 = dict_keys (mt_state m1)" "map_of (mt_state m1) text \<noteq> None"
    "\<And>x. x \<noteq> text \<Longrightarrow> map_of (mt_state m1) x = map_of (mt_state m) x"
    "mt_done_size m1 = sum_done (mt_state m1) + am_finished a" "mt_done_files m1 = am_files a"
    using assms sum_done_set [of "mt_state m" "text" now 0]
    by (auto simp: m1_def meter_abs_def keys dict_keys_set set_dict_keys split: option.splits)
  obtain start old where old: "map_of (mt_state m1) text = Some (start, old)" using 1(3) by auto
  let ?m2 = "m1\<lparr>mt_state := dict_set text (start, dl) (mt_state m1), mt_done_size := mt_done_size m1 + (dl - old)\<rparr>"
  have "text \<in> set (dict_keys (mt_state m1))" using old by (auto simp: set_dict_keys)
  then have 2: "meter_abs ?m2 (a\<lparr>am_done := (am_done a)(text \<mapsto> dl)\<rparr>)" "mt_active ?m2 \<noteq> []"
    using 1 old assms sum_done_set [OF 1(1), of "text" start dl] by (auto simp: meter_abs_def dict_keys_set)
  have got: "dict_get (mt_state m1) text = Inr (start, old)" using old by simp
  have run: "meter_progress e now text sz dl m =
     (if now - mt_last_time ?m2 > me_update e
      then meter_update e now (if sz > mt_total_size ?m2 then ?m2\<lparr>mt_total_size := sz\<rparr> else ?m2) else (Inr (), ?m2))"
    by (cases "now - mt_last_time m1 > me_update e")
      (simp_all add: meter_progress_def then_p_apply bind_p_apply m1_def [symmetric] got split del: if_split)
  let ?m3 = "if sz > mt_total_size ?m2 then ?m2\<lparr>mt_total_size := sz\<rparr> else ?m2"
  have 3: "mt_state ?m3 = mt_state ?m2 \<and> mt_active ?m3 = mt_active ?m2 \<and> mt_done_size ?m3 = mt_done_size ?m2 \<and> mt_done_files ?m3 = mt_done_files ?m2"
    by simp
  obtain m4 where 4: "meter_update e now ?m3 = (Inr (), m4)" "mt_state m4 = mt_state ?m3 \<and> mt_active m4 = mt_active ?m3 \<and>
      mt_done_size m4 = mt_done_size ?m3 \<and> mt_done_files m4 = mt_done_files ?m3"
    using meter_update_run [of ?m3 e now] 2(2) 3 by metis
  have "meter_abs m4 (a\<lparr>am_done := (am_done a)(text \<mapsto> dl)\<rparr>)"
    by (rule meter_abs_same [OF 2(1)]) (use 3 4(2) in argo)
  with 2(1) 4(1) show ?thesis unfolding run by (cases "now - mt_last_time ?m2 > me_update e") simp_all
qed

lemma meter_count_end_refines:
  assumes "meter_abs m a"
  shows "\<exists>m' st. meter_count_end now text sz status m = (Inr st, m') \<and> meter_abs m' (meter_spec (MEnd now text sz status err) a)"
proof (cases "map_of (mt_state m) text")
  case None
  then have "(am_done a)(text := None) = am_done a" "am_done a text = None" using assms by (auto simp: meter_abs_def fun_eq_iff)
  with None assms show ?thesis
    by (cases status) (auto simp: meter_count_end_def bind_p_apply then_p_apply meter_abs_def)
next
  case (Some st)
  obtain start dl where st: "st = (start, dl)" by (cases st)
  have wf: "dict_wf (mt_state m)" and act: "mt_active m = dict_keys (mt_state m)" using assms by (simp_all add: meter_abs_def)
  have mem: "text \<in> set (mt_active m)" using Some act by (auto simp: set_dict_keys)
  have keys: "dict_keys (dict_del text (mt_state m)) = remove1 text (mt_active m)"
    using wf by (simp add: act dict_keys_def dict_del_def dict_wf_def distinct_remove1_removeAll delete_keys)
  have d: "am_done a text = Some dl" using assms Some st by (simp add: meter_abs_def)
  let ?m = "m\<lparr>mt_state := dict_del text (mt_state m), mt_active := remove1 text (mt_active m), mt_done_files := mt_done_files m + 1,
     mt_done_size := mt_done_size m + (sz - dl)\<rparr>"
  have "meter_abs ?m (a\<lparr>am_done := (am_done a)(text := None), am_finished := am_finished a + sz, am_files := am_files a + 1\<rparr>)"
    using assms wf keys sum_done_del [OF wf, of "text" start dl] Some st by (auto simp: meter_abs_def)
  moreover have "meter_count_end now text sz status m = (if status = DL_MIRROR then (Inr (now, 0), m)
      else if status = DL_DRPM then (Inr (now, 0), m\<lparr>mt_done_drpm := mt_done_drpm m + 1\<rparr>) else (Inr (start, dl), ?m))"
    using Some st mem by (simp add: meter_count_end_def bind_p_apply then_p_apply)
  moreover have "meter_abs (m\<lparr>mt_done_drpm := mt_done_drpm m + 1\<rparr>) a" using assms by (simp add: meter_abs_def)
  ultimately show ?thesis using assms d by auto
qed

lemma meter_end_refines:
  assumes "meter_abs m a"
  shows "\<exists>m'. meter_end e now text sz status err m = (Inr (), m') \<and> meter_abs m' (meter_spec (MEnd now text sz status err) a)"
proof -
  obtain m1 start dl where 1: "meter_count_end now text sz status m = (Inr (start, dl), m1)" "meter_abs m1 (meter_spec (MEnd now text sz status err) a)"
    using meter_count_end_refines [OF assms] by (metis surj_pair)
  obtain msg where msg: "end_message e now text status err start dl m1 = Inr msg"
    by (cases status) (simp_all add: end_message_def status_str_def Let_def)
  let ?m2 = "m1\<lparr>mt_out := mt_out m1 @ [msg]\<rparr>"
  have 2: "meter_abs ?m2 (meter_spec (MEnd now text sz status err) a)" by (rule meter_abs_same [OF 1(2)]) simp
  have run: "meter_end e now text sz status err m = (if mt_active m1 \<noteq> [] then meter_update e now ?m2 else (Inr (), ?m2))"
    using 1(1) msg by (simp add: meter_end_def meter_message_def bind_p_apply then_p_apply)
  show ?thesis
  proof (cases "mt_active m1 = []")
    case True
    with run 2 show ?thesis by simp
  next
    case False
    then obtain m3 where "meter_update e now ?m2 = (Inr (), m3)" "mt_state m3 = mt_state ?m2 \<and> mt_active m3 = mt_active ?m2 \<and>
        mt_done_size m3 = mt_done_size ?m2 \<and> mt_done_files m3 = mt_done_files ?m2" using meter_update_run [of ?m2 e now] by auto
    with run False meter_abs_same [OF 2] show ?thesis by auto
  qed
qed

text \<open>
  C13. The meter of downloads implements the abstract meter.  Started anew, whatever progress and ends of
  downloads it is told of, in any order and at any times, it never fails; it keeps the downloads that run, with what
  is done of each, and the size it calls done is what is done of these and the sizes of the files that
  are finished, each counted once.
\<close>

theorem meter_refines:
  assumes "meter_start n sz drpms m0 = (Inr (), m1)"
  shows "\<exists>m. for_p (meter_handle e) evs m1 = (Inr (), m) \<and>
    (let a = fold meter_spec evs \<lparr>am_done = Map.empty, am_finished = 0, am_files = 0\<rparr> in
      mt_active m = dict_keys (mt_state m) \<and> map_option snd \<circ> map_of (mt_state m) = am_done a \<and>
      mt_done_size m = (\<Sum>(t, s, k)\<leftarrow>mt_state m. k) + am_finished a \<and> mt_done_files m = am_files a)"
proof -
  have steps: "\<exists>m'. for_p (meter_handle e) evs m = (Inr (), m') \<and> meter_abs m' (fold meter_spec evs a)" if "meter_abs m a" for m a
    using that
  proof (induction evs arbitrary: m a)
    case (Cons ev evs)
    have "\<exists>m1. meter_handle e ev m = (Inr (), m1) \<and> meter_abs m1 (meter_spec ev a)"
    proof (cases ev)
      case (MProgress now name sz dl)
      show ?thesis unfolding MProgress meter_handle.simps meter_spec.simps by (rule meter_progress_refines [OF Cons.prems])
    next
      case (MEnd now name sz status err)
      show ?thesis unfolding MEnd meter_handle.simps by (rule meter_end_refines [OF Cons.prems])
    qed
    then obtain m1 where "meter_handle e ev m = (Inr (), m1)" "meter_abs m1 (meter_spec ev a)" by blast
    with Cons.IH [of m1 "meter_spec ev a"] show ?case by (simp add: then_p_apply)
  qed simp
  have "meter_abs m1 \<lparr>am_done = Map.empty, am_finished = 0, am_files = 0\<rparr>"
    using assms by (auto simp: meter_start_def meter_abs_def dict_keys_def sum_done_def fun_eq_iff)
  from steps [OF this] show ?thesis by (auto simp: Let_def meter_abs_def sum_done_def)
qed

definition slow_meter :: meter_env where
  "slow_meter = \<lparr>me_tty = True, me_width = 80, me_update = 3 / 10, me_tick = 1, me_average = 5\<rparr>"

lemma meter_refines_witness:
  "\<exists>m1 m. meter_start 2 300 0 \<lparr>mt_unknown = 0, mt_total_drpm = 0, mt_done_drpm = 0, mt_done_files = 0, mt_done_size = 0, mt_active = [],
      mt_state = [], mt_last_time = 0, mt_last_size = 0, mt_rate = None, mt_total_files = 0, mt_total_size = 0, mt_out = []\<rparr> = (Inr (), m1) \<and>
    for_p (meter_handle slow_meter) [MProgress 1 ''a'' 100 40, MProgress 2 ''b'' 200 10, MEnd 3 ''a'' 100 DL_OK []] m1 = (Inr (), m) \<and>
    mt_active m = dict_keys (mt_state m) \<and> mt_done_size m = (\<Sum>(t, s, k)\<leftarrow>mt_state m. k) + 100 \<and> mt_done_files m = 1"
proof -
  let ?m0 = "\<lparr>mt_unknown = 0, mt_total_drpm = 0, mt_done_drpm = 0, mt_done_files = 0, mt_done_size = 0, mt_active = [],
      mt_state = [], mt_last_time = 0, mt_last_size = 0, mt_rate = None, mt_total_files = 0, mt_total_size = 0, mt_out = []\<rparr> :: meter"
  obtain m1 where "meter_start 2 300 0 ?m0 = (Inr (), m1)" by (simp add: meter_start_def)
  with meter_refines [OF this, of slow_meter "[MProgress 1 ''a'' 100 40, MProgress 2 ''b'' 200 10, MEnd 3 ''a'' 100 DL_OK []]"]
  show ?thesis by (auto simp: Let_def)
qed

end
