(* ===== verification/Repo_Dict.thy ===== *)
theory Repo_Dict
  imports Glob Util_Trans "HOL-Library.Product_Lexorder"
begin

text \<open>
  dnf/repodict.py: the dictionary of the repositories.  A repository object is shared by reference:
  it is stored at its id, and enabling it is an update at that id.  Its settings live in libdnf; the
  record keeps those the dictionary reads.
\<close>

datatype conf_value = VText string | VList "conf_value list" | VInt int | VBool bool | VNone

record repo =
  rp_id :: string
  rp_priority :: int
  rp_cost :: int
  rp_enabled :: bool
  rp_verify :: "string option"
  rp_baseurl :: "conf_value list"

type_synonym repo_dict = "(string, repo) dict"

text \<open>\<open>rp_verify\<close> is the text of the RuntimeError that libdnf's \<open>verify\<close> raises on the repository, if it does.\<close>

definition rd_add :: "repo \<Rightarrow> (repo_dict, unit) prog" where
  "rd_add r =
     bind_p (gets_p (\<lambda>d. dict_in (rp_id r) d)) (\<lambda>present.
       if present
       then raise_p (ConfigError (''Repository '' @ rp_id r @ '' is listed more than once in the configuration''))
       else (case rp_verify r of
               Some e \<Rightarrow> raise_p (ConfigError e)
             | None \<Rightarrow> modify_p (dict_set (rp_id r) r)))"

definition rd_order :: "string \<times> repo \<Rightarrow> int \<times> int" where
  "rd_order = (\<lambda>(k, r). (rp_priority r, rp_cost r))"

definition rd_items :: "repo_dict \<Rightarrow> (string \<times> repo) list" where
  "rd_items d = sort_key rd_order d"

definition rd_keys :: "repo_dict \<Rightarrow> string list" where
  "rd_keys d = map fst (rd_items d)"

definition rd_values :: "repo_dict \<Rightarrow> repo list" where
  "rd_values d = map snd (rd_items d)"

definition iter_enabled :: "repo_dict \<Rightarrow> repo list" where
  "iter_enabled d = filter rp_enabled (rd_values d)"

definition any_enabled :: "repo_dict \<Rightarrow> bool" where
  "any_enabled d \<longleftrightarrow> iter_enabled d \<noteq> []"

text \<open>The ids of the repositories that \<open>get_matching\<close> returns, in its order.\<close>

definition get_matching :: "repo_dict \<Rightarrow> string \<Rightarrow> string list" where
  "get_matching d key =
     (if is_glob_pattern (PStr key) then filter (\<lambda>k. fnmatch k key) (rd_keys d)
      else if dict_in key d then [key] else [])"

text \<open>\<open>found.enable()\<close> on the repository at a key.\<close>

definition rd_enable :: "string \<Rightarrow> repo_dict \<Rightarrow> repo_dict" where
  "rd_enable k d = (case map_of d k of None \<Rightarrow> d | Some r \<Rightarrow> dict_set k (r\<lparr>rp_enabled := True\<rparr>) d)"

definition rd_on :: "repo_dict \<Rightarrow> string \<Rightarrow> bool" where
  "rd_on d k = (case map_of d k of None \<Rightarrow> False | Some r \<Rightarrow> rp_enabled r)"

text \<open>
  \<open>_enable_sub_repos\<close>.  The order of the repositories is fixed when the loop starts, but whether one
  is enabled is read when the loop reaches it.  The second component is the log.
\<close>

fun enable_found :: "string list \<Rightarrow> repo_dict \<times> string list \<Rightarrow> repo_dict \<times> string list" where
  "enable_found [] s = s"
| "enable_found (k # ks) (d, log) =
     enable_found ks (if rd_on d k then (d, log) else (rd_enable k d, log @ [k]))"

fun enable_loop :: "(string \<Rightarrow> string) \<Rightarrow> string list \<Rightarrow> repo_dict \<times> string list \<Rightarrow> repo_dict \<times> string list" where
  "enable_loop f [] s = s"
| "enable_loop f (k # ks) (d, log) =
     enable_loop f ks (if rd_on d k then enable_found (get_matching d (f k)) (d, log) else (d, log))"

definition enable_sub_repos :: "(string \<Rightarrow> string) \<Rightarrow> repo_dict \<Rightarrow> repo_dict \<times> string list" where
  "enable_sub_repos f d = enable_loop f (rd_keys d) (d, [])"

definition debug_name :: "string \<Rightarrow> string" where
  "debug_name name =
     (if endswith name ''-rpms'' then take (length name - 5) name @ ''-debug-rpms'' else name @ ''-debuginfo'')"

definition enable_debug_repos :: "repo_dict \<Rightarrow> repo_dict \<times> string list" where
  "enable_debug_repos d = enable_sub_repos debug_name d"

definition source_name :: "string \<Rightarrow> string" where
  "source_name name =
     (if endswith name ''-rpms'' then take (length name - 5) name @ ''-source-rpms'' else name @ ''-source'')"

definition enable_source_repos :: "repo_dict \<Rightarrow> repo_dict \<times> string list" where
  "enable_source_repos d = enable_sub_repos source_name d"

text \<open>
  \<open>add_new_repo\<close>.  Parameters: the substitution of libdnf's ConfigParser, \<open>os.path.abspath\<close>, the
  repository a new \<open>dnf.repo.Repo(repoid, conf)\<close> is, and the assignment of a setting by name.
\<close>

fun substitute :: "(string \<Rightarrow> string) \<Rightarrow> conf_value \<Rightarrow> conf_value" where
  "substitute subst (VText s) = VText (subst s)"
| "substitute subst (VList vs) =
     (let out = concat (map (\<lambda>v. case v of VText s \<Rightarrow> [VText (subst s)] | _ \<Rightarrow> []) vs)
      in if out = [] then VList vs else VList out)"
| "substitute subst v = v"

definition has_scheme :: "string \<Rightarrow> bool" where
  "has_scheme path \<longleftrightarrow> (\<exists>n \<in> {0..length path}. startswith (drop n path) ''://'')"

definition path_url :: "(string \<Rightarrow> string) \<Rightarrow> string \<Rightarrow> string" where
  "path_url abspath path = (if \<not> has_scheme path then ''file://'' @ abspath path else path)"

definition build_repo ::
  "(string \<Rightarrow> string) \<Rightarrow> (string \<Rightarrow> string) \<Rightarrow> (string \<Rightarrow> conf_value \<Rightarrow> repo \<Rightarrow> repo) \<Rightarrow> repo \<Rightarrow> string list \<Rightarrow>
     (string \<times> conf_value) list \<Rightarrow> repo" where
  "build_repo subst abspath setattr fresh baseurl kwargs =
     fold (\<lambda>(k, v) r. setattr k (substitute subst v) r) kwargs
       (fresh\<lparr>rp_baseurl := rp_baseurl fresh @ map (\<lambda>p. substitute subst (VText (path_url abspath p))) baseurl\<rparr>)"

definition add_new_repo ::
  "(string \<Rightarrow> string) \<Rightarrow> (string \<Rightarrow> string) \<Rightarrow> (string \<Rightarrow> conf_value \<Rightarrow> repo \<Rightarrow> repo) \<Rightarrow> repo \<Rightarrow> string list \<Rightarrow>
     (string \<times> conf_value) list \<Rightarrow> (repo_dict, repo) prog" where
  "add_new_repo subst abspath setattr fresh baseurl kwargs =
     (let r = build_repo subst abspath setattr fresh baseurl kwargs in then_p (rd_add r) (return_p r))"

subsection \<open>Invariant\<close>

definition rd_wf :: "repo_dict \<Rightarrow> bool" where
  "rd_wf d \<longleftrightarrow> dict_wf d \<and> (\<forall>k r. map_of d k = Some r \<longrightarrow> rp_id r = k)"

lemma rd_wf_Nil: "rd_wf []"
  by (simp add: rd_wf_def)

lemma rd_wf_enable [simp]: "rd_wf d \<Longrightarrow> rd_wf (rd_enable k d)"
  by (auto simp: rd_wf_def rd_enable_def split: option.splits)

lemma pres_rd_add: "pres rd_wf (rd_add r)"
  unfolding rd_add_def by (intro pres_intro) (auto simp: rd_wf_def)

lemma pres_add_new_repo: "pres rd_wf (add_new_repo subst abspath setattr fresh baseurl kwargs)"
  unfolding add_new_repo_def Let_def by (intro pres_intro pres_rd_add)

subsection \<open>Order\<close>

lemma mset_rd_items: "mset (rd_items d) = mset d"
  by (simp add: rd_items_def)

lemma set_rd_keys: "set (rd_keys d) = dom (map_of d)"
  by (simp add: rd_keys_def rd_items_def dom_map_of_conv_image_fst)

lemma distinct_rd_keys: "dict_wf d \<Longrightarrow> distinct (rd_keys d)"
proof -
  assume "dict_wf d"
  moreover have "mset (rd_keys d) = mset (map fst d)" by (simp add: rd_keys_def mset_rd_items)
  ultimately show ?thesis unfolding dict_wf_def by (metis mset_eq_imp_distinct_iff)
qed

lemma sorted_rd_items: "sorted_wrt (\<lambda>x y. rd_order x \<le> rd_order y) (rd_items d)"
  using sorted_sort_key [of rd_order d] by (simp only: rd_items_def sorted_map)

subsection \<open>Enabling\<close>

text \<open>What stays of a repository when it may only be switched on.\<close>

definition only_enables :: "repo_dict \<Rightarrow> repo_dict \<Rightarrow> bool" where
  "only_enables d e \<longleftrightarrow> dict_keys e = dict_keys d \<and>
     (\<forall>k r. map_of d k = Some r \<longrightarrow> (\<exists>b. map_of e k = Some (r\<lparr>rp_enabled := b\<rparr>) \<and> (rp_enabled r \<longrightarrow> b)))"

lemma only_enables_refl [simp]: "only_enables d d"
proof -
  have "\<exists>b. Some r = Some (r\<lparr>rp_enabled := b\<rparr>) \<and> (rp_enabled r \<longrightarrow> b)" for r :: repo
    by (rule exI [of _ "rp_enabled r"]) simp
  then show ?thesis by (simp add: only_enables_def)
qed

lemma only_enables_trans: "only_enables d e \<Longrightarrow> only_enables e f \<Longrightarrow> only_enables d f"
proof -
  assume a: "only_enables d e" "only_enables e f"
  have "\<exists>c. map_of f k = Some (r\<lparr>rp_enabled := c\<rparr>) \<and> (rp_enabled r \<longrightarrow> c)" if r: "map_of d k = Some r" for k r
  proof -
    from a(1) r obtain b where b: "map_of e k = Some (r\<lparr>rp_enabled := b\<rparr>)" "rp_enabled r \<longrightarrow> b"
      by (auto simp: only_enables_def)
    with a(2) obtain c where "map_of f k = Some (r\<lparr>rp_enabled := b\<rparr>\<lparr>rp_enabled := c\<rparr>)" "b \<longrightarrow> c"
      by (fastforce simp: only_enables_def)
    with b(2) show ?thesis by auto
  qed
  with a show ?thesis by (simp add: only_enables_def)
qed

lemma only_enables_enable: "only_enables d (rd_enable k d)"
proof (cases "map_of d k")
  case (Some r)
  then have "k \<in> set (dict_keys d)" by (auto simp: set_dict_keys)
  then have keys: "dict_keys (rd_enable k d) = dict_keys d" by (simp add: rd_enable_def Some dict_keys_set)
  have "\<exists>b. map_of (rd_enable k d) j = Some (x\<lparr>rp_enabled := b\<rparr>) \<and> (rp_enabled x \<longrightarrow> b)"
    if "map_of d j = Some x" for j x
  proof (cases "j = k")
    case True
    with that Some show ?thesis by (auto simp: rd_enable_def intro: exI [of _ True])
  next
    case False
    with that Some show ?thesis by (auto simp: rd_enable_def intro: exI [of _ "rp_enabled x"])
  qed
  with keys show ?thesis by (simp add: only_enables_def)
qed (simp add: rd_enable_def)

lemma only_enables_on: "only_enables d e \<Longrightarrow> rd_on d k \<Longrightarrow> rd_on e k"
  by (fastforce simp: only_enables_def rd_on_def split: option.splits)

lemma only_enables_dom: "only_enables d e \<Longrightarrow> dom (map_of e) = dom (map_of d)"
  by (metis only_enables_def set_dict_keys)

lemma rd_on_enable: "rd_on (rd_enable k d) j \<longleftrightarrow> rd_on d j \<or> j = k \<and> dict_in k d"
  by (auto simp: rd_on_def rd_enable_def dict_in_def split: option.splits)

lemma enable_found_props:
  "only_enables d (fst (enable_found ks (d, log)))
   \<and> (\<forall>j. rd_on (fst (enable_found ks (d, log))) j \<longleftrightarrow> rd_on d j \<or> j \<in> set ks \<and> dict_in j d)
   \<and> (rd_wf d \<longrightarrow> rd_wf (fst (enable_found ks (d, log))))"
proof (induction ks arbitrary: d log)
  case (Cons k ks)
  let ?d = "if rd_on d k then d else rd_enable k d"
  have oe: "only_enables d ?d" using only_enables_enable by simp
  have dom: "dict_in j ?d \<longleftrightarrow> dict_in j d" for j
    using only_enables_dom [OF oe] unfolding dict_in_def by (metis domIff)
  have on: "rd_on ?d j \<longleftrightarrow> rd_on d j \<or> j = k \<and> dict_in k d" for j
    by (auto simp: rd_on_enable)
  define log' where "log' = (if rd_on d k then log else log @ [k])"
  have step: "enable_found (k # ks) (d, log) = enable_found ks (?d, log')" by (simp add: log'_def)
  note IH = Cons.IH [of ?d log']
  show ?case
    unfolding step using IH only_enables_trans [OF oe] dom on rd_wf_enable [of d k] by auto
qed simp

text \<open>The repositories that the loop may switch on: the closure of the enabled ones.\<close>

inductive sub_closure :: "(string \<Rightarrow> string) \<Rightarrow> repo_dict \<Rightarrow> string \<Rightarrow> bool" for f d where
  initially: "rd_on d k \<Longrightarrow> sub_closure f d k"
| sub_repo: "sub_closure f d k \<Longrightarrow> j \<in> set (get_matching d (f k)) \<Longrightarrow> sub_closure f d j"

lemma get_matching_set: "set (get_matching d key) = {k \<in> dom (map_of d). if is_glob_pattern (PStr key) then fnmatch k key else k = key}"
  by (auto simp: get_matching_def set_rd_keys dict_in_def)

lemma get_matching_only_enables: "only_enables d e \<Longrightarrow> set (get_matching e key) = set (get_matching d key)"
  by (simp add: get_matching_set only_enables_dom)

lemma enable_loop_props:
  assumes "only_enables d0 d" and "\<And>k. rd_on d k \<Longrightarrow> sub_closure f d0 k" and "rd_wf d"
  shows "only_enables d (fst (enable_loop f ks (d, log)))
    \<and> (\<forall>k. rd_on (fst (enable_loop f ks (d, log))) k \<longrightarrow> sub_closure f d0 k)
    \<and> (\<forall>k \<in> set ks. rd_on d k \<longrightarrow> (\<forall>j \<in> set (get_matching d0 (f k)). rd_on (fst (enable_loop f ks (d, log))) j))
    \<and> rd_wf (fst (enable_loop f ks (d, log)))"
  using assms
proof (induction ks arbitrary: d log)
  case (Cons k ks)
  obtain d' log' where def: "(d', log') = (if rd_on d k then enable_found (get_matching d (f k)) (d, log) else (d, log))"
    by (metis surj_pair)
  then have step: "enable_loop f (k # ks) (d, log) = enable_loop f ks (d', log')" by simp
  have gm: "set (get_matching d (f i)) = set (get_matching d0 (f i))" for i
    using get_matching_only_enables [OF Cons.prems(1)] .
  have d': "only_enables d d' \<and> rd_wf d' \<and> (\<forall>j. rd_on d' j \<longrightarrow> rd_on d j \<or> rd_on d k \<and> j \<in> set (get_matching d0 (f k)))
      \<and> (rd_on d k \<longrightarrow> (\<forall>j \<in> set (get_matching d0 (f k)). rd_on d' j))"
  proof (cases "rd_on d k")
    case True
    then have "d' = fst (enable_found (get_matching d (f k)) (d, log))" using def by (metis fst_conv)
    moreover have "j \<in> set (get_matching d0 (f k)) \<Longrightarrow> dict_in j d" for j
      using gm [of k] by (auto simp: get_matching_set dict_in_def)
    ultimately show ?thesis
      using enable_found_props [of d "get_matching d (f k)" log] gm [of k] Cons.prems(3) True by auto
  next
    case False
    with def Cons.prems(3) show ?thesis by simp
  qed
  have cl: "sub_closure f d0 j" if "rd_on d' j" for j
    using that d' Cons.prems(2) by (metis sub_closure.sub_repo)
  from d' have oe: "only_enables d d'" and wf: "rd_wf d'" by auto
  note IH = Cons.IH [of d' log', OF only_enables_trans [OF Cons.prems(1) oe] cl wf]
  let ?e = "fst (enable_loop f ks (d', log'))"
  from IH have e: "only_enables d' ?e" "\<And>k. rd_on ?e k \<Longrightarrow> sub_closure f d0 k" "rd_wf ?e"
    "\<And>i j. i \<in> set ks \<Longrightarrow> rd_on d' i \<Longrightarrow> j \<in> set (get_matching d0 (f i)) \<Longrightarrow> rd_on ?e j" by blast+
  have "rd_on ?e j" if "i \<in> set (k # ks)" "rd_on d i" "j \<in> set (get_matching d0 (f i))" for i j
  proof (cases "i = k")
    case True
    with that d' have "rd_on d' j" by blast
    with e(1) show ?thesis by (rule only_enables_on)
  next
    case False
    with that have "i \<in> set ks" by simp
    from e(4) [OF this only_enables_on [OF oe that(2)] that(3)] show ?thesis .
  qed
  with e only_enables_trans [OF oe e(1)] show ?case unfolding step by blast
qed simp

text \<open>
  Enabling the debug or source repositories: repositories are only ever switched on, nothing else
  of them changes and none is added or lost; every sub-repository of a repository that was enabled is
  enabled afterwards; and only repositories reached from the enabled ones by the naming rule are
  enabled (a repository switched on by the loop counts when the loop reaches it later).
\<close>

theorem sub_repos_enabled:
  assumes "rd_wf d"
  shows "let e = fst (enable_sub_repos f d) in
    rd_wf e \<and> only_enables d e \<and>
    (\<forall>k j. rd_on d k \<longrightarrow> j \<in> set (get_matching d (f k)) \<longrightarrow> rd_on e j) \<and>
    (\<forall>k. rd_on e k \<longrightarrow> sub_closure f d k)"
proof -
  have on: "rd_on d k \<Longrightarrow> k \<in> set (rd_keys d)" for k
    by (auto simp: rd_on_def set_rd_keys split: option.splits)
  have cl: "rd_on d k \<Longrightarrow> sub_closure f d k" for k by (rule sub_closure.initially)
  from enable_loop_props [OF only_enables_refl cl assms] on show ?thesis
    unfolding enable_sub_repos_def Let_def by blast
qed

definition example_repo :: "string \<Rightarrow> int \<Rightarrow> bool \<Rightarrow> repo" where
  "example_repo i p b = \<lparr>rp_id = i, rp_priority = p, rp_cost = 1000, rp_enabled = b, rp_verify = None, rp_baseurl = []\<rparr>"

definition example_repos :: repo_dict where
  "example_repos = [(''a-debuginfo'', example_repo ''a-debuginfo'' 99 False), (''a'', example_repo ''a'' 50 True)]"

lemma sub_repos_enabled_witness: "rd_on (fst (enable_sub_repos debug_name example_repos)) ''a-debuginfo''"
proof -
  have "rd_wf example_repos" by (auto simp: rd_wf_def dict_wf_def example_repos_def example_repo_def)
  from sub_repos_enabled [OF this, of debug_name]
  have "rd_on example_repos ''a'' \<longrightarrow> ''a-debuginfo'' \<in> set (get_matching example_repos (debug_name ''a'')) \<longrightarrow>
    rd_on (fst (enable_sub_repos debug_name example_repos)) ''a-debuginfo''" unfolding Let_def by blast
  then show ?thesis
    by (simp add: example_repos_def example_repo_def rd_on_def debug_name_def get_matching_def is_glob_pattern_def
      dict_in_def endswith_def)
qed

text \<open>
  Adding a repository: a second repository of the same id and one that libdnf rejects are
  configuration errors that leave the dictionary as it was; otherwise it becomes the last entry, and
  iteration shows the entries by priority and cost, earlier ones first among equals.
\<close>

theorem repo_add_and_order:
  "rd_add r d =
     (if dict_in (rp_id r) d
      then (Inl (ConfigError (''Repository '' @ rp_id r @ '' is listed more than once in the configuration'')), d)
      else case rp_verify r of Some e \<Rightarrow> (Inl (ConfigError e), d) | None \<Rightarrow> (Inr (), d @ [(rp_id r, r)]))
   \<and> mset (rd_items d) = mset d
   \<and> sorted_wrt (\<lambda>(_, a) (_, b). rp_priority a < rp_priority b \<or> rp_priority a = rp_priority b \<and> rp_cost a \<le> rp_cost b) (rd_items d)
   \<and> filter (\<lambda>x. rd_order x = k) (rd_items d) = filter (\<lambda>x. rd_order x = k) d"
proof (intro conjI)
  have "\<not> dict_in i d \<Longrightarrow> dict_set i x d = d @ [(i, x)]" for i x
    by (rule dict_set_fresh) (simp add: dict_in_def map_of_eq_None_iff)
  then show "rd_add r d =
     (if dict_in (rp_id r) d
      then (Inl (ConfigError (''Repository '' @ rp_id r @ '' is listed more than once in the configuration'')), d)
      else case rp_verify r of Some e \<Rightarrow> (Inl (ConfigError e), d) | None \<Rightarrow> (Inr (), d @ [(rp_id r, r)]))"
    by (simp add: rd_add_def bind_p_def split: option.splits)
  show "sorted_wrt (\<lambda>(_, a) (_, b). rp_priority a < rp_priority b \<or> rp_priority a = rp_priority b \<and> rp_cost a \<le> rp_cost b) (rd_items d)"
    by (rule sorted_wrt_mono_rel [OF _ sorted_rd_items]) (auto simp: rd_order_def less_eq_prod_def)
qed (simp_all add: rd_items_def sort_key_stable)

end
