(* ===== verification/Rpm_Sync.thy ===== *)
theory Rpm_Sync
  imports Util_Trans
begin

text \<open>
  dnf/util.py: \<open>_te_nevra\<close>, \<open>_sync_rpm_trans_with_swdb\<close> and the class \<open>_BootcSystem\<close>.
\<close>

subsection \<open>Transaction elements of RPM\<close>

text \<open>
  An element of RPM's transaction: its NEVRA parts, the transaction item attached to it
  (\<open>Key()\<close>: a reference into the items of the history transaction, given by position) and whether
  it failed.
\<close>

record rpm_el =
  te_N :: string
  te_E :: "string option"
  te_V :: string
  te_R :: string
  te_A :: string
  te_Key :: "nat option"
  te_Failed :: bool

definition te_nevra :: "rpm_el \<Rightarrow> string" where
  "te_nevra te =
     (let nevra = te_N te @ ''-'';
          nevra = (case te_E te of None \<Rightarrow> nevra | Some e \<Rightarrow> if e \<noteq> ''0'' then nevra @ e @ '':'' else nevra)
      in nevra @ te_V te @ ''-'' @ te_R te @ ''.'' @ te_A te)"

subsection \<open>Reconciliation with the history database\<close>

definition revert_actions :: "action set" where
  "revert_actions = {DOWNGRADED, OBSOLETED, REMOVE, UPGRADED, REINSTALLED}"

definition is_candidate :: "string \<Rightarrow> tsi \<Rightarrow> bool" where
  "is_candidate nevra t \<longleftrightarrow> t_state t = ST_UNKNOWN \<and> t_action t \<in> revert_actions \<and> t_str t = nevra"

fun find_candidate :: "string \<Rightarrow> nat \<Rightarrow> tsi list \<Rightarrow> nat option" where
  "find_candidate nevra i [] = None"
| "find_candidate nevra i (t # ts) =
     (if t_state t \<noteq> ST_UNKNOWN then find_candidate nevra (Suc i) ts
      else if t_action t \<notin> revert_actions then find_candidate nevra (Suc i) ts
      else if t_str t = nevra then Some i
      else find_candidate nevra (Suc i) ts)"

record sync_state =
  sy_items :: "tsi list"
  sy_not_found :: bool
  sy_error :: bool
  sy_critical :: "string list"

text \<open>
  \<open>hasattr(tsi, "pkg")\<close>: the property looks the item up in a dictionary, and \<open>hasattr\<close> lets the
  \<open>KeyError\<close> of a missing entry through.
\<close>

definition has_pkg :: "tsi list \<Rightarrow> nat \<Rightarrow> unit res" where
  "has_pkg items i =
     (if i < length items then bind_r (tsi_pkg (items ! i)) (\<lambda>_. Inr ()) else Inl IndexError)"

definition set_state :: "nat \<Rightarrow> item_state \<Rightarrow> tsi list \<Rightarrow> tsi list" where
  "set_state i st items = items[i := (items ! i)\<lparr>t_state := st\<rparr>]"

definition resolve_key :: "tsi list \<Rightarrow> rpm_el \<Rightarrow> nat option res" where
  "resolve_key items el =
     (case te_Key el of
        Some i \<Rightarrow> bind_r (has_pkg items i) (\<lambda>_. Inr (Some i))
      | None \<Rightarrow>
          (case find_candidate (te_nevra el) 0 items of
             None \<Rightarrow> Inr None
           | Some i \<Rightarrow> bind_r (has_pkg items i) (\<lambda>_. Inr (Some i))))"

definition sync_element :: "rpm_el \<Rightarrow> (sync_state, unit) prog" where
  "sync_element el =
     bind_p (gets_p (\<lambda>s. resolve_key (sy_items s) el)) (\<lambda>r.
     bind_p (lift_p r) (\<lambda>found.
       case found of
         None \<Rightarrow> modify_p (\<lambda>s. s\<lparr>
             sy_critical := sy_critical s @ [''TransactionItem not found for key: '' @ te_nevra el],
             sy_not_found := True\<rparr>)
       | Some i \<Rightarrow>
           if te_Failed el
           then modify_p (\<lambda>s. s\<lparr>sy_items := set_state i ST_ERROR (sy_items s), sy_error := True\<rparr>)
           else modify_p (\<lambda>s. s\<lparr>sy_items := set_state i ST_DONE (sy_items s)\<rparr>)))"

definition sync_leftover :: "tsi \<Rightarrow> (sync_state, unit) prog" where
  "sync_leftover t =
     (if t_state t = ST_UNKNOWN
      then modify_p (\<lambda>s. s\<lparr>
        sy_critical := sy_critical s @ [''TransactionSWDBItem not found for key: '' @ t_str t],
        sy_not_found := True\<rparr>)
      else return_p ())"

definition sync_rpm_trans :: "rpm_el list \<Rightarrow> (sync_state, unit) prog" where
  "sync_rpm_trans rpm_transaction =
     then_p (for_p sync_element rpm_transaction)
       (bind_p (gets_p sy_items) (\<lambda>cached_tsi. for_p sync_leftover cached_tsi))"

definition sync_start :: "tsi list \<Rightarrow> sync_state" where
  "sync_start items = \<lparr>sy_items = items, sy_not_found = False, sy_error = False, sy_critical = []\<rparr>"

lemma find_candidate_Some:
  "find_candidate nevra k ts = Some i \<Longrightarrow> k \<le> i \<and> i - k < length ts \<and> is_candidate nevra (ts ! (i - k))"
proof (induction ts arbitrary: k)
  case (Cons t ts)
  show ?case
  proof (cases "is_candidate nevra t")
    case True
    with Cons.prems show ?thesis by (auto simp: is_candidate_def)
  next
    case False
    with Cons.prems have "find_candidate nevra (Suc k) ts = Some i"
      by (auto simp: is_candidate_def split: if_splits)
    from Cons.IH [OF this] show ?thesis
      by (auto simp: Suc_le_eq nth_Cons' diff_Suc split: nat.splits)
  qed
qed simp

lemma find_candidate_None: "find_candidate nevra k ts = None \<longleftrightarrow> (\<forall>t \<in> set ts. \<not> is_candidate nevra t)"
  by (induction ts arbitrary: k) (auto simp: is_candidate_def)

text \<open>What an element may change of an item: its state, and only to done or failed.\<close>

definition stateless :: "tsi \<Rightarrow> tsi" where
  "stateless t = t\<lparr>t_state := ST_UNKNOWN\<rparr>"

lemma stateless_set_state: "map stateless (set_state i st items) = map stateless items"
proof (cases "i < length items")
  case True
  then have "stateless ((items ! i)\<lparr>t_state := st\<rparr>) = map stateless items ! i"
    by (simp add: stateless_def)
  then show ?thesis by (simp add: set_state_def map_update)
qed (simp add: set_state_def list_update_beyond)

lemma resolve_key_length: "resolve_key items el = Inr (Some i) \<Longrightarrow> i < length items"
  by (auto simp: resolve_key_def has_pkg_def bind_r_Inr_iff split: option.splits if_splits)

lemma sync_element_stateless: "pres (\<lambda>s. map stateless (sy_items s) = ts) (sync_element el)"
  unfolding sync_element_def
  by (intro pres_intro) (simp_all add: stateless_set_state)

lemma sync_leftover_items: "pres (\<lambda>s. sy_items s = ts) (sync_leftover t)"
  unfolding sync_leftover_def by (intro pres_intro) simp_all

lemma for_sync_element_stateless: "pres (\<lambda>s. map stateless (sy_items s) = ts) (for_p sync_element els)"
  by (intro pres_intro sync_element_stateless)

lemma sync_leftover_total: "\<exists>s'. sync_leftover t s = (Inr (), s') \<and> sy_items s' = sy_items s
    \<and> (sy_not_found s' \<longleftrightarrow> sy_not_found s \<or> t_state t = ST_UNKNOWN) \<and> sy_error s' = sy_error s"
  by (simp add: sync_leftover_def)

lemma for_sync_leftover:
  "\<exists>s'. for_p sync_leftover ts s = (Inr (), s') \<and> sy_items s' = sy_items s
    \<and> (sy_not_found s' \<longleftrightarrow> sy_not_found s \<or> (\<exists>t \<in> set ts. t_state t = ST_UNKNOWN))
    \<and> sy_error s' = sy_error s"
proof (induction ts arbitrary: s)
  case Nil
  show ?case by simp
next
  case (Cons t ts)
  obtain s1 where s1: "sync_leftover t s = (Inr (), s1)" "sy_items s1 = sy_items s"
      "sy_not_found s1 \<longleftrightarrow> sy_not_found s \<or> t_state t = ST_UNKNOWN" "sy_error s1 = sy_error s"
    using sync_leftover_total by blast
  from Cons.IH [of s1] s1 show ?case by auto
qed

text \<open>Every item carries a package and every key is in range: nothing raises.\<close>

definition sync_wf :: "tsi list \<Rightarrow> rpm_el list \<Rightarrow> bool" where
  "sync_wf items els \<longleftrightarrow> (\<forall>t \<in> set items. t_pkg t \<noteq> None) \<and>
     (\<forall>el \<in> set els. case te_Key el of None \<Rightarrow> True | Some i \<Rightarrow> i < length items)"

lemma has_pkg_total: "\<forall>t \<in> set items. t_pkg t \<noteq> None \<Longrightarrow> i < length items \<Longrightarrow> has_pkg items i = Inr ()"
  by (auto simp: has_pkg_def tsi_pkg_def bind_r_def split: option.splits)

lemma find_candidate_length: "find_candidate nevra 0 items = Some i \<Longrightarrow> i < length items"
  using find_candidate_Some [of nevra 0 items i] by simp

lemma resolve_key_total: "sync_wf items [el] \<Longrightarrow> \<exists>r. resolve_key items el = Inr r"
  by (auto simp: resolve_key_def sync_wf_def has_pkg_total find_candidate_length split: option.splits)

lemma set_state_wf: "sync_wf items els \<Longrightarrow> sync_wf (set_state i st items) els"
proof (cases "i < length items")
  case True
  moreover assume "sync_wf items els"
  ultimately show ?thesis
    by (auto simp: sync_wf_def set_state_def split: option.splits dest: set_update_subset_insert [THEN subsetD])
next
  case False
  moreover assume "sync_wf items els"
  ultimately show ?thesis by (simp add: set_state_def list_update_beyond)
qed

lemma sync_element_total:
  "sync_wf (sy_items s) (el # els) \<Longrightarrow>
    \<exists>s'. sync_element el s = (Inr (), s') \<and> sync_wf (sy_items s') els
      \<and> (sy_error s' \<longleftrightarrow> sy_error s \<or> te_Failed el \<and> resolve_key (sy_items s) el \<noteq> Inr None)"
proof -
  assume wf: "sync_wf (sy_items s) (el # els)"
  then have "sync_wf (sy_items s) [el]" and wf': "sync_wf (sy_items s) els"
    by (auto simp: sync_wf_def)
  then obtain r where r: "resolve_key (sy_items s) el = Inr r" using resolve_key_total by blast
  then show ?thesis using wf'
    by (cases r) (auto simp: sync_element_def bind_p_def set_state_wf)
qed

lemma for_sync_element_total:
  "sync_wf (sy_items s) els \<Longrightarrow> \<exists>s'. for_p sync_element els s = (Inr (), s')"
proof (induction els arbitrary: s)
  case (Cons el els)
  from sync_element_total [OF Cons.prems] obtain s1
    where "sync_element el s = (Inr (), s1)" and "sync_wf (sy_items s1) els" by blast
  with Cons.IH show ?case by simp
qed simp

lemma sync_rpm_trans_result:
  "sync_wf items els \<Longrightarrow> \<exists>s1 s2. for_p sync_element els (sync_start items) = (Inr (), s1)
    \<and> sync_rpm_trans els (sync_start items) = (Inr (), s2) \<and> sy_items s2 = sy_items s1
    \<and> (sy_not_found s2 \<longleftrightarrow> sy_not_found s1 \<or> (\<exists>t \<in> set (sy_items s1). t_state t = ST_UNKNOWN))
    \<and> sy_error s2 = sy_error s1"
proof -
  assume "sync_wf items els"
  then have "sync_wf (sy_items (sync_start items)) els" by (simp add: sync_start_def)
  then obtain s1 where s1: "for_p sync_element els (sync_start items) = (Inr (), s1)"
    using for_sync_element_total by blast
  with for_sync_leftover [of "sy_items s1" s1] show ?thesis
    by (auto simp: sync_rpm_trans_def bind_p_def)
qed

text \<open>
  When RPM still knows the key of every element, what is recorded of an item is what the last element
  with its key reports.
\<close>

definition reported_state :: "rpm_el list \<Rightarrow> tsi list \<Rightarrow> nat \<Rightarrow> item_state" where
  "reported_state els items i =
     (case find (\<lambda>el. te_Key el = Some i) (rev els) of
        None \<Rightarrow> t_state (items ! i)
      | Some el \<Rightarrow> if te_Failed el then ST_ERROR else ST_DONE)"

lemma find_append: "find P (xs @ ys) = (case find P xs of None \<Rightarrow> find P ys | Some x \<Rightarrow> Some x)"
  by (induction xs) simp_all

lemma sync_keyed_element:
  assumes "sync_wf (sy_items s) [el]" and "te_Key el = Some i"
  shows "sync_element el s = (Inr (), s\<lparr>sy_items := set_state i (if te_Failed el then ST_ERROR else ST_DONE) (sy_items s),
      sy_error := (sy_error s \<or> te_Failed el)\<rparr>)"
proof -
  have "has_pkg (sy_items s) i = Inr ()" using assms by (intro has_pkg_total) (simp_all add: sync_wf_def)
  then show ?thesis using assms(2) by (simp add: sync_element_def bind_p_apply resolve_key_def)
qed

lemma sync_keyed_elements:
  "sync_wf (sy_items s) els \<Longrightarrow> list_all (\<lambda>el. te_Key el \<noteq> None) els \<Longrightarrow>
    \<exists>s'. for_p sync_element els s = (Inr (), s') \<and> length (sy_items s') = length (sy_items s) \<and>
      (\<forall>i < length (sy_items s). t_state (sy_items s' ! i) = reported_state els (sy_items s) i) \<and>
      (sy_error s' \<longleftrightarrow> sy_error s \<or> (\<exists>el \<in> set els. te_Failed el)) \<and> sy_not_found s' = sy_not_found s"
proof (induction els arbitrary: s)
  case (Cons el els)
  from Cons.prems obtain k where k: "te_Key el = Some k" by auto
  let ?st = "if te_Failed el then ST_ERROR else ST_DONE"
  let ?s = "s\<lparr>sy_items := set_state k ?st (sy_items s), sy_error := (sy_error s \<or> te_Failed el)\<rparr>"
  have one: "sync_element el s = (Inr (), ?s)"
    using Cons.prems(1) k by (intro sync_keyed_element) (simp_all add: sync_wf_def)
  have wf: "sync_wf (sy_items s) els" using Cons.prems(1) by (simp add: sync_wf_def)
  have "sync_wf (sy_items ?s) els" using set_state_wf [OF wf] by simp
  from Cons.IH [OF this] Cons.prems(2) obtain s' where s': "for_p sync_element els ?s = (Inr (), s')"
      "length (sy_items s') = length (sy_items s)"
      "\<forall>i < length (sy_items s). t_state (sy_items s' ! i) = reported_state els (set_state k ?st (sy_items s)) i"
      "sy_error s' \<longleftrightarrow> sy_error s \<or> te_Failed el \<or> (\<exists>el \<in> set els. te_Failed el)" "sy_not_found s' = sy_not_found s"
    by (auto simp: set_state_def)
  have "reported_state els (set_state k ?st (sy_items s)) i = reported_state (el # els) (sy_items s) i" if "i < length (sy_items s)" for i
    using that k by (cases "find (\<lambda>e. te_Key e = Some i) (rev els)") (auto simp: reported_state_def find_append set_state_def nth_list_update)
  with s' one show ?case by (auto simp: then_p_apply)
qed (simp add: reported_state_def)

text \<open>
  C31. When every item carries its package, reconciling RPM's elements with the history transaction
  returns; it touches nothing of an item but its state; and unless it reports a missing item, no
  item of the transaction is left in the state \<open>UNKNOWN\<close>.  When RPM knows the key of every element,
  the state of an item is the one the last element with its key reports, an error is noted exactly if
  some element failed, and a missing item is reported exactly if some item is left \<open>UNKNOWN\<close>.
\<close>

theorem sync_accounts_for_every_item:
  assumes "sync_wf items els"
  shows "\<exists>s. sync_rpm_trans els (sync_start items) = (Inr (), s) \<and>
    map stateless (sy_items s) = map stateless items \<and>
    (sy_not_found s \<or> (\<forall>t \<in> set (sy_items s). t_state t \<noteq> ST_UNKNOWN)) \<and>
    (list_all (\<lambda>el. te_Key el \<noteq> None) els \<longrightarrow>
      (\<forall>i < length items. t_state (sy_items s ! i) = reported_state els items i) \<and>
      (sy_error s \<longleftrightarrow> (\<exists>el \<in> set els. te_Failed el)) \<and>
      (sy_not_found s \<longleftrightarrow> (\<exists>t \<in> set (sy_items s). t_state t = ST_UNKNOWN)))"
proof -
  from sync_rpm_trans_result [OF assms] obtain s1 s2
    where s1: "for_p sync_element els (sync_start items) = (Inr (), s1)"
      and s2: "sync_rpm_trans els (sync_start items) = (Inr (), s2)" "sy_items s2 = sy_items s1"
        "sy_not_found s2 \<longleftrightarrow> sy_not_found s1 \<or> (\<exists>t \<in> set (sy_items s1). t_state t = ST_UNKNOWN)"
        "sy_error s2 = sy_error s1"
    by blast
  have same: "map stateless (sy_items s1) = map stateless items"
    using presD [OF for_sync_element_stateless _ s1, of "map stateless items"] by (simp add: sync_start_def)
  have keyed: "(\<forall>i < length items. t_state (sy_items s1 ! i) = reported_state els items i) \<and>
      (sy_error s1 \<longleftrightarrow> (\<exists>el \<in> set els. te_Failed el)) \<and> \<not> sy_not_found s1" if "list_all (\<lambda>el. te_Key el \<noteq> None) els"
    using sync_keyed_elements [of "sync_start items" els] assms that s1 by (simp add: sync_start_def)
  from s2(1) show ?thesis
  proof (intro exI conjI impI)
    show "map stateless (sy_items s2) = map stateless items" using same s2(2) by simp
    show "sy_not_found s2 \<or> (\<forall>t \<in> set (sy_items s2). t_state t \<noteq> ST_UNKNOWN)" using s2(2,3) by auto
  qed (use keyed s2(2-4) in simp_all)
qed

definition demo_pkg :: pkg where
  "demo_pkg = \<lparr>p_name = ''foo'', p_epoch = 0, p_version = ''1'', p_release = ''1'', p_arch = ''noarch'',
     p_reponame = ''main'', p_force_repoid = None, p_from_cmdline = False, p_module_hotfixes = False,
     p_modularitylabel = Some False, p_active_module = False, p_idx = 7\<rparr>"

definition demo_tsi :: "action \<Rightarrow> tsi" where
  "demo_tsi a = \<lparr>t_name = ''foo'', t_epoch = 0, t_version = ''1'', t_release = ''1'', t_arch = ''noarch'',
     t_str = ''foo-1-1.noarch'', t_action = a, t_reason = USER, t_state = ST_UNKNOWN, t_repoid = ''main'',
     t_pkg = Some demo_pkg\<rparr>"

definition demo_el :: "nat option \<Rightarrow> rpm_el" where
  "demo_el key = \<lparr>te_N = ''foo'', te_E = None, te_V = ''1'', te_R = ''1'', te_A = ''noarch'',
     te_Key = key, te_Failed = False\<rparr>"

lemma sync_accounts_for_every_item_witness:
  "\<exists>s. sync_rpm_trans [demo_el (Some 0), demo_el None] (sync_start [demo_tsi INSTALL, demo_tsi REMOVE]) = (Inr (), s) \<and>
    map stateless (sy_items s) = map stateless [demo_tsi INSTALL, demo_tsi REMOVE]"
proof -
  have "sync_wf [demo_tsi INSTALL, demo_tsi REMOVE] [demo_el (Some 0), demo_el None]"
    by (simp add: sync_wf_def demo_tsi_def demo_el_def)
  from sync_accounts_for_every_item [OF this] show ?thesis by blast
qed

lemma sync_demo_run:
  "sync_rpm_trans [demo_el (Some 0), demo_el None] (sync_start [demo_tsi INSTALL, demo_tsi REMOVE]) =
    (Inr (), \<lparr>sy_items = map (\<lambda>a. (demo_tsi a)\<lparr>t_state := ST_DONE\<rparr>) [INSTALL, REMOVE],
      sy_not_found = False, sy_error = False, sy_critical = []\<rparr>)"
  by (simp add: sync_rpm_trans_def sync_element_def sync_leftover_def sync_start_def resolve_key_def
      has_pkg_def tsi_pkg_def set_state_def te_nevra_def revert_actions_def demo_el_def demo_tsi_def
      prog_simps)

end
