(* ===== verification/Rpm_Callbacks.thy ===== *)
theory Rpm_Callbacks
  imports Rpm_Sync History
begin

text \<open>
  dnf/yum/rpmtrans.py: the object RPM calls back while it runs a transaction (\<open>RPMTransaction\<close>, lines
  165 to 439).  It finds the item an element of RPM's transaction belongs to, tells the displays what
  happens, and passes on what scriptlets write.

  RPM and the scriptlets are the environment: \<open>callback\<close> is one call of RPM, and between two calls
  scriptlets append to the file their output goes to.  Reading that file does not fail.
\<close>

subsection \<open>Displays and state\<close>

datatype subject = SubjText string | SubjPkg pkg | SubjNone

text \<open>What a display is told; the numbers of a progress are how much is done of the item and of the transaction.\<close>

datatype display_call =
    Progress subject trans_key "(nat \<times> nat \<times> nat \<times> nat) option"
  | ScriptOut string
  | DisplayError string
  | FileLog pkg action

text \<open>
  The environment: the items of dnf's transaction, the elements of RPM's, how many displays there are and
  which of their calls raise; \<open>ce_local\<close> is \<open>localPkg()\<close>, \<open>ce_open\<close> the descriptor of an opened file or
  the message of the error, \<open>ce_tag\<close> the name of a scriptlet and \<open>ce_str\<close> the text of a package.
\<close>

record cb_env =
  ce_test :: bool
  ce_items :: "tsi list"
  ce_ts :: "rpm_el list"
  ce_displays :: nat
  ce_raises :: "nat \<Rightarrow> display_call \<Rightarrow> exn option"
  ce_local :: "pkg \<Rightarrow> string res"
  ce_open :: "string \<Rightarrow> string + nat"
  ce_tag :: "nat \<Rightarrow> string option"
  ce_str :: "pkg \<Rightarrow> string"

text \<open>
  The fields of the object.  The cache holds positions of items, none when it is \<open>None\<close>; \<open>cb_pipe\<close> is all
  that scriptlets have written and \<open>cb_read\<close> how much of it has been read.
\<close>

record cb_state =
  cb_running :: bool
  cb_fd :: "nat option"
  cb_total :: nat
  cb_installed :: nat
  cb_complete :: nat
  cb_names :: "string set"
  cb_removed :: nat
  cb_tes :: "rpm_el list"
  cb_index :: nat
  cb_cache :: "nat list"
  cb_pipe :: string
  cb_read :: nat
  cb_calls :: "(nat \<times> display_call) list"
  cb_session :: session
  cb_critical :: "exn list"

definition cb_init :: "session \<Rightarrow> cb_state" where
  "cb_init session =
     \<lparr>cb_running = False, cb_fd = None, cb_total = 0, cb_installed = 0, cb_complete = 0, cb_names = {}, cb_removed = 0,
      cb_tes = [], cb_index = 0, cb_cache = [], cb_pipe = [], cb_read = 0, cb_calls = [], cb_session = session, cb_critical = []\<rparr>"

definition RPM_ACTIONS_SET :: "action set" where
  "RPM_ACTIONS_SET = {INSTALL, DOWNGRADE, DOWNGRADED, OBSOLETE, OBSOLETED, UPGRADE, UPGRADED, REMOVE, REINSTALLED}"

definition call_display :: "cb_env \<Rightarrow> display_call \<Rightarrow> nat \<Rightarrow> (cb_state, unit) prog" where
  "call_display e c d =
     then_p (modify_p (\<lambda>s. s\<lparr>cb_calls := cb_calls s @ [(d, c)]\<rparr>))
       (case ce_raises e d c of None \<Rightarrow> return_p () | Some x \<Rightarrow> raise_p x)"

definition each_display :: "cb_env \<Rightarrow> display_call res \<Rightarrow> (cb_state, unit) prog" where
  "each_display e c = for_p (\<lambda>d. bind_p (lift_p c) (\<lambda>c. call_display e c d)) [0..<ce_displays e]"

subsection \<open>The output of scriptlets\<close>

definition script_output :: "(cb_state, string) prog" where
  "script_output =
     bind_p (gets_p (\<lambda>s. drop (cb_read s) (cb_pipe s))) (\<lambda>out.
       then_p (modify_p (\<lambda>s. s\<lparr>cb_read := length (cb_pipe s)\<rparr>)) (return_p out))"

definition scriptout :: "cb_env \<Rightarrow> (cb_state, unit) prog" where
  "scriptout e =
     bind_p script_output (\<lambda>msgs.
       if msgs = [] then return_p ()
       else then_p (each_display e (Inr (ScriptOut msgs)))
         (\<lambda>s. case log_scriptlet_output msgs (cb_session s) of (r, session) \<Rightarrow> (r, s\<lparr>cb_session := session\<rparr>)))"

subsection \<open>The item of an element\<close>

datatype cb_key = KeyItem nat | KeyText string | KeyNone

text \<open>An item that is reinstalled or changes its reason is passed over: the replaced one stands for it.\<close>

definition items_of :: "tsi list \<Rightarrow> string \<Rightarrow> nat list" where
  "items_of items nevra =
     filter (\<lambda>i. t_action (items ! i) \<in> RPM_ACTIONS_SET \<and> t_str (items ! i) = nevra) [0..<length items]"

definition extract_cbkey :: "cb_env \<Rightarrow> cb_key \<Rightarrow> (cb_state, nat list) prog" where
  "extract_cbkey e key =
     (case key of
        KeyItem i \<Rightarrow> bind_p (lift_p (has_pkg (ce_items e) i)) (\<lambda>_. return_p [i])
      | _ \<Rightarrow>
          bind_p (gets_p (\<lambda>s. if cb_index s < length (cb_tes s) then Inr (te_nevra (cb_tes s ! cb_index s)) else Inl IndexError)) (\<lambda>te.
          bind_p (lift_p te) (\<lambda>nevra.
          bind_p (gets_p cb_cache) (\<lambda>cache.
            if cache \<noteq> [] \<and> t_str (ce_items e ! hd cache) = nevra then return_p cache
            else let items = items_of (ce_items e) nevra in
              if items \<noteq> [] then then_p (modify_p (\<lambda>s. s\<lparr>cb_cache := items\<rparr>)) (return_p items)
              else raise_p (RuntimeError
                (''TransactionItem not found for key: '' @ (case key of KeyText k \<Rightarrow> k | _ \<Rightarrow> ''None'')))))))"

definition first_pkg :: "cb_env \<Rightarrow> nat list \<Rightarrow> pkg res" where
  "first_pkg e items = tsi_pkg (ce_items e ! hd items)"

definition first_action :: "cb_env \<Rightarrow> nat list \<Rightarrow> action" where
  "first_action e items = t_action (ce_items e ! hd items)"

subsection \<open>The callbacks\<close>

definition trans_start :: "cb_env \<Rightarrow> nat \<Rightarrow> (cb_state, unit) prog" where
  "trans_start e tot =
     then_p (modify_p (\<lambda>s. s\<lparr>cb_total := tot\<rparr>))
       (if ce_test e then return_p () else modify_p (\<lambda>s. s\<lparr>cb_running := True, cb_tes := ce_ts e\<rparr>))"

definition trans_progress :: "cb_env \<Rightarrow> nat \<Rightarrow> nat \<Rightarrow> (cb_state, unit) prog" where
  "trans_progress e amount tot = each_display e (Inr (Progress (SubjText []) TRANS_PREPARATION (Some (amount + 1, tot, 1, 1))))"

definition elem_progress :: "cb_env \<Rightarrow> cb_key \<Rightarrow> nat \<Rightarrow> (cb_state, unit) prog" where
  "elem_progress e key index =
     then_p (modify_p (\<lambda>s. s\<lparr>cb_index := index, cb_complete := cb_complete s + 1\<rparr>))
       (if ce_test e then return_p ()
        else bind_p (extract_cbkey e key) (\<lambda>items.
          each_display e (bind_r (first_pkg e items) (\<lambda>p. Inr (FileLog p (first_action e items))))))"

definition inst_open_file :: "cb_env \<Rightarrow> cb_key \<Rightarrow> (cb_state, nat option) prog" where
  "inst_open_file e key =
     bind_p (extract_cbkey e key) (\<lambda>items.
     bind_p (lift_p (first_pkg e items)) (\<lambda>p.
     bind_p (lift_p (ce_local e p)) (\<lambda>rpmloc.
       case ce_open e rpmloc of
         Inl err \<Rightarrow> then_p (each_display e (Inr (DisplayError (''Error: Cannot open file '' @ rpmloc @ '': '' @ err)))) (return_p None)
       | Inr fd \<Rightarrow> then_p (modify_p (\<lambda>s.
           if cb_running s then s\<lparr>cb_fd := Some fd, cb_installed := cb_installed s + 1, cb_names := insert (p_name p) (cb_names s)\<rparr>
           else s\<lparr>cb_fd := Some fd\<rparr>)) (return_p (Some fd)))))"

definition inst_close_file :: "(cb_state, unit) prog" where
  "inst_close_file =
     bind_p (gets_p cb_fd) (\<lambda>fd.
       case fd of None \<Rightarrow> raise_p (AttributeError ''close'') | Some _ \<Rightarrow> modify_p (\<lambda>s. s\<lparr>cb_fd := None\<rparr>))"

definition inst_stop :: "cb_env \<Rightarrow> (cb_state, unit) prog" where
  "inst_stop e =
     bind_p (gets_p cb_running) (\<lambda>running.
       if ce_test e \<or> \<not> running then return_p ()
       else then_p (scriptout e)
         (bind_p (gets_p (\<lambda>s. cb_complete s = cb_total s)) (\<lambda>finished.
           if finished then each_display e (Inr (Progress SubjNone TRANS_POST None)) else return_p ())))"

definition pkg_progress :: "cb_env \<Rightarrow> nat \<Rightarrow> nat \<Rightarrow> cb_key \<Rightarrow> (cb_state, unit) prog" where
  "pkg_progress e amount tot key =
     bind_p (extract_cbkey e key) (\<lambda>items.
     bind_p (lift_p (first_pkg e items)) (\<lambda>p.
     bind_p (gets_p (\<lambda>s. (cb_complete s, cb_total s))) (\<lambda>(complete, all).
       each_display e (Inr (Progress (SubjPkg p) (Pkg (first_action e items)) (Some (amount, tot, complete, all)))))))"

definition uninst_start :: "(cb_state, unit) prog" where
  "uninst_start = modify_p (\<lambda>s. s\<lparr>cb_removed := cb_removed s + 1\<rparr>)"

definition uninst_stop :: "cb_env \<Rightarrow> (cb_state, unit) prog" where
  "uninst_stop e = (if ce_test e then return_p () else scriptout e)"

definition cpio_error :: "cb_env \<Rightarrow> cb_key \<Rightarrow> (cb_state, unit) prog" where
  "cpio_error e key =
     bind_p (extract_cbkey e key) (\<lambda>items.
     bind_p (lift_p (first_pkg e items)) (\<lambda>p.
       each_display e (Inr (DisplayError (''Error in cpio payload of rpm package '' @ ce_str e p)))))"

definition unpack_error :: "cb_env \<Rightarrow> cb_key \<Rightarrow> (cb_state, unit) prog" where
  "unpack_error e key =
     then_p (scriptout e)
     (bind_p (extract_cbkey e key) (\<lambda>items.
      bind_p (lift_p (first_pkg e items)) (\<lambda>p.
        each_display e (Inr (DisplayError (''Error unpacking rpm package '' @ ce_str e p))))))"

definition script_error :: "cb_env \<Rightarrow> nat \<Rightarrow> cb_key \<Rightarrow> (cb_state, unit) prog" where
  "script_error e amount key =
     (let scriptlet_name = (case ce_tag e amount of None \<Rightarrow> ''<unknown>'' | Some n \<Rightarrow> n) in
      bind_p (extract_cbkey e key) (\<lambda>items.
      bind_p (lift_p (first_pkg e items)) (\<lambda>p.
        each_display e (Inr (DisplayError (''Error in '' @ scriptlet_name @ '' scriptlet in rpm package '' @ p_name p))))))"

definition script_start :: "cb_env \<Rightarrow> cb_key \<Rightarrow> (cb_state, unit) prog" where
  "script_start e key =
     bind_p (gets_p cb_tes) (\<lambda>tes.
     bind_p (if key = KeyNone \<and> tes = [] then return_p (SubjText ''None'')
             else bind_p (extract_cbkey e key) (\<lambda>items. bind_p (lift_p (first_pkg e items)) (\<lambda>p. return_p (SubjPkg p)))) (\<lambda>pkg.
     bind_p (gets_p (\<lambda>s. if cb_total s \<noteq> 0 \<and> cb_complete s \<noteq> 0 then (cb_complete s, cb_total s) else (1, 1))) (\<lambda>(complete, tot).
       each_display e (Inr (Progress pkg PKG_SCRIPTLET (Some (100, 100, complete, tot)))))))"

datatype rpm_event =
    TransStart nat
  | TransStop
  | TransProgress nat nat
  | ElemProgress cb_key nat
  | InstOpenFile cb_key
  | InstCloseFile
  | InstStart
  | InstStop
  | InstProgress nat nat cb_key
  | UninstStart
  | UninstStop
  | UninstProgress nat nat cb_key
  | CpioError cb_key
  | UnpackError cb_key
  | ScriptError nat cb_key
  | ScriptStart cb_key
  | ScriptStop
  | OtherEvent

definition no_result :: "(cb_state, unit) prog \<Rightarrow> (cb_state, nat option) prog" where
  "no_result m = then_p m (return_p None)"

fun handle :: "cb_env \<Rightarrow> rpm_event \<Rightarrow> (cb_state, nat option) prog" where
  "handle e (TransStart tot) = no_result (trans_start e tot)"
| "handle e TransStop = return_p None"
| "handle e (TransProgress amount tot) = no_result (trans_progress e amount tot)"
| "handle e (ElemProgress key index) = no_result (elem_progress e key index)"
| "handle e (InstOpenFile key) = inst_open_file e key"
| "handle e InstCloseFile = no_result inst_close_file"
| "handle e InstStart = return_p None"
| "handle e InstStop = no_result (inst_stop e)"
| "handle e (InstProgress amount tot key) = no_result (pkg_progress e amount tot key)"
| "handle e UninstStart = no_result uninst_start"
| "handle e UninstStop = no_result (uninst_stop e)"
| "handle e (UninstProgress amount tot key) = no_result (pkg_progress e amount tot key)"
| "handle e (CpioError key) = no_result (cpio_error e key)"
| "handle e (UnpackError key) = no_result (unpack_error e key)"
| "handle e (ScriptError amount key) = no_result (script_error e amount key)"
| "handle e (ScriptStart key) = no_result (script_start e key)"
| "handle e ScriptStop = no_result (scriptout e)"
| "handle e OtherEvent = return_p None"

text \<open>A call by RPM: what it returns to RPM, and the state; an exception is logged and goes no further.\<close>

definition callback :: "cb_env \<Rightarrow> rpm_event \<Rightarrow> cb_state \<Rightarrow> nat option \<times> cb_state" where
  "callback e ev s =
     (case handle e ev s of
        (Inr r, s') \<Rightarrow> (r, s')
      | (Inl x, s') \<Rightarrow> (None, s'\<lparr>cb_critical := cb_critical s' @ [x]\<rparr>))"

subsection \<open>Runs\<close>

text \<open>RPM calls back, or a scriptlet writes.\<close>

datatype cb_label = Call rpm_event | Write string

inductive cb_step :: "cb_env \<Rightarrow> cb_state \<Rightarrow> cb_label \<Rightarrow> cb_state \<Rightarrow> bool" for e where
  called: "cb_step e s (Call ev) (snd (callback e ev s))"
| written: "cb_step e s (Write t) (s\<lparr>cb_pipe := cb_pipe s @ t\<rparr>)"

inductive cb_run :: "cb_env \<Rightarrow> cb_state \<Rightarrow> cb_label list \<Rightarrow> cb_state \<Rightarrow> bool" for e where
  none: "cb_run e s [] s"
| more: "cb_run e s ls s' \<Longrightarrow> cb_step e s' l s'' \<Longrightarrow> cb_run e s (ls @ [l]) s''"

inductive_cases cb_callE: "cb_step e s (Call ev) s'"
inductive_cases cb_writeE: "cb_step e s (Write t) s'"

inductive_simps cb_step_simps [simp]: "cb_step e s (Call ev) s'" "cb_step e s (Write t) s'"

end
