(* ===== verification/Rpm_Callbacks_Properties.thy ===== *)
theory Rpm_Callbacks_Properties
  imports Rpm_Callbacks
begin

text \<open>
  What holds of the callbacks in every run, whatever RPM calls and whatever scriptlets write between:
  the cache of items changes no answer, and the output of the scriptlets reaches each display and the history.
\<close>

lemmas handler_defs =
  trans_start_def trans_progress_def elem_progress_def inst_open_file_def inst_close_file_def inst_stop_def pkg_progress_def
  uninst_start_def uninst_stop_def cpio_error_def unpack_error_def script_error_def script_start_def no_result_def

lemma callback_keeps:
  assumes "pres I (handle e ev)" and "\<And>s x. I s \<Longrightarrow> I (s\<lparr>cb_critical := x\<rparr>)" and "I s"
  shows "I (snd (callback e ev s))"
  using presD [OF assms(1,3)] assms(2) by (auto simp: callback_def split: prod.split sum.split)

lemma cb_run_keeps:
  assumes "cb_run e s ls s'" and "I s"
    and "\<And>ev. pres I (handle e ev)" and "\<And>s x. I s \<Longrightarrow> I (s\<lparr>cb_critical := x\<rparr>)" and "\<And>s t. I s \<Longrightarrow> I (s\<lparr>cb_pipe := cb_pipe s @ t\<rparr>)"
  shows "I s'"
  using assms(1,2)
proof (induction rule: cb_run.induct)
  case (more s ls s' l s'')
  then show ?case using callback_keeps [OF assms(3,4)] assms(5) by (cases l) simp_all
qed

text \<open>Programs that change nothing an invariant speaks of.\<close>

lemma pres_call_display [pres_intro]: "(\<And>s cs. I s \<Longrightarrow> I (s\<lparr>cb_calls := cs\<rparr>)) \<Longrightarrow> pres I (call_display e c d)"
  unfolding call_display_def by (intro pres_intro) simp

lemma pres_each_display [pres_intro]: "(\<And>s cs. I s \<Longrightarrow> I (s\<lparr>cb_calls := cs\<rparr>)) \<Longrightarrow> pres I (each_display e c)"
  unfolding each_display_def by (intro pres_intro) simp

lemma pres_scriptout [pres_intro]:
  assumes "\<And>s cs. I s \<Longrightarrow> I (s\<lparr>cb_calls := cs\<rparr>)" "\<And>s n. I s \<Longrightarrow> I (s\<lparr>cb_read := n\<rparr>)" "\<And>s n. I s \<Longrightarrow> I (s\<lparr>cb_session := n\<rparr>)"
  shows "pres I (scriptout e)"
proof -
  have "pres I (\<lambda>s. case log_scriptlet_output m (cb_session s) of (r, session) \<Rightarrow> (r, s\<lparr>cb_session := session\<rparr>))" for m
    by (rule presI) (auto simp: assms(3) split: prod.splits)
  then show ?thesis unfolding scriptout_def script_output_def by (intro pres_intro assms)
qed

subsection \<open>The cache\<close>

text \<open>The search without the cache.\<close>

definition search_cbkey :: "cb_env \<Rightarrow> cb_key \<Rightarrow> cb_state \<Rightarrow> nat list res" where
  "search_cbkey e key s =
     (case key of
        KeyItem i \<Rightarrow> bind_r (has_pkg (ce_items e) i) (\<lambda>_. Inr [i])
      | _ \<Rightarrow>
          if cb_index s < length (cb_tes s)
          then let items = items_of (ce_items e) (te_nevra (cb_tes s ! cb_index s)) in
            if items \<noteq> [] then Inr items
            else Inl (RuntimeError (''TransactionItem not found for key: '' @ (case key of KeyText k \<Rightarrow> k | _ \<Rightarrow> ''None'')))
          else Inl IndexError)"

definition cache_ok :: "cb_env \<Rightarrow> cb_state \<Rightarrow> bool" where
  "cache_ok e s \<longleftrightarrow> cb_cache s = [] \<or> (\<exists>n. cb_cache s = items_of (ce_items e) n)"

lemma pres_extract [pres_intro]: "pres (cache_ok e) (extract_cbkey e key)"
  unfolding extract_cbkey_def Let_def by (cases key; simp) (intro pres_intro; auto simp: cache_ok_def)+

lemma pres_handle_cache: "pres (cache_ok e) (handle e ev)"
  by (cases ev; simp only: handle.simps handler_defs Let_def) (intro pres_intro; simp add: cache_ok_def split: prod.split)+

lemma items_of_str: "i \<in> set (items_of items n) \<Longrightarrow> t_str (items ! i) = n"
  by (simp add: items_of_def)

text \<open>
  C11. The cache of the items of the last element never changes an answer.  After any calls of RPM,
  in any order and with any keys, the items found for a key are those a search of the whole
  transaction finds for the element being processed, and it fails when and as the search fails.
\<close>

theorem cache_transparent:
  assumes "cb_run e (cb_init session) ls s"
  shows "fst (extract_cbkey e key s) = search_cbkey e key s"
proof -
  have "cache_ok e s"
    by (rule cb_run_keeps [OF assms _ pres_handle_cache]) (simp_all add: cache_ok_def cb_init_def)
  moreover have "t_str (ce_items e ! hd (items_of (ce_items e) n)) = n" if "items_of (ce_items e) n \<noteq> []" for n
    using items_of_str [OF hd_in_set [OF that]] .
  ultimately show ?thesis
    by (cases key) (auto simp: extract_cbkey_def search_cbkey_def cache_ok_def bind_p_apply then_p_apply Let_def
      split: sum.split intro: sum.expand)
qed

subsection \<open>What scriptlets write\<close>

definition outputs :: "nat \<Rightarrow> (nat \<times> display_call) list \<Rightarrow> string list" where
  "outputs d calls = concat (map (\<lambda>(d', c). case c of ScriptOut t \<Rightarrow> if d' = d then [t] else [] | _ \<Rightarrow> []) calls)"

definition no_raise :: "cb_env \<Rightarrow> bool" where
  "no_raise e \<longleftrightarrow> (\<forall>d c. ce_raises e d c = None)"

lemma outputs_append [simp]: "outputs d (xs @ ys) = outputs d xs @ outputs d ys"
  by (simp add: outputs_def)

lemma outputs_other: "(\<And>t. c \<noteq> ScriptOut t) \<Longrightarrow> outputs d (map (\<lambda>d. (d, c)) ds) = []"
  by (cases c) (auto simp: outputs_def)

lemma outputs_each: "d < n \<Longrightarrow> outputs d (map (\<lambda>d. (d, ScriptOut t)) [0..<n]) = [t]"
proof (induction n)
  case (Suc n)
  have "outputs d (map (\<lambda>d. (d, ScriptOut t)) [0..<n]) = []" if "n \<le> d" using that by (auto simp: outputs_def)
  with Suc show ?case by (cases "d = n") (auto simp: outputs_def)
qed simp

lemma each_display_run:
  "no_raise e \<Longrightarrow> each_display e (Inr c) s = (Inr (), s\<lparr>cb_calls := cb_calls s @ map (\<lambda>d. (d, c)) [0..<ce_displays e]\<rparr>)"
proof -
  assume e: "no_raise e"
  have "for_p (\<lambda>d. bind_p (lift_p (Inr c)) (\<lambda>c. call_display e c d)) ds s = (Inr (), s\<lparr>cb_calls := cb_calls s @ map (\<lambda>d. (d, c)) ds\<rparr>)" for ds s
    using e by (induction ds arbitrary: s) (simp_all add: call_display_def no_raise_def then_p_apply bind_p_apply)
  then show ?thesis by (simp add: each_display_def)
qed

lemma each_display_fails: "each_display e (Inl x) s = (if ce_displays e = 0 then Inr () else Inl x, s)"
  by (cases "ce_displays e") (simp_all add: each_display_def upt_rec [of 0] bind_p_apply then_p_apply)

text \<open>Each display has been told what was read, and the history has its lines.\<close>

definition told :: "cb_env \<Rightarrow> session \<Rightarrow> cb_state \<Rightarrow> bool" where
  "told e session s \<longleftrightarrow> cb_read s \<le> length (cb_pipe s) \<and>
     (\<forall>d < ce_displays e. concat (outputs d (cb_calls s)) = take (cb_read s) (cb_pipe s)) \<and>
     cb_session s = session\<lparr>si_output := si_output session @ map (Pair 1) (concat (map (splitlines_acc []) (outputs 0 (cb_calls s))))\<rparr>"

lemma scriptout_run:
  assumes "no_raise e" and "0 < ce_displays e" and "si_tid session \<noteq> None" and "told e session s"
  shows "\<exists>s'. scriptout e s = (Inr (), s') \<and> told e session s' \<and> cb_read s' = length (cb_pipe s) \<and> cb_pipe s' = cb_pipe s"
proof (cases "drop (cb_read s) (cb_pipe s) = []")
  case True
  then have "scriptout e s = (Inr (), s\<lparr>cb_read := length (cb_pipe s)\<rparr>)"
    by (simp add: scriptout_def script_output_def bind_p_apply then_p_apply)
  with True assms(4) show ?thesis by (auto simp: told_def)
next
  case False
  let ?t = "drop (cb_read s) (cb_pipe s)"
  let ?u = "s\<lparr>cb_read := length (cb_pipe s), cb_calls := cb_calls s @ map (\<lambda>d. (d, ScriptOut ?t)) [0..<ce_displays e]\<rparr>"
  have tid: "si_tid (cb_session s) \<noteq> None" using assms(3,4) by (simp add: told_def)
  let ?s = "?u\<lparr>cb_session := (cb_session s)\<lparr>si_output := si_output (cb_session s) @ map (\<lambda>l. (1, l)) (splitlines_acc [] ?t)\<rparr>\<rparr>"
  have "scriptout e s = (Inr (), ?s)"
    using False by (simp add: scriptout_def script_output_def bind_p_apply then_p_apply each_display_run [OF assms(1)] log_run [OF tid])
  moreover have "concat (outputs d (cb_calls ?s)) = cb_pipe s" if "d < ce_displays e" for d
    using that assms(4) outputs_each [OF that] by (simp add: told_def)
  moreover have "cb_session ?s = session\<lparr>si_output := si_output session @ map (Pair 1) (concat (map (splitlines_acc []) (outputs 0 (cb_calls ?s))))\<rparr>"
    using assms(4) outputs_each [OF assms(2)] by (simp add: told_def)
  ultimately show ?thesis by (simp add: told_def)
qed

lemma told_display:
  assumes "no_raise e" and "\<And>c. r = Inr c \<Longrightarrow> (\<forall>t. c \<noteq> ScriptOut t)"
  shows "pres (told e session) (each_display e r)"
proof (cases r)
  case (Inl x)
  then show ?thesis by (auto simp: each_display_fails intro!: presI)
next
  case (Inr c)
  with assms show ?thesis by (auto simp: each_display_run told_def outputs_other intro!: presI)
qed

lemma pres_told_handle:
  assumes "no_raise e" and "0 < ce_displays e" and "si_tid session \<noteq> None"
  shows "pres (told e session) (handle e ev)"
proof -
  have s: "pres (told e session) (scriptout e)"
    using scriptout_run [OF assms] by (auto intro!: presI) (metis Pair_inject)
  have x: "pres (told e session) (extract_cbkey e key)" for key
    unfolding extract_cbkey_def Let_def by (cases key; simp) (intro pres_intro; simp add: told_def)+
  note d = told_display [OF assms(1), where session = session]
  show ?thesis
    by (cases ev; simp only: handle.simps handler_defs Let_def)
      (intro s x d pres_bind pres_then pres_basic pres_modify pres_if pres_prod pres_sum pres_option; auto simp: told_def bind_r_Inr_iff split: prod.split)+
qed

definition written :: "cb_label list \<Rightarrow> string" where
  "written ls = concat (map (\<lambda>l. case l of Write t \<Rightarrow> t | _ \<Rightarrow> []) ls)"

lemma pres_pipe: "pres (\<lambda>s. cb_pipe s = p) (handle e ev)"
proof -
  have x: "pres (\<lambda>s. cb_pipe s = p) (extract_cbkey e key)" for key
    unfolding extract_cbkey_def Let_def by (cases key; simp) (intro pres_intro; simp)+
  show ?thesis
    by (cases ev; simp only: handle.simps handler_defs Let_def) (intro x pres_intro; simp split: prod.split)+
qed

lemma run_pipe: "cb_run e (cb_init session) ls s \<Longrightarrow> cb_pipe s = written ls"
proof (induction "cb_init session" ls s rule: cb_run.induct)
  case (more ls s' l s'')
  have "cb_pipe (snd (callback e ev s')) = cb_pipe s'" for ev
    by (rule callback_keeps [OF pres_pipe]) simp_all
  with more show ?case by (cases l) (simp_all add: written_def)
qed (simp_all add: cb_init_def written_def)

text \<open>The calls of RPM after which nothing that was written is left unread.\<close>

fun flushes :: "cb_env \<Rightarrow> cb_state \<Rightarrow> rpm_event \<Rightarrow> bool" where
  "flushes e s ScriptStop = True"
| "flushes e s UninstStop = (\<not> ce_test e)"
| "flushes e s InstStop = (\<not> ce_test e \<and> cb_running s)"
| "flushes e s _ = False"

text \<open>
  C12. What scriptlets write is neither lost nor doubled.  If no display fails, then after any calls of
  RPM and any writes between them, each display has been given, in pieces, a beginning of all that was
  written, in the order it was written; the history has recorded the lines of just these pieces; and
  when a scriptlet, an installation or a removal has ended, it is all that was written until then.
\<close>

theorem scriptlet_output:
  assumes run: "cb_run e (cb_init session) ls s" and "no_raise e" and "0 < ce_displays e" and "si_tid session \<noteq> None"
  shows "(\<forall>d < ce_displays e. concat (outputs d (cb_calls s)) = take (cb_read s) (written ls)) \<and>
    cb_session s = session\<lparr>si_output := si_output session @ map (Pair 1) (concat (map (splitlines_acc []) (outputs 0 (cb_calls s))))\<rparr> \<and>
    (flushes e s ev \<longrightarrow> (\<forall>d < ce_displays e. concat (outputs d (cb_calls (snd (callback e ev s)))) = written ls))"
proof -
  have t: "told e session s"
    by (rule cb_run_keeps [OF run _ pres_told_handle [OF assms(2-4)]])
      (auto simp: told_def cb_init_def outputs_def splitlines_acc.simps)
  obtain s' where s': "scriptout e s = (Inr (), s')" "told e session s'" "cb_read s' = length (cb_pipe s)" "cb_pipe s' = cb_pipe s"
    using scriptout_run [OF assms(2-4) t] by blast
  have all: "\<forall>d < ce_displays e. concat (outputs d (cb_calls u)) = written ls"
    if "told e session u" "cb_read u = length (cb_pipe s)" "cb_pipe u = cb_pipe s" for u
    using that run_pipe [OF run] by (simp add: told_def)
  have "\<forall>d < ce_displays e. concat (outputs d (cb_calls (snd (callback e ev s)))) = written ls" if "flushes e s ev"
  proof -
    from that s'(1) all [OF s'(2-4)] show ?thesis
      by (cases ev) (auto simp: callback_def no_result_def uninst_stop_def inst_stop_def then_p_apply bind_p_apply each_display_run [OF assms(2)] outputs_other)
  qed
  with t run_pipe [OF run] show ?thesis by (simp add: told_def)
qed

definition quiet_env :: cb_env where
  "quiet_env = \<lparr>ce_test = False, ce_items = [], ce_ts = [], ce_displays = 2, ce_raises = (\<lambda>d c. None), ce_local = (\<lambda>p. Inr []),
     ce_open = (\<lambda>f. Inr 3), ce_tag = (\<lambda>n. None), ce_str = p_name\<rparr>"

definition open_session :: session where
  "open_session = (new_session [])\<lparr>si_open := True, si_tid := Some 7\<rparr>"

lemma scriptlet_output_witness:
  "concat (outputs 1 (cb_calls (snd (callback quiet_env ScriptStop ((cb_init open_session)\<lparr>cb_pipe := ''one two''\<rparr>))))) = ''one two''"
proof -
  let ?s = "(cb_init open_session)\<lparr>cb_pipe := ''one two''\<rparr>"
  have "cb_run quiet_env (cb_init open_session) ([] @ [Write ''one two'']) ?s"
    by (rule cb_run.more [OF cb_run.none]) (simp add: cb_init_def)
  from scriptlet_output [OF this, of ScriptStop] show ?thesis
    by (simp add: no_raise_def quiet_env_def open_session_def written_def)
qed

definition one_removal :: cb_env where
  "one_removal = quiet_env\<lparr>ce_items := [demo_tsi REMOVE], ce_ts := [demo_el None]\<rparr>"

lemma cache_transparent_witness:
  "fst (extract_cbkey one_removal (KeyText ''foo'') (snd (callback one_removal (ElemProgress KeyNone 0)
     (snd (callback one_removal (TransStart 1) (cb_init open_session)))))) = Inr [0]"
proof -
  let ?t = "snd (callback one_removal (TransStart 1) (cb_init open_session))"
  let ?s = "snd (callback one_removal (ElemProgress KeyNone 0) ?t)"
  have "cb_run one_removal (cb_init open_session) (([] @ [Call (TransStart 1)]) @ [Call (ElemProgress KeyNone 0)]) ?s"
    by (intro cb_run.more [OF cb_run.more [OF cb_run.none]]) simp_all
  note run = cache_transparent [OF this, of "KeyText ''foo''"]
  have "cb_tes ?s = ce_ts one_removal \<and> cb_index ?s = 0" by code_simp
  then show ?thesis unfolding run
    by (simp add: search_cbkey_def one_removal_def te_nevra_def items_of_def demo_tsi_def demo_el_def RPM_ACTIONS_SET_def)
qed

end
