(* ===== verification/Bootc.thy ===== *)
theory Bootc
  imports Util_Trans
begin

text \<open>
  dnf/util.py, \<open>_BootcSystem\<close>: making \<open>/usr\<close> writable on an image based system.  The system's
  answers (OSTree's deployment state, the outcome of the two external commands and of \<open>unshare\<close>,
  the writability of \<open>/usr\<close> after what was done) are the fields of an environment; the state of the
  computation is the list of effects performed.
\<close>

datatype unlocked_state = US_NONE | US_DEVELOPMENT | US_TRANSIENT | US_HOTFIX | US_OTHER string

datatype bootc_op = OstreeUnlock | Unshare | Remount

datatype run_result = CommandMissing | ReturnCode int

record bootc_env =
  env_state :: unlocked_state
  env_unshare_rc :: int
  env_mount :: run_result
  env_unlock :: run_result
  env_writable :: "bootc_op list \<Rightarrow> bool"

definition perform :: "bootc_op \<Rightarrow> (bootc_op list, unit) prog" where
  "perform x = modify_p (\<lambda>ops. ops @ [x])"

definition is_unlocked_transient :: "bootc_env \<Rightarrow> bool" where
  "is_unlocked_transient env \<longleftrightarrow> env_state env = US_TRANSIENT"

text \<open>
  The message of a failing command is built by calling the translation function with three
  arguments, which takes one: Python raises \<open>TypeError\<close> instead of the intended error.
\<close>

definition set_up_mountns :: "bootc_env \<Rightarrow> (bootc_op list, unit) prog" where
  "set_up_mountns env =
     (if env_unshare_rc env \<noteq> 0 then raise_p (OSError ''Failed to unshare mount namespace'')
      else then_p (perform Unshare)
        (case env_mount env of
           CommandMissing \<Rightarrow> raise_p (DnfError ''mount: command not found.'')
         | ReturnCode rc \<Rightarrow> if rc = 0 then perform Remount else raise_p TypeError))"

definition unlock :: "bootc_env \<Rightarrow> (bootc_op list, unit) prog" where
  "unlock env =
     (case env_unlock env of
        CommandMissing \<Rightarrow> raise_p (DnfError ''ostree: command not found. Is this a bootc system?'')
      | ReturnCode rc \<Rightarrow> if rc = 0 then perform OstreeUnlock else raise_p TypeError)"

definition make_writable :: "bootc_env \<Rightarrow> (bootc_op list, unit) prog" where
  "make_writable env =
     then_p
       (case env_state env of
          US_OTHER nick \<Rightarrow> raise_p (ValueError (''Unhandled bootc unlocked state: '' @ nick))
        | US_DEVELOPMENT \<Rightarrow> return_p ()
        | US_HOTFIX \<Rightarrow> return_p ()
        | US_NONE \<Rightarrow> then_p (unlock env) (set_up_mountns env)
        | US_TRANSIENT \<Rightarrow> set_up_mountns env)
       (bind_p (gets_p (env_writable env)) (\<lambda>w. if w then return_p () else raise_p AssertionError))"

text \<open>The effects each state calls for, when every command succeeds.\<close>

fun bootc_plan :: "unlocked_state \<Rightarrow> bootc_op list option" where
  "bootc_plan US_NONE = Some [OstreeUnlock, Unshare, Remount]"
| "bootc_plan US_DEVELOPMENT = Some []"
| "bootc_plan US_HOTFIX = Some []"
| "bootc_plan US_TRANSIENT = Some [Unshare, Remount]"
| "bootc_plan (US_OTHER nick) = None"

lemmas bootc_defs = make_writable_def unlock_def set_up_mountns_def perform_def prog_simps

text \<open>
  \<open>make_writable\<close> returns only when \<open>/usr\<close> is writable, after exactly the effects the unlocked
  state calls for: nothing on a development or hotfix deployment, the remount in a private
  namespace on a transient one, preceded by the unlock on a locked one; an unknown state is refused
  with no effect.  When the commands of the plan succeed and leave \<open>/usr\<close> writable, it does return.
\<close>

theorem make_writable_plan:
  "(make_writable env [] = (Inr (), ops) \<longrightarrow>
      bootc_plan (env_state env) = Some ops \<and> env_writable env ops) \<and>
   (bootc_plan (env_state env) = None \<longrightarrow> snd (make_writable env []) = [] \<and>
      (\<exists>m. fst (make_writable env []) = Inl (ValueError m))) \<and>
   (bootc_plan (env_state env) = Some ops \<longrightarrow> env_unshare_rc env = 0 \<longrightarrow> env_mount env = ReturnCode 0 \<longrightarrow>
      env_unlock env = ReturnCode 0 \<longrightarrow> env_writable env ops \<longrightarrow> make_writable env [] = (Inr (), ops))"
  by (cases "env_state env")
    (auto simp: bootc_defs split: run_result.splits if_splits prod.splits sum.splits)

definition demo_bootc :: "unlocked_state \<Rightarrow> int \<Rightarrow> bootc_env" where
  "demo_bootc st rc = \<lparr>env_state = st, env_unshare_rc = 0, env_mount = ReturnCode rc,
     env_unlock = ReturnCode 0, env_writable = (\<lambda>ops. Remount \<in> set ops)\<rparr>"

lemma make_writable_plan_witness:
  "make_writable (demo_bootc US_NONE 0) [] = (Inr (), [OstreeUnlock, Unshare, Remount])"
  using make_writable_plan [of "demo_bootc US_NONE 0" "[OstreeUnlock, Unshare, Remount]"]
  by (simp add: demo_bootc_def)

text \<open>The failing remount: what reaches the caller is not an error of dnf.\<close>

lemma mount_failure_is_type_error:
  "env_unshare_rc env = 0 \<Longrightarrow> env_mount env = ReturnCode rc \<Longrightarrow> rc \<noteq> 0 \<Longrightarrow> env_state env = US_TRANSIENT
    \<Longrightarrow> make_writable env [] = (Inl TypeError, [Unshare])"
  by (simp add: bootc_defs)

end
