(* ===== verification/Signatures.thy ===== *)
theory Signatures
  imports Util Glob
begin

text \<open>
  The verification of package signatures: dnf/rpm/miscutils.py (the report of rpmkeys),
  dnf/yum/misc.py (installed keys, armored keys), \<open>Base._sig_check_pkg\<close> and
  \<open>Base._get_key_for_package\<close> of dnf/base.py, and \<open>BaseCli.gpgsigcheck\<close> of dnf/cli/cli.py.
  The programs and libraries behind them (rpmkeys, RPM's database of keys, the download of a key,
  DNSSEC, the user at the terminal) are the fields of \<open>sig_lib\<close>.
\<close>

subsection \<open>The report of rpmkeys\<close>

text \<open>The flags are: trusted signature, missing key, signature not trusted, not signed.\<close>

fun scan_report :: "string list \<Rightarrow> bool \<times> bool \<times> bool \<times> bool \<Rightarrow> (bool \<times> bool \<times> bool \<times> bool) option" where
  "scan_report [] fl = Some fl"
| "scan_report (i # is) (t, k, n, u) =
     (if is_sub '': BAD'' i then None
      else if endswith i '': NOKEY'' then scan_report is (t, True, n, u)
      else if endswith i '': NOTTRUSTED'' then scan_report is (t, k, True, u)
      else if endswith i '': NOTFOUND'' then scan_report is (t, k, n, True)
      else if endswith i '': OK'' \<and> is_sub ''ignature,'' i then scan_report is (True, k, n, u)
      else if \<not> endswith i '': OK'' then None
      else scan_report is (t, k, n, u))"

definition process_rpm_output :: "string list \<Rightarrow> nat" where
  "process_rpm_output data =
     (if length data < 3 \<or> hd data \<noteq> ''-:'' \<or> last data \<noteq> [] then 2
      else case scan_report (butlast (tl data)) (False, False, False, False) of
             None \<Rightarrow> 2
           | Some (trusted_sig, missing_key, not_trusted, not_signed) \<Rightarrow>
               if missing_key then 1
               else if \<not> trusted_sig \<and> not_trusted then 3
               else if not_signed then 4
               else 0)"

datatype validity = VALID | REVOKED | PROVEN_NONEXISTENCE | RESULT_NOT_SECURE | BOGUS_RESULT | DNS_ERROR

record key_info =
  ki_id :: string
  ki_userid :: string
  ki_raw :: string
  ki_timestamp :: int

text \<open>
  What the check asks of its surroundings.  What rpmkeys says of a file and which keys RPM's database
  lists depend on the keys imported so far; \<open>sl_answer n\<close> is the answer to the \<open>n\<close>-th question.
\<close>

record sig_lib =
  sl_binary :: bool
  sl_open :: "string \<Rightarrow> string option"
  sl_run :: "string list \<Rightarrow> string \<Rightarrow> int \<times> string"
  sl_retrieve :: "string \<Rightarrow> key_info list res"
  sl_headers :: "string list \<Rightarrow> (string \<times> int) list"
  sl_import :: "bool \<Rightarrow> string \<Rightarrow> int"
  sl_dns :: "key_info \<Rightarrow> validity"
  sl_answer :: "nat \<Rightarrow> bool"

definition verify_package :: "sig_lib \<Rightarrow> string list \<Rightarrow> string \<Rightarrow> nat" where
  "verify_package l keyring path =
     (if \<not> sl_binary l then 2
      else let (returncode, data) = sl_run l keyring path
           in if returncode \<ge> 2 \<or> returncode < 0 then 2
              else let ret = process_rpm_output (split_on CHR 0x0A data)
                   in if ret \<noteq> 0 then ret else if returncode \<noteq> 0 then 2 else 0)"

definition check_sig :: "sig_lib \<Rightarrow> string list \<Rightarrow> string \<Rightarrow> nat res" where
  "check_sig l keyring path =
     (case sl_open l path of Some e \<Rightarrow> Inl (OSError e) | None \<Rightarrow> Inr (verify_package l keyring path))"

subsection \<open>Keys\<close>

text \<open>\<open>Key.short_id\<close> and \<open>rpm_id\<close> of dnf/crypto.py.\<close>

definition short_id :: "key_info \<Rightarrow> string" where
  "short_id k = (let tail = drop (length (ki_id k) - 8) (ki_id k) in replicate (8 - length tail) CHR ''0'' @ tail)"

definition rpm_id :: "key_info \<Rightarrow> string" where
  "rpm_id k = map to_lower (short_id k)"

fun key_installed :: "(string \<times> int) list \<Rightarrow> string \<Rightarrow> int \<Rightarrow> int" where
  "key_installed [] keyid timestamp = - 1"
| "key_installed ((version, installedts) # hdrs) keyid timestamp =
     (if version = keyid
      then if installedts = timestamp then 0 else if installedts < timestamp then 1 else 2
      else key_installed hdrs keyid timestamp)"

text \<open>
  \<open>procgpgkey\<close>: the base64 body of an armored key.  Decoding it is left with RPM's import.
\<close>

fun unify_newlines :: "bool \<Rightarrow> string \<Rightarrow> string" where
  "unify_newlines after_cr [] = []"
| "unify_newlines after_cr (c # s) =
     (if c = CHR 0x0D then CHR 0x0A # unify_newlines True s
      else if c = CHR 0x0A \<and> after_cr then unify_newlines False s
      else c # unify_newlines False s)"

fun armor_loop :: "bool \<Rightarrow> bool \<Rightarrow> string list \<Rightarrow> string" where
  "armor_loop inblock pastheaders [] = []"
| "armor_loop inblock pastheaders (line # lines) =
     (if startswith line ''-----BEGIN PGP PUBLIC KEY BLOCK-----'' then armor_loop True pastheaders lines
      else if inblock \<and> strip line = [] then armor_loop inblock True lines
      else if inblock \<and> startswith line ''-----END PGP PUBLIC KEY BLOCK-----'' then []
      else if pastheaders \<and> startswith line ''='' then []
      else if pastheaders then line @ nl @ armor_loop inblock pastheaders lines
      else armor_loop inblock pastheaders lines)"

definition procgpgkey :: "string \<Rightarrow> string" where
  "procgpgkey rawkey = armor_loop False False (split_on CHR 0x0A (unify_newlines False rawkey))"

subsection \<open>The signature of a package\<close>

record sig_pkg =
  sp_str :: string
  sp_cmdline :: bool
  sp_repoid :: string
  sp_path :: string

record sig_repo =
  sr_name :: string
  sr_gpgcheck :: bool
  sr_gpgkey :: "string list"

record sig_conf =
  sc_localpkg_gpgcheck :: bool
  sc_assumeyes :: bool
  sc_assumeno :: bool
  sc_dns :: bool
  sc_repos :: "(string, sig_repo) dict"

text \<open>Whether the check is on for a package, and whether its repository names a key.\<close>

definition check_wanted :: "sig_conf \<Rightarrow> sig_pkg \<Rightarrow> (bool \<times> bool) res" where
  "check_wanted c po =
     (if sp_cmdline po then Inr (sc_localpkg_gpgcheck c, False)
      else bind_r (dict_get (sc_repos c) (sp_repoid po)) (\<lambda>repo. Inr (sr_gpgcheck repo, sr_gpgkey repo \<noteq> [])))"

definition sig_check_pkg :: "sig_conf \<Rightarrow> sig_lib \<Rightarrow> string list \<Rightarrow> sig_pkg \<Rightarrow> (nat \<times> string) res" where
  "sig_check_pkg c l keyring po =
     bind_r (check_wanted c po) (\<lambda>(check, hasgpgkey).
       if check
       then bind_r (check_sig l keyring (sp_path po)) (\<lambda>sigresult.
         let localfn = snd (path_split (sp_path po)); retry = (if hasgpgkey then 1 else 2)
         in if sigresult = 0 then Inr (0, [])
            else if sigresult = 1 then Inr (retry, ''Public key for '' @ localfn @ '' is not installed'')
            else if sigresult = 2 then Inr (2, ''Problem opening package '' @ localfn)
            else if sigresult = 3 then Inr (retry, ''Public key for '' @ localfn @ '' is not trusted'')
            else Inr (2, ''Package '' @ localfn @ '' is not signed''))
       else Inr (0, []))"

subsection \<open>Getting a key\<close>

text \<open>
  The state: the keys imported so far, the repositories whose keys were tried
  (\<open>_repo_set_imported_gpg_keys\<close>), the keys the user was asked about, the test flag of the transaction
  set and the messages logged when the check fails.
\<close>

record sig_state =
  ss_keyring :: "string list"
  ss_tried :: "string list"
  ss_questions :: "key_info list"
  ss_test :: bool
  ss_log :: "string list"

definition approve_key :: "sig_conf \<Rightarrow> sig_lib \<Rightarrow> bool \<Rightarrow> key_info \<Rightarrow> (sig_state, bool) prog" where
  "approve_key c l asks info =
     (if sc_assumeno c then return_p False
      else if sc_assumeyes c
      then return_p (if sc_dns c then sl_dns l info = VALID \<or> sl_dns l info = PROVEN_NONEXISTENCE else True)
      else if asks
      then bind_p (gets_p (\<lambda>s. sl_answer l (length (ss_questions s)))) (\<lambda>answer.
           then_p (modify_p (\<lambda>s. s\<lparr>ss_questions := ss_questions s @ [info]\<rparr>)) (return_p answer))
      else return_p False)"

definition import_key :: "sig_lib \<Rightarrow> key_info \<Rightarrow> (sig_state, int) prog" where
  "import_key l info =
     bind_p (gets_p ss_test) (\<lambda>test_flag.
     then_p (if test_flag then modify_p (\<lambda>s. s\<lparr>ss_test := False\<rparr>) else return_p ())
     (bind_p (gets_p (\<lambda>s. sl_import l (ss_test s) (procgpgkey (ki_raw info)))) (\<lambda>result.
      then_p (if result = 0 then modify_p (\<lambda>s. s\<lparr>ss_keyring := ss_keyring s @ [ki_raw info]\<rparr>) else return_p ())
      (then_p (if test_flag then modify_p (\<lambda>s. s\<lparr>ss_test := True\<rparr>) else return_p ())
        (return_p result)))))"

definition prov_key_data :: "sig_pkg \<Rightarrow> sig_repo \<Rightarrow> string \<Rightarrow> string" where
  "prov_key_data po repo msg =
     msg @ ''. Failing package is: '' @ sp_str po @ nl @ '' '' @ ''GPG Keys are configured as: '' @ join_str '', '' (sr_gpgkey repo)"

text \<open>The loops over the keys of a URL and over the URLs; the flags are \<open>user_cb_fail\<close> and \<open>key_installed\<close>.\<close>

fun keys_loop :: "sig_conf \<Rightarrow> sig_lib \<Rightarrow> sig_pkg \<Rightarrow> sig_repo \<Rightarrow> bool \<Rightarrow> key_info list \<Rightarrow> bool \<times> bool \<Rightarrow> (sig_state, bool \<times> bool) prog" where
  "keys_loop c l po repo asks [] (failed, installed) = return_p (failed, installed)"
| "keys_loop c l po repo asks (info # infos) (failed, installed) =
     bind_p (gets_p (\<lambda>s. key_installed (sl_headers l (ss_keyring s)) (rpm_id info) (ki_timestamp info))) (\<lambda>have.
       if have \<ge> 0 then keys_loop c l po repo asks infos (failed, installed)
       else bind_p (approve_key c l asks info) (\<lambda>rc.
         if \<not> rc then keys_loop c l po repo asks infos (True, installed)
         else bind_p (import_key l info) (\<lambda>result.
           if result \<noteq> 0
           then raise_p (DnfError (prov_key_data po repo (''Key import failed (code '' @ int_str result @ '')'')))
           else keys_loop c l po repo asks infos (failed, True))))"

fun urls_loop :: "sig_conf \<Rightarrow> sig_lib \<Rightarrow> sig_pkg \<Rightarrow> sig_repo \<Rightarrow> bool \<Rightarrow> string list \<Rightarrow> bool \<times> bool \<Rightarrow> (sig_state, bool \<times> bool) prog" where
  "urls_loop c l po repo asks [] fl = return_p fl"
| "urls_loop c l po repo asks (u # us) fl =
     bind_p (lift_p (sl_retrieve l u)) (\<lambda>infos.
     bind_p (keys_loop c l po repo asks infos fl) (urls_loop c l po repo asks us))"

definition get_key_for_package :: "sig_conf \<Rightarrow> sig_lib \<Rightarrow> bool \<Rightarrow> sig_pkg \<Rightarrow> (sig_state, unit) prog" where
  "get_key_for_package c l asks po =
     (if sp_cmdline po then raise_p (ValueError (''Unable to retrieve a key for a commandline package: '' @ sp_str po))
      else bind_p (lift_p (dict_get (sc_repos c) (sp_repoid po))) (\<lambda>repo.
      bind_p (gets_p (\<lambda>s. sp_repoid po \<in> set (ss_tried s))) (\<lambda>tried.
      then_p (modify_p (\<lambda>s. s\<lparr>ss_tried := ss_tried s @ [sp_repoid po]\<rparr>))
      (bind_p (urls_loop c l po repo asks (if tried then [] else sr_gpgkey repo) (False, tried)) (\<lambda>(failed, installed).
         if \<not> installed \<and> failed then raise_p (DnfError (''Didn'' @ sq @ ''t install any keys''))
         else if \<not> installed
         then raise_p (InvalidKeyError (prov_key_data po repo (''The GPG keys listed for the '' @ dq @ sr_name repo @ dq @
           '' repository are already installed but they are not correct for this package.'' @ nl @
           ''Check that the correct key URLs are configured for this repository.'')))
         else bind_p (gets_p (\<lambda>s. sig_check_pkg c l (ss_keyring s) po)) (\<lambda>r.
              bind_p (lift_p r) (\<lambda>(result, errmsg).
                if result \<noteq> 0 then raise_p (DnfError (prov_key_data po repo errmsg)) else return_p ())))))))"

subsection \<open>All packages of a transaction\<close>

fun is_value_error :: "exn \<Rightarrow> bool" where
  "is_value_error (ValueError m) = True"
| "is_value_error e = False"

fun is_invalid_key :: "exn \<Rightarrow> bool" where
  "is_invalid_key (InvalidKeyError m) = True"
| "is_invalid_key e = False"

definition try_key :: "sig_conf \<Rightarrow> sig_lib \<Rightarrow> sig_pkg \<Rightarrow> (sig_state, exn option) prog" where
  "try_key c l po = catch_p (then_p (get_key_for_package c l True po) (return_p None))
     (\<lambda>e. if dnf_error e \<or> is_value_error e then Some (return_p (Some e)) else None)"

text \<open>
  The loop of \<open>gpgsigcheck\<close> with its list of error messages and whether a hint is due; \<open>tty\<close> is whether
  the standard input is a terminal.
\<close>

fun gpg_loop :: "sig_conf \<Rightarrow> sig_lib \<Rightarrow> bool \<Rightarrow> sig_pkg list \<Rightarrow> string list \<times> bool \<Rightarrow> (sig_state, string list \<times> bool) prog" where
  "gpg_loop c l tty [] eh = return_p eh"
| "gpg_loop c l tty (po # pos) (errs, hint) =
     bind_p (gets_p (\<lambda>s. sig_check_pkg c l (ss_keyring s) po)) (\<lambda>r.
     bind_p (lift_p r) (\<lambda>(result, errmsg).
       if result = 0 then gpg_loop c l tty pos (errs, hint)
       else if result = 1
       then if \<not> tty \<and> \<not> (sc_assumeyes c \<and> \<not> sc_assumeno c)
            then raise_p (DnfError (''Refusing to automatically import keys when running unattended.'' @ nl @
              ''Use '' @ dq @ ''-y'' @ dq @ '' to override.''))
            else bind_p (try_key c l po) (\<lambda>e. gpg_loop c l tty pos (case e of
                None \<Rightarrow> (errs, hint) | Some e \<Rightarrow> (errs @ [exn_text e], hint \<or> is_invalid_key e)))
       else gpg_loop c l tty pos (errs @ [errmsg], hint)))"

definition hint_text :: string where
  "hint_text = nl @ ''Try to add '' @ sq @ ''--enableplugin=expired-pgp-keys'' @ sq @
     '' to resolve the problem. Note: This plugin might not be installed by default, as it is part of the '' @
     sq @ ''dnf-plugins-core'' @ sq @ '' package.'' @ nl"

definition gpgsigcheck :: "sig_conf \<Rightarrow> sig_lib \<Rightarrow> bool \<Rightarrow> sig_pkg list \<Rightarrow> (sig_state, unit) prog" where
  "gpgsigcheck c l tty pkgs =
     bind_p (gpg_loop c l tty pkgs ([], False)) (\<lambda>(error_messages, hint).
       if error_messages \<noteq> []
       then then_p (modify_p (\<lambda>s. s\<lparr>ss_log := ss_log s @ error_messages @ (if hint then [hint_text] else [])\<rparr>))
              (raise_p (DnfError ''GPG check FAILED''))
       else return_p ())"

end
