(* ===== verification/Transaction_Run.thy ===== *)
theory Transaction_Run
  imports Rpm_Sync Bootc Rpm_Transaction Signatures Format
begin

text \<open>
  Running a transaction: \<open>Base.do_transaction\<close>, \<open>_run_transaction\<close>, \<open>_verify_transaction\<close> and
  \<open>_trans_error_summary\<close> of dnf/base.py, and \<open>BaseCli.do_transaction\<close> of dnf/cli/cli.py around them.
  The population of the RPM transaction set, the reconciliation with the history, the check of the
  signatures and the unlocking of a bootc system are the definitions of their own theories.  What the
  rest of the world answers is in \<open>run_env\<close> and \<open>cli_env\<close>; what is done to it is logged as events.
  The post-transaction summary in the debug log is left out.
\<close>

subsection \<open>The summary of errors\<close>

definition ascii_space :: "char \<Rightarrow> bool" where
  "ascii_space = py_space"

text \<open>
  One match of \<open>needs (\d+)(K|M)B(?: more space)? on the (\S+) filesystem\<close> at the start of a text: the
  size in megabytes, the file system and the rest.  The quotient of the division by 1024.0 is exact for
  the sizes of real disks.
\<close>

definition match_need :: "string \<Rightarrow> (nat \<times> string \<times> string) option" where
  "match_need s =
     Option.bind (strip_prefix s ''needs '') (\<lambda>s.
     let ds = takeWhile is_digit s; s = drop (length ds) s
     in Option.bind (read_digits ds) (\<lambda>n.
     Option.bind (case s of [] \<Rightarrow> None | c # s \<Rightarrow> if c = CHR ''M'' then Some (n, s) else if c = CHR ''K'' then Some ((n + 1023) div 1024, s) else None) (\<lambda>(mb, s).
     Option.bind (strip_prefix s ''B'') (\<lambda>s.
     Option.bind (strip_prefix (case strip_prefix s '' more space'' of None \<Rightarrow> s | Some s \<Rightarrow> s) '' on the '') (\<lambda>s.
     let fs = takeWhile (\<lambda>c. \<not> ascii_space c) s
     in if fs = [] then None
        else Option.bind (strip_prefix (drop (length fs) s) '' filesystem'') (\<lambda>rest. Some (mb, fs, rest)))))))"

lemma strip_prefix_length: "strip_prefix s p = Some r \<Longrightarrow> length r + length p = length s"
  by (auto simp: strip_prefix_Some_iff)

lemma match_need_length: "match_need s = Some (mb, fs, rest) \<Longrightarrow> length rest < length s"
  by (force simp: match_need_def Let_def bind_eq_Some_conv split: if_splits list.splits option.splits
      dest!: strip_prefix_length dest: arg_cong [of _ _ length])

definition note_need :: "(string, nat) dict \<Rightarrow> nat \<Rightarrow> string \<Rightarrow> (string, nat) dict" where
  "note_need disk mb fs =
     (case map_of disk fs of
        None \<Rightarrow> dict_set fs mb disk
      | Some n \<Rightarrow> if n < mb then dict_set fs mb disk else disk)"

function disk_loop :: "string \<Rightarrow> (string, nat) dict \<Rightarrow> (string, nat) dict" where
  "disk_loop s disk =
     (case match_need s of
        Some (mb, fs, rest) \<Rightarrow> disk_loop rest (note_need disk mb fs)
      | None \<Rightarrow> (case s of [] \<Rightarrow> disk | c # s' \<Rightarrow> disk_loop s' disk))"
  by pat_completeness auto
termination by (relation "measure (\<lambda>(s, _). length s)") (auto dest: match_need_length)

declare disk_loop.simps [simp del]

definition trans_error_summary :: "string \<Rightarrow> string option" where
  "trans_error_summary errstring =
     (let disk = disk_loop errstring [] in
      if disk = [] then None
      else Some (''Error Summary'' @ nl @ ''-------------'' @ nl @ ''Disk Requirements:'' @ nl @
        concat (map (\<lambda>(fs, mb). ''   At least '' @ nat_str mb @ ''MB more space needed on the '' @ fs @ '' filesystem.'' @ nl) disk)))"

subsection \<open>Events, environment and state\<close>

datatype run_event =
    RpmdbClosed
  | Prompted bool
  | Unlocked "bootc_op list"
  | Downloaded "pkg list"
  | GpgChecked "pkg list"
  | LockTaken | LockReleased
  | Populated "ts_call list"
  | RpmChecked | RpmTested
  | ModulesSaved | FailSafeUpdated
  | PrePlugins | RunPlugins | UnloadPlugins
  | HistBegin string "string option" string bool
  | HistEnd string
  | SetNice int
  | RpmRun
  | FileUnlinked string
  | GroupPackageInstalled string
  | Logged string

record run_env =
  ru_cmdline :: "string option"
  ru_comment :: string
  ru_groups_changed :: bool
  ru_last :: "string option"
  ru_cookie :: string
  ru_cookie_after :: string
  ru_tid :: int
  ru_lock :: "exn option"
  ru_rpm :: rpm_lib
  ru_check_msgs :: "string list"
  ru_test_errors :: "string list"
  ru_test_flag :: bool
  ru_history_record :: bool
  ru_reset_nice :: bool
  ru_nice :: int
  ru_nice_fails :: bool
  ru_result :: "string list option"
  ru_elements :: "rpm_el list"
  ru_ts_files :: "(string \<times> bool) list"
  ru_installed_names :: "string list"
  ru_group_pkgs :: "string list"
  ru_raises :: "run_event \<Rightarrow> exn option"

record run_state =
  rs_log :: "run_event list"
  rs_items :: "tsi list"
  rs_success :: bool
  rs_install_set :: "bool option"
  rs_transient :: bool
  rs_sig :: sig_state

definition say :: "run_event \<Rightarrow> (run_state, unit) prog" where
  "say ev = modify_p (\<lambda>s. s\<lparr>rs_log := rs_log s @ [ev]\<rparr>)"

text \<open>A step outside dnf, in libdnf, RPM or a plugin, which may raise instead of being done.\<close>

definition act :: "run_env \<Rightarrow> run_event \<Rightarrow> (run_state, unit) prog" where
  "act b ev = (case ru_raises b ev of None \<Rightarrow> say ev | Some e \<Rightarrow> raise_p e)"

text \<open>\<open>history.beg\<close> with the persistence chosen before.\<close>

definition begin_history :: "run_env \<Rightarrow> string \<Rightarrow> string \<Rightarrow> (run_state, unit) prog" where
  "begin_history b v comment = bind_p (gets_p rs_transient) (\<lambda>tr. act b (HistBegin v (ru_cmdline b) comment tr))"

text \<open>\<open>with lock: m\<close>: an exception of \<open>m\<close> propagates after the lock is released.\<close>

definition with_lock :: "run_env \<Rightarrow> (run_state, 'a) prog \<Rightarrow> (run_state, 'a) prog" where
  "with_lock b m =
     (case ru_lock b of
        Some e \<Rightarrow> raise_p e
      | None \<Rightarrow> then_p (say LockTaken) (\<lambda>s. case m s of (r, s') \<Rightarrow> (r, snd (say LockReleased s'))))"

subsection \<open>The RPM transaction\<close>

definition verify_transaction :: "run_env \<Rightarrow> (run_state, unit) prog" where
  "verify_transaction b =
     bind_p (gets_p (\<lambda>s. filter (\<lambda>t. t_action t \<noteq> REASON_CHANGE) (rs_items s))) (\<lambda>transaction_items.
     then_p (for_p (\<lambda>n. if n \<in> set (ru_installed_names b) then act b (GroupPackageInstalled n) else return_p ()) (ru_group_pkgs b))
     (then_p (for_p (\<lambda>t. bind_p (lift_p (tsi_pkg t)) (\<lambda>_. return_p ())) transaction_items)
     (then_p (act b (HistEnd (ru_cookie_after b)))
       (modify_p (\<lambda>s. s\<lparr>rs_success := True\<rparr>)))))"

definition sync_history :: "run_env \<Rightarrow> (run_state, unit) prog" where
  "sync_history b = (\<lambda>s. case sync_rpm_trans (ru_elements b) (sync_start (rs_items s)) of
     (r, sy) \<Rightarrow> (r, s\<lparr>rs_items := sy_items sy, rs_log := rs_log s @ map Logged (sy_critical sy)\<rparr>))"

definition record_history :: "run_env \<Rightarrow> bool" where
  "record_history b \<longleftrightarrow> ru_history_record b \<and> \<not> ru_test_flag b"

text \<open>What \<open>ts.run\<close> returned: \<open>None\<close> is success, the empty list a failing element or a global error.\<close>

definition check_run_result :: "run_env \<Rightarrow> (run_state, unit) prog" where
  "check_run_result b =
     (case ru_result b of
        None \<Rightarrow> return_p ()
      | Some [] \<Rightarrow> if \<not> list_ex te_Failed (ru_elements b) then raise_p (DnfError ''Could not run transaction.'') else return_p ()
      | Some errors \<Rightarrow>
          then_p (say (Logged (''Transaction couldn'' @ sq @ ''t start:'')))
          (then_p (for_p (\<lambda>e. say (Logged e)) errors)
          (then_p (if record_history b \<and> \<not> ru_test_flag b then act b (HistEnd (ru_cookie b)) else return_p ())
            (raise_p (DnfError ''Could not run transaction.'')))))"

definition unlink_ts_file :: "string \<times> bool \<Rightarrow> (run_state, unit) prog" where
  "unlink_ts_file = (\<lambda>(fn, fails). if fails then say (Logged (''Failed to remove transaction file '' @ fn)) else say (FileUnlinked fn))"

text \<open>\<open>ts.run\<close>: a callback may raise in the middle of it.\<close>

definition run_rpm :: "run_env \<Rightarrow> (run_state, unit) prog" where
  "run_rpm b = then_p (say RpmRun) (case ru_raises b RpmRun of None \<Rightarrow> return_p () | Some e \<Rightarrow> raise_p e)"

definition run_transaction :: "run_env \<Rightarrow> (run_state, int option) prog" where
  "run_transaction b =
     then_p (if record_history b then begin_history b (ru_cookie b) (ru_comment b) else return_p ())
     (then_p (if ru_reset_nice b \<and> ru_nice b \<noteq> 0 \<and> \<not> ru_nice_fails b then say (SetNice (- ru_nice b)) else return_p ())
     (then_p (run_rpm b)
     (then_p (if ru_reset_nice b \<and> \<not> ru_nice_fails b then say (SetNice (ru_nice b)) else return_p ())
     (then_p (sync_history b)
     (then_p (check_run_result b)
     (then_p (for_p unlink_ts_file (ru_ts_files b))
     (bind_p (gets_p (\<lambda>s. install_set (rs_items s))) (\<lambda>r.
      bind_p (lift_p r) (\<lambda>ps.
      then_p (modify_p (\<lambda>s. s\<lparr>rs_install_set := Some (ps \<noteq> {})\<rparr>))
      (then_p (if \<not> ru_test_flag b then verify_transaction b else return_p ())
        (return_p (if record_history b then Some (ru_tid b) else None))))))))))))"

text \<open>What is done under the lock; \<^const>\<open>None\<close> when a test transaction returns early.\<close>

definition locked_part :: "run_env \<Rightarrow> (run_state, int option option) prog" where
  "locked_part b =
     bind_p (gets_p (\<lambda>s. populate_rpm_ts (ru_rpm b) (rs_items s) ([], 0))) (\<lambda>(r, calls, problems).
     then_p (say (Populated calls))
     (then_p (lift_p r)
     (if ru_check_msgs b \<noteq> []
      then then_p (for_p (\<lambda>m. say (Logged m)) (''Error: transaction check vs depsolve:'' # ru_check_msgs b))
             (raise_p (CheckError (last (ru_check_msgs b))))
      else then_p (act b RpmChecked)
        (if ru_test_errors b \<noteq> []
         then let errstring = ''Transaction test error:'' @ nl @ concat (map (\<lambda>d. ''  '' @ d @ nl) (ru_test_errors b))
              in raise_p (DnfError (errstring @ (case trans_error_summary errstring of None \<Rightarrow> [] | Some m \<Rightarrow> nl @ m)))
         else then_p (act b RpmTested)
           (if ru_test_flag b then return_p None
            else then_p (act b ModulesSaved) (then_p (act b FailSafeUpdated) (then_p (act b PrePlugins)
              (bind_p (run_transaction b) (\<lambda>tid. return_p (Some tid))))))))))"

definition base_do_transaction :: "run_env \<Rightarrow> (run_state, int option) prog" where
  "base_do_transaction b =
     bind_p (gets_p rs_items) (\<lambda>items.
       if items = []
       then then_p (act b ModulesSaved) (then_p (act b FailSafeUpdated)
         (then_p (if ru_groups_changed b
                  then let v = (case ru_last b of None \<Rightarrow> ru_cookie b | Some v \<Rightarrow> v)
                       in then_p (begin_history b v []) (act b (HistEnd v))
                  else return_p ())
         (then_p (act b PrePlugins) (then_p (act b RunPlugins)
         (then_p (modify_p (\<lambda>s. s\<lparr>rs_success := True\<rparr>)) (return_p None))))))
       else bind_p (with_lock b (locked_part b)) (\<lambda>tid.
         case tid of
           None \<Rightarrow> return_p None
         | Some tid \<Rightarrow> then_p (act b UnloadPlugins) (then_p (act b RunPlugins) (return_p tid))))"

subsection \<open>The command line around it\<close>

datatype persistence = Auto | Persist | Transient

record cli_env =
  cl_base :: run_env
  cl_stream_switch :: bool
  cl_switched :: "(string \<times> string \<times> string) list"
  cl_module_changed :: bool
  cl_downloadonly :: bool
  cl_assumeyes :: bool
  cl_assumeno :: bool
  cl_answer :: bool
  cl_bootc_system :: bool
  cl_root :: bool
  cl_persistence :: persistence
  cl_bootc :: bootc_env
  cl_protected :: "string list"
  cl_files :: "pkg \<Rightarrow> string list"
  cl_download :: "exn option"
  cl_sig_conf :: sig_conf
  cl_sig_lib :: sig_lib
  cl_tty :: bool
  cl_sig_pkg :: "pkg \<Rightarrow> sig_pkg"

definition prompt_wanted :: "cli_env \<Rightarrow> bool" where
  "prompt_wanted c = (if cl_assumeyes c \<and> \<not> cl_assumeno c then False else True)"

definition report_module_switch :: "(string \<times> string \<times> string) list \<Rightarrow> (run_state, unit) prog" where
  "report_module_switch switched = for_p (\<lambda>(m, a, b). say (Logged (''The operation would result in switching of module '' @
     sq @ m @ sq @ '' stream '' @ sq @ a @ sq @ '' to stream '' @ sq @ b @ sq))) switched"

text \<open>The packages to install and those to remove.\<close>

fun split_items :: "tsi list \<Rightarrow> (pkg list \<times> pkg list) res" where
  "split_items [] = Inr ([], [])"
| "split_items (t # ts) =
     (if t_action t \<in> set FORWARD_ACTIONS
      then bind_r (tsi_pkg t) (\<lambda>p. bind_r (split_items ts) (\<lambda>(ins, rm). Inr (p # ins, rm)))
      else if t_action t \<in> set BACKWARD_ACTIONS
      then bind_r (tsi_pkg t) (\<lambda>p. bind_r (split_items ts) (\<lambda>(ins, rm). Inr (ins, p # rm)))
      else split_items ts)"

text \<open>The protected paths an item touches, once for each pattern.\<close>

definition protected_hits :: "cli_env \<Rightarrow> tsi \<Rightarrow> (string \<times> string list) res" where
  "protected_hits c t =
     bind_r (tsi_pkg t) (\<lambda>p. Inr (t_str t,
       concat (map (\<lambda>f. map (\<lambda>_. f) (filter (\<lambda>pat. fnmatch f pat) (cl_protected c))) (sort (cl_files c p)))))"

definition collect_hits :: "(string \<times> string list) list \<Rightarrow> (string, string list) dict" where
  "collect_hits hits =
     foldl (\<lambda>d (nevra, paths). if paths = [] then d
       else dict_set nevra ((case map_of d nevra of None \<Rightarrow> [] | Some ps \<Rightarrow> ps) @ paths) d) [] hits"

definition check_protected :: "cli_env \<Rightarrow> tsi list \<Rightarrow> (run_state, unit) prog" where
  "check_protected c items =
     bind_p (lift_p (map_r (protected_hits c) items)) (\<lambda>hits.
       let found = collect_hits hits
       in if found = [] then return_p ()
          else then_p (say (Logged (''This operation would modify the following paths, possibly introducing inconsistencies when the '' @
              ''transient overlay on /usr is discarded. See the usr_drift_protected_paths configuration option for more information.'')))
            (then_p (for_p (\<lambda>(nevra, paths). then_p (say (Logged nevra)) (for_p (\<lambda>p. say (Logged (''  '' @ p))) paths)) found)
              (raise_p (CliError (''Operation aborted. Pass --setopt=usr_drift_protected_paths= to disable this check and proceed anyway.'')))))"

definition bootc_transaction :: "cli_env \<Rightarrow> bool" where
  "bootc_transaction c \<longleftrightarrow> cl_bootc_system c \<and> cl_root c \<and> \<not> cl_downloadonly c"

definition needs_unlock :: "cli_env \<Rightarrow> bool" where
  "needs_unlock c \<longleftrightarrow> bootc_transaction c \<and> \<not> env_writable (cl_bootc c) []"

definition persistence_guard :: "cli_env \<Rightarrow> tsi list \<Rightarrow> (run_state, unit) prog" where
  "persistence_guard c items =
     (if bootc_transaction c
      then if cl_persistence c = Persist
           then then_p (say (Logged (''Persistent transactions aren'' @ sq @ ''t supported on bootc systems.''))) (raise_p (CliError ''Operation aborted.''))
           else then_p
             (if needs_unlock c
              then if cl_persistence c = Auto
                   then then_p (say (Logged (''This bootc system is configured to be read-only. Pass --transient to '' @
                       ''perform this transaction in a transient overlay which will reset when the system reboots.'')))
                     (raise_p (CliError ''Operation aborted.''))
                   else if \<not> is_unlocked_transient (cl_bootc c)
                   then say (Logged (''A transient overlay will be created on /usr that will be discarded on reboot. '' @
                       ''Keep in mind that changes to /etc and /var will still persist, and packages commonly modify these directories.''))
                   else return_p ()
              else return_p ())
             (then_p (modify_p (\<lambda>s. s\<lparr>rs_transient := True\<rparr>)) (check_protected c items))
      else if cl_persistence c = Transient
      then raise_p (CliError ''Transient transactions are only supported on bootc systems.'')
      else modify_p (\<lambda>s. s\<lparr>rs_transient := False\<rparr>))"

text \<open>\<open>conf.assumeno or not userconfirm()\<close>: the user is asked only without \<open>assumeno\<close>.\<close>

definition confirm :: "cli_env \<Rightarrow> (run_state, unit) prog" where
  "confirm c =
     (if prompt_wanted c
      then if cl_assumeno c then raise_p (CliError ''Operation aborted.'')
           else then_p (say (Prompted (cl_answer c)))
             (if cl_answer c then return_p () else raise_p (CliError ''Operation aborted.''))
      else return_p ())"

definition unlock_bootc :: "cli_env \<Rightarrow> (run_state, unit) prog" where
  "unlock_bootc c =
     (if needs_unlock c
      then (\<lambda>s. case make_writable (cl_bootc c) [] of (r, ops) \<Rightarrow> (r, s\<lparr>rs_log := rs_log s @ [Unlocked ops]\<rparr>))
      else return_p ())"

definition download_step :: "cli_env \<Rightarrow> pkg list \<Rightarrow> (run_state, unit) prog" where
  "download_step c ps =
     (case cl_download c of
        None \<Rightarrow> say (Downloaded ps)
      | Some (DownloadError m) \<Rightarrow> raise_p (DnfError (''Error downloading packages:'' @ nl @ indent_block m))
      | Some e \<Rightarrow> raise_p e)"

definition gpg_step :: "cli_env \<Rightarrow> pkg list \<Rightarrow> (run_state, unit) prog" where
  "gpg_step c ps = then_p
     (\<lambda>s. case gpgsigcheck (cl_sig_conf c) (cl_sig_lib c) (cl_tty c) (map (cl_sig_pkg c) ps) (rs_sig s) of
        (r, sg) \<Rightarrow> (r, s\<lparr>rs_sig := sg\<rparr>))
     (say (GpgChecked ps))"

definition report_result :: "int option \<Rightarrow> (run_state, int option) prog" where
  "report_result tid =
     bind_p (gets_p rs_items) (\<lambda>items.
       if tid \<noteq> None \<and> list_ex (\<lambda>t. t_state t = ST_ERROR) items then raise_p (DnfError ''Transaction failed'')
       else return_p tid)"

definition switch_error :: exn where
  "switch_error = DnfError (''It is not possible to switch enabled streams of a module unless explicitly enabled via configuration option '' @
     ''module_stream_switch.'' @ nl @ ''It is recommended to rather remove all installed content from the module, and reset the module using '' @
     sq @ ''dnf module reset <module_name>'' @ sq @ '' command. After you reset the module, you can install the other stream.'')"

definition cli_do_transaction :: "cli_env \<Rightarrow> (run_state, int option) prog" where
  "cli_do_transaction c =
     then_p (if \<not> cl_stream_switch c \<and> cl_switched c \<noteq> []
             then then_p (report_module_switch (cl_switched c)) (raise_p switch_error) else return_p ())
     (bind_p (gets_p rs_items) (\<lambda>items.
      bind_p (lift_p (split_items items)) (\<lambda>(install_pkgs, rmpkgs).
      then_p (if items \<noteq> [] then say RpmdbClosed else return_p ())
      (if items \<noteq> [] \<or> cl_module_changed c \<or> ru_groups_changed (cl_base c)
       then then_p (persistence_guard c items)
         (then_p (confirm c)
         (then_p (unlock_bootc c)
         (then_p (if items \<noteq> [] then then_p (if install_pkgs \<noteq> [] then download_step c install_pkgs else return_p ()) (gpg_step c install_pkgs)
                  else return_p ())
         (if cl_downloadonly c then return_p None
          else bind_p (base_do_transaction (cl_base c)) report_result))))
       else then_p (say (Logged ''Nothing to do.'')) (return_p None)))))"

end
