(* ===== verification/Signature_Properties.thy ===== *)
theory Signature_Properties
  imports Signatures "HOL-Library.Sublist"
begin

text \<open>
  What the verification of signatures guarantees: what a report of rpmkeys must look like to be
  accepted, that a check that returns has accepted every package, and that no key is imported
  without approval.
\<close>

subsection \<open>Accepted reports\<close>

lemma endswith_last: "endswith s (p @ [x]) \<Longrightarrow> s \<noteq> [] \<and> last s = x"
  by (auto simp: endswith_iff)

lemma endswith_suffixes:
  assumes "endswith s p" and "endswith s q" and "length p \<le> length q"
  shows "endswith q p"
proof -
  from assms(1) obtain a where "s = a @ p" by (auto simp: endswith_iff)
  moreover from assms(2) obtain b where "s = b @ q" by (auto simp: endswith_iff)
  ultimately have "a @ p = b @ q" by simp
  then obtain us where "us @ p = q \<or> p = us @ q" by (auto simp: append_eq_append_conv2)
  with assms(3) have "us @ p = q" by auto
  then show ?thesis by (auto simp: endswith_iff)
qed

definition trusted_line :: "string \<Rightarrow> bool" where
  "trusted_line i \<longleftrightarrow> endswith i '': OK'' \<and> is_sub ''ignature,'' i"

definition known_line :: "string \<Rightarrow> bool" where
  "known_line i \<longleftrightarrow> \<not> is_sub '': BAD'' i \<and>
     (endswith i '': OK'' \<or> endswith i '': NOKEY'' \<or> endswith i '': NOTTRUSTED'' \<or> endswith i '': NOTFOUND'')"

lemma status_exclusive:
  "endswith i '': OK'' \<Longrightarrow> \<not> endswith i '': NOKEY''" "endswith i '': OK'' \<Longrightarrow> \<not> endswith i '': NOTTRUSTED''"
  "endswith i '': OK'' \<Longrightarrow> \<not> endswith i '': NOTFOUND''" "endswith i '': NOKEY'' \<Longrightarrow> \<not> endswith i '': NOTTRUSTED''"
  "endswith i '': NOKEY'' \<Longrightarrow> \<not> endswith i '': NOTFOUND''" "endswith i '': NOTTRUSTED'' \<Longrightarrow> \<not> endswith i '': NOTFOUND''"
  using endswith_suffixes [of i "'': OK''" "'': NOKEY''"] endswith_suffixes [of i "'': OK''" "'': NOTTRUSTED''"]
    endswith_suffixes [of i "'': OK''" "'': NOTFOUND''"] endswith_suffixes [of i "'': NOKEY''" "'': NOTTRUSTED''"]
    endswith_suffixes [of i "'': NOKEY''" "'': NOTFOUND''"] endswith_suffixes [of i "'': NOTFOUND''" "'': NOTTRUSTED''"]
  by (auto simp: endswith_def)

lemma scan_report_eq:
  "scan_report ls (t, k, n, u) =
     (if list_all known_line ls
      then Some (t \<or> list_ex trusted_line ls, k \<or> list_ex (\<lambda>i. endswith i '': NOKEY'') ls,
        n \<or> list_ex (\<lambda>i. endswith i '': NOTTRUSTED'') ls, u \<or> list_ex (\<lambda>i. endswith i '': NOTFOUND'') ls)
      else None)"
proof (induction ls arbitrary: t k n u)
  case (Cons i ls)
  show ?case
    using status_exclusive [of i] by (auto simp: Cons.IH known_line_def [of i] trusted_line_def [of i])
qed simp

definition clean_line :: "string \<Rightarrow> bool" where
  "clean_line i \<longleftrightarrow> \<not> is_sub '': BAD'' i \<and> (endswith i '': OK'' \<or> endswith i '': NOTTRUSTED'')"

definition clean_report :: "string list \<Rightarrow> bool" where
  "clean_report ls \<longleftrightarrow> ls \<noteq> [] \<and> list_all clean_line ls \<and>
     (list_ex (\<lambda>i. endswith i '': NOTTRUSTED'') ls \<longrightarrow> list_ex trusted_line ls)"

lemma report_frame:
  "length data \<ge> 3 \<and> hd data = ''-:'' \<and> last data = [] \<longleftrightarrow> (\<exists>ls. ls \<noteq> [] \<and> data = ''-:'' # ls @ [[]])"
proof
  assume a: "length data \<ge> 3 \<and> hd data = ''-:'' \<and> last data = []"
  then obtain x xs where d: "data = x # xs" by (cases data) auto
  from a d obtain ls y where "xs = ls @ [y]" by (cases xs rule: rev_cases) auto
  with a d show "\<exists>ls. ls \<noteq> [] \<and> data = ''-:'' # ls @ [[]]" by (intro exI [of _ ls]) auto
qed (auto simp: neq_Nil_conv)

lemma process_zero: "process_rpm_output data = 0 \<longleftrightarrow> (\<exists>ls. clean_report ls \<and> data = ''-:'' # ls @ [[]])"
proof -
  have split: "list_all clean_line ls \<longleftrightarrow> list_all known_line ls \<and> \<not> list_ex (\<lambda>i. endswith i '': NOKEY'') ls \<and>
      \<not> list_ex (\<lambda>i. endswith i '': NOTFOUND'') ls" for ls
    using status_exclusive by (induction ls) (auto simp: clean_line_def known_line_def)
  show ?thesis
  proof (cases "\<exists>ls. ls \<noteq> [] \<and> data = ''-:'' # ls @ [[]]")
    case True
    then obtain ls where ls: "ls \<noteq> []" "data = ''-:'' # ls @ [[]]" by blast
    have "process_rpm_output data = 0 \<longleftrightarrow> clean_report ls"
      using ls by (auto simp: process_rpm_output_def scan_report_eq clean_report_def split butlast_append)
    with ls(2) show ?thesis by simp
  next
    case False
    then have "process_rpm_output data = 2" using report_frame [of data] by (auto simp: process_rpm_output_def)
    with False show ?thesis by (auto simp: clean_report_def)
  qed
qed

lemma process_range: "process_rpm_output data \<le> 4"
  by (simp add: process_rpm_output_def split: option.splits prod.splits)

text \<open>
  When the signature of a package file is accepted: exactly if rpmkeys was found, exited with 0
  and printed the heading, at least one line and a final newline, where no line reports anything bad,
  missing or unknown, and an untrusted signature is outweighed by a trusted one.  Every other outcome
  has a code from 1 to 4.
\<close>

theorem signature_accepted:
  "(check_sig l kr path = Inr 0 \<longleftrightarrow>
      sl_open l path = None \<and> sl_binary l \<and> fst (sl_run l kr path) = 0 \<and>
      (\<exists>ls. clean_report ls \<and> split_on CHR 0x0A (snd (sl_run l kr path)) = ''-:'' # ls @ [[]])) \<and>
   (\<exists>r. check_sig l kr path = r \<and> (case r of Inl e \<Rightarrow> (\<exists>m. e = OSError m) | Inr n \<Rightarrow> n \<le> 4))"
proof -
  obtain rc out where run: "sl_run l kr path = (rc, out)" by (metis surj_pair)
  have range: "verify_package l kr path \<le> 4"
    using process_range [of "split_on CHR 0x0A out"] by (auto simp: verify_package_def run Let_def)
  have "verify_package l kr path = 0 \<longleftrightarrow> sl_binary l \<and> rc = 0 \<and> process_rpm_output (split_on CHR 0x0A out) = 0"
    by (auto simp: verify_package_def run Let_def)
  then show ?thesis using range by (auto simp: check_sig_def run process_zero split: option.splits)
qed

text \<open>A report with a trusted and an untrusted signature; a digest alone is clean too.\<close>

definition example_sig_lib :: sig_lib where
  "example_sig_lib = \<lparr>sl_binary = True, sl_open = (\<lambda>_. None),
     sl_run = (\<lambda>kr path. if ''key'' \<in> set kr then (0, ''-:'' @ nl @ ''Header signature, 1: OK'' @ nl) else (1, ''-:'' @ nl @ ''signature, 1: NOKEY'' @ nl)),
     sl_retrieve = (\<lambda>_. Inr [\<lparr>ki_id = ''ABCD'', ki_userid = ''tour'', ki_raw = ''key'', ki_timestamp = 1\<rparr>]),
     sl_headers = (\<lambda>_. []), sl_import = (\<lambda>_ _. 0), sl_dns = (\<lambda>_. VALID), sl_answer = (\<lambda>_. False)\<rparr>"

subsection \<open>Keys are imported only when they are offered and approved\<close>

definition offered :: "sig_conf \<Rightarrow> sig_lib \<Rightarrow> key_info \<Rightarrow> bool" where
  "offered c l info \<longleftrightarrow> (\<exists>rid repo u infos. map_of (sc_repos c) rid = Some repo \<and> u \<in> set (sr_gpgkey repo) \<and>
     sl_retrieve l u = Inr infos \<and> info \<in> set infos)"

text \<open>RPM takes the key, and DNSSEC vouches for it.\<close>

definition rpm_takes :: "sig_lib \<Rightarrow> key_info \<Rightarrow> bool" where
  "rpm_takes l info \<longleftrightarrow> sl_import l False (procgpgkey (ki_raw info)) = 0"

definition vouched :: "sig_lib \<Rightarrow> key_info \<Rightarrow> bool" where
  "vouched l info \<longleftrightarrow> sl_dns l info \<in> {VALID, PROVEN_NONEXISTENCE}"

text \<open>
  An invariant \<open>J\<close> of the keyring and the questions asked, and what \<open>K\<close> holds once a key is approved:
  by the configuration, or by the answer to a question about this very key.
\<close>

locale keyring_invariant =
  fixes c :: sig_conf and l :: sig_lib and J :: "string list \<Rightarrow> key_info list \<Rightarrow> bool"
    and K :: "string list \<Rightarrow> key_info list \<Rightarrow> key_info \<Rightarrow> bool"
  assumes by_config: "J kr qs \<Longrightarrow> offered c l info \<Longrightarrow> \<not> sc_assumeno c \<Longrightarrow> sc_assumeyes c \<Longrightarrow> sc_dns c \<longrightarrow> vouched l info \<Longrightarrow> K kr qs info"
    and by_user: "J kr qs \<Longrightarrow> offered c l info \<Longrightarrow> \<not> sc_assumeno c \<Longrightarrow> \<not> sc_assumeyes c \<Longrightarrow> sl_answer l (length qs) \<Longrightarrow> K kr (qs @ [info]) info"
    and refused: "J kr qs \<Longrightarrow> offered c l info \<Longrightarrow> \<not> sc_assumeno c \<Longrightarrow> \<not> sc_assumeyes c \<Longrightarrow> \<not> sl_answer l (length qs) \<Longrightarrow> J kr (qs @ [info])"
    and import_ok: "K kr qs info \<Longrightarrow> rpm_takes l info \<Longrightarrow> J (kr @ [ki_raw info]) qs"
    and import_bad: "K kr qs info \<Longrightarrow> \<not> rpm_takes l info \<Longrightarrow> J kr qs"
begin

abbreviation inv :: "sig_state \<Rightarrow> bool" where
  "inv s \<equiv> J (ss_keyring s) (ss_questions s)"

lemma approve: "offered c l info \<Longrightarrow>
    triple inv (approve_key c l asks info) (\<lambda>rc s. if rc then K (ss_keyring s) (ss_questions s) info else inv s) inv"
  using by_config by_user refused by (auto simp: triple_def approve_key_def vouched_def bind_p_apply then_p_apply)

lemma import: "triple (\<lambda>s. K (ss_keyring s) (ss_questions s) info) (import_key l info) (\<lambda>_. inv) inv"
  using import_ok import_bad by (auto simp: triple_def import_key_def rpm_takes_def bind_p_apply then_p_apply)

lemma keys: "list_all (offered c l) infos \<Longrightarrow> triple inv (keys_loop c l po repo asks infos fl) (\<lambda>_. inv) inv"
proof (induction infos arbitrary: fl)
  case Nil
  then show ?case by (cases fl) (simp add: triple_def)
next
  case (Cons info infos)
  obtain f i where fl: "fl = (f, i)" by (cases fl)
  have off: "offered c l info" and rest: "list_all (offered c l) infos" using Cons.prems by simp_all
  note IH = Cons.IH [OF rest]
  have step: "triple (\<lambda>s. if rc then K (ss_keyring s) (ss_questions s) info else inv s)
      (if \<not> rc then keys_loop c l po repo asks infos (True, i)
       else bind_p (import_key l info) (\<lambda>result. if result \<noteq> 0
           then raise_p (DnfError (prov_key_data po repo (''Key import failed (code '' @ int_str result @ '')'')))
           else keys_loop c l po repo asks infos (f, True)))
      (\<lambda>_. inv) inv" for rc
  proof (cases rc)
    case True
    then show ?thesis using IH by (simp, intro triple_bind [OF import]) (auto simp: triple_def)
  next
    case False
    then show ?thesis using IH by simp
  qed
  show ?case unfolding fl keys_loop.simps
  proof (rule triple_bind)
    show "triple inv (gets_p (\<lambda>s. key_installed (sl_headers l (ss_keyring s)) (rpm_id info) (ki_timestamp info)))
        (\<lambda>_. inv) inv" by (simp add: triple_basic)
  next
    fix have_key :: int
    show "triple inv (if have_key \<ge> 0 then keys_loop c l po repo asks infos (f, i) else
        bind_p (approve_key c l asks info) (\<lambda>rc. if \<not> rc then keys_loop c l po repo asks infos (True, i)
         else bind_p (import_key l info) (\<lambda>result. if result \<noteq> 0
           then raise_p (DnfError (prov_key_data po repo (''Key import failed (code '' @ int_str result @ '')'')))
           else keys_loop c l po repo asks infos (f, True)))) (\<lambda>_. inv) inv"
      using IH triple_bind [OF approve [OF off] step] by simp
  qed
qed

lemma urls: "\<forall>u \<in> set us. \<exists>rid repo. map_of (sc_repos c) rid = Some repo \<and> u \<in> set (sr_gpgkey repo) \<Longrightarrow>
    pres inv (urls_loop c l po repo' asks us fl)"
proof (induction us arbitrary: fl)
  case (Cons u us)
  have here: "list_all (offered c l) infos" if "sl_retrieve l u = Inr infos" for infos
    using Cons.prems that by (auto simp: list_all_iff offered_def)
  have rest: "pres inv (urls_loop c l po repo' asks us f)" for f
    using Cons.prems by (intro Cons.IH) simp
  show ?case
    unfolding urls_loop.simps by (rule pres_bind_lift, rule pres_bind) (auto intro: here rest pres_triple [OF keys])
qed (simp add: pres_basic)

lemma get_key: "pres inv (get_key_for_package c l asks po)"
proof -
  have urls_ok: "pres inv (urls_loop c l po repo asks (if tried then [] else sr_gpgkey repo) fl)"
    if "dict_get (sc_repos c) (sp_repoid po) = Inr repo" for repo tried fl
    using that by (intro urls) (auto simp: dict_get_def split: option.splits)
  show ?thesis
    unfolding get_key_for_package_def
    by (intro pres_if pres_basic pres_bind_lift pres_bind [OF pres_basic(3)] pres_then pres_modify pres_prod pres_bind [OF urls_ok])
      simp_all
qed

lemma try_one: "pres inv (try_key c l po)"
  unfolding try_key_def by (intro pres_intro get_key) (simp split: if_splits, auto intro: pres_intro)

lemma loop: "pres inv (gpg_loop c l tty pkgs eh)"
proof (induction pkgs arbitrary: eh)
  case (Cons po pos)
  obtain errs hint where eh: "eh = (errs, hint)" by (cases eh)
  show ?case unfolding eh gpg_loop.simps by (intro pres_intro Cons.IH try_one)
qed (simp add: pres_basic)

lemma check: "pres inv (gpgsigcheck c l tty pkgs)"
  unfolding gpgsigcheck_def by (intro pres_intro loop) simp

end

interpretation keyring_grows: keyring_invariant c l "\<lambda>ks _. prefix kr ks" "\<lambda>ks _ _. prefix kr ks" for c l kr
  by unfold_locales (auto intro: prefix_prefix)

text \<open>The keys, among those asked about from the \<open>n\<close>-th question on, that the user said yes to.\<close>

definition answered_yes :: "sig_lib \<Rightarrow> nat \<Rightarrow> key_info list \<Rightarrow> key_info list" where
  "answered_yes l n qs = map snd (filter (\<lambda>(i, k). sl_answer l i) (enumerate n qs))"

lemma answered_yes_simps [simp]:
  "answered_yes l n [] = []"
  "answered_yes l n (qs @ [k]) = answered_yes l n qs @ (if sl_answer l (n + length qs) then [k] else [])"
  by (simp_all add: answered_yes_def enumerate_append_eq)

text \<open>The keys imported after the keyring \<open>kr\<close>, and the questions asked after \<open>qs\<close>.\<close>

definition imported_since :: "sig_conf \<Rightarrow> sig_lib \<Rightarrow> string list \<Rightarrow> key_info list \<Rightarrow> key_info list \<Rightarrow> key_info list \<Rightarrow> string list \<Rightarrow> key_info list \<Rightarrow> bool" where
  "imported_since c l kr0 qs0 infos qs kr qs' \<longleftrightarrow>
     kr = kr0 @ map ki_raw infos \<and> qs' = qs0 @ qs \<and> list_all (offered c l) (infos @ qs) \<and> list_all (rpm_takes l) infos \<and>
     (if sc_assumeno c then infos = [] \<and> qs = []
      else if sc_assumeyes c then qs = [] \<and> (sc_dns c \<longrightarrow> list_all (vouched l) infos)
      else infos = filter (rpm_takes l) (answered_yes l (length qs0) qs))"

text \<open>The same with an approved key that is still to be imported.\<close>

definition about_to_import :: "sig_conf \<Rightarrow> sig_lib \<Rightarrow> string list \<Rightarrow> key_info list \<Rightarrow> string list \<Rightarrow> key_info list \<Rightarrow> key_info \<Rightarrow> bool" where
  "about_to_import c l kr0 qs0 kr qs' info \<longleftrightarrow>
     \<not> sc_assumeno c \<and> offered c l info \<and>
     (if sc_assumeyes c then (sc_dns c \<longrightarrow> vouched l info) \<and> (\<exists>infos qs. imported_since c l kr0 qs0 infos qs kr qs')
      else \<exists>infos qs. qs' = qs0 @ qs @ [info] \<and> sl_answer l (length qs0 + length qs) \<and> imported_since c l kr0 qs0 infos qs kr (qs0 @ qs))"

interpretation keyring_approved: keyring_invariant c l
  "\<lambda>kr qs'. \<exists>infos qs. imported_since c l kr0 qs0 infos qs kr qs'" "about_to_import c l kr0 qs0" for c l kr0 qs0
proof unfold_locales
  fix kr qs' info
  assume J: "\<exists>infos qs. imported_since c l kr0 qs0 infos qs kr qs'" and off: "offered c l info" "\<not> sc_assumeno c" "\<not> sc_assumeyes c"
  then obtain infos qs where since: "imported_since c l kr0 qs0 infos qs kr qs'" by blast
  then have qs': "qs' = qs0 @ qs" by (simp add: imported_since_def)
  show "about_to_import c l kr0 qs0 kr (qs' @ [info]) info" if "sl_answer l (length qs')"
    using since off that unfolding about_to_import_def qs' by auto
  assume "\<not> sl_answer l (length qs')"
  with since off have "imported_since c l kr0 qs0 infos (qs @ [info]) kr (qs' @ [info])" unfolding qs' by (auto simp: imported_since_def)
  then show "\<exists>infos qs. imported_since c l kr0 qs0 infos qs kr (qs' @ [info])" by blast
next
  fix kr qs' info
  assume K: "about_to_import c l kr0 qs0 kr qs' info"
  consider infos qs where "sc_assumeyes c" "sc_dns c \<longrightarrow> vouched l info" "imported_since c l kr0 qs0 infos qs kr qs'"
    | infos qs where "\<not> sc_assumeyes c" "qs' = qs0 @ qs @ [info]" "sl_answer l (length qs0 + length qs)"
        "imported_since c l kr0 qs0 infos qs kr (qs0 @ qs)"
    using K by (auto simp: about_to_import_def split: if_splits)
  moreover from K have K': "\<not> sc_assumeno c" "offered c l info" by (simp_all add: about_to_import_def)
  ultimately have new: "\<exists>infos qs. imported_since c l kr0 qs0 (infos @ (if rpm_takes l info then [info] else [])) qs
      (kr @ (if rpm_takes l info then [ki_raw info] else [])) qs'"
  proof cases
    case (1 infos qs)
    with K' show ?thesis by (intro exI [of _ infos] exI [of _ qs]) (simp add: imported_since_def)
  next
    case (2 infos qs)
    with K' show ?thesis by (intro exI [of _ infos] exI [of _ "qs @ [info]"]) (auto simp: imported_since_def)
  qed
  show "\<exists>infos qs. imported_since c l kr0 qs0 infos qs (kr @ [ki_raw info]) qs'" if "rpm_takes l info"
    using new that by auto
  show "\<exists>infos qs. imported_since c l kr0 qs0 infos qs kr qs'" if "\<not> rpm_takes l info"
    using new that by auto
qed (auto simp: about_to_import_def)

text \<open>
  C4. Which keys a check of signatures imports, whether it returns or fails: the keyring only grows, by
  keys that a key URL of a configured repository offers and that RPM takes.  With \<open>assumeno\<close> there is
  none, and nobody is asked; with \<open>assumeyes\<close> nobody is asked either, and where DNS verification is on
  it vouches for each new key; otherwise the new keys are, in order, exactly those keys the user was
  asked about in this check and answered yes for, as far as RPM took them - each needs a yes of its own.
\<close>

theorem keys_imported:
  assumes "gpgsigcheck c l tty pkgs s = (r, s')"
  shows "\<exists>infos qs. ss_keyring s' = ss_keyring s @ map ki_raw infos \<and> ss_questions s' = ss_questions s @ qs \<and>
    list_all (offered c l) (infos @ qs) \<and> list_all (rpm_takes l) infos \<and>
    (if sc_assumeno c then infos = [] \<and> qs = []
     else if sc_assumeyes c then qs = [] \<and> (sc_dns c \<longrightarrow> list_all (vouched l) infos)
     else infos = filter (rpm_takes l) (answered_yes l (length (ss_questions s)) qs))"
proof -
  have "\<exists>infos qs. imported_since c l (ss_keyring s) (ss_questions s) infos qs (ss_keyring s) (ss_questions s)"
    by (intro exI [of _ "[]"]) (simp add: imported_since_def)
  from presD [OF keyring_approved.check this assms]
  show ?thesis unfolding imported_since_def .
qed

definition example_sig_conf :: "bool \<Rightarrow> bool \<Rightarrow> sig_conf" where
  "example_sig_conf yes no = \<lparr>sc_localpkg_gpgcheck = True, sc_assumeyes = yes, sc_assumeno = no, sc_dns = False,
     sc_repos = [(''main'', \<lparr>sr_name = ''Main'', sr_gpgcheck = True, sr_gpgkey = [''file:///key'']\<rparr>)]\<rparr>"

definition example_sig_pkg :: sig_pkg where
  "example_sig_pkg = \<lparr>sp_str = ''tour-1-1.noarch'', sp_cmdline = False, sp_repoid = ''main'', sp_path = ''/tmp/tour.rpm''\<rparr>"

definition example_sig_state :: sig_state where
  "example_sig_state = \<lparr>ss_keyring = [], ss_tried = [], ss_questions = [], ss_test = False, ss_log = []\<rparr>"

text \<open>Two keys offered at once: the user says yes to the first and no to the second.\<close>

definition choosy_lib :: sig_lib where
  "choosy_lib = example_sig_lib\<lparr>sl_retrieve := (\<lambda>_. Inr [\<lparr>ki_id = ''ABCD'', ki_userid = ''tour'', ki_raw = ''key'', ki_timestamp = 1\<rparr>,
     \<lparr>ki_id = ''EF01'', ki_userid = ''other'', ki_raw = ''key2'', ki_timestamp = 1\<rparr>]), sl_answer := (\<lambda>n. n = 0)\<rparr>"

lemma choosy_questions:
  "map ki_raw (ss_questions (snd (gpgsigcheck (example_sig_conf False False) choosy_lib True [example_sig_pkg] example_sig_state))) = [''key'', ''key2'']"
  by code_simp

lemma keys_imported_witness:
  "ss_keyring (snd (gpgsigcheck (example_sig_conf False False) choosy_lib True [example_sig_pkg] example_sig_state)) = [''key'']"
proof -
  obtain r s' where run: "gpgsigcheck (example_sig_conf False False) choosy_lib True [example_sig_pkg] example_sig_state = (r, s')"
    by (metis surj_pair)
  from keys_imported [OF run] obtain infos qs where new: "ss_keyring s' = map ki_raw infos" "ss_questions s' = qs"
    "infos = filter (rpm_takes choosy_lib) (answered_yes choosy_lib 0 qs)"
    by (auto simp: example_sig_state_def example_sig_conf_def)
  from choosy_questions run new(2) obtain k1 k2 where "qs = [k1, k2]" "ki_raw k1 = ''key''" by auto
  with new show ?thesis unfolding run snd_conv
    by (simp add: rpm_takes_def answered_yes_def choosy_lib_def example_sig_lib_def)
qed

subsection \<open>A check that returns has accepted every package\<close>

lemma get_key_accepts:
  assumes "get_key_for_package c l asks po s = (Inr (), s')"
  shows "\<exists>m. sig_check_pkg c l (ss_keyring s') po = Inr (0, m)"
  using assms
  by (auto simp: get_key_for_package_def bind_p_apply then_p_apply split: if_splits prod.splits sum.splits)

lemma try_key_accepts: "try_key c l po s = (Inr None, s') \<Longrightarrow> \<exists>m. sig_check_pkg c l (ss_keyring s') po = Inr (0, m)"
  by (auto simp: try_key_def catch_p_apply then_p_apply intro: get_key_accepts split: if_splits prod.splits sum.splits)

lemma try_key_grows: "try_key c l po s = (r, s') \<Longrightarrow> prefix (ss_keyring s) (ss_keyring s')"
  by (rule presD [OF keyring_grows.try_one [where kr = "ss_keyring s"]]) auto

definition accepted :: "sig_conf \<Rightarrow> sig_lib \<Rightarrow> string list \<Rightarrow> sig_pkg \<Rightarrow> bool" where
  "accepted c l kr po \<longleftrightarrow>
     (\<exists>check has. check_wanted c po = Inr (check, has) \<and> (check \<longrightarrow> check_sig l kr (sp_path po) = Inr 0))"

lemma accepted_iff: "accepted c l kr po \<longleftrightarrow> (\<exists>m. sig_check_pkg c l kr po = Inr (0, m))"
proof (cases "check_wanted c po")
  case (Inr w)
  obtain check has where w: "w = (check, has)" by (cases w)
  show ?thesis
  proof (cases "check_sig l kr (sp_path po)")
    case (Inr n)
    then show ?thesis using \<open>check_wanted c po = Inr w\<close> w
      by (cases check; cases "n = 0"; cases has) (auto simp: accepted_def sig_check_pkg_def Let_def)
  qed (use Inr w in \<open>cases check; auto simp: accepted_def sig_check_pkg_def\<close>)
qed (simp add: accepted_def sig_check_pkg_def)

lemma accepted_zero: "sig_check_pkg c l kr po = Inr (0, m) \<Longrightarrow> accepted c l kr po"
  by (auto simp: accepted_iff)

lemma gpg_loop_accepts:
  "gpg_loop c l tty pos (errs, hint) s = (Inr ([], h), s') \<Longrightarrow>
    errs = [] \<and> (\<forall>po \<in> set pos. \<exists>kr. prefix (ss_keyring s) kr \<and> prefix kr (ss_keyring s') \<and> accepted c l kr po)"
proof (induction pos arbitrary: errs hint s)
  case (Cons po pos)
  from Cons.prems obtain result errmsg where chk: "sig_check_pkg c l (ss_keyring s) po = Inr (result, errmsg)"
    by (auto simp: bind_p_apply split: sum.splits)
  consider (ok) "result = 0" "gpg_loop c l tty pos (errs, hint) s = (Inr ([], h), s')"
    | (key) u where "try_key c l po s = (Inr None, u)" "gpg_loop c l tty pos (errs, hint) u = (Inr ([], h), s')"
    | (bad) u m hint' where "gpg_loop c l tty pos (errs @ [m], hint') u = (Inr ([], h), s')"
    using Cons.prems chk by (auto simp: bind_p_apply split: if_splits prod.splits sum.splits option.splits)
  then show ?case
  proof cases
    case ok
    have "prefix (ss_keyring s) (ss_keyring s')" by (rule presD [OF keyring_grows.loop [where kr = "ss_keyring s"] _ ok(2)]) simp
    moreover have "accepted c l (ss_keyring s) po" using chk ok(1) by (auto intro: accepted_zero)
    ultimately show ?thesis using Cons.IH [OF ok(2)] by auto
  next
    case key
    have "prefix (ss_keyring u) (ss_keyring s')" by (rule presD [OF keyring_grows.loop [where kr = "ss_keyring u"] _ key(2)]) simp
    moreover have "accepted c l (ss_keyring u) po" using try_key_accepts [OF key(1)] by (auto intro: accepted_zero)
    ultimately show ?thesis
      using Cons.IH [OF key(2)] try_key_grows [OF key(1)] by (auto intro: prefix_order.trans)
  next
    case bad
    with Cons.IH [OF bad] show ?thesis by simp
  qed
qed simp

lemma gpg_loop_accepted: "\<forall>po \<in> set pos. accepted c l (ss_keyring s) po \<Longrightarrow> gpg_loop c l tty pos eh s = (Inr eh, s)"
proof (induction pos)
  case (Cons po pos)
  obtain errs hint where eh: "eh = (errs, hint)" by (cases eh)
  from Cons.prems obtain m where "sig_check_pkg c l (ss_keyring s) po = Inr (0, m)" by (auto simp: accepted_iff)
  with Cons show ?case by (simp add: eh bind_p_apply)
qed simp

text \<open>
  C2. The gate before a transaction: if the check of the signatures returns, every package was
  accepted - no check was wanted for it, or rpmkeys accepted its file - under the keys that were
  there when it was looked at; and a set of packages that all pass is let through without a question,
  an import or any other effect.
\<close>

theorem signature_gate:
  "(gpgsigcheck c l tty pkgs s = (Inr (), s') \<longrightarrow>
      (\<forall>po \<in> set pkgs. \<exists>kr. prefix (ss_keyring s) kr \<and> prefix kr (ss_keyring s') \<and> accepted c l kr po)) \<and>
   ((\<forall>po \<in> set pkgs. accepted c l (ss_keyring s) po) \<longrightarrow> gpgsigcheck c l tty pkgs s = (Inr (), s))"
proof (intro conjI impI)
  assume "gpgsigcheck c l tty pkgs s = (Inr (), s')"
  then obtain h where "gpg_loop c l tty pkgs ([], False) s = (Inr ([], h), s')"
    by (auto simp: gpgsigcheck_def bind_p_apply then_p_apply split: if_splits prod.splits sum.splits)
  from gpg_loop_accepts [OF this]
  show "\<forall>po \<in> set pkgs. \<exists>kr. prefix (ss_keyring s) kr \<and> prefix kr (ss_keyring s') \<and> accepted c l kr po" by blast
next
  assume "\<forall>po \<in> set pkgs. accepted c l (ss_keyring s) po"
  from gpg_loop_accepted [OF this, of tty "([], False)"]
  show "gpgsigcheck c l tty pkgs s = (Inr (), s)" by (simp add: gpgsigcheck_def bind_p_apply)
qed

lemma signature_gate_witness:
  "gpgsigcheck (example_sig_conf False False) example_sig_lib False [example_sig_pkg] (example_sig_state\<lparr>ss_keyring := [''key'']\<rparr>)
     = (Inr (), example_sig_state\<lparr>ss_keyring := [''key'']\<rparr>)"
proof -
  have "accepted (example_sig_conf False False) example_sig_lib [''key''] example_sig_pkg"
    by (auto simp: accepted_def check_wanted_def example_sig_conf_def example_sig_pkg_def dict_get_def check_sig_def
        verify_package_def example_sig_lib_def process_rpm_output_def endswith_def nl_def startswith_def)
  then show ?thesis using signature_gate [of _ _ _ "[example_sig_pkg]" "example_sig_state\<lparr>ss_keyring := [''key'']\<rparr>"] by simp
qed

text \<open>A first package without its key: with \<open>assumeyes\<close> the key is imported and helps.\<close>

lemma key_helps:
  "gpgsigcheck (example_sig_conf True False) example_sig_lib False [example_sig_pkg] example_sig_state
     = (Inr (), example_sig_state\<lparr>ss_keyring := [''key''], ss_tried := [''main'']\<rparr>)"
  by (simp add: gpgsigcheck_def example_sig_conf_def example_sig_pkg_def example_sig_lib_def example_sig_state_def sig_check_pkg_def
      check_wanted_def dict_get_def check_sig_def verify_package_def process_rpm_output_def endswith_def nl_def startswith_def
      prog_simps try_key_def get_key_for_package_def approve_key_def import_key_def)

end
