(* ===== verification/Transaction_Run_Properties.thy ===== *)
theory Transaction_Run_Properties
  imports Transaction_Run Signature_Properties
begin

text \<open>
  The order in which a transaction is carried out: which steps precede the run of RPM, whatever fails,
  and what must have been confirmed, verified and tested before it.
\<close>

subsection \<open>Milestones\<close>

datatype milestone = M_Verified | M_Locked | M_Checked | M_Tested | M_Saved | M_Ran | M_Released

fun milestone_of :: "run_event \<Rightarrow> milestone list" where
  "milestone_of (GpgChecked ps) = [M_Verified]"
| "milestone_of LockTaken = [M_Locked]"
| "milestone_of RpmChecked = [M_Checked]"
| "milestone_of RpmTested = [M_Tested]"
| "milestone_of ModulesSaved = [M_Saved]"
| "milestone_of RpmRun = [M_Ran]"
| "milestone_of LockReleased = [M_Released]"
| "milestone_of _ = []"

definition milestones :: "run_event list \<Rightarrow> milestone list" where
  "milestones evs = concat (map milestone_of evs)"

lemma milestones_simps [simp]: "milestones [] = []" "milestones (e # es) = milestone_of e @ milestones es"
  "milestones (es @ fs) = milestones es @ milestones fs"
  by (simp_all add: milestones_def)

lemma ran_iff: "M_Ran \<in> set (milestones evs) \<longleftrightarrow> RpmRun \<in> set evs"
proof (induction evs)
  case (Cons e evs)
  then show ?case by (cases e) auto
qed simp

definition conc :: "milestone list set \<Rightarrow> milestone list set \<Rightarrow> milestone list set" where
  "conc A B = (\<lambda>(a, b). a @ b) ` (A \<times> B)"

lemma conc_simps [simp]: "conc {} B = {}" "conc A {} = {}" "conc {[]} B = B" "conc A {[]} = A"
  "conc (insert a A) B = ((@) a) ` B \<union> conc A B"
  by (force simp: conc_def)+

text \<open>
  From a state of \<open>P\<close> a computation only adds to the log; the milestones it adds are in \<open>S\<close> if it
  returns, which leads to a state of \<open>Q\<close>, and in \<open>F\<close> if it fails.
\<close>

definition traces :: "(run_state \<Rightarrow> bool) \<Rightarrow> (run_state, 'a) prog \<Rightarrow> ('a \<Rightarrow> run_state \<Rightarrow> bool) \<Rightarrow> milestone list set \<Rightarrow> milestone list set \<Rightarrow> bool" where
  "traces P m Q S F \<longleftrightarrow> (\<forall>s. P s \<longrightarrow> (\<exists>new. rs_log (snd (m s)) = rs_log s @ new \<and>
     (case fst (m s) of Inr a \<Rightarrow> milestones new \<in> S \<and> Q a (snd (m s)) | Inl _ \<Rightarrow> milestones new \<in> F)))"

lemma tracesI:
  assumes "\<And>s a s'. P s \<Longrightarrow> m s = (Inr a, s') \<Longrightarrow> \<exists>new. rs_log s' = rs_log s @ new \<and> milestones new \<in> S \<and> Q a s'"
    and "\<And>s e s'. P s \<Longrightarrow> m s = (Inl e, s') \<Longrightarrow> \<exists>new. rs_log s' = rs_log s @ new \<and> milestones new \<in> F"
  shows "traces P m Q S F"
  unfolding traces_def
proof (intro allI impI)
  fix s assume "P s"
  with assms show "\<exists>new. rs_log (snd (m s)) = rs_log s @ new \<and>
     (case fst (m s) of Inr a \<Rightarrow> milestones new \<in> S \<and> Q a (snd (m s)) | Inl _ \<Rightarrow> milestones new \<in> F)"
    by (cases "m s"; cases "fst (m s)") fastforce+
qed

lemma tracesD:
  assumes "traces P m Q S F" and "P s"
  shows "m s = (Inr a, s') \<Longrightarrow> \<exists>new. rs_log s' = rs_log s @ new \<and> milestones new \<in> S \<and> Q a s'"
    and "m s = (Inl e, s') \<Longrightarrow> \<exists>new. rs_log s' = rs_log s @ new \<and> milestones new \<in> F"
  using assms by (fastforce simp: traces_def)+

lemma traces_bind:
  assumes m: "traces P m Q S F" and f: "\<And>a. traces (Q a) (f a) R S' F'"
  shows "traces P (bind_p m f) R (conc S S') (F \<union> conc S F')"
proof (rule tracesI)
  fix s b t assume P: "P s" and run: "bind_p m f s = (Inr b, t)"
  then obtain a u where "m s = (Inr a, u)" and fu: "f a u = (Inr b, t)"
    by (auto simp: bind_p_apply split: prod.splits sum.splits)
  from tracesD(1) [OF m P this(1)] obtain n1 where n1: "rs_log u = rs_log s @ n1" "milestones n1 \<in> S" "Q a u" by blast
  from tracesD(1) [OF f n1(3) fu] obtain n2 where "rs_log t = rs_log u @ n2" "milestones n2 \<in> S'" "R b t" by blast
  with n1 show "\<exists>new. rs_log t = rs_log s @ new \<and> milestones new \<in> conc S S' \<and> R b t"
    by (intro exI [of _ "n1 @ n2"]) (auto simp: conc_def)
next
  fix s e t assume P: "P s" and run: "bind_p m f s = (Inl e, t)"
  then consider "m s = (Inl e, t)" | a u where "m s = (Inr a, u)" "f a u = (Inl e, t)"
    by (auto simp: bind_p_apply split: prod.splits sum.splits)
  then show "\<exists>new. rs_log t = rs_log s @ new \<and> milestones new \<in> F \<union> conc S F'"
  proof cases
    case 1
    from tracesD(2) [OF m P this] show ?thesis by blast
  next
    case 2
    from tracesD(1) [OF m P 2(1)] obtain n1 where n1: "rs_log u = rs_log s @ n1" "milestones n1 \<in> S" "Q a u" by blast
    from tracesD(2) [OF f n1(3) 2(2)] obtain n2 where "rs_log t = rs_log u @ n2" "milestones n2 \<in> F'" by blast
    with n1 show ?thesis by (intro exI [of _ "n1 @ n2"]) (auto simp: conc_def)
  qed
qed

lemma traces_then: "traces P m (\<lambda>_. Q) S F \<Longrightarrow> traces Q n R S' F' \<Longrightarrow> traces P (then_p m n) R (conc S S') (F \<union> conc S F')"
  unfolding then_p_def by (rule traces_bind)

lemma traces_weaken:
  assumes "traces P m Q S F" and "\<And>s. P' s \<Longrightarrow> P s" and "\<And>a s. Q a s \<Longrightarrow> Q' a s" and "S \<subseteq> S'" and "F \<subseteq> F'"
  shows "traces P' m Q' S' F'"
proof (rule tracesI)
  fix s a s' assume "P' s" and run: "m s = (Inr a, s')"
  then have "P s" by (simp add: assms(2))
  from tracesD(1) [OF assms(1) this run] assms(3,4) show "\<exists>new. rs_log s' = rs_log s @ new \<and> milestones new \<in> S' \<and> Q' a s'" by blast
next
  fix s e s' assume "P' s" and run: "m s = (Inl e, s')"
  then have "P s" by (simp add: assms(2))
  from tracesD(2) [OF assms(1) this run] assms(5) show "\<exists>new. rs_log s' = rs_log s @ new \<and> milestones new \<in> F'" by blast
qed

text \<open>Steps without a milestone: those that always return, and those that may fail.\<close>

abbreviation steady :: "(run_state \<Rightarrow> bool) \<Rightarrow> (run_state, 'a) prog \<Rightarrow> bool" where
  "steady P m \<equiv> traces P m (\<lambda>_. P) {[]} {}"

abbreviation quiet :: "(run_state \<Rightarrow> bool) \<Rightarrow> (run_state, 'a) prog \<Rightarrow> bool" where
  "quiet P m \<equiv> traces P m (\<lambda>_. P) {[]} {[]}"

lemma steady_quiet: "steady P m \<Longrightarrow> quiet P m"
  by (erule traces_weaken) auto

lemma steady_then: "steady P m \<Longrightarrow> traces P n Q S F \<Longrightarrow> traces P (then_p m n) Q S F"
  using traces_then [of P m P "{[]}" "{}" n Q S F] by simp

lemma quiet_then: "traces P m (\<lambda>_. P') {[]} {[]} \<Longrightarrow> traces P' n Q S F \<Longrightarrow> [] \<in> F \<Longrightarrow> traces P (then_p m n) Q S F"
  using traces_then [of P m P' "{[]}" "{[]}" n Q S F] by (simp add: insert_absorb)

lemma quiet_bind: "quiet P m \<Longrightarrow> (\<And>a. traces P (f a) Q S F) \<Longrightarrow> [] \<in> F \<Longrightarrow> traces P (bind_p m f) Q S F"
  using traces_bind [of P m "\<lambda>_. P" "{[]}" "{[]}" f Q S F] by (simp add: insert_absorb)

lemma steady_return: "steady P (return_p a)"
  by (simp add: traces_def)

lemma quiet_raise: "traces P (raise_p e) Q {} {[]}"
  by (simp add: traces_def)

lemma raise_traces: "[] \<in> F \<Longrightarrow> traces P (raise_p e) Q S F"
  using quiet_raise by (rule traces_weaken) auto

lemma quiet_lift: "quiet P (lift_p r)"
  by (auto simp: traces_def split: sum.splits)

lemma bind_gets: "bind_p (gets_p g) f s = f (g s) s"
  by (simp add: bind_p_def gets_p_def)

lemma traces_gets:
  assumes "\<And>a. traces (\<lambda>s. P s \<and> g s = a) (f a) Q S F"
  shows "traces P (bind_p (gets_p g) f) Q S F"
proof (rule tracesI)
  fix s a s' assume "P s" and "bind_p (gets_p g) f s = (Inr a, s')"
  then show "\<exists>new. rs_log s' = rs_log s @ new \<and> milestones new \<in> S \<and> Q a s'"
    by (intro tracesD(1) [OF assms [of "g s"]]) (simp_all add: bind_gets)
next
  fix s e s' assume "P s" and "bind_p (gets_p g) f s = (Inl e, s')"
  then show "\<exists>new. rs_log s' = rs_log s @ new \<and> milestones new \<in> F"
    by (intro tracesD(2) [OF assms [of "g s"]]) (simp_all add: bind_gets)
qed

lemma traces_gets_any: "(\<And>a. traces P (f a) Q S F) \<Longrightarrow> traces P (bind_p (gets_p g) f) Q S F"
proof (rule traces_gets)
  fix a assume "\<And>a. traces P (f a) Q S F"
  then show "traces (\<lambda>s. P s \<and> g s = a) (f a) Q S F" by (rule traces_weaken) auto
qed

text \<open>A fact about the precondition holds of every trace.\<close>

lemma traces_fact:
  assumes "traces P m Q S F" and "\<And>s. P s \<Longrightarrow> c"
  shows "traces P m Q {ms \<in> S. c} {ms \<in> F. c}"
proof (rule tracesI)
  fix s a s' assume P: "P s" and run: "m s = (Inr a, s')"
  from tracesD(1) [OF assms(1) P run] assms(2) [OF P]
  show "\<exists>new. rs_log s' = rs_log s @ new \<and> milestones new \<in> {ms \<in> S. c} \<and> Q a s'" by blast
next
  fix s e s' assume P: "P s" and run: "m s = (Inl e, s')"
  from tracesD(2) [OF assms(1) P run] assms(2) [OF P]
  show "\<exists>new. rs_log s' = rs_log s @ new \<and> milestones new \<in> {ms \<in> F. c}" by blast
qed

text \<open>Conditions on the items and on the state of the signature check only.\<close>

abbreviation about :: "(tsi list \<Rightarrow> sig_state \<Rightarrow> bool) \<Rightarrow> run_state \<Rightarrow> bool" where
  "about p s \<equiv> p (rs_items s) (rs_sig s)"

lemma say_traces: "traces (about p) (say ev) (\<lambda>_. about p) {milestone_of ev} {}"
  by (simp add: traces_def say_def)

lemma steady_say: "milestone_of ev = [] \<Longrightarrow> steady (about p) (say ev)"
  using say_traces [of p ev] by simp

lemma steady_modify: "(\<And>s. rs_log (f s) = rs_log s) \<Longrightarrow> (\<And>s. P s \<Longrightarrow> P (f s)) \<Longrightarrow> steady P (modify_p f)"
  by (simp add: traces_def)

lemma steady_for: "(\<And>x. x \<in> set xs \<Longrightarrow> steady P (f x)) \<Longrightarrow> steady P (for_p f xs)"
  by (induction xs) (simp_all only: for_p.simps steady_return steady_then list.set_intros list.set_intros(2))

lemma quiet_for: "(\<And>x. x \<in> set xs \<Longrightarrow> quiet P (f x)) \<Longrightarrow> quiet P (for_p f xs)"
proof (induction xs)
  case Nil
  then show ?case using steady_quiet [OF steady_return [of P "()"]] by (simp only: for_p.simps)
next
  case (Cons x xs)
  then have "quiet P (f x)" "quiet P (for_p f xs)" by simp_all
  then show ?case unfolding for_p.simps by (rule quiet_then) simp
qed

lemma traces_if: "(b \<Longrightarrow> traces P m Q S F) \<Longrightarrow> (\<not> b \<Longrightarrow> traces P n Q S F) \<Longrightarrow> traces P (if b then m else n) Q S F"
  by simp

subsection \<open>The RPM transaction\<close>

lemmas steady_seq = steady_then steady_return steady_say steady_for steady_modify

lemma act_step: "traces (about p) (act b ev) (\<lambda>_. about p) {milestone_of ev} {[]}"
  using say_traces [of p ev] raise_traces [of "{[]}"] unfolding act_def
  by (auto split: option.split elim: traces_weaken)

lemma quiet_act: "milestone_of ev = [] \<Longrightarrow> quiet (about p) (act b ev)"
  using act_step [of p b ev] by simp

lemma quiet_begin_history: "quiet (about p) (begin_history b v cm)"
  unfolding begin_history_def by (intro traces_gets_any quiet_act) simp

lemma logged_milestones: "milestones (map Logged ms) = []"
  by (induction ms) simp_all

lemma quiet_sync: "quiet (\<lambda>_. True) (sync_history b)"
  by (auto simp: traces_def sync_history_def logged_milestones split: sum.splits prod.splits)

abbreviation anywhere :: "run_state \<Rightarrow> bool" where
  "anywhere \<equiv> about (\<lambda>_ _. True)"

lemma quiet_check_run_result: "quiet anywhere (check_run_result b)"
proof -
  have logged: "steady anywhere (for_p (\<lambda>e. say (Logged e)) es)" for es
    by (intro steady_for steady_say) simp
  have raise: "quiet anywhere (raise_p e :: (run_state, unit) prog)" for e
    by (rule raise_traces) simp
  have ended: "quiet anywhere (if d then act b (HistEnd v) else return_p ())" for d v
    by (intro traces_if quiet_act steady_quiet [OF steady_return]) simp
  have failed: "quiet anywhere (then_p (say (Logged m)) (then_p (for_p (\<lambda>e. say (Logged e)) es)
      (then_p (if d then act b (HistEnd v) else return_p ()) (raise_p e :: (run_state, unit) prog))))" for m es d v e
    by (intro steady_then [OF steady_say] steady_then [OF logged] quiet_then [OF ended] raise) simp_all
  show ?thesis
    unfolding check_run_result_def
    by (split option.split, split list.split) (intro conjI allI impI traces_if raise failed steady_quiet [OF steady_return])
qed

lemma steady_unlink: "steady anywhere (unlink_ts_file f)"
  by (auto simp: unlink_ts_file_def split: prod.split intro!: steady_say)

lemma quiet_verify: "quiet anywhere (verify_transaction b)"
proof -
  have items: "quiet anywhere (for_p (\<lambda>t. bind_p (lift_p (tsi_pkg t)) (\<lambda>_. return_p ())) ts)" for ts
    by (intro quiet_for quiet_bind quiet_lift steady_quiet [OF steady_return]) simp
  have finish: "quiet anywhere (then_p (act b (HistEnd x)) (modify_p (\<lambda>s. s\<lparr>rs_success := True\<rparr>)))" for x
    by (rule quiet_then [OF quiet_act steady_quiet [OF steady_modify]]) simp_all
  have groups: "quiet anywhere (for_p (\<lambda>n. if n \<in> set ns then act b (GroupPackageInstalled n) else return_p ()) gs)" for ns gs
    by (intro quiet_for traces_if quiet_act steady_quiet [OF steady_return]) simp
  have "quiet anywhere (then_p (for_p (\<lambda>n. if n \<in> set (ru_installed_names b) then act b (GroupPackageInstalled n) else return_p ()) (ru_group_pkgs b))
     (then_p (for_p (\<lambda>t. bind_p (lift_p (tsi_pkg t)) (\<lambda>_. return_p ())) ts)
     (then_p (act b (HistEnd (ru_cookie_after b))) (modify_p (\<lambda>s. s\<lparr>rs_success := True\<rparr>)))))" for ts
    by (intro quiet_then [OF groups] quiet_then [OF items] finish) simp_all
  then show ?thesis unfolding verify_transaction_def
    by (rule traces_gets_any)
qed

lemma run_transaction_traces: "traces anywhere (run_transaction b) (\<lambda>_. anywhere) {[M_Ran]} {[], [M_Ran]}"
proof -
  let ?rest = "\<lambda>r. bind_p (lift_p r) (\<lambda>ps :: pkg set.
      then_p (modify_p (\<lambda>s. s\<lparr>rs_install_set := Some (ps \<noteq> {})\<rparr>))
      (then_p (if \<not> ru_test_flag b then verify_transaction b else return_p ())
        (return_p (if record_history b then Some (ru_tid b) else None))))"
  have ver: "quiet anywhere (if \<not> ru_test_flag b then verify_transaction b else return_p ())"
    by (intro traces_if quiet_verify steady_quiet [OF steady_return])
  have "quiet anywhere (?rest r)" for r
    by (intro quiet_bind quiet_lift steady_then steady_modify quiet_then [OF ver] steady_quiet [OF steady_return]) simp_all
  then have rest: "quiet anywhere (bind_p (gets_p (\<lambda>s. install_set (rs_items s))) ?rest)"
    by (rule traces_gets_any)
  have after: "quiet anywhere (then_p (if ru_reset_nice b \<and> \<not> ru_nice_fails b then say (SetNice (ru_nice b)) else return_p ())
      (then_p (sync_history b) (then_p (check_run_result b) (then_p (for_p unlink_ts_file (ru_ts_files b))
        (bind_p (gets_p (\<lambda>s. install_set (rs_items s))) ?rest)))))"
    by (intro steady_then quiet_then [OF quiet_sync] quiet_then [OF quiet_check_run_result] steady_for steady_unlink rest traces_if
        steady_say steady_return) simp_all
  have "quiet anywhere (case ru_raises b RpmRun of None \<Rightarrow> return_p () | Some e \<Rightarrow> raise_p e)"
    by (auto split: option.split intro: raise_traces steady_quiet [OF steady_return])
  from traces_then [OF say_traces [of "\<lambda>_ _. True" RpmRun] this]
  have "traces anywhere (run_rpm b) (\<lambda>_. anywhere) {[M_Ran]} {[M_Ran]}" unfolding run_rpm_def by simp
  note ran = traces_then [OF this after]
  have begin_it: "quiet anywhere (if record_history b then begin_history b v cm else return_p ())" for v cm
    by (intro traces_if quiet_begin_history steady_quiet [OF steady_return])
  show ?thesis unfolding run_transaction_def
    by (intro quiet_then [OF begin_it] steady_then traces_if steady_say steady_return traces_weaken [OF ran]) simp_all
qed

subsection \<open>The locked part\<close>

text \<open>RPM is run only after both checks have passed, and not for a test.\<close>

definition checks_passed :: "run_env \<Rightarrow> bool" where
  "checks_passed b \<longleftrightarrow> ru_check_msgs b = [] \<and> ru_test_errors b = [] \<and> \<not> ru_test_flag b"

definition locked_traces :: "run_env \<Rightarrow> milestone list set" where
  "locked_traces b = {[], [M_Checked], [M_Checked, M_Tested]} \<union>
     {ms \<in> {[M_Checked, M_Tested, M_Saved], [M_Checked, M_Tested, M_Saved, M_Ran]}. checks_passed b}"

lemma quiet_steady: "steady P m \<Longrightarrow> quiet P m"
  by (rule steady_quiet)

lemma locked_part_traces: "traces anywhere (locked_part b) (\<lambda>_. anywhere) (locked_traces b) (locked_traces b)"
proof -
  let ?run = "bind_p (run_transaction b) (\<lambda>tid. return_p (Some tid))"
  let ?prep = "then_p (act b FailSafeUpdated) (then_p (act b PrePlugins) ?run)"
  let ?save = "if ru_test_flag b then return_p None else then_p (act b ModulesSaved) ?prep"
  let ?test = "if ru_test_errors b \<noteq> []
    then let errstring = ''Transaction test error:'' @ nl @ concat (map (\<lambda>d. ''  '' @ d @ nl) (ru_test_errors b))
         in raise_p (DnfError (errstring @ (case trans_error_summary errstring of None \<Rightarrow> [] | Some m \<Rightarrow> nl @ m)))
    else then_p (act b RpmTested) ?save"
  let ?S = "\<lambda>pre. {ms \<in> {pre @ [M_Saved], pre @ [M_Saved, M_Ran]}. \<not> ru_test_flag b}"
  let ?T = "\<lambda>pre. {ms \<in> {pre @ [M_Tested, M_Saved], pre @ [M_Tested, M_Saved, M_Ran]}. ru_test_errors b = [] \<and> \<not> ru_test_flag b}"
  have "traces anywhere ?run (\<lambda>_. anywhere) {[M_Ran]} {[], [M_Ran]}"
    using traces_bind [where f = "\<lambda>tid. return_p (Some tid)", OF run_transaction_traces steady_return, of b] by simp
  then have "traces anywhere ?prep (\<lambda>_. anywhere) {[M_Ran]} {[], [M_Ran]}"
    by (intro quiet_then [OF quiet_act]; (assumption | simp))
  from traces_then [OF act_step [of _ b ModulesSaved] this]
  have "traces anywhere ?save (\<lambda>_. anywhere) ({[]} \<union> ?S []) ({[]} \<union> ?S [])"
    by (intro traces_if) (auto elim!: traces_weaken intro: traces_weaken [OF steady_return])
  from traces_then [OF act_step [of _ b RpmTested] this]
  have "traces anywhere ?test (\<lambda>_. anywhere) ({[], [M_Tested]} \<union> ?T []) ({[], [M_Tested]} \<union> ?T [])"
    unfolding Let_def by (intro traces_if raise_traces) (auto elim!: traces_weaken simp: conc_def)
  from traces_then [OF act_step [of _ b RpmChecked] this]
  have checked: "traces anywhere (then_p (act b RpmChecked) ?test) (\<lambda>_. anywhere)
      ({[], [M_Checked], [M_Checked, M_Tested]} \<union> ?T [M_Checked]) ({[], [M_Checked], [M_Checked, M_Tested]} \<union> ?T [M_Checked])"
    by (rule traces_weaken) (auto simp: conc_def)
  have msgs: "steady anywhere (for_p (\<lambda>m. say (Logged m)) ms)" for ms
    by (intro steady_for steady_say) simp
  have body: "traces anywhere (if ru_check_msgs b \<noteq> []
      then then_p (for_p (\<lambda>m. say (Logged m)) (''Error: transaction check vs depsolve:'' # ru_check_msgs b))
             (raise_p (CheckError (last (ru_check_msgs b)))) else then_p (act b RpmChecked) ?test)
      (\<lambda>_. anywhere) (locked_traces b) (locked_traces b)"
    by (intro traces_if steady_then [OF msgs] raise_traces traces_weaken [OF checked])
      (auto simp: locked_traces_def checks_passed_def)
  have "traces anywhere (then_p (say (Populated calls)) (then_p (lift_p r) (if ru_check_msgs b \<noteq> []
      then then_p (for_p (\<lambda>m. say (Logged m)) (''Error: transaction check vs depsolve:'' # ru_check_msgs b))
             (raise_p (CheckError (last (ru_check_msgs b)))) else then_p (act b RpmChecked) ?test)))
      (\<lambda>_. anywhere) (locked_traces b) (locked_traces b)" for calls and r :: "unit res"
    by (rule steady_then [OF steady_say], simp, rule quiet_then [OF quiet_lift body]) (simp add: locked_traces_def)
  then show ?thesis unfolding locked_part_def by (intro traces_gets_any) (simp only: split_def)
qed

lemma with_lock_traces:
  assumes "traces anywhere m (\<lambda>_. anywhere) S F"
  shows "traces anywhere (with_lock b m) (\<lambda>_. anywhere)
    ((\<lambda>ms. M_Locked # ms @ [M_Released]) ` S) (insert [] ((\<lambda>ms. M_Locked # ms @ [M_Released]) ` F))"
proof (cases "ru_lock b")
  case None
  let ?rel = "\<lambda>s. case m s of (r, s') \<Rightarrow> (r, snd (say LockReleased s'))"
  have "traces anywhere ?rel (\<lambda>_. anywhere) ((\<lambda>ms. ms @ [M_Released]) ` S) ((\<lambda>ms. ms @ [M_Released]) ` F)"
  proof (rule tracesI)
    fix s a s' assume "?rel s = (Inr a, s')"
    then obtain u where "m s = (Inr a, u)" "s' = snd (say LockReleased u)" by (auto split: prod.splits)
    with tracesD(1) [OF assms, of s a u] show "\<exists>new. rs_log s' = rs_log s @ new \<and> milestones new \<in> (\<lambda>ms. ms @ [M_Released]) ` S \<and> True"
      by (force simp: say_def)
  next
    fix s e s' assume "?rel s = (Inl e, s')"
    then obtain u where "m s = (Inl e, u)" "s' = snd (say LockReleased u)" by (auto split: prod.splits)
    with tracesD(2) [OF assms, of s e u] show "\<exists>new. rs_log s' = rs_log s @ new \<and> milestones new \<in> (\<lambda>ms. ms @ [M_Released]) ` F"
      by (force simp: say_def)
  qed
  from traces_then [OF say_traces [of _ LockTaken] this] None show ?thesis
    unfolding with_lock_def by (auto elim!: traces_weaken simp: conc_def)
qed (simp add: with_lock_def raise_traces)

text \<open>The milestones of a whole run, with the locked part between the lock and its release.\<close>

definition base_traces :: "run_env \<Rightarrow> milestone list set" where
  "base_traces b = insert [] ((\<lambda>ms. M_Locked # ms @ [M_Released]) ` locked_traces b)"

lemma base_do_transaction_traces:
  assumes "its \<noteq> []"
  shows "traces (about (\<lambda>i sg. i = its)) (base_do_transaction b) (\<lambda>_. anywhere) (base_traces b) (base_traces b)"
proof -
  let ?L = "(\<lambda>ms. M_Locked # ms @ [M_Released]) ` locked_traces b"
  let ?k = "\<lambda>tid :: int option option. case tid of None \<Rightarrow> return_p None | Some tid \<Rightarrow> then_p (act b UnloadPlugins) (then_p (act b RunPlugins) (return_p tid))"
  have lock: "traces anywhere (with_lock b (locked_part b)) (\<lambda>_. anywhere) ?L (insert [] ?L)"
    by (rule with_lock_traces) (rule locked_part_traces)
  have "quiet anywhere (then_p (act b UnloadPlugins) (then_p (act b RunPlugins) (return_p tid)))" for tid :: "int option"
    by (intro quiet_then [OF quiet_act] steady_quiet [OF steady_return]) simp_all
  then have "quiet anywhere (?k tid)" for tid by (cases tid) (simp_all only: option.case steady_quiet [OF steady_return])
  from traces_bind [OF lock this]
  have "traces anywhere (bind_p (with_lock b (locked_part b)) ?k) (\<lambda>_. anywhere) (base_traces b) (base_traces b)"
    by (rule traces_weaken) (auto simp: base_traces_def conc_def)
  with assms show ?thesis unfolding base_do_transaction_def
    by (intro traces_gets) (auto elim!: traces_weaken simp: traces_def)
qed

subsection \<open>The steps of the command line\<close>

definition confirmed :: "cli_env \<Rightarrow> bool" where
  "confirmed c \<longleftrightarrow> \<not> cl_assumeno c \<and> (cl_assumeyes c \<or> cl_answer c)"

definition persistence_allowed :: "cli_env \<Rightarrow> bool" where
  "persistence_allowed c \<longleftrightarrow>
     (if bootc_transaction c then cl_persistence c \<noteq> Persist \<and> (needs_unlock c \<longrightarrow> cl_persistence c = Transient)
      else cl_persistence c \<noteq> Transient)"

lemma traces_post: "traces P m (\<lambda>_. P) S F \<Longrightarrow> c \<Longrightarrow> traces P m (\<lambda>_ s. P s \<and> c) S F"
  by (erule traces_weaken) auto

lemma quiet_check_protected: "quiet (about p) (check_protected c items)"
proof -
  have paths: "steady (about p) (for_p (\<lambda>q. say (Logged (''  '' @ q))) ps)" for ps
    by (intro steady_for steady_say) simp
  have entry: "steady (about p) ((\<lambda>(nevra, ps). then_p (say (Logged nevra)) (for_p (\<lambda>q. say (Logged (''  '' @ q))) ps)) x)" for x
    unfolding split_def by (intro steady_then steady_say paths) simp
  show ?thesis unfolding check_protected_def Let_def
    by (intro quiet_bind quiet_lift traces_if steady_quiet [OF steady_return] steady_then steady_say steady_for entry raise_traces) simp_all
qed

lemma persistence_guard_traces:
  "traces (about p) (persistence_guard c items) (\<lambda>_ s. about p s \<and> persistence_allowed c) {[]} {[]}"
proof -
  let ?d = "needs_unlock c \<longrightarrow> cl_persistence c = Transient"
  let ?warn = "if needs_unlock c
              then if cl_persistence c = Auto
                   then then_p (say (Logged (''This bootc system is configured to be read-only. Pass --transient to '' @
                       ''perform this transaction in a transient overlay which will reset when the system reboots.'')))
                     (raise_p (CliError ''Operation aborted.''))
                   else if \<not> is_unlocked_transient (cl_bootc c)
                   then say (Logged (''A transient overlay will be created on /usr that will be discarded on reboot. '' @
                       ''Keep in mind that changes to /etc and /var will still persist, and packages commonly modify these directories.''))
                   else return_p ()
              else return_p ()"
  have tr: "quiet (about q) (modify_p (\<lambda>s. s\<lparr>rs_transient := t\<rparr>))" for q t
    by (rule steady_quiet [OF steady_modify]) simp_all
  have quiet: "quiet (about p) ?warn"
    by (intro traces_if steady_then [OF steady_say] raise_traces steady_quiet [OF steady_say] steady_quiet [OF steady_return]) simp_all
  have warn: "traces (about p) ?warn (\<lambda>_. about (\<lambda>i g. p i g \<and> ?d)) {[]} {[]}" if "cl_persistence c \<noteq> Persist"
  proof (cases ?d)
    case True
    from traces_post [OF quiet True] show ?thesis .
  next
    case False
    with that have "needs_unlock c" "cl_persistence c = Auto" by (cases "cl_persistence c", simp_all)+
    then show ?thesis by (auto intro!: steady_then [OF steady_say] raise_traces)
  qed
  have rest: "traces (about (\<lambda>i g. p i g \<and> ?d)) (then_p (modify_p (\<lambda>s. s\<lparr>rs_transient := True\<rparr>)) (check_protected c items))
      (\<lambda>_ s. about p s \<and> ?d) {[]} {[]}"
    by (rule quiet_then [OF tr]) (auto intro: quiet_check_protected)
  show ?thesis
  proof (cases "bootc_transaction c")
    case True
    show ?thesis
    proof (cases "cl_persistence c = Persist")
      case True
      with \<open>bootc_transaction c\<close> show ?thesis
        by (simp add: persistence_guard_def) (intro steady_then [OF steady_say] raise_traces, simp_all)
    next
      case False
      from quiet_then [OF warn [OF this] rest] False \<open>bootc_transaction c\<close> show ?thesis
        unfolding persistence_guard_def persistence_allowed_def by simp
    qed
  next
    case False
    then show ?thesis
      unfolding persistence_guard_def if_not_P [OF False]
      by (intro traces_if raise_traces traces_post tr) (simp_all add: persistence_allowed_def)
  qed
qed

lemma confirm_traces: "traces P (confirm c) (\<lambda>_ s. P s \<and> confirmed c) {[]} {[]}" if "P = about p"
  unfolding confirm_def that
  by (intro traces_if raise_traces steady_then [OF steady_say] traces_post steady_quiet [OF steady_return])
    (auto simp: confirmed_def prompt_wanted_def split: if_splits)

lemma quiet_unlock: "quiet (about p) (unlock_bootc c)"
  by (auto simp: unlock_bootc_def traces_def split: prod.split sum.split)

lemma quiet_download: "quiet (about p) (download_step c ps)"
  unfolding download_step_def
  by (auto split: option.split exn.split intro: raise_traces steady_quiet [OF steady_say])

lemma gpg_step_traces: "traces (about (\<lambda>i _. i = its)) (gpg_step c ps) (\<lambda>_. about (\<lambda>i _. i = its)) {[M_Verified]} {[]}"
proof -
  let ?check = "\<lambda>s. case gpgsigcheck (cl_sig_conf c) (cl_sig_lib c) (cl_tty c) (map (cl_sig_pkg c) ps) (rs_sig s) of (r, sg) \<Rightarrow> (r, s\<lparr>rs_sig := sg\<rparr>)"
  have "quiet (about (\<lambda>i _. i = its)) ?check"
    by (rule tracesI) (auto split: prod.splits)
  from traces_then [OF this say_traces [of "\<lambda>i _. i = its" "GpgChecked ps"]]
  show ?thesis unfolding gpg_step_def by simp
qed

lemma quiet_report_result: "quiet anywhere (report_result tid)"
  unfolding report_result_def
  by (intro traces_gets_any traces_if raise_traces steady_quiet [OF steady_return]) simp

subsection \<open>The whole\<close>

definition all_traces :: "milestone list set" where
  "all_traces = {[], [M_Verified]} \<union> (\<lambda>n. take n [M_Verified, M_Locked, M_Checked, M_Tested, M_Saved, M_Ran] @ [M_Released]) ` {2, 3, 4, 5, 6}"

text \<open>What has come before RPM runs.\<close>

definition may_run :: "cli_env \<Rightarrow> bool" where
  "may_run c \<longleftrightarrow> confirmed c \<and> persistence_allowed c \<and> \<not> cl_downloadonly c \<and> checks_passed (cl_base c)"

definition cli_traces :: "bool \<Rightarrow> milestone list set" where
  "cli_traces d = {ms \<in> all_traces. M_Ran \<in> set ms \<longrightarrow> d}"

lemma all_traces_simps: "[] \<in> all_traces" "[M_Verified] \<in> all_traces"
  by (simp_all add: all_traces_def)

lemma base_traces_run: "ms \<in> base_traces b \<Longrightarrow> M_Verified # ms \<in> all_traces \<and> (M_Ran \<in> set ms \<longrightarrow> checks_passed b)"
  by (auto simp: base_traces_def locked_traces_def all_traces_def)

lemma act_traces:
  assumes "its \<noteq> []"
  shows "traces (\<lambda>s. about (\<lambda>i _. i = its) s \<and> confirmed c \<and> persistence_allowed c)
    (then_p (unlock_bootc c)
      (then_p (then_p (if ins \<noteq> [] then download_step c ins else return_p ()) (gpg_step c ins))
         (if cl_downloadonly c then return_p None
          else bind_p (base_do_transaction (cl_base c)) report_result))) (\<lambda>_. anywhere)
    (cli_traces (may_run c)) (cli_traces (may_run c))"
proof -
  let ?pre = "\<lambda>i (_ :: sig_state). i = its \<and> confirmed c \<and> persistence_allowed c"
    let ?main = "if cl_downloadonly c then return_p None else bind_p (base_do_transaction (cl_base c)) report_result"
  let ?B = "{ms \<in> base_traces (cl_base c). \<not> cl_downloadonly c}"
  have "[] \<in> base_traces (cl_base c)" by (simp add: base_traces_def)
  with traces_bind [where f = report_result, OF base_do_transaction_traces [OF assms(1), of "cl_base c"] quiet_report_result]
  have "traces (about (\<lambda>i g. i = its)) (bind_p (base_do_transaction (cl_base c)) report_result) (\<lambda>_. anywhere)
      (base_traces (cl_base c)) (base_traces (cl_base c))"
    by (auto elim!: traces_weaken simp: conc_def)
  then have "traces (about (\<lambda>i g. i = its)) ?main (\<lambda>_. anywhere) (insert [] ?B) (insert [] ?B)"
    by (intro traces_if) (auto elim!: traces_weaken intro: traces_weaken [OF steady_return])
  then have "traces (about ?pre) ?main (\<lambda>_. anywhere) (insert [] ?B) (insert [] ?B)" by (rule traces_weaken) auto
  from traces_fact [OF this, of "confirmed c \<and> persistence_allowed c"]
  have main: "traces (about ?pre) ?main (\<lambda>_. anywhere)
      {ms \<in> insert [] ?B. confirmed c \<and> persistence_allowed c}
      {ms \<in> insert [] ?B. confirmed c \<and> persistence_allowed c}" by simp
  have gpg: "traces (about ?pre) (gpg_step c ins) (\<lambda>_. about ?pre) {[M_Verified]} {[]}"
  proof (cases "confirmed c \<and> persistence_allowed c")
    case True
    show ?thesis by (rule traces_weaken [OF gpg_step_traces [of its c ins]]) (use True in auto)
  qed (auto simp: traces_def)
  have down: "quiet (about ?pre) (if ins \<noteq> [] then download_step c ins else return_p ())"
    by (intro traces_if quiet_download steady_quiet [OF steady_return])
  have "traces (about ?pre) (then_p (if ins \<noteq> [] then download_step c ins else return_p ()) (gpg_step c ins)) (\<lambda>_. about ?pre) {[M_Verified]} {[]}"
    by (rule quiet_then [OF down gpg]) simp
  note whole = quiet_then [OF quiet_unlock traces_then [OF this main]]
  show ?thesis
    by (rule traces_weaken [OF whole])
      (auto simp: conc_def cli_traces_def may_run_def base_traces_run all_traces_simps)
qed

lemma cli_do_transaction_traces:
  assumes "its \<noteq> []"
  shows "traces (about (\<lambda>i _. i = its)) (cli_do_transaction c) (\<lambda>_. anywhere)
    (cli_traces (may_run c)) (cli_traces (may_run c))"
proof -
  let ?P = "about (\<lambda>i _. i = its)" and ?T = "cli_traces (may_run c)"
  have nil: "[] \<in> ?T" by (simp add: cli_traces_def all_traces_def)
  have switch: "quiet ?P (if \<not> cl_stream_switch c \<and> cl_switched c \<noteq> []
             then then_p (report_module_switch (cl_switched c)) (raise_p switch_error) else return_p ())"
    unfolding report_module_switch_def split_def
    by (intro traces_if steady_then raise_traces steady_for steady_say steady_quiet [OF steady_return]) simp_all
  let ?act = "\<lambda>ins. then_p (persistence_guard c its)
         (then_p (confirm c)
         (then_p (unlock_bootc c)
         (then_p (then_p (if ins \<noteq> [] then download_step c ins else return_p ()) (gpg_step c ins))
         (if cl_downloadonly c then return_p None
          else bind_p (base_do_transaction (cl_base c)) report_result))))"
  have act: "traces ?P (?act ins) (\<lambda>_. anywhere) ?T ?T" for ins
  proof -
    have "traces (\<lambda>s. ?P s \<and> persistence_allowed c) (confirm c) (\<lambda>_ s. ?P s \<and> confirmed c \<and> persistence_allowed c) {[]} {[]}"
      using confirm_traces [OF refl, of "\<lambda>i _. i = its \<and> persistence_allowed c" c] by (rule traces_weaken) auto
    from quiet_then [OF persistence_guard_traces quiet_then [OF this act_traces [OF assms] nil] nil] show ?thesis .
  qed
  have "traces ?P (bind_p (lift_p (split_items its)) (\<lambda>(ins, rm). then_p (say RpmdbClosed) (?act ins))) (\<lambda>_. anywhere) ?T ?T"
  proof (cases "split_items its")
    case (Inl e)
    then show ?thesis using nil by (auto simp: traces_def bind_p_apply)
  next
    case (Inr w)
    obtain ins rm where w: "w = (ins, rm)" by (cases w)
    have "bind_p (lift_p (split_items its)) (\<lambda>(ins, rm). then_p (say RpmdbClosed) (?act ins)) = then_p (say RpmdbClosed) (?act ins)"
      by (rule ext) (simp add: Inr w bind_p_apply)
    moreover have "traces ?P (then_p (say RpmdbClosed) (?act ins)) (\<lambda>_. anywhere) ?T ?T"
      by (rule steady_then [OF steady_say act]) (use Inr w in simp_all)
    ultimately show ?thesis by simp
  qed
  then have "traces ?P (bind_p (gets_p rs_items) (\<lambda>items.
      bind_p (lift_p (split_items items)) (\<lambda>(install_pkgs, rmpkgs).
      then_p (if items \<noteq> [] then say RpmdbClosed else return_p ())
      (if items \<noteq> [] \<or> cl_module_changed c \<or> ru_groups_changed (cl_base c)
       then then_p (persistence_guard c items)
         (then_p (confirm c)
         (then_p (unlock_bootc c)
         (then_p (if items \<noteq> [] then then_p (if install_pkgs \<noteq> [] then download_step c install_pkgs else return_p ()) (gpg_step c install_pkgs)
                  else return_p ())
         (if cl_downloadonly c then return_p None
          else bind_p (base_do_transaction (cl_base c)) report_result))))
       else then_p (say (Logged ''Nothing to do.'')) (return_p None))))) (\<lambda>_. anywhere) ?T ?T"
    using assms by (auto simp: traces_def bind_gets)
  from quiet_then [OF switch this nil] show ?thesis unfolding cli_do_transaction_def .
qed

subsection \<open>The keys that accepted the packages\<close>

text \<open>Every package was accepted with a keyring between the first and the last of the run.\<close>

definition signatures_accepted :: "cli_env \<Rightarrow> pkg list \<Rightarrow> sig_state \<Rightarrow> sig_state \<Rightarrow> bool" where
  "signatures_accepted c ps sg sg' \<longleftrightarrow>
     (\<forall>p \<in> set ps. \<exists>kr. prefix (ss_keyring sg) kr \<and> prefix kr (ss_keyring sg') \<and>
        accepted (cl_sig_conf c) (cl_sig_lib c) kr (cl_sig_pkg c p))"

lemma gpgsigcheck_accepts:
  assumes "gpgsigcheck (cl_sig_conf c) (cl_sig_lib c) (cl_tty c) (map (cl_sig_pkg c) ps) sg = (Inr (), sg')"
  shows "signatures_accepted c ps sg sg'"
proof -
  from assms obtain h where "gpg_loop (cl_sig_conf c) (cl_sig_lib c) (cl_tty c) (map (cl_sig_pkg c) ps) ([], False) sg = (Inr ([], h), sg')"
    by (auto simp: gpgsigcheck_def bind_p_apply then_p_apply split: if_splits prod.splits sum.splits)
  from gpg_loop_accepts [OF this] show ?thesis unfolding signatures_accepted_def by simp
qed

text \<open>Before the check of the signatures: the log has been extended, but RPM was not run.\<close>

definition not_ran :: "run_event list \<Rightarrow> run_state \<Rightarrow> bool" where
  "not_ran lg s \<longleftrightarrow> (\<exists>new. rs_log s = lg @ new \<and> RpmRun \<notin> set new)"

abbreviation ungated :: "run_event list \<Rightarrow> sig_state \<Rightarrow> run_state \<Rightarrow> bool" where
  "ungated lg sg s \<equiv> not_ran lg s \<and> rs_sig s = sg"

lemma not_ran_add: "not_ran lg s \<Longrightarrow> RpmRun \<notin> set evs \<Longrightarrow> rs_log s' = rs_log s @ evs \<Longrightarrow> not_ran lg s'"
  unfolding not_ran_def by auto

lemma not_ran_same: "not_ran lg s \<Longrightarrow> rs_log s' = rs_log s \<Longrightarrow> not_ran lg s'"
  unfolding not_ran_def by simp

lemma ungated_say: "ev \<noteq> RpmRun \<Longrightarrow> pres (ungated lg sg) (say ev)"
  unfolding say_def by (rule pres_modify) (auto elim: not_ran_add [where evs = "[ev]"])

lemma ungated_modify: "(\<And>s. rs_log (f s) = rs_log s \<and> rs_sig (f s) = rs_sig s) \<Longrightarrow> pres (ungated lg sg) (modify_p f)"
  by (rule pres_modify) (auto elim: not_ran_same)

lemma ungated_guard: "pres (ungated lg sg) (persistence_guard c items)"
  unfolding persistence_guard_def check_protected_def Let_def split_def
  by (intro pres_if pres_then pres_bind pres_for pres_basic ungated_say ungated_modify) simp_all

lemma ungated_confirm: "pres (ungated lg sg) (confirm c)"
  unfolding confirm_def by (intro pres_if pres_then pres_basic ungated_say) simp

lemma ungated_unlock: "pres (ungated lg sg) (unlock_bootc c)"
  unfolding unlock_bootc_def
  by (intro pres_if pres_basic presI) (auto split: prod.splits elim!: not_ran_add)

lemma ungated_download: "pres (ungated lg sg) (download_step c ps)"
  unfolding download_step_def by (auto split: option.split exn.split intro: pres_basic ungated_say)

text \<open>From the check on the signatures stay what they are.\<close>

abbreviation with_sig :: "(sig_state \<Rightarrow> bool) \<Rightarrow> run_state \<Rightarrow> bool" where
  "with_sig A s \<equiv> A (rs_sig s)"

lemma sig_say: "pres (with_sig A) (say ev)"
  unfolding say_def by (rule pres_modify) simp

lemma sig_act: "pres (with_sig A) (act b ev)"
  unfolding act_def by (intro pres_option pres_basic sig_say)

lemma sig_sync: "pres (with_sig A) (sync_history b)"
  by (rule presI) (auto simp: sync_history_def split: prod.splits)

lemma sig_unlink: "pres (with_sig A) (unlink_ts_file f)"
  unfolding unlink_ts_file_def split_def by (intro pres_if sig_say)

lemma sig_check_result: "pres (with_sig A) (check_run_result b)"
  unfolding check_run_result_def
  by (split option.split, split list.split) (intro conjI allI impI pres_if pres_then pres_for pres_basic sig_say sig_act)

lemma sig_modify: "(\<And>s. rs_sig (f s) = rs_sig s) \<Longrightarrow> pres (with_sig A) (modify_p f)"
  by (rule pres_modify) simp

lemmas sig_pres = pres_if pres_then pres_bind pres_for pres_basic pres_option sig_say sig_act sig_sync sig_unlink sig_check_result sig_modify

lemma sig_run_transaction: "pres (with_sig A) (run_transaction b)"
  unfolding run_transaction_def run_rpm_def verify_transaction_def begin_history_def
  by (intro sig_pres) simp_all

lemma sig_locked: "pres (with_sig A) (locked_part b)"
  unfolding locked_part_def Let_def split_def by (intro sig_pres sig_run_transaction)

lemma sig_with_lock: "pres (with_sig A) m \<Longrightarrow> pres (with_sig A) (with_lock b m)"
  unfolding with_lock_def
  by (intro pres_option pres_basic pres_then sig_say presI) (auto simp: say_def split: prod.splits dest: presD)

lemma sig_base: "pres (with_sig A) (base_do_transaction b)"
  unfolding base_do_transaction_def Let_def
  by (intro sig_pres sig_with_lock sig_locked) (simp_all add: begin_history_def sig_pres)

lemma sig_report: "pres (with_sig A) (report_result tid)"
  unfolding report_result_def by (intro sig_pres)

text \<open>So when RPM has run, the check had returned, from the first keyring to the last.\<close>

definition gated :: "cli_env \<Rightarrow> pkg list \<Rightarrow> run_event list \<Rightarrow> sig_state \<Rightarrow> run_state \<Rightarrow> bool" where
  "gated c ps lg sg s \<longleftrightarrow> not_ran lg s \<or> signatures_accepted c ps sg (rs_sig s)"

lemma gated_gpg:
  "triple (ungated lg sg) (gpg_step c ps) (\<lambda>_. with_sig (signatures_accepted c ps sg)) (gated c ps lg sg)"
proof (rule tripleI)
  fix s :: run_state and a s' assume "ungated lg sg s" "gpg_step c ps s = (Inr a, s')"
  then show "with_sig (signatures_accepted c ps sg) s'"
    by (auto simp: gpg_step_def then_p_apply say_def intro: gpgsigcheck_accepts split: prod.splits sum.splits)
next
  fix s :: run_state and e s' assume "ungated lg sg s" "gpg_step c ps s = (Inl e, s')"
  then show "gated c ps lg sg s'"
    by (auto simp: gpg_step_def then_p_apply say_def gated_def elim: not_ran_same split: prod.splits sum.splits)
qed

lemma gated_unchecked: "pres (ungated lg sg) m \<Longrightarrow> triple (ungated lg sg) m (\<lambda>_. ungated lg sg) (gated c ps lg sg)"
  by (drule triple_pres, erule triple_weaken) (simp_all add: gated_def)

lemma gated_rest:
  "triple (ungated lg sg)
    (then_p (persistence_guard c items) (then_p (confirm c) (then_p (unlock_bootc c)
      (then_p (then_p (if ins \<noteq> [] then download_step c ins else return_p ()) (gpg_step c ins))
         (if cl_downloadonly c then return_p None else bind_p (base_do_transaction (cl_base c)) report_result)))))
    (\<lambda>_. gated c ins lg sg) (gated c ins lg sg)"
proof -
  have kept: "pres (with_sig (signatures_accepted c ins sg)) (if cl_downloadonly c then return_p None else bind_p (base_do_transaction (cl_base c)) report_result)"
    by (intro sig_pres sig_base sig_report)
  have main: "triple (with_sig (signatures_accepted c ins sg))
      (if cl_downloadonly c then return_p None else bind_p (base_do_transaction (cl_base c)) report_result)
      (\<lambda>_. gated c ins lg sg) (gated c ins lg sg)"
    by (rule triple_weaken [OF triple_pres [OF kept]]) (simp_all add: gated_def)
  have down: "pres (ungated lg sg) (if ins \<noteq> [] then download_step c ins else return_p ())"
    by (intro pres_if pres_basic ungated_download)
  show ?thesis
    by (intro triple_then [OF gated_unchecked] ungated_guard ungated_confirm ungated_unlock
        triple_then [OF triple_then [OF gated_unchecked [OF down] gated_gpg] main])
qed

lemma switch_not_ran: "pres (ungated lg sg) (if b then then_p (report_module_switch sw) (raise_p switch_error) else return_p ())"
  unfolding report_module_switch_def split_def by (intro pres_if pres_then pres_for pres_basic ungated_say) simp

lemma switch_step:
  "triple (\<lambda>s. ungated lg sg s \<and> rs_items s = items)
    (if b then then_p (report_module_switch sw) (raise_p switch_error) else return_p ())
    (\<lambda>_ s. ungated lg sg s \<and> rs_items s = items) (not_ran lg)"
proof -
  have "pres (\<lambda>s. rs_items s = items) (if b then then_p (report_module_switch sw) (raise_p switch_error) else return_p ())"
    unfolding report_module_switch_def split_def say_def by (intro pres_if pres_then pres_for pres_basic pres_modify) simp
  from presD [OF this] presD [OF switch_not_ran] show ?thesis by (intro tripleI) blast+
qed

lemma cli_not_split:
  assumes "split_items items = Inl e"
  shows "triple (\<lambda>s. ungated lg sg s \<and> rs_items s = items) (cli_do_transaction c) (\<lambda>_. not_ran lg) (not_ran lg)"
  unfolding cli_do_transaction_def
  by (rule triple_then [OF switch_step]) (use assms in \<open>auto simp: triple_def bind_gets\<close>)

lemma cli_gated:
  assumes "items \<noteq> []" and split: "split_items items = Inr (ins, rm)"
  shows "triple (\<lambda>s. ungated lg sg s \<and> rs_items s = items) (cli_do_transaction c) (\<lambda>_. gated c ins lg sg) (gated c ins lg sg)"
proof -
  have switch: "triple (\<lambda>s. ungated lg sg s \<and> rs_items s = items)
      (if b then then_p (report_module_switch sw) (raise_p switch_error) else return_p ())
      (\<lambda>_ s. ungated lg sg s \<and> rs_items s = items) (gated c ins lg sg)" for b sw
    by (rule triple_weaken [OF switch_step [of lg sg items]]) (simp_all add: gated_def)
  let ?go = "then_p (say RpmdbClosed)
    (then_p (persistence_guard c items) (then_p (confirm c) (then_p (unlock_bootc c)
      (then_p (then_p (if ins \<noteq> [] then download_step c ins else return_p ()) (gpg_step c ins))
         (if cl_downloadonly c then return_p None else bind_p (base_do_transaction (cl_base c)) report_result)))))"
  have "triple (ungated lg sg) ?go (\<lambda>_. gated c ins lg sg) (gated c ins lg sg)"
    by (rule triple_then [OF gated_unchecked [OF ungated_say] gated_rest]) simp
  then have go: "triple (\<lambda>s. ungated lg sg s \<and> rs_items s = items) ?go (\<lambda>_. gated c ins lg sg) (gated c ins lg sg)"
    by (rule triple_weaken) simp_all
  show ?thesis unfolding cli_do_transaction_def
    by (rule triple_then [OF switch]) (use go assms in \<open>auto simp: triple_def bind_gets\<close>)
qed

subsection \<open>The order and the gate\<close>

text \<open>
  C1. The order of a transaction that has items, whatever step raises on the way (a plugin, the saving
  of the module states, the history, RPM itself or one of its callbacks): the run either stops before
  or after the check of the signatures, or takes the lock of the RPM database and releases it at the end
  whatever happens; under the lock the check comes first, then the test, then the module states are saved,
  and only then RPM is run.  If RPM is run, the user or the configuration had confirmed, the
  persistence was allowed on this system, it was not a download only or a test, neither check reported a
  problem, and every package to install had been accepted with the keys of the start and those this run
  had imported by then: a keyring between the one before and the one after the run.
\<close>

theorem transaction_order:
  assumes "cli_do_transaction c s = (r, s')" and "rs_items s \<noteq> []"
  shows "\<exists>new. rs_log s' = rs_log s @ new \<and> milestones new \<in> all_traces \<and>
    (RpmRun \<in> set new \<longrightarrow> confirmed c \<and> persistence_allowed c \<and> \<not> cl_downloadonly c \<and> checks_passed (cl_base c) \<and>
       (\<exists>ins rm. split_items (rs_items s) = Inr (ins, rm) \<and> signatures_accepted c ins (rs_sig s) (rs_sig s')))"
proof -
  note traces = cli_do_transaction_traces [OF assms(2), of c]
  have "\<exists>new. rs_log s' = rs_log s @ new \<and> milestones new \<in> cli_traces (may_run c)"
  proof (cases r)
    case (Inl e)
    with tracesD(2) [OF traces] assms(1) show ?thesis by simp
  next
    case (Inr a)
    with tracesD(1) [OF traces] assms(1) show ?thesis by simp
  qed
  then obtain new where new: "rs_log s' = rs_log s @ new" "milestones new \<in> cli_traces (may_run c)" by blast
  have "\<exists>ins rm. split_items (rs_items s) = Inr (ins, rm) \<and> signatures_accepted c ins (rs_sig s) (rs_sig s')" if ran: "RpmRun \<in> set new"
  proof -
    have not_ran: "\<not> not_ran (rs_log s) s'" using new(1) ran by (auto simp: not_ran_def)
    have first: "ungated (rs_log s) (rs_sig s) s" by (simp add: not_ran_def)
    show ?thesis
    proof (cases "split_items (rs_items s)")
    case (Inl e)
    from tripleD [OF cli_not_split [OF this, of "rs_log s" "rs_sig s" c], of s] assms(1) first
    have "not_ran (rs_log s) s'" by (cases r) auto
    with not_ran show ?thesis by simp
  next
    case (Inr w)
    obtain ins rm where w: "w = (ins, rm)" by (cases w)
    note t = cli_gated [OF assms(2) Inr [unfolded w], of "rs_log s" "rs_sig s" c]
    from tripleD [OF t, of s] assms(1) first have "gated c ins (rs_log s) (rs_sig s) s'" by (cases r) auto
    with not_ran Inr w show ?thesis by (simp add: gated_def)
    qed
  qed
  with new show ?thesis by (intro exI [of _ new]) (simp add: cli_traces_def may_run_def ran_iff)
qed

definition example_run :: run_env where
  "example_run = \<lparr>ru_cmdline = Some ''install a'', ru_comment = [], ru_groups_changed = False, ru_last = None,
     ru_cookie = ''c1'', ru_cookie_after = ''c2'', ru_tid = 1, ru_lock = None, ru_rpm = \<lparr>rl_header_error = (\<lambda>_. None), rl_call_error = (\<lambda>_. None)\<rparr>,
     ru_check_msgs = [], ru_test_errors = [], ru_test_flag = False, ru_history_record = True,
     ru_reset_nice = False, ru_nice = 0, ru_nice_fails = False, ru_result = None,
     ru_elements = [], ru_ts_files = [], ru_installed_names = [], ru_group_pkgs = [], ru_raises = (\<lambda>_. None)\<rparr>"

definition example_cli :: cli_env where
  "example_cli = \<lparr>cl_base = example_run, cl_stream_switch = False, cl_switched = [], cl_module_changed = False,
     cl_downloadonly = False, cl_assumeyes = False, cl_assumeno = False, cl_answer = True, cl_bootc_system = False,
     cl_root = True, cl_persistence = Auto, cl_bootc = demo_bootc US_NONE 0, cl_protected = [], cl_files = (\<lambda>_. []),
     cl_download = None, cl_sig_conf = example_sig_conf False False, cl_sig_lib = example_sig_lib, cl_tty = True,
     cl_sig_pkg = (\<lambda>_. example_sig_pkg)\<rparr>"

definition example_start :: run_state where
  "example_start = \<lparr>rs_log = [], rs_items = [rpm_item example_env (example_pkg ''a'' 1) ''main'' INSTALL USER],
     rs_success = False, rs_install_set = None, rs_transient = False,
     rs_sig = example_sig_state\<lparr>ss_keyring := [''key'']\<rparr>\<rparr>"

lemma example_log: "RpmRun \<in> set (rs_log (snd (cli_do_transaction example_cli example_start)))"
  by code_simp

lemma transaction_order_witness:
  "RpmRun \<in> set (rs_log (snd (cli_do_transaction example_cli example_start))) \<and>
   milestones (rs_log (snd (cli_do_transaction example_cli example_start))) \<in> all_traces \<and> confirmed example_cli"
proof -
  obtain r s' where run: "cli_do_transaction example_cli example_start = (r, s')" by (metis surj_pair)
  have "rs_items example_start \<noteq> []" by (simp add: example_start_def)
  from transaction_order [OF run this] obtain new where "rs_log s' = new" "milestones new \<in> all_traces"
    "RpmRun \<in> set new \<longrightarrow> confirmed example_cli" by (auto simp: example_start_def)
  with run example_log show ?thesis by simp
qed

end
