(* ===== verification/Updateinfo.thy ===== *)
theory Updateinfo
  imports Glob Format I18n "HOL-Library.Product_Lexorder" "HOL-Library.Option_ord"
begin

text \<open>
  dnf/cli/commands/updateinfo.py: the advisories about packages, as a summary, a list or in detail.

  The packages that an advisory is about, the order of versions and the bugs and CVEs an advisory matches come from libdnf and are
  parameters; a date is a number with its text as a parameter.
\<close>

subsection \<open>Advisories\<close>

datatype adv_type = AdvUnknown | AdvSecurity | AdvBugfix | AdvEnhancement | AdvNewpackage

datatype ref_type = RefUnknown | RefBugzilla | RefCve | RefVendor

record adv_ref =
  ar_type :: ref_type
  ar_id :: string
  ar_title :: "string option"

record advisory =
  av_id :: string
  av_type :: adv_type
  av_severity :: "string option"
  av_title :: string
  av_description :: "string option"
  av_rights :: "string option"
  av_updated :: int
  av_refs :: "adv_ref list"
  av_packages :: "(string \<times> string) list"

record adv_pkg =
  ap_name :: string
  ap_evr :: string
  ap_arch :: string

type_synonym adv_triple = "adv_pkg \<times> advisory \<times> bool"

definition type_labels :: "(adv_type, string) dict" where
  "type_labels = [(AdvBugfix, ''bugfix''), (AdvEnhancement, ''enhancement''), (AdvSecurity, ''security''),
     (AdvUnknown, ''unknown''), (AdvNewpackage, ''newpackage'')]"

definition security_labels :: "(string, string) dict" where
  "security_labels = [(''Critical'', ''Critical/Sec.''), (''Important'', ''Important/Sec.''),
     (''Moderate'', ''Moderate/Sec.''), (''Low'', ''Low/Sec.'')]"

definition label_of :: "(string, string) dict \<Rightarrow> string \<Rightarrow> string option \<Rightarrow> string" where
  "label_of d u k = (case k of None \<Rightarrow> u | Some k \<Rightarrow> (case map_of d k of None \<Rightarrow> u | Some l \<Rightarrow> l))"

definition type_label :: "adv_type \<Rightarrow> string" where
  "type_label t = (case map_of type_labels t of None \<Rightarrow> ''unknown'' | Some l \<Rightarrow> l)"

definition type2label :: "adv_type \<Rightarrow> string option \<Rightarrow> string" where
  "type2label t sev = (if t = AdvSecurity then label_of security_labels ''Unknown/Sec.'' sev else type_label t)"

subsection \<open>The command line\<close>

definition direct_commands :: "(string, string) dict" where
  "direct_commands = [(''list-updateinfo'', ''list''), (''list-security'', ''list''), (''list-sec'', ''list''),
     (''info-updateinfo'', ''info''), (''info-security'', ''info''), (''info-sec'', ''info''), (''summary-updateinfo'', ''summary'')]"

definition availability_default :: string where "availability_default = ''available''"

definition availabilities :: "string list" where
  "availabilities = [''installed'', ''updates'', ''all'', availability_default]"

text \<open>The options as they are parsed, and what \<open>configure\<close> makes of them.\<close>

record upd_opts =
  uo_command :: string
  uo_action_opt :: "string option"
  uo_spec_action :: string
  uo_availability_opt :: "string option"
  uo_availability :: string
  uo_bugfix :: bool
  uo_enhancement :: bool
  uo_newpackage :: bool
  uo_security :: bool
  uo_advisory :: "string list"
  uo_spec :: "string list"
  uo_severity :: "string list"
  uo_bugzilla :: "string list"
  uo_cves :: "string list"
  uo_with_cve :: bool
  uo_with_bz :: bool
  uo_types :: "adv_type set"

definition configure_action :: "upd_opts \<Rightarrow> upd_opts" where
  "configure_action o' =
     (case map_of direct_commands (uo_command o') of
        Some a \<Rightarrow> o'\<lparr>uo_spec_action := a\<rparr>
      | None \<Rightarrow> (case uo_action_opt o' of None \<Rightarrow> o' | Some a \<Rightarrow> if a = [] then o' else o'\<lparr>uo_spec_action := a\<rparr>))"

definition configure_availability :: "upd_opts \<Rightarrow> upd_opts" where
  "configure_availability o' =
     (case uo_availability_opt o' of
        Some a \<Rightarrow> o'\<lparr>uo_availability := a\<rparr>
      | None \<Rightarrow> (case uo_spec o' of
            [] \<Rightarrow> o'\<lparr>uo_availability := availability_default\<rparr>
          | s # rest \<Rightarrow> if s \<in> set availabilities then o'\<lparr>uo_availability := s, uo_spec := rest\<rparr>
              else o'\<lparr>uo_availability := availability_default\<rparr>))"

definition configure_types :: "upd_opts \<Rightarrow> upd_opts" where
  "configure_types o' = o'\<lparr>uo_types :=
     (if uo_bugfix o' then {AdvBugfix} else {}) \<union> (if uo_enhancement o' then {AdvEnhancement} else {}) \<union>
     (if uo_newpackage o' then {AdvNewpackage} else {}) \<union> (if uo_security o' then {AdvSecurity} else {})\<rparr>"

definition add_type :: "adv_type \<Rightarrow> upd_opts \<Rightarrow> upd_opts" where
  "add_type t o' = o'\<lparr>uo_types := insert t (uo_types o')\<rparr>"

definition configure_word :: "upd_opts \<Rightarrow> upd_opts" where
  "configure_word o' =
     (case uo_spec o' of
        [] \<Rightarrow> o'
      | s # rest \<Rightarrow>
          let o2 = o'\<lparr>uo_spec := rest\<rparr> in
          if s = ''bugfix'' then add_type AdvBugfix o2
          else if s = ''enhancement'' then add_type AdvEnhancement o2
          else if s \<in> {''security'', ''sec''} then add_type AdvSecurity o2
          else if s = ''newpackage'' then add_type AdvNewpackage o2
          else if s \<in> {''bugzillas'', ''bzs''} then o2\<lparr>uo_with_bz := True\<rparr>
          else if s = ''cves'' then o2\<lparr>uo_with_cve := True\<rparr>
          else o')"

definition configure_updateinfo :: "upd_opts \<Rightarrow> upd_opts" where
  "configure_updateinfo o' =
     (let o2 = configure_word (configure_types (configure_availability (configure_action o')))
      in o2\<lparr>uo_spec := uo_spec o2 @ uo_advisory o2\<rparr>)"

subsection \<open>Which advisories\<close>

text \<open>The installed packages and what libdnf says of them.\<close>

record sys_pkg =
  sp_name :: string
  sp_evr :: string
  sp_installed :: bool
  sp_latest :: bool
  sp_upgradable :: bool
  sp_sourcerpm :: string

datatype cmp_type = CmpGt | CmpEq | CmpLt

record upd_env =
  ue_sack :: "sys_pkg list"
  ue_kernel :: "sys_pkg option"
  ue_evr_cmp :: "string \<Rightarrow> string \<Rightarrow> int"
  ue_advisory_pkgs :: "sys_pkg list \<Rightarrow> cmp_type set \<Rightarrow> (adv_pkg \<times> advisory) list"
  ue_match_bug :: "advisory \<Rightarrow> string \<Rightarrow> bool"
  ue_match_cve :: "advisory \<Rightarrow> string \<Rightarrow> bool"

definition newer_equal_installed :: "upd_env \<Rightarrow> adv_pkg \<Rightarrow> bool" where
  "newer_equal_installed e ap \<longleftrightarrow>
     filter (\<lambda>p. sp_name p = ap_name ap \<and> 0 \<le> ue_evr_cmp e (sp_evr p) (ap_evr ap)) (filter sp_installed (ue_sack e)) \<noteq> []"

definition advisory_matcher :: "upd_env \<Rightarrow> upd_opts \<Rightarrow> advisory \<Rightarrow> bool" where
  "advisory_matcher e o' a \<longleftrightarrow>
     (if uo_types o' = {} \<and> uo_spec o' = [] \<and> uo_severity o' = [] \<and> uo_bugzilla o' = [] \<and> uo_cves o' = [] \<and>
         \<not> uo_with_cve o' \<and> \<not> uo_with_bz o' then True
      else if av_type a \<in> uo_types o' then True
      else if \<exists>pat \<in> set (uo_spec o'). fnmatch (av_id a) pat then True
      else if uo_severity o' \<noteq> [] \<and> (case av_severity a of None \<Rightarrow> False | Some s \<Rightarrow> s \<in> set (uo_severity o')) then True
      else if \<exists>b \<in> set (uo_bugzilla o'). ue_match_bug e a b then True
      else if \<exists>c \<in> set (uo_cves o'). ue_match_cve e a c then True
      else if uo_with_cve o' \<and> (\<exists>r \<in> set (av_refs a). ar_type r = RefCve) then True
      else if uo_with_bz o' \<and> (\<exists>r \<in> set (av_refs a). ar_type r = RefBugzilla) then True
      else False)"

definition apackage_advisory_installed :: "upd_env \<Rightarrow> upd_opts \<Rightarrow> sys_pkg list \<Rightarrow> cmp_type set \<Rightarrow> adv_triple list" where
  "apackage_advisory_installed e o' pkgs cmp =
     map (\<lambda>(ap, a). (ap, a, newer_equal_installed e ap))
       (filter (\<lambda>(ap, a). advisory_matcher e o' a \<or> (\<exists>pat \<in> set (uo_spec o'). fnmatch (ap_name ap) pat))
         (ue_advisory_pkgs e pkgs cmp))"

definition running_kernel_pkg :: "upd_env \<Rightarrow> sys_pkg \<Rightarrow> bool" where
  "running_kernel_pkg e p \<longleftrightarrow> (case ue_kernel e of None \<Rightarrow> False | Some k \<Rightarrow> sp_sourcerpm p = sp_sourcerpm k)"

definition available_apkg_adv_insts :: "upd_env \<Rightarrow> upd_opts \<Rightarrow> adv_triple list" where
  "available_apkg_adv_insts e o' =
     apackage_advisory_installed e o' (filter (\<lambda>p. sp_installed p \<and> (sp_latest p \<or> running_kernel_pkg e p)) (ue_sack e)) {CmpGt}"

definition installed_apkg_adv_insts :: "upd_env \<Rightarrow> upd_opts \<Rightarrow> adv_triple list" where
  "installed_apkg_adv_insts e o' = apackage_advisory_installed e o' (filter sp_installed (ue_sack e)) {CmpLt, CmpEq}"

definition updating_apkg_adv_insts :: "upd_env \<Rightarrow> upd_opts \<Rightarrow> adv_triple list" where
  "updating_apkg_adv_insts e o' = apackage_advisory_installed e o' (filter sp_upgradable (ue_sack e)) {CmpGt}"

definition all_apkg_adv_insts :: "upd_env \<Rightarrow> upd_opts \<Rightarrow> adv_triple list" where
  "all_apkg_adv_insts e o' = apackage_advisory_installed e o' (filter sp_installed (ue_sack e)) {CmpLt, CmpEq, CmpGt}"

subsection \<open>The summary\<close>

datatype sum_key = KeyId string | KeySeverity string "string option"

datatype sum_value = OfType adv_type | OfSeverity adv_type "string option"

definition summary_step :: "adv_triple \<Rightarrow> (sum_key, sum_value) dict \<Rightarrow> (sum_key, sum_value) dict" where
  "summary_step t d =
     (case t of (_, a, _) \<Rightarrow>
        let d = dict_set (KeyId (av_id a)) (OfType (av_type a)) d
        in if av_type a = AdvSecurity then dict_set (KeySeverity (av_id a) (av_severity a)) (OfSeverity (av_type a) (av_severity a)) d else d)"

definition summary_types :: "adv_triple list \<Rightarrow> (sum_key, sum_value) dict" where
  "summary_types ts = fold summary_step ts []"

definition summary_count :: "adv_triple list \<Rightarrow> sum_value \<Rightarrow> nat" where
  "summary_count ts v = length (filter (\<lambda>(_, w). w = v) (summary_types ts))"

definition summary_labels :: "(nat \<times> string \<times> sum_value) list" where
  "summary_labels =
     [(0, ''New Package notice(s)'', OfType AdvNewpackage),
      (0, ''Security notice(s)'', OfType AdvSecurity),
      (1, ''Critical Security notice(s)'', OfSeverity AdvSecurity (Some ''Critical'')),
      (1, ''Important Security notice(s)'', OfSeverity AdvSecurity (Some ''Important'')),
      (1, ''Moderate Security notice(s)'', OfSeverity AdvSecurity (Some ''Moderate'')),
      (1, ''Low Security notice(s)'', OfSeverity AdvSecurity (Some ''Low'')),
      (1, ''Unknown Security notice(s)'', OfSeverity AdvSecurity None),
      (0, ''Bugfix notice(s)'', OfType AdvBugfix),
      (0, ''Enhancement notice(s)'', OfType AdvEnhancement),
      (0, ''other notice(s)'', OfType AdvUnknown)]"

definition pad_left :: "nat \<Rightarrow> string \<Rightarrow> string" where
  "pad_left w s = spaces (w - length s) @ s"

definition pad_right :: "nat \<Rightarrow> string \<Rightarrow> string" where
  "pad_right w s = s @ spaces (w - length s)"

text \<open>\<open>max\<close> of an empty sequence is an error.\<close>

definition maxlen :: "(char \<Rightarrow> bool) \<Rightarrow> string list \<Rightarrow> nat res" where
  "maxlen wide xs = (if xs = [] then Inl (ValueError ''max'') else Inr (Max (set (map (exact_width wide) xs))))"

text \<open>The lines that are printed; the check of the running kernel that follows is not modelled.\<close>

definition display_summary :: "(char \<Rightarrow> bool) \<Rightarrow> adv_triple list \<Rightarrow> string \<Rightarrow> string list res" where
  "display_summary wide ts description =
     (if summary_types ts = [] then Inr []
      else let counts = filter (\<lambda>(_, _, n). n \<noteq> 0) (map (\<lambda>(i, l, v). (i, l, summary_count ts v)) summary_labels) in
        bind_r (maxlen wide (map (\<lambda>(_, _, n). nat_str n) counts)) (\<lambda>width.
          Inr ((''Updates Information Summary: '' @ description) #
            map (\<lambda>(i, l, n). ''    '' @ pad_left (width + 4 * i) (nat_str n) @ '' '' @ l) counts)))"

subsection \<open>The list\<close>

definition inst2mark :: "upd_opts \<Rightarrow> bool \<Rightarrow> string" where
  "inst2mark o' inst = (if uo_availability o' \<noteq> ''all'' then [] else if inst then ''i '' else ''  '')"

definition adv_nevra :: "adv_pkg \<Rightarrow> string" where
  "adv_nevra p = ap_name p @ ''-'' @ ap_evr p @ ''.'' @ ap_arch p"

type_synonym list_key = "string \<times> bool \<times> int"
type_synonym list_dict = "(list_key, (string, adv_type \<times> string option) dict) dict"

text \<open>\<open>d.setdefault(k, dict())[i] = v\<close>.\<close>

definition list_put :: "list_key \<Rightarrow> string \<Rightarrow> adv_type \<times> string option \<Rightarrow> list_dict \<Rightarrow> list_dict" where
  "list_put k i v d = dict_set k (dict_set i v (case map_of d k of None \<Rightarrow> [] | Some m \<Rightarrow> m)) d"

text \<open>The ids that an advisory is listed under.\<close>

definition listed_ids :: "upd_opts \<Rightarrow> advisory \<Rightarrow> string list" where
  "listed_ids o' a =
     (if uo_with_cve o' \<or> uo_with_bz o'
      then map ar_id (filter (\<lambda>r. if ar_type r = RefBugzilla \<and> \<not> uo_with_bz o' then False
             else if ar_type r = RefCve \<and> \<not> uo_with_cve o' then False else True) (av_refs a))
      else [av_id a])"

definition list_step :: "upd_opts \<Rightarrow> adv_triple \<Rightarrow> list_dict \<Rightarrow> list_dict" where
  "list_step o' t d =
     (case t of (ap, a, inst) \<Rightarrow>
        fold (\<lambda>i. list_put (adv_nevra ap, inst, av_updated a) i (av_type a, av_severity a)) (listed_ids o' a) d)"

definition list_entries :: "upd_opts \<Rightarrow> adv_triple list \<Rightarrow> list_dict" where
  "list_entries o' ts = fold (list_step o') ts []"

text \<open>The rows: mark, id, label, package and date.\<close>

definition list_rows :: "upd_opts \<Rightarrow> adv_triple list \<Rightarrow> (string \<times> string \<times> string \<times> string \<times> int) list" where
  "list_rows o' ts =
     concat (map (\<lambda>((nevra, inst, upd), ids). map (\<lambda>(i, t, sev). (inst2mark o' inst, i, type2label t sev, nevra, upd)) ids)
       (sort_key fst (list_entries o' ts)))"

definition widest_of :: "string list \<Rightarrow> nat" where
  "widest_of xs = foldr (\<lambda>x. max (length x)) xs 0"

definition display_list :: "(int \<Rightarrow> string) \<Rightarrow> bool \<Rightarrow> upd_opts \<Rightarrow> adv_triple list \<Rightarrow> string list" where
  "display_list date verbose o' ts =
     (let rows = list_rows o' ts;
          idw = widest_of (map (\<lambda>(_, i, _). i) rows);
          tlw = widest_of (map (\<lambda>(_, _, l, _). l) rows);
          nw = widest_of (map fst (map fst (list_entries o' ts)))
      in map (\<lambda>(m, i, l, n, u). m @ pad_right idw i @ '' '' @ pad_right tlw l @ '' '' @
           (if verbose then pad_right nw n @ '' '' @ date u else n)) rows)"

subsection \<open>The details\<close>

definition info_labels :: "string list" where
  "info_labels = [''Update ID'', ''Type'', ''Updated'', ''Bugs'', ''CVEs'', ''Description'', ''Severity'', ''Rights'', ''Files'', ''Installed'']"

definition opt_lines :: "string option \<Rightarrow> string list" where
  "opt_lines s = (case s of None \<Rightarrow> [] | Some s \<Rightarrow> splitlines_acc [] s)"

text \<open>The attributes; an attribute without a value is left out, as is a severity that is not known.\<close>

definition info_attributes :: "(int \<Rightarrow> string) \<Rightarrow> string list \<Rightarrow> bool \<Rightarrow> upd_opts \<Rightarrow> advisory \<Rightarrow> bool \<Rightarrow> string list option list" where
  "info_attributes date arches verbose o' a inst =
     [Some [av_id a],
      Some [type_label (av_type a)],
      Some [date (av_updated a)],
      Some (sort (map (\<lambda>r. ar_id r @ '' - '' @ (case ar_title r of None \<Rightarrow> [] | Some t \<Rightarrow> t)) (filter (\<lambda>r. ar_type r = RefBugzilla) (av_refs a)))),
      Some (sort (map ar_id (filter (\<lambda>r. ar_type r = RefCve) (av_refs a)))),
      Some (opt_lines (av_description a)),
      (case av_severity a of None \<Rightarrow> None | Some s \<Rightarrow> Some [s]),
      (if verbose then Some (opt_lines (av_rights a)) else None),
      (if verbose then Some (sort (remdups (map fst (filter (\<lambda>(_, arch). arch \<in> set arches) (av_packages a))))) else None),
      (if uo_availability o' = ''all'' then Some [if inst then ''true'' else ''false''] else None)]"

definition info_lines :: "(char \<Rightarrow> bool) \<Rightarrow> nat \<Rightarrow> string \<times> string list option \<Rightarrow> string list" where
  "info_lines wide width la =
     (case la of (label, None) \<Rightarrow> []
      | (label, Some xs) \<Rightarrow> map (\<lambda>(i, line). let key = (if i = 0 then label else []) in spaces (width - exact_width wide key) @ key @ '': '' @ line)
          (zip [0..<length xs] xs))"

definition advisory2info :: "(char \<Rightarrow> bool) \<Rightarrow> (int \<Rightarrow> string) \<Rightarrow> string list \<Rightarrow> bool \<Rightarrow> upd_opts \<Rightarrow> advisory \<Rightarrow> bool \<Rightarrow> string res" where
  "advisory2info wide date arches verbose o' a inst =
     bind_r (maxlen wide info_labels) (\<lambda>width.
       Inr (join_str nl ([replicate 79 (CHR ''=''), ''  '' @ av_title a, replicate 79 (CHR ''='')] @
         concat (map (info_lines wide width) (zip info_labels (info_attributes date arches verbose o' a inst))))))"

text \<open>The set of the texts is sorted by a key that is not injective, so what the order of equal keys is, is a parameter.\<close>

definition display_info ::
  "(char \<Rightarrow> bool) \<Rightarrow> (int \<Rightarrow> string) \<Rightarrow> (string \<Rightarrow> string) \<Rightarrow> (string list \<Rightarrow> string list) \<Rightarrow> string list \<Rightarrow> bool \<Rightarrow> upd_opts \<Rightarrow> adv_triple list \<Rightarrow> string res" where
  "display_info wide date lower set_order arches verbose o' ts =
     bind_r (map_r (\<lambda>(_, a, inst). advisory2info wide date arches verbose o' a inst) ts) (\<lambda>infos.
       Inr (join_str (nl @ nl) (sort_key lower (set_order (remdups infos)))))"

subsection \<open>Running\<close>

datatype upd_output = UpdLines "string list" | UpdText string

definition updateinfo_triples :: "upd_env \<Rightarrow> upd_opts \<Rightarrow> adv_triple list \<times> string" where
  "updateinfo_triples e o' =
     (if uo_availability o' = ''installed'' then (installed_apkg_adv_insts e o', ''installed'')
      else if uo_availability o' = ''updates'' then (updating_apkg_adv_insts e o', ''updates'')
      else if uo_availability o' = ''all'' then (all_apkg_adv_insts e o', ''all'')
      else (available_apkg_adv_insts e o', ''available''))"

definition updateinfo_run ::
  "upd_env \<Rightarrow> (char \<Rightarrow> bool) \<Rightarrow> (int \<Rightarrow> string) \<Rightarrow> (string \<Rightarrow> string) \<Rightarrow> (string list \<Rightarrow> string list) \<Rightarrow> string list \<Rightarrow> bool \<Rightarrow> upd_opts \<Rightarrow> upd_output res" where
  "updateinfo_run e wide date lower set_order arches verbose o' =
     (case updateinfo_triples e o' of (ts, description) \<Rightarrow>
        if uo_spec_action o' = ''list'' then Inr (UpdLines (display_list date verbose o' ts))
        else if uo_spec_action o' = ''info''
        then bind_r (display_info wide date lower set_order arches verbose o' ts) (\<lambda>t. Inr (UpdText t))
        else bind_r (display_summary wide ts description) (\<lambda>ls. Inr (UpdLines ls)))"

end
