(* ===== verification/Updateinfo_Properties.thy ===== *)
theory Updateinfo_Properties
  imports Updateinfo
begin

text \<open>
  What updateinfo guarantees: the summary counts every advisory once, the list has a row for every
  package and id, and words on the command line mean what the options mean.
\<close>

subsection \<open>The summary\<close>

definition advisories_of :: "adv_triple list \<Rightarrow> advisory set" where
  "advisories_of ts = (\<lambda>(_, a, _). a) ` set ts"

text \<open>Two advisories with the same id have the same type, as the code assumes.\<close>

definition same_types :: "adv_triple list \<Rightarrow> bool" where
  "same_types ts \<longleftrightarrow> (\<forall>a \<in> advisories_of ts. \<forall>b \<in> advisories_of ts. av_id a = av_id b \<longrightarrow> av_type a = av_type b)"

lemma summary_types_snoc: "summary_types (ts @ [t]) = summary_step t (summary_types ts)"
  by (simp add: summary_types_def)

lemma advisories_snoc: "advisories_of (ts @ [(p, a, i)]) = insert a (advisories_of ts)"
  by (auto simp: advisories_of_def)

lemma summary_wf: "dict_wf (summary_types ts)"
  by (induction ts rule: rev_induct) (auto simp: summary_types_def summary_step_def Let_def split: prod.splits)

lemma summary_severity:
  "map_of (summary_types ts) (KeySeverity i s) = Some v \<longleftrightarrow>
     v = OfSeverity AdvSecurity s \<and> (\<exists>a \<in> advisories_of ts. av_id a = i \<and> av_type a = AdvSecurity \<and> av_severity a = s)"
proof (induction ts rule: rev_induct)
  case Nil
  then show ?case by (simp add: summary_types_def advisories_of_def)
next
  case (snoc t ts)
  obtain p a inst where t: "t = (p, a, inst)" by (cases t)
  show ?case unfolding t summary_types_snoc advisories_snoc
    using snoc.IH by (auto simp: summary_step_def Let_def)
qed

lemma summary_type:
  assumes "same_types ts"
  shows "map_of (summary_types ts) (KeyId i) = Some v \<longleftrightarrow> (\<exists>a \<in> advisories_of ts. av_id a = i \<and> v = OfType (av_type a))"
  using assms
proof (induction ts rule: rev_induct)
  case Nil
  then show ?case by (simp add: summary_types_def advisories_of_def)
next
  case (snoc t ts)
  obtain p a inst where t: "t = (p, a, inst)" by (cases t)
  from snoc.prems have "same_types ts" and same: "\<forall>b \<in> advisories_of ts. av_id b = av_id a \<longrightarrow> av_type b = av_type a"
    unfolding t same_types_def advisories_snoc by (blast+)
  note IH = snoc.IH [OF this(1)]
  have "map_of (summary_types (ts @ [t])) (KeyId i) = (if i = av_id a then Some (OfType (av_type a)) else map_of (summary_types ts) (KeyId i))"
    unfolding t summary_types_snoc by (auto simp: summary_step_def Let_def)
  also have "(\<dots> = Some v) \<longleftrightarrow> (\<exists>b \<in> advisories_of (ts @ [t]). av_id b = i \<and> v = OfType (av_type b))"
  proof (cases "i = av_id a")
    case True
    with same show ?thesis unfolding t advisories_snoc by (auto intro: sym)
  next
    case False
    then show ?thesis unfolding t advisories_snoc by (simp add: IH)
  qed
  finally show ?case .
qed

lemma count_values:
  assumes "dict_wf d"
  shows "length (filter (\<lambda>(_, w). w = v) d) = card {k. map_of d k = Some v}"
proof -
  have "distinct (map fst (filter (\<lambda>(_, w). w = v) d))" using assms by (simp add: dict_wf_def distinct_map_filter)
  then have "length (filter (\<lambda>(_, w). w = v) d) = card (fst ` set (filter (\<lambda>(_, w). w = v) d))"
    by (metis distinct_card length_map list.set_map)
  also have "fst ` set (filter (\<lambda>(_, w). w = v) d) = {k. map_of d k = Some v}"
    using assms by (force simp: dict_wf_def image_iff)
  finally show ?thesis .
qed


definition example_advisory :: "string \<Rightarrow> adv_type \<Rightarrow> string option \<Rightarrow> advisory" where
  "example_advisory i t s = \<lparr>av_id = i, av_type = t, av_severity = s, av_title = i, av_description = None, av_rights = None,
     av_updated = 0, av_refs = [\<lparr>ar_type = RefCve, ar_id = ''CVE-1'', ar_title = None\<rparr>, \<lparr>ar_type = RefVendor, ar_id = ''V-1'', ar_title = None\<rparr>],
     av_packages = []\<rparr>"

definition example_triples :: "adv_triple list" where
  "example_triples =
     [(\<lparr>ap_name = ''tour'', ap_evr = ''2-1'', ap_arch = ''noarch''\<rparr>, example_advisory ''A'' AdvSecurity (Some ''Low''), False),
      (\<lparr>ap_name = ''lib'', ap_evr = ''2-1'', ap_arch = ''noarch''\<rparr>, example_advisory ''A'' AdvSecurity (Some ''Low''), False),
      (\<lparr>ap_name = ''lib'', ap_evr = ''3-1'', ap_arch = ''noarch''\<rparr>, example_advisory ''B'' AdvBugfix None, False)]"


subsection \<open>The list\<close>

definition has_row :: "list_dict \<Rightarrow> list_key \<Rightarrow> string \<Rightarrow> bool" where
  "has_row d k i \<longleftrightarrow> (\<exists>ids. map_of d k = Some ids \<and> map_of ids i \<noteq> None)"

lemma has_row_put: "has_row (list_put k i v d) k' i' \<longleftrightarrow> (k' = k \<and> i' = i) \<or> has_row d k' i'"
  by (auto simp: has_row_def list_put_def split: option.splits if_splits)

lemma has_row_puts: "has_row (fold (\<lambda>i. list_put k i v) is' d) k' i' \<longleftrightarrow> (k' = k \<and> i' \<in> set is') \<or> has_row d k' i'"
  by (induction is' arbitrary: d) (auto simp: has_row_put)

definition row_key :: "adv_triple \<Rightarrow> list_key" where
  "row_key t = (case t of (ap, a, inst) \<Rightarrow> (adv_nevra ap, inst, av_updated a))"

lemma has_row_entries:
  "has_row (fold (list_step o') ts d) k i \<longleftrightarrow> (\<exists>(ap, a, inst) \<in> set ts. k = row_key (ap, a, inst) \<and> i \<in> set (listed_ids o' a)) \<or> has_row d k i"
  by (induction ts arbitrary: d) (auto simp: list_step_def has_row_puts row_key_def split: prod.splits)

definition entries_wf :: "list_dict \<Rightarrow> bool" where
  "entries_wf d \<longleftrightarrow> dict_wf d \<and> (\<forall>k ids. map_of d k = Some ids \<longrightarrow> dict_wf ids)"

lemma entries_wf_put: "entries_wf d \<Longrightarrow> entries_wf (list_put k i v d)"
  by (auto simp: entries_wf_def list_put_def split: option.splits)

lemma entries_wf_fold: "entries_wf d \<Longrightarrow> entries_wf (fold (list_step o') ts d)"
proof (induction ts arbitrary: d)
  case (Cons t ts)
  have "entries_wf (fold (\<lambda>i. list_put k i v) is' d)" if "entries_wf d" for k v is' d
    using that by (induction is' arbitrary: d) (simp_all add: entries_wf_put)
  with Cons show ?case by (simp add: list_step_def split: prod.splits)
qed simp

lemma list_entries_wf: "entries_wf (list_entries o' ts)"
  unfolding list_entries_def by (rule entries_wf_fold) (simp add: entries_wf_def)

text \<open>A row without its mark and label.\<close>

definition row_of :: "string \<times> string \<times> string \<times> string \<times> int \<Rightarrow> string \<times> string \<times> string \<times> int" where
  "row_of r = (case r of (m, i, l, n, u) \<Rightarrow> (m, i, n, u))"

lemma list_rows_set:
  "row_of ` set (list_rows o' ts) = {(inst2mark o' inst, i, n, u) | inst i n u. has_row (list_entries o' ts) (n, inst, u) i}"
proof -
  have wf: "dict_wf (list_entries o' ts)" "\<And>k ids. (k, ids) \<in> set (list_entries o' ts) \<Longrightarrow> dict_wf ids"
    using list_entries_wf [of o' ts] by (auto simp: entries_wf_def dict_wf_def)
  have outer: "map_of (list_entries o' ts) k = Some ids \<longleftrightarrow> (k, ids) \<in> set (list_entries o' ts)" for k ids
    using wf(1) by (simp add: dict_wf_def)
  have "map_of ids i \<noteq> None \<longleftrightarrow> (\<exists>v. (i, v) \<in> set ids)" for ids :: "(string, adv_type \<times> string option) dict" and i
    by (force simp: map_of_eq_None_iff)
  then have row: "has_row (list_entries o' ts) k i \<longleftrightarrow> (\<exists>ids v. (k, ids) \<in> set (list_entries o' ts) \<and> (i, v) \<in> set ids)" for k i
    unfolding has_row_def outer by blast
  show ?thesis unfolding row by (force simp: list_rows_def row_of_def image_iff)
qed

lemma concat_sorted_by:
  assumes "sorted (map fst xs)" and "\<And>x y. x \<in> set xs \<Longrightarrow> y \<in> set (g x) \<Longrightarrow> key y = fst (fst x)"
  shows "sorted (map key (concat (map g xs)))"
  using assms
proof (induction xs)
  case (Cons x xs)
  have le: "fst (fst x) \<le> fst (fst z)" if "z \<in> set xs" for z
    using Cons.prems(1) that by (cases "fst x"; cases "fst z") (force simp: less_eq_prod_def)
  have "map key (g x) = map (\<lambda>_. fst (fst x)) (g x)" using Cons.prems(2) by auto
  then have "sorted (map key (g x))" by (simp add: map_replicate_const)
  moreover have "sorted (map key (concat (map g xs)))" using Cons by simp
  moreover have "key y \<le> key y'" if "y \<in> set (g x)" "z \<in> set xs" "y' \<in> set (g z)" for y z y'
    using le [OF that(2)] Cons.prems(2) [OF _ that(1)] Cons.prems(2) [OF _ that(3)] that(2) by simp
  ultimately show ?case by (auto simp: sorted_append)
qed simp

lemma list_rows_sorted: "sorted (map (\<lambda>(_, _, _, n, _). n) (list_rows o' ts))"
  unfolding list_rows_def by (rule concat_sorted_by) auto


subsection \<open>Words and options\<close>

text \<open>The option that a word stands for.\<close>

definition word_option :: "string \<Rightarrow> upd_opts \<Rightarrow> upd_opts" where
  "word_option w o' =
     (if w = ''bugfix'' then o'\<lparr>uo_bugfix := True\<rparr>
      else if w = ''enhancement'' then o'\<lparr>uo_enhancement := True\<rparr>
      else if w \<in> {''security'', ''sec''} then o'\<lparr>uo_security := True\<rparr>
      else if w = ''newpackage'' then o'\<lparr>uo_newpackage := True\<rparr>
      else if w \<in> {''bugzillas'', ''bzs''} then o'\<lparr>uo_with_bz := True\<rparr>
      else if w = ''cves'' then o'\<lparr>uo_with_cve := True\<rparr>
      else o')"

definition type_words :: "string list" where
  "type_words = [''bugfix'', ''enhancement'', ''security'', ''sec'', ''newpackage'', ''bugzillas'', ''bzs'', ''cves'']"

text \<open>What the rest of the command reads of the options.\<close>

definition selection :: "upd_opts \<Rightarrow> string \<times> string \<times> adv_type set \<times> string list \<times> bool \<times> bool" where
  "selection o' = (uo_spec_action o', uo_availability o', uo_types o', uo_spec o', uo_with_cve o', uo_with_bz o')"

text \<open>
  C30. Words mean what the options mean.  An availability and a type given as the first words of the
  command line select the same advisories as the options of the same name, before specs of which the first is no such word.
\<close>

theorem words_are_options:
  assumes "a \<in> set availabilities" and "w \<in> set type_words" and "\<forall>s \<in> set (take 1 specs). s \<notin> set type_words"
    and "uo_availability_opt o' = None"
  shows "selection (configure_updateinfo (o'\<lparr>uo_spec := a # w # specs\<rparr>)) =
    selection (configure_updateinfo (word_option w (o'\<lparr>uo_availability_opt := Some a, uo_spec := specs\<rparr>)))"
proof -
  let ?p = "o'\<lparr>uo_spec := a # w # specs\<rparr>" and ?q = "o'\<lparr>uo_availability_opt := Some a, uo_spec := specs\<rparr>"
  define finish where "finish x = x\<lparr>uo_spec := uo_spec x @ uo_advisory x\<rparr>" for x :: upd_opts
  define act where "act = uo_spec_action (configure_action o')"
  have p: "configure_action ?p = ?p\<lparr>uo_spec_action := act\<rparr>"
    by (simp add: configure_action_def act_def split: option.splits)
  have q: "configure_action (word_option w ?q) = (word_option w ?q)\<lparr>uo_spec_action := act\<rparr>"
    by (simp add: configure_action_def word_option_def act_def split: option.splits)
  have "configure_availability (?p\<lparr>uo_spec_action := act\<rparr>) = ?p\<lparr>uo_spec_action := act, uo_availability := a, uo_spec := w # specs\<rparr>"
    using assms(1,4) by (simp add: configure_availability_def)
  moreover have "configure_availability ((word_option w ?q)\<lparr>uo_spec_action := act\<rparr>) = (word_option w ?q)\<lparr>uo_spec_action := act, uo_availability := a\<rparr>"
    by (simp add: configure_availability_def word_option_def)
  moreover have "configure_word x = x" if "uo_spec x = specs" for x
    using assms(3) that by (cases specs) (auto simp: configure_word_def type_words_def)
  ultimately have sides: "configure_updateinfo ?p = finish (configure_word (configure_types (?p\<lparr>uo_spec_action := act, uo_availability := a, uo_spec := w # specs\<rparr>)))"
    "configure_updateinfo (word_option w ?q) = finish (configure_types ((word_option w ?q)\<lparr>uo_spec_action := act, uo_availability := a\<rparr>))"
    unfolding configure_updateinfo_def p q finish_def by (simp_all add: Let_def configure_types_def word_option_def)
  from assms(2) have "w = ''bugfix'' \<or> w = ''enhancement'' \<or> w = ''security'' \<or> w = ''sec'' \<or> w = ''newpackage'' \<or> w = ''bugzillas'' \<or>
    w = ''bzs'' \<or> w = ''cves''" by (simp add: type_words_def)
  then show ?thesis unfolding sides
    by (elim disjE) (simp_all add: finish_def word_option_def configure_types_def configure_word_def add_type_def selection_def Un_ac insert_commute)
qed

definition example_options :: upd_opts where
  "example_options = \<lparr>uo_command = ''updateinfo'', uo_action_opt = None, uo_spec_action = ''summary'', uo_availability_opt = None,
     uo_availability = [], uo_bugfix = False, uo_enhancement = False, uo_newpackage = False, uo_security = False, uo_advisory = [],
     uo_spec = [''all'', ''security'', ''tour*''], uo_severity = [], uo_bugzilla = [], uo_cves = [], uo_with_cve = False, uo_with_bz = False,
     uo_types = {}\<rparr>"

lemma words_are_options_witness:
  "selection (configure_updateinfo example_options) = (''summary'', ''all'', {AdvSecurity}, [''tour*''], False, False) \<and>
   selection (configure_updateinfo (word_option ''security'' (example_options\<lparr>uo_availability_opt := Some ''all'', uo_spec := [''tour*'']\<rparr>))) =
     (''summary'', ''all'', {AdvSecurity}, [''tour*''], False, False)"
proof -
  have "example_options\<lparr>uo_spec := ''all'' # ''security'' # [''tour*'']\<rparr> = example_options" by (simp add: example_options_def)
  moreover have "selection (configure_updateinfo example_options) = (''summary'', ''all'', {AdvSecurity}, [''tour*''], False, False)"
    by code_simp
  moreover have "selection (configure_updateinfo (example_options\<lparr>uo_spec := ''all'' # ''security'' # [''tour*'']\<rparr>)) =
    selection (configure_updateinfo (word_option ''security'' (example_options\<lparr>uo_availability_opt := Some ''all'', uo_spec := [''tour*'']\<rparr>)))"
    by (rule words_are_options) (simp_all add: availabilities_def type_words_def example_options_def)
  ultimately show ?thesis by simp
qed

end
