(* ===== verification/Spec2Isabelle.thy ===== *)
theory Spec2Isabelle
  imports Alias_Command Comps_Solver Download_Properties Goal_Transaction History_Command_Properties I18n Lock_Interleaving Match_Counter
    Marking_Properties Modules_Properties Progress_Properties Replay_Properties Repo_Dict Rpm_Callbacks_Properties
    Transaction_Run_Properties Updateinfo_Properties
begin

text \<open>
  dnf is the package manager of RPM-based distributions.  It reads its configuration and aliases,
  loads repositories and comps metadata (groups of packages), asks libdnf's solver for a
  transaction, records it in a history database and has RPM run it.  This development models the
  parts of the program whose logic is dnf's own, in src/dnf, and proves what makes them correct.

  Common ground.  \<open>Prelude\<close> has Python's exceptions as the datatype \<open>exn\<close>, results as
  \<open>exn + 'a\<close>, state passing as \<open>prog\<close> with its Hoare rules (\<open>pres\<close>, \<open>triple\<close>), insertion-ordered
  dictionaries as association lists, and the methods of strings.  \<open>Numerals\<close> has \<open>int()\<close> and \<open>str()\<close> of
  integers, \<open>Glob\<close> has fnmatch.  Characters are those of HOL, so texts are taken in Latin-1.

  The components, from the data to the whole:

  \<^item> \<open>Transaction_Items\<close>: transaction.py and the item wrapper of db/history.py.
  \<^item> \<open>Util\<close>, \<open>Util_Trans\<close>, \<open>Rpm_Sync\<close>, \<open>Bootc\<close>: util.py.  Sequences and paths; specs and the summary of a
    transaction; the reconciliation of RPM's elements with the history; bootc systems.
  \<^item> \<open>Aliases\<close>, \<open>Alias_Command\<close>: cli/aliases.py and cli/commands/alias.py.  Resolution may diverge
    on its face, so it is a partial function, and that it returns is a theorem.
  \<^item> \<open>Lock\<close>, \<open>Lock_Interleaving\<close>: lock.py.  One lock object with its counter, and any number of
    processes as a step relation over system calls.
  \<^item> \<open>Match_Counter\<close>, \<open>Repo_Dict\<close>: match_counter.py, repodict.py.
  \<^item> \<open>I18n\<close>, \<open>Format\<close>: the layout of text in i18n.py, cli/format.py.
  \<^item> \<open>Persistor\<close>, \<open>Rpm_Transaction\<close>: db/group.py.  The database's group and environment objects are
    at addresses of a store, since the program changes them after it has registered them.
  \<^item> \<open>History\<close>: db/history.py, with the calls of the database as a log.
  \<^item> \<open>Comps\<close>, \<open>Comps_Solver\<close>: comps.py, on the persistors.
  \<^item> \<open>Transaction_Replay\<close>, \<open>Replay_Properties\<close>: transaction_sr.py, on comps and the history.

  \<^item> \<open>Signatures\<close>, \<open>Signature_Properties\<close>: rpm/miscutils.py, the key functions of yum/misc.py, and of
    base.py and cli/cli.py the decision which packages are checked, the import of keys and the gate
    before a transaction.
  \<^item> \<open>Goal_Transaction\<close>: \<open>Base._goal2transaction\<close>, from the solved goal to the items of the history.
  \<^item> \<open>Transaction_Run\<close>, \<open>Transaction_Run_Properties\<close>: \<open>do_transaction\<close> of base.py and of cli/cli.py,
    with the steps before it (the bootc guard, the confirmation, the download, the signatures); what is
    done to the world is a log of events, and the order of the events is the main theorem.

  \<^item> \<open>Marking\<close>, \<open>Marking_Groups\<close>, \<open>Marking_Properties\<close>: the methods of \<open>Base\<close> that turn package specs,
    groups and environments into requests to the solver, with the security filters and the report of
    what is missing; comps and its solver are used as modelled.

  \<^item> \<open>Columns\<close>, \<open>Columns_Properties\<close>: of cli/output.py the widths of columns, rows of cells, lists in
    columns and sections of key and value, with the highlighting of cli/term.py; tables fit the terminal.
  \<^item> \<open>Progress\<close>, \<open>Progress_Properties\<close>: the question to the user and the progress of a transaction in
    cli/output.py, the meter of downloads in cli/progress.py.
  \<^item> \<open>Rpm_Callbacks\<close>, \<open>Rpm_Callbacks_Properties\<close>: yum/rpmtrans.py, what RPM calls while it runs a
    transaction, as a state machine with scriptlets writing in between.
  \<^item> \<open>Downloads\<close>, \<open>Download_Run\<close>, \<open>Download_Properties\<close>: package.py (where a package is), drpm.py
    (rebuilding packages from deltas) and the downloads of repo.py and base.py with their retries.
  \<^item> \<open>Module_Streams\<close>, \<open>Modules_Run\<close>, \<open>Modules_Properties\<close>: module/module_base.py.  The specs and streams, and
    the operations on modules as requests to the container of libdnf and to the solver.

  \<^item> \<open>History_Command\<close>, \<open>History_Command_Properties\<close>: cli/commands/history.py.  The arguments as
    transaction ids, undo and rollback as reverted stored transactions that are replayed, and storing.
  \<^item> \<open>Updateinfo\<close>, \<open>Updateinfo_Properties\<close>: cli/commands/updateinfo.py, advisories selected and displayed.

  What is not under src is a parameter: libdnf, hawkey and RPM (records of functions such as
  \<open>swdb\<close>, \<open>hawkey\<close>, \<open>rpm_lib\<close>), the parser of configuration files, the terminal, the file system, the
  order in which Python iterates over a set.  Where a theorem relies on their documented
  behaviour this is a named hypothesis.

  No loop has fuel: each is structural, has a termination proof, or is a partial function with
  a theorem that it returns.

  Not modelled: the listings of cli/output.py, the rest of cli/cli.py and base.py (orchestration
  of libdnf calls), the getters that only delegate to libdnf, the code that only
  calls os, shutil, subprocess or smtplib, and scripts.
\<close>

end
